(* ===== verification/Prelude.thy ===== *)
theory Prelude
  imports Main "HOL-Library.Word"
begin

text \<open>
  Shared vocabulary of the development.

  \<^item> The machine types of the Rust sources (\<open>u8\<close> to \<open>u64\<close> as words, byte vectors and slices as
    lists of bytes, \<open>usize\<close> lengths as \<open>nat\<close>).
  \<^item> The error enumeration \<open>IkeError\<close> of \<open>src/src/error.rs\<close> and the role of \<open>src/src/role.rs\<close>.
  \<^item> The outcome of a Rust function that returns \<open>Result<_, IkeError>\<close>: \<open>Ok\<close>, \<open>Err\<close>, or a
    \<open>Panic\<close> (an index or slice out of range). The \<open>?\<close> operator is \<open>bindR\<close>.
  \<^item> Checked indexing and slicing, big-endian integers, and the generic facts about lists that
    the components share. The collection \<open>res_iff\<close> inverts outcomes.
  \<^item> The interface locales of the byte codecs: \<open>body_codec\<close> (a whole payload body) and
    \<open>item_codec\<close> with its two loops (a self-delimiting item), and \<open>machine\<close> (a state machine
    with an invariant).
\<close>

unbundle bit_operations_syntax

named_theorems res_iff "inversion of outcomes built with bindR"

section \<open>Machine types\<close>

type_synonym u8 = "8 word"
type_synonym u16 = "16 word"
type_synonym u32 = "32 word"
type_synonym u64 = "64 word"
type_synonym bytes = "u8 list"

text \<open>The errors of \<open>error.rs\<close>. Lengths are \<open>usize\<close> values and modelled as \<open>nat\<close>.\<close>

datatype ike_error =
    Truncated nat nat          \<comment> \<open>need, have\<close>
  | BadLength nat nat          \<comment> \<open>declared, available\<close>
  | ShortPayload u16
  | MissingPayload string
  | NoProposalChosen
  | DhGroupMismatch u16 u16    \<comment> \<open>expected, got\<close>
  | BadKeyExchange u16 nat     \<comment> \<open>group, len\<close>
  | BadIntegrity
  | AuthFailed
  | Crypto string

text \<open>The two roles of \<open>role.rs\<close>.\<close>

datatype role = Initiator | Responder

definition is_initiator :: "role \<Rightarrow> bool" where
  "is_initiator r = (r = Initiator)"

definition is_responder :: "role \<Rightarrow> bool" where
  "is_responder r = (r = Responder)"

fun peer :: "role \<Rightarrow> role" where
  "peer Initiator = Responder"
| "peer Responder = Initiator"

definition header_initiator_flag :: "role \<Rightarrow> bool" where
  "header_initiator_flag r = is_initiator r"

section \<open>Outcomes\<close>

datatype 'a res = Ok 'a | Err ike_error | Panic

primrec bindR :: "'a res \<Rightarrow> ('a \<Rightarrow> 'b res) \<Rightarrow> 'b res" where
  "bindR (Ok x) f = f x"
| "bindR (Err e) f = Err e"
| "bindR Panic f = Panic"

definition ok_or :: "'a option \<Rightarrow> ike_error \<Rightarrow> 'a res" where
  "ok_or m e = (case m of None \<Rightarrow> Err e | Some x \<Rightarrow> Ok x)"

lemma ok_or_simps [simp]: "ok_or (Some x) e = Ok x" "ok_or None e = Err e"
  by (simp_all add: ok_or_def)

lemma bindR_cong [fundef_cong]:
  "m = m' \<Longrightarrow> (\<And>x. m' = Ok x \<Longrightarrow> f x = g x) \<Longrightarrow> bindR m f = bindR m' g"
  by (cases m') auto

lemma bindR_Ok_iff [res_iff]: "bindR m f = Ok y \<longleftrightarrow> (\<exists>x. m = Ok x \<and> f x = Ok y)"
  by (cases m) auto

lemma bindR_Err_iff [res_iff]:
  "bindR m f = Err e \<longleftrightarrow> m = Err e \<or> (\<exists>x. m = Ok x \<and> f x = Err e)"
  by (cases m) auto

lemma bindR_Panic_iff [res_iff]:
  "bindR m f = Panic \<longleftrightarrow> m = Panic \<or> (\<exists>x. m = Ok x \<and> f x = Panic)"
  by (cases m) auto

lemma ok_or_iff [res_iff]:
  "ok_or m e = Ok x \<longleftrightarrow> m = Some x"
  "ok_or m e = Err e' \<longleftrightarrow> m = None \<and> e' = e"
  "ok_or m e \<noteq> Panic"
  by (auto simp: ok_or_def split: option.splits)

lemma bindR_assoc: "bindR (bindR m f) g = bindR m (\<lambda>x. bindR (f x) g)"
  by (cases m) auto

lemma bindR_not_Panic:
  "m \<noteq> Panic \<Longrightarrow> (\<And>x. m = Ok x \<Longrightarrow> f x \<noteq> Panic) \<Longrightarrow> bindR m f \<noteq> Panic"
  by (auto simp: bindR_Panic_iff)

text \<open>\<open>iter.map(f).collect::<Result<Vec<_>, _>>()\<close>: the first error ends it.\<close>

primrec mapR :: "('a \<Rightarrow> 'b res) \<Rightarrow> 'a list \<Rightarrow> 'b list res" where
  "mapR f [] = Ok []"
| "mapR f (x # xs) = bindR (f x) (\<lambda>y. bindR (mapR f xs) (\<lambda>ys. Ok (y # ys)))"

lemma mapR_Ok: "(\<And>x. x \<in> set xs \<Longrightarrow> f x = Ok (g x)) \<Longrightarrow> mapR f xs = Ok (map g xs)"
  by (induction xs) simp_all

lemma mapR_not_Panic: "(\<And>x. f x \<noteq> Panic) \<Longrightarrow> mapR f xs \<noteq> Panic"
  by (induction xs) (auto simp: res_iff)

section \<open>Checked indexing and slicing\<close>

text \<open>\<open>buf[i]\<close>, \<open>buf[a..b]\<close>, \<open>buf[a..]\<close> and \<open>buf[..b]\<close>: out of range panics.\<close>

definition idx :: "'a list \<Rightarrow> nat \<Rightarrow> 'a res" where
  "idx xs i = (if i < length xs then Ok (xs ! i) else Panic)"

definition slice :: "'a list \<Rightarrow> nat \<Rightarrow> nat \<Rightarrow> 'a list res" where
  "slice xs a b = (if a \<le> b \<and> b \<le> length xs then Ok (take (b - a) (drop a xs)) else Panic)"

definition slice_from :: "'a list \<Rightarrow> nat \<Rightarrow> 'a list res" where
  "slice_from xs a = (if a \<le> length xs then Ok (drop a xs) else Panic)"

definition slice_to :: "'a list \<Rightarrow> nat \<Rightarrow> 'a list res" where
  "slice_to xs b = (if b \<le> length xs then Ok (take b xs) else Panic)"

lemmas slice_defs = idx_def slice_def slice_from_def slice_to_def

lemma slice_ok [simp]:
  "i < length xs \<Longrightarrow> idx xs i = Ok (xs ! i)"
  "a \<le> b \<Longrightarrow> b \<le> length xs \<Longrightarrow> slice xs a b = Ok (take (b - a) (drop a xs))"
  "a \<le> length xs \<Longrightarrow> slice_from xs a = Ok (drop a xs)"
  "b \<le> length xs \<Longrightarrow> slice_to xs b = Ok (take b xs)"
  by (simp_all add: slice_defs)

lemma slice_iff [res_iff]:
  "idx xs i = Ok x \<longleftrightarrow> i < length xs \<and> x = xs ! i"
  "slice xs a b = Ok ys \<longleftrightarrow> a \<le> b \<and> b \<le> length xs \<and> ys = take (b - a) (drop a xs)"
  "slice_from xs a = Ok ys \<longleftrightarrow> a \<le> length xs \<and> ys = drop a xs"
  "slice_to xs b = Ok ys \<longleftrightarrow> b \<le> length xs \<and> ys = take b xs"
  "idx xs i = Panic \<longleftrightarrow> length xs \<le> i"
  "slice xs a b = Panic \<longleftrightarrow> \<not> (a \<le> b \<and> b \<le> length xs)"
  "slice_from xs a = Panic \<longleftrightarrow> length xs < a"
  "slice_to xs b = Panic \<longleftrightarrow> length xs < b"
  "idx xs i \<noteq> Err e" "slice xs a b \<noteq> Err e" "slice_from xs a \<noteq> Err e" "slice_to xs b \<noteq> Err e"
  by (auto simp: slice_defs)

lemma slice_take: "e \<le> length xs \<Longrightarrow> slice_from (take e xs) a = slice xs a e"
  by (auto simp: slice_defs take_drop)

lemma drop_add_Cons [simp]:
  "drop (4 + n) (a # b # c # d # xs) = drop n xs"
  "drop (8 + n) (a # b # c # d # e # f # g # h # xs) = drop n xs"
  by (simp_all add: numeral_eq_Suc)

section \<open>Big-endian integers\<close>

lemma bit_u8_ge [simp]: "\<not> bit (b :: u8) (8 + n)" "\<not> bit (b :: u8) (n + 8)"
  using bit_imp_le_length[of b "8 + n"] by (auto simp: add.commute)

definition to_be16 :: "u16 \<Rightarrow> bytes" where
  "to_be16 v = [ucast (drop_bit 8 v), ucast v]"

definition from_be16 :: "u8 \<Rightarrow> u8 \<Rightarrow> u16" where
  "from_be16 a b = push_bit 8 (ucast a) OR ucast b"

lemma from_be16_to_be16 [simp]: "from_be16 (ucast (drop_bit 8 v)) (ucast v) = v"
  by (rule bit_eqI) (auto simp: from_be16_def bit_simps)

lemma from_be16_inverse [simp]:
  "ucast (drop_bit 8 (from_be16 a b)) = a" "ucast (from_be16 a b) = b"
  by (rule bit_eqI, auto simp: from_be16_def bit_simps)+

lemma to_be16_from_be16 [simp]: "to_be16 (from_be16 a b) = [a, b]"
  by (simp add: to_be16_def)

primrec be_encode :: "nat \<Rightarrow> 'a::len word \<Rightarrow> bytes" where
  "be_encode 0 v = []"
| "be_encode (Suc n) v = be_encode n (drop_bit 8 v) @ [ucast v]"

definition be_decode :: "bytes \<Rightarrow> 'a::len word" where
  "be_decode bs = foldl (\<lambda>acc b. push_bit 8 acc OR ucast b) 0 bs"

lemma length_be_encode [simp]: "length (be_encode n v) = n"
  by (induction n arbitrary: v) auto

lemma be_decode_snoc [simp]: "be_decode (bs @ [b]) = push_bit 8 (be_decode bs) OR ucast b"
  by (simp add: be_decode_def)

lemma be_decode_be_encode_take: "be_decode (be_encode n v) = take_bit (8 * n) v"
proof (induction n arbitrary: v)
  case 0
  then show ?case by (simp add: be_decode_def)
next
  case (Suc n)
  have "push_bit 8 (take_bit (8 * n) (drop_bit 8 v)) OR ucast (ucast v :: u8) = take_bit (8 * Suc n) v"
    by (rule bit_eqI) (auto simp: bit_simps)
  with Suc show ?case by simp
qed

lemma be_decode_bits:
  "bit (be_decode bs :: 'a::len word) n \<longleftrightarrow>
     n < LENGTH('a) \<and> n < 8 * length bs \<and> bit (bs ! (length bs - 1 - n div 8)) (n mod 8)"
proof (induction bs arbitrary: n rule: rev_induct)
  case Nil
  then show ?case by (simp add: be_decode_def)
next
  case (snoc b bs)
  show ?case
  proof (cases "n < 8")
    case True
    then show ?thesis by (auto simp: bit_simps nth_append)
  next
    case False
    then obtain m where m: "n = m + 8" by (metis add.commute le_Suc_ex not_less)
    have "(m + 8) div 8 = Suc (m div 8)" "(m + 8) mod 8 = m mod 8" by simp_all
    then show ?thesis
      using snoc.IH[of m] False by (auto simp: m bit_simps nth_append)
  qed
qed

lemma be_encode_be_decode:
  assumes "8 * length bs \<le> LENGTH('a)"
  shows "be_encode (length bs) (be_decode bs :: 'a::len word) = bs"
  using assms
proof (induction bs rule: rev_induct)
  case Nil
  then show ?case by simp
next
  case (snoc b bs)
  have "drop_bit 8 (push_bit 8 (be_decode bs :: 'a word) OR ucast b) = be_decode bs"
    by (rule bit_eqI) (use snoc.prems in \<open>auto simp: bit_simps be_decode_bits\<close>)
  moreover have "ucast (push_bit 8 (be_decode bs :: 'a word) OR ucast b) = b"
    by (rule bit_eqI) (use snoc.prems in \<open>auto simp: bit_simps\<close>)
  ultimately show ?case using snoc by simp
qed

definition to_be32 :: "u32 \<Rightarrow> bytes" where "to_be32 v = be_encode 4 v"
definition from_be32 :: "bytes \<Rightarrow> u32" where "from_be32 bs = be_decode bs"
definition to_be64 :: "u64 \<Rightarrow> bytes" where "to_be64 v = be_encode 8 v"
definition from_be64 :: "bytes \<Rightarrow> u64" where "from_be64 bs = be_decode bs"

lemma length_to_be [simp]:
  "length (to_be16 a) = 2" "length (to_be32 b) = 4" "length (to_be64 c) = 8"
  by (simp_all add: to_be16_def to_be32_def to_be64_def)

lemma from_to_be [simp]: "from_be32 (to_be32 b) = b" "from_be64 (to_be64 c) = c"
  by (simp_all add: to_be32_def from_be32_def to_be64_def from_be64_def be_decode_be_encode_take
      take_bit_word_eq_self)

lemma to_from_be:
  "length bs = 4 \<Longrightarrow> to_be32 (from_be32 bs) = bs"
  "length bs = 8 \<Longrightarrow> to_be64 (from_be64 bs) = bs"
  using be_encode_be_decode[of bs, where 'a = 32] be_encode_be_decode[of bs, where 'a = 64]
  by (simp_all add: to_be32_def from_be32_def to_be64_def from_be64_def)

lemmas be_defs = to_be16_def from_be16_def to_be32_def from_be32_def to_be64_def from_be64_def

text \<open>\<open>u16be(buf, off)\<close> of \<open>payload.rs\<close>: two checked reads.\<close>

definition u16be :: "bytes \<Rightarrow> nat \<Rightarrow> u16 res" where
  "u16be buf off = bindR (idx buf off) (\<lambda>a. bindR (idx buf (off + 1)) (\<lambda>b. Ok (from_be16 a b)))"

lemma u16be_ok [simp]:
  "off + 1 < length buf \<Longrightarrow> u16be buf off = Ok (from_be16 (buf ! off) (buf ! (off + 1)))"
  by (simp add: u16be_def)

lemma u16be_iff [res_iff]:
  "u16be buf off = Ok v \<longleftrightarrow> off + 1 < length buf \<and> v = from_be16 (buf ! off) (buf ! (off + 1))"
  "u16be buf off = Panic \<longleftrightarrow> length buf \<le> off + 1"
  "u16be buf off \<noteq> Err e"
  by (auto simp: u16be_def res_iff)

lemma unat_of_nat16 [simp]: "n < 65536 \<Longrightarrow> unat (of_nat n :: u16) = n"
  by (simp add: unat_of_nat take_bit_nat_eq_self)

lemma unat_of_nat8 [simp]: "n < 256 \<Longrightarrow> unat (of_nat n :: u8) = n"
  by (simp add: unat_of_nat take_bit_nat_eq_self)

section \<open>Interfaces of the byte codecs\<close>

text \<open>
  A payload body: \<open>enc\<close> writes it, \<open>dec\<close> reads a whole byte string back, \<open>wf\<close> says which
  values fit their wire fields. The decoder runs on untrusted input and never panics.
\<close>

locale body_codec =
  fixes enc :: "'a \<Rightarrow> bytes" and dec :: "bytes \<Rightarrow> 'a res" and wf :: "'a \<Rightarrow> bool"
  assumes dec_enc: "wf x \<Longrightarrow> dec (enc x) = Ok x"
    and dec_total: "dec bs \<noteq> Panic"
begin

lemma enc_inj: "wf x \<Longrightarrow> wf y \<Longrightarrow> enc x = enc y \<Longrightarrow> x = y"
  by (metis dec_enc res.inject(1))

end

text \<open>
  A self-delimiting item: the parser returns the item and the number of bytes it consumed.
  The writer takes the \<open>is_last\<close> flag that the SA substructures carry; \<open>write_all\<close> is the
  loop that writes a list of items, flagging the last one.
\<close>

fun write_all :: "(bool \<Rightarrow> 'a \<Rightarrow> bytes) \<Rightarrow> 'a list \<Rightarrow> bytes" where
  "write_all w [] = []"
| "write_all w (x # xs) = w (xs = []) x @ write_all w xs"

locale item_codec =
  fixes put :: "bool \<Rightarrow> 'a \<Rightarrow> bytes" and parse :: "bytes \<Rightarrow> ('a \<times> nat) res" and wf :: "'a \<Rightarrow> bool"
  assumes parse_put: "wf x \<Longrightarrow> parse (put l x @ rest) = Ok (x, length (put l x))"
    and parse_bounds: "parse bs = Ok (x, n) \<Longrightarrow> 0 < n \<and> n \<le> length bs"
    and parse_total: "parse bs \<noteq> Panic"
begin

lemma put_nonempty: "wf x \<Longrightarrow> 0 < length (put l x)"
  using parse_put[of x l "[]"] parse_bounds by fastforce

end

text \<open>The loop \<open>while off < body.len() { let (x, used) = parse(&body[off..])?; ... }\<close>.\<close>

locale item_loop = item_codec put parse wf
  for put :: "bool \<Rightarrow> 'a \<Rightarrow> bytes" and parse :: "bytes \<Rightarrow> ('a \<times> nat) res" and wf :: "'a \<Rightarrow> bool" +
  fixes loop :: "bytes \<Rightarrow> nat \<Rightarrow> 'a list res"
  assumes loop_eq: "loop body off =
    (if off < length body then
       bindR (slice_from body off) (\<lambda>s. bindR (parse s) (\<lambda>(x, n).
         bindR (loop body (off + n)) (\<lambda>xs. Ok (x # xs))))
     else Ok [])"
begin

lemma loop_write_all:
  "\<forall>x \<in> set xs. wf x \<Longrightarrow> loop (pre @ write_all put xs) (length pre) = Ok xs"
proof (induction xs arbitrary: pre)
  case Nil
  then show ?case by (subst loop_eq) simp
next
  case (Cons x xs)
  let ?w = "put (xs = []) x"
  have "0 < length ?w" using Cons.prems put_nonempty[of x] by auto
  moreover have "parse (?w @ write_all put xs) = Ok (x, length ?w)"
    using Cons.prems by (simp add: parse_put)
  moreover have "loop ((pre @ ?w) @ write_all put xs) (length (pre @ ?w)) = Ok xs"
    using Cons.prems by (intro Cons.IH) simp
  ultimately show ?case by (subst loop_eq) simp
qed

lemma loop_not_Panic: "loop body off \<noteq> Panic"
proof (induction "length body - off" arbitrary: off rule: less_induct)
  case less
  show ?case
  proof (cases "off < length body")
    case True
    have "loop body (off + n) \<noteq> Panic" if "parse (drop off body) = Ok (x, n)" for x n
      using parse_bounds[OF that] True by (intro less) auto
    then show ?thesis
      using parse_total[of "drop off body"] True
      by (subst loop_eq) (auto simp: res_iff split: prod.splits)
  next
    case False
    then show ?thesis by (subst loop_eq) simp
  qed
qed

end

text \<open>The loop \<open>for _ in 0..count { let (x, used) = parse(&buf[off..end])?; ... }\<close>.\<close>

locale count_loop = item_codec put parse wf
  for put :: "bool \<Rightarrow> 'a \<Rightarrow> bytes" and parse :: "bytes \<Rightarrow> ('a \<times> nat) res" and wf :: "'a \<Rightarrow> bool" +
  fixes cloop :: "nat \<Rightarrow> bytes \<Rightarrow> nat \<Rightarrow> nat \<Rightarrow> 'a list res"
  assumes cloop_0: "cloop 0 buf off e = Ok []"
    and cloop_Suc: "e \<le> length buf \<Longrightarrow> cloop (Suc k) buf off e =
      bindR (slice buf off e) (\<lambda>s. bindR (parse s) (\<lambda>(x, n).
        bindR (cloop k buf (off + n) e) (\<lambda>xs. Ok (x # xs))))"
begin

lemma cloop_write_all:
  assumes "\<forall>x \<in> set xs. wf x" and "length pre + length (write_all put xs) \<le> e"
    and "e \<le> length (pre @ write_all put xs @ post)"
  shows "cloop (length xs) (pre @ write_all put xs @ post) (length pre) e = Ok xs"
  using assms
proof (induction xs arbitrary: pre)
  case Nil
  then show ?case by (simp add: cloop_0)
next
  case (Cons x xs)
  let ?w = "put (xs = []) x" and ?buf = "pre @ write_all put (x # xs) @ post"
  define m where "m = e - length pre - length ?w"
  have m: "e = length pre + length ?w + m" using Cons.prems(2) by (simp add: m_def)
  have "slice ?buf (length pre) e = Ok (?w @ take m (write_all put xs @ post))"
    using Cons.prems(3) by (simp add: m)
  moreover have "parse (?w @ take m (write_all put xs @ post)) = Ok (x, length ?w)"
    using Cons.prems(1) by (simp add: parse_put)
  moreover have "cloop (length xs) ((pre @ ?w) @ write_all put xs @ post) (length (pre @ ?w)) e = Ok xs"
    using Cons.prems by (intro Cons.IH) auto
  ultimately show ?case using Cons.prems(3) by (simp add: cloop_Suc)
qed

lemma cloop_not_Panic: "off \<le> e \<Longrightarrow> e \<le> length buf \<Longrightarrow> cloop k buf off e \<noteq> Panic"
proof (induction k arbitrary: off)
  case 0
  then show ?case by (simp add: cloop_0)
next
  case (Suc k)
  let ?s = "take (e - off) (drop off buf)"
  have "cloop k buf (off + n) e \<noteq> Panic" if "parse ?s = Ok (x, n)" for x n
    using parse_bounds[OF that] Suc.prems by (intro Suc.IH) auto
  then show ?case
    using parse_total[of ?s] Suc.prems by (auto simp: cloop_Suc res_iff split: prod.splits)
qed

end

section \<open>Searching\<close>

text \<open>\<open>iter.find_map(f)\<close>.\<close>

fun find_map :: "('a \<Rightarrow> 'b option) \<Rightarrow> 'a list \<Rightarrow> 'b option" where
  "find_map f [] = None"
| "find_map f (x # xs) = (case f x of Some y \<Rightarrow> Some y | None \<Rightarrow> find_map f xs)"

lemma find_map_Some:
  "find_map f xs = Some y \<longleftrightarrow> (\<exists>ys x zs. xs = ys @ x # zs \<and> (\<forall>z \<in> set ys. f z = None) \<and> f x = Some y)"
  (is "_ \<longleftrightarrow> ?R xs")
proof (induction xs)
  case (Cons x xs)
  have "?R (x # xs) \<longleftrightarrow> f x = Some y \<or> f x = None \<and> ?R xs" (is "_ \<longleftrightarrow> ?S")
  proof
    assume "?R (x # xs)"
    then obtain ys v zs where "x # xs = ys @ v # zs" "\<forall>z \<in> set ys. f z = None" "f v = Some y" by blast
    then show ?S by (cases ys) auto
  next
    assume ?S
    then show "?R (x # xs)"
    proof
      assume "f x = Some y"
      then show ?thesis by (intro exI[of _ "[]"]) simp
    next
      assume "f x = None \<and> ?R xs"
      then obtain ys v zs where "xs = ys @ v # zs" "\<forall>z \<in> set ys. f z = None" "f v = Some y" "f x = None"
        by blast
      then show ?thesis by (intro exI[of _ "x # ys"]) simp
    qed
  qed
  then show ?case using Cons by (simp split: option.split)
qed simp

lemma find_map_None: "find_map f xs = None \<longleftrightarrow> (\<forall>x \<in> set xs. f x = None)"
  by (induction xs) (auto split: option.splits)

section \<open>State machines with an invariant\<close>

text \<open>
  A component that handles one event at a time: an invariant that every step keeps holds after
  every sequence of events.
\<close>

locale machine =
  fixes step :: "'s \<Rightarrow> 'e \<Rightarrow> 's" and inv :: "'s \<Rightarrow> bool"
  assumes step_inv: "inv s \<Longrightarrow> inv (step s e)"
begin

lemma run_inv: "inv s \<Longrightarrow> inv (foldl step s es)"
  by (induction es arbitrary: s) (auto intro: step_inv)

end

end
