(* ===== verification/Message.thy ===== *)
theory Message
  imports Prelude
begin

text \<open>
  IKEv2 message framing, \<open>src/src/ikev2/message.rs\<close>: exchange and payload type numbers, the
  header flags, the 28-byte header, the generic payload chain (iterator and encoder) and the
  message builder.

  The lemmas show that the numbers and the header survive a round trip, that walking the chain
  of any byte string ends, never panics and reports at most one error, as its last item, and
  that walking an encoded chain yields the encoded payloads. The length fields are 16 bits: the
  round trip needs bodies of at most 65531 bytes, and longer ones are written with a truncated
  length.
\<close>

unbundle bit_operations_syntax

section \<open>Type numbers and flags\<close>

datatype exchange_type = IkeSaInit | IkeAuth | CreateChildSa | Informational | EX_Other u8

definition exchange_type_from_u8 :: "u8 \<Rightarrow> exchange_type" where
  "exchange_type_from_u8 v =
     (if v = 34 then IkeSaInit else if v = 35 then IkeAuth else if v = 36 then CreateChildSa
      else if v = 37 then Informational else EX_Other v)"

fun exchange_type_to_u8 :: "exchange_type \<Rightarrow> u8" where
  "exchange_type_to_u8 IkeSaInit = 34"
| "exchange_type_to_u8 IkeAuth = 35"
| "exchange_type_to_u8 CreateChildSa = 36"
| "exchange_type_to_u8 Informational = 37"
| "exchange_type_to_u8 (EX_Other v) = v"

datatype payload_type =
    PT_NoNext | PT_SecurityAssociation | PT_KeyExchange | PT_IdInitiator | PT_IdResponder
  | PT_Certificate | PT_CertRequest | PT_Authentication | PT_Nonce | PT_Notify | PT_Delete
  | PT_VendorId | PT_TrafficSelectorInitiator | PT_TrafficSelectorResponder | PT_Encrypted
  | PT_Configuration | PT_Eap | PT_EncryptedFragment | PT_Other u8

definition payload_type_from_u8 :: "u8 \<Rightarrow> payload_type" where
  "payload_type_from_u8 v =
     (if v = 0 then PT_NoNext else if v = 33 then PT_SecurityAssociation
      else if v = 34 then PT_KeyExchange else if v = 35 then PT_IdInitiator
      else if v = 36 then PT_IdResponder else if v = 37 then PT_Certificate
      else if v = 38 then PT_CertRequest else if v = 39 then PT_Authentication
      else if v = 40 then PT_Nonce else if v = 41 then PT_Notify else if v = 42 then PT_Delete
      else if v = 43 then PT_VendorId else if v = 44 then PT_TrafficSelectorInitiator
      else if v = 45 then PT_TrafficSelectorResponder else if v = 46 then PT_Encrypted
      else if v = 47 then PT_Configuration else if v = 48 then PT_Eap
      else if v = 53 then PT_EncryptedFragment else PT_Other v)"

fun payload_type_to_u8 :: "payload_type \<Rightarrow> u8" where
  "payload_type_to_u8 PT_NoNext = 0"
| "payload_type_to_u8 PT_SecurityAssociation = 33"
| "payload_type_to_u8 PT_KeyExchange = 34"
| "payload_type_to_u8 PT_IdInitiator = 35"
| "payload_type_to_u8 PT_IdResponder = 36"
| "payload_type_to_u8 PT_Certificate = 37"
| "payload_type_to_u8 PT_CertRequest = 38"
| "payload_type_to_u8 PT_Authentication = 39"
| "payload_type_to_u8 PT_Nonce = 40"
| "payload_type_to_u8 PT_Notify = 41"
| "payload_type_to_u8 PT_Delete = 42"
| "payload_type_to_u8 PT_VendorId = 43"
| "payload_type_to_u8 PT_TrafficSelectorInitiator = 44"
| "payload_type_to_u8 PT_TrafficSelectorResponder = 45"
| "payload_type_to_u8 PT_Encrypted = 46"
| "payload_type_to_u8 PT_Configuration = 47"
| "payload_type_to_u8 PT_Eap = 48"
| "payload_type_to_u8 PT_EncryptedFragment = 53"
| "payload_type_to_u8 (PT_Other v) = v"

record flags =
  f_initiator :: bool
  f_version :: bool
  f_response :: bool

definition flags_from_u8 :: "u8 \<Rightarrow> flags" where
  "flags_from_u8 v = \<lparr>f_initiator = (v AND 0x08 \<noteq> 0), f_version = (v AND 0x10 \<noteq> 0),
     f_response = (v AND 0x20 \<noteq> 0)\<rparr>"

definition flags_to_u8 :: "flags \<Rightarrow> u8" where
  "flags_to_u8 f =
     (let v0 = 0;
          v1 = (if f_initiator f then v0 OR 0x08 else v0);
          v2 = (if f_version f then v1 OR 0x10 else v1)
      in if f_response f then v2 OR 0x20 else v2)"

section \<open>The header\<close>

record ike_header =
  h_initiator_spi :: u64
  h_responder_spi :: u64
  h_next_payload :: payload_type
  h_major_version :: u8
  h_minor_version :: u8
  h_exchange_type :: exchange_type
  h_flags :: flags
  h_message_id :: u32
  h_length :: u32

definition HEADER_LEN :: nat where "HEADER_LEN = 28"

definition ike_header_parse :: "bytes \<Rightarrow> ike_header res" where
  "ike_header_parse input =
     (if length input < HEADER_LEN then Err (Truncated HEADER_LEN (length input))
      else bindR (idx input 17) (\<lambda>version.
        bindR (slice input 0 8) (\<lambda>si.
        bindR (slice input 8 16) (\<lambda>sr.
        bindR (idx input 16) (\<lambda>np.
        bindR (idx input 18) (\<lambda>et.
        bindR (idx input 19) (\<lambda>fl.
        bindR (slice input 20 24) (\<lambda>mid.
        bindR (slice input 24 28) (\<lambda>len.
          Ok \<lparr>h_initiator_spi = from_be64 si, h_responder_spi = from_be64 sr,
              h_next_payload = payload_type_from_u8 np,
              h_major_version = drop_bit 4 version, h_minor_version = version AND 0x0f,
              h_exchange_type = exchange_type_from_u8 et, h_flags = flags_from_u8 fl,
              h_message_id = from_be32 mid, h_length = from_be32 len\<rparr>)))))))))"

definition ike_header_to_bytes :: "ike_header \<Rightarrow> bytes" where
  "ike_header_to_bytes h =
     to_be64 (h_initiator_spi h) @ to_be64 (h_responder_spi h) @
     [payload_type_to_u8 (h_next_payload h),
      push_bit 4 (h_major_version h) OR (h_minor_version h AND 0x0f),
      exchange_type_to_u8 (h_exchange_type h), flags_to_u8 (h_flags h)] @
     to_be32 (h_message_id h) @ to_be32 (h_length h)"

section \<open>The payload chain\<close>

record raw_payload =
  rp_type :: payload_type
  rp_critical :: bool
  rp_data :: bytes

record payload_iter =
  it_next :: payload_type
  it_rest :: bytes
  it_done :: bool

type_synonym item = "ike_error + raw_payload"
type_synonym payload_chain = "(payload_type \<times> bytes) list"

definition payloads :: "payload_type \<Rightarrow> bytes \<Rightarrow> payload_iter" where
  "payloads first body = \<lparr>it_next = first, it_rest = body, it_done = False\<rparr>"

text \<open>One call of \<open>next()\<close>: the yielded item, if any, and the advanced iterator.\<close>

definition payload_iter_next :: "payload_iter \<Rightarrow> (item option \<times> payload_iter) res" where
  "payload_iter_next it =
     (let rest = it_rest it in
      if it_done it \<or> it_next it = PT_NoNext then Ok (None, it)
      else if length rest < 4 then
        Ok (Some (Inl (Truncated 4 (length rest))), it\<lparr>it_done := True\<rparr>)
      else bindR (idx rest 0) (\<lambda>b0. bindR (idx rest 1) (\<lambda>b1. bindR (u16be rest 2) (\<lambda>len.
        if unat len < 4 then Ok (Some (Inl (ShortPayload len)), it\<lparr>it_done := True\<rparr>)
        else if length rest < unat len then
          Ok (Some (Inl (BadLength (unat len) (length rest))), it\<lparr>it_done := True\<rparr>)
        else bindR (slice rest 4 (unat len)) (\<lambda>dat. bindR (slice_from rest (unat len)) (\<lambda>rest'.
          Ok (Some (Inr \<lparr>rp_type = it_next it, rp_critical = (b1 AND 0x80 \<noteq> 0), rp_data = dat\<rparr>),
              it\<lparr>it_rest := rest', it_next := payload_type_from_u8 b0\<rparr>)))))))"

definition iter_measure :: "payload_iter \<Rightarrow> nat" where
  "iter_measure it = (if it_done it then 0 else Suc (length (it_rest it)))"

lemma payload_iter_next_measure:
  "payload_iter_next it = Ok (Some x, it') \<Longrightarrow> iter_measure it' < iter_measure it"
  by (auto simp: payload_iter_next_def iter_measure_def Let_def res_iff split: if_splits)

text \<open>Running the iterator to its end, as a \<^verbatim>\<open>for\<close> loop over it does.\<close>

function iter_items :: "payload_iter \<Rightarrow> item list res" where
  "iter_items it = bindR (payload_iter_next it) (\<lambda>(x, it'). case x of
     None \<Rightarrow> Ok [] | Some p \<Rightarrow> bindR (iter_items it') (\<lambda>ps. Ok (p # ps)))"
  by pat_completeness auto
termination
  by (relation "measure iter_measure") (auto intro: payload_iter_next_measure)

declare iter_items.simps [simp del]

text \<open>
  The body of \<^verbatim>\<open>for payload in payloads(..) { let payload = payload?; .. }\<close> with the loop's
  variables as the state \<open>s\<close>: the first error item, or the first error of the body, ends it.
\<close>

fun try_fold :: "('s \<Rightarrow> raw_payload \<Rightarrow> 's res) \<Rightarrow> 's \<Rightarrow> item list \<Rightarrow> 's res" where
  "try_fold f s [] = Ok s"
| "try_fold f s (Inl e # is) = Err e"
| "try_fold f s (Inr p # is) = bindR (f s p) (\<lambda>s'. try_fold f s' is)"

definition for_payloads ::
    "payload_type \<Rightarrow> bytes \<Rightarrow> ('s \<Rightarrow> raw_payload \<Rightarrow> 's res) \<Rightarrow> 's \<Rightarrow> 's res" where
  "for_payloads first body f s = bindR (iter_items (payloads first body)) (try_fold f s)"

text \<open>\<open>payloads(..).flatten()\<close>: the error items are dropped.\<close>

definition items_ok :: "item list \<Rightarrow> raw_payload list" where
  "items_ok is = concat (map (\<lambda>i. case i of Inl _ \<Rightarrow> [] | Inr p \<Rightarrow> [p]) is)"

definition first_payload_type :: "payload_chain \<Rightarrow> payload_type" where
  "first_payload_type ps = (case ps of [] \<Rightarrow> PT_NoNext | p # _ \<Rightarrow> fst p)"

fun encode_payload_chain :: "payload_chain \<Rightarrow> bytes" where
  "encode_payload_chain [] = []"
| "encode_payload_chain ((t, body) # ps) =
     [payload_type_to_u8 (first_payload_type ps), 0] @ to_be16 (of_nat (4 + length body)) @ body @
     encode_payload_chain ps"

record message_builder =
  mb_header :: ike_header
  mb_payloads :: payload_chain

definition message_builder_new :: "ike_header \<Rightarrow> message_builder" where
  "message_builder_new h = \<lparr>mb_header = h, mb_payloads = []\<rparr>"

definition message_builder_push :: "message_builder \<Rightarrow> payload_type \<Rightarrow> bytes \<Rightarrow> message_builder" where
  "message_builder_push b t body = b\<lparr>mb_payloads := mb_payloads b @ [(t, body)]\<rparr>"

definition message_builder_build :: "message_builder \<Rightarrow> bytes" where
  "message_builder_build b =
     (let chain = encode_payload_chain (mb_payloads b);
          header = (mb_header b)\<lparr>h_next_payload := first_payload_type (mb_payloads b),
                                 h_length := of_nat (HEADER_LEN + length chain)\<rparr>
      in ike_header_to_bytes header @ chain)"

section \<open>Round trips of the header\<close>

lemma exchange_type_to_from [simp]: "exchange_type_to_u8 (exchange_type_from_u8 v) = v"
  by (simp add: exchange_type_from_u8_def)

lemma payload_type_to_from [simp]: "payload_type_to_u8 (payload_type_from_u8 v) = v"
  by (simp add: payload_type_from_u8_def)

text \<open>
  A type value is canonical when the parser can produce it: \<open>PT_Other 33\<close>, say, is not, since
  byte 33 reads back as a Security Association.
\<close>

definition canonical_pt :: "payload_type \<Rightarrow> bool" where
  "canonical_pt t \<longleftrightarrow> payload_type_from_u8 (payload_type_to_u8 t) = t"

definition canonical_ex :: "exchange_type \<Rightarrow> bool" where
  "canonical_ex t \<longleftrightarrow> exchange_type_from_u8 (exchange_type_to_u8 t) = t"

lemma canonical_pt_known [simp]:
  "canonical_pt PT_NoNext" "canonical_pt PT_SecurityAssociation" "canonical_pt PT_KeyExchange"
  "canonical_pt PT_IdInitiator" "canonical_pt PT_IdResponder" "canonical_pt PT_Certificate"
  "canonical_pt PT_CertRequest" "canonical_pt PT_Authentication" "canonical_pt PT_Nonce"
  "canonical_pt PT_Notify" "canonical_pt PT_Delete" "canonical_pt PT_VendorId"
  "canonical_pt PT_TrafficSelectorInitiator" "canonical_pt PT_TrafficSelectorResponder"
  "canonical_pt PT_Encrypted" "canonical_pt PT_Configuration" "canonical_pt PT_Eap"
  "canonical_pt PT_EncryptedFragment"
  by (simp_all add: canonical_pt_def payload_type_from_u8_def)

lemma canonical_ex_known [simp]:
  "canonical_ex IkeSaInit" "canonical_ex IkeAuth" "canonical_ex CreateChildSa"
  "canonical_ex Informational"
  by (simp_all add: canonical_ex_def exchange_type_from_u8_def)

lemma flags_from_to [simp]: "flags_from_u8 (flags_to_u8 f) = f"
  by (cases f) (auto simp: flags_from_u8_def flags_to_u8_def)

definition header_wf :: "ike_header \<Rightarrow> bool" where
  "header_wf h \<longleftrightarrow> canonical_pt (h_next_payload h) \<and> canonical_ex (h_exchange_type h) \<and>
     h_major_version h < 16 \<and> h_minor_version h < 16"

lemma length_ike_header_to_bytes [simp]: "length (ike_header_to_bytes h) = HEADER_LEN"
  by (simp add: ike_header_to_bytes_def HEADER_LEN_def)

lemma take_bit_nibble: "x < 16 \<Longrightarrow> take_bit 4 x = (x :: u8)"
  by (simp add: word_less_nat_alt word_unat_eq_iff unsigned_take_bit_eq take_bit_nat_eq_self)

lemma nibble_simps:
  assumes "x < (16 :: u8)"
  shows "x AND 15 = x" "drop_bit 4 (push_bit 4 x) = x" "drop_bit 4 x = 0"
    "(push_bit 4 y OR x) AND 15 = x"
proof -
  have m: "(15 :: u8) = mask 4" by (simp add: mask_eq_exp_minus_1)
  have b: "bit x n \<Longrightarrow> n < 4" for n
    using take_bit_nibble[OF assms] by (metis bit_take_bit_iff)
  show "x AND 15 = x"
    using take_bit_nibble[OF assms] by (simp add: take_bit_eq_mask m)
  show "drop_bit 4 (push_bit 4 x) = x" "drop_bit 4 x = 0" "(push_bit 4 y OR x) AND 15 = x"
    by (intro bit_eqI; use b in \<open>fastforce simp: bit_simps m\<close>)+
qed

lemma ike_header_parse_to_bytes [simp]:
  assumes "header_wf h"
  shows "ike_header_parse (ike_header_to_bytes h @ rest) = Ok h"
  using assms
  by (cases h) (auto simp: ike_header_parse_def ike_header_to_bytes_def HEADER_LEN_def header_wf_def
      canonical_pt_def canonical_ex_def nth_append nibble_simps)

lemma ike_header_parse_not_Panic [simp]: "ike_header_parse bs \<noteq> Panic"
  by (auto simp: ike_header_parse_def HEADER_LEN_def res_iff)

lemma drop_header [simp]: "drop HEADER_LEN (ike_header_to_bytes h @ rest) = rest"
  by simp

section \<open>The payload walk\<close>

lemma payload_iter_next_not_Panic [simp]: "payload_iter_next it \<noteq> Panic"
  by (auto simp: payload_iter_next_def Let_def res_iff)

lemma iter_items_not_Panic [simp]: "iter_items it \<noteq> Panic"
proof (induction it rule: iter_items.induct)
  case (1 it)
  then show ?case
    by (subst iter_items.simps) (auto simp: res_iff split: prod.splits option.splits)
qed

lemma payload_iter_next_not_Err [simp]: "payload_iter_next it \<noteq> Err e"
  by (auto simp: payload_iter_next_def Let_def res_iff split: if_splits)

lemma iter_items_not_Err [simp]: "iter_items it \<noteq> Err e"
proof (induction it arbitrary: e rule: iter_items.induct)
  case (1 it)
  then show ?case
    by (subst iter_items.simps) (auto simp: res_iff split: prod.splits option.splits)
qed

lemma iter_items_Ok: "\<exists>is. iter_items it = Ok is"
  by (cases "iter_items it") auto

lemma iter_items_done: "it_done it \<or> it_next it = PT_NoNext \<Longrightarrow> iter_items it = Ok []"
  by (subst iter_items.simps) (auto simp: payload_iter_next_def Let_def)

lemma try_fold_not_Panic:
  "(\<And>s p. Inr p \<in> set is \<Longrightarrow> f s p \<noteq> Panic) \<Longrightarrow> try_fold f s is \<noteq> Panic"
  by (induction f s "is" rule: try_fold.induct) (auto simp: res_iff)

lemma for_payloads_not_Panic:
  "(\<And>s p. f s p \<noteq> Panic) \<Longrightarrow> for_payloads first body f s \<noteq> Panic"
  using try_fold_not_Panic[of _ f s] by (auto simp: for_payloads_def res_iff)

text \<open>An encoded chain whose types are canonical and whose bodies fit the 16-bit length.\<close>

definition chain_wf :: "payload_chain \<Rightarrow> bool" where
  "chain_wf ps \<longleftrightarrow> (\<forall>(t, body) \<in> set ps. canonical_pt t \<and> t \<noteq> PT_NoNext \<and> 4 + length body < 65536)"

lemma chain_wf_simps [simp]:
  "chain_wf []"
  "chain_wf ((t, body) # ps) \<longleftrightarrow>
     canonical_pt t \<and> t \<noteq> PT_NoNext \<and> 4 + length body < 65536 \<and> chain_wf ps"
  "chain_wf (ps @ qs) \<longleftrightarrow> chain_wf ps \<and> chain_wf qs"
  by (auto simp: chain_wf_def)

definition raw :: "payload_type \<times> bytes \<Rightarrow> raw_payload" where
  "raw p = \<lparr>rp_type = fst p, rp_critical = False, rp_data = snd p\<rparr>"

lemma raw_simps [simp]:
  "rp_type (raw p) = fst p" "rp_critical (raw p) = False" "rp_data (raw p) = snd p"
  by (simp_all add: raw_def)

lemma first_payload_type_simps [simp]:
  "first_payload_type [] = PT_NoNext" "first_payload_type (p # ps) = fst p"
  by (simp_all add: first_payload_type_def)

lemma canonical_first: "chain_wf ps \<Longrightarrow> canonical_pt (first_payload_type ps)"
  by (cases ps) auto

lemma iter_items_encode [simp]:
  assumes "chain_wf ps"
  shows "iter_items (payloads (first_payload_type ps) (encode_payload_chain ps @ rest)) =
    Ok (map (\<lambda>p. Inr (raw p)) ps)"
  using assms
proof (induction ps)
  case Nil
  then show ?case by (simp add: iter_items_done payloads_def)
next
  case (Cons p ps)
  obtain t body where p: "p = (t, body)" by (cases p)
  let ?it = "payloads t (encode_payload_chain (p # ps) @ rest)"
  have len: "unat (from_be16 (ucast (drop_bit 8 (of_nat (4 + length body) :: u16)))
      (ucast (of_nat (4 + length body) :: u16))) = 4 + length body"
    using Cons.prems p by (subst from_be16_to_be16) (simp only: unat_of_nat16 chain_wf_simps)
  have "payload_iter_next ?it = Ok (Some (Inr (raw p)),
      payloads (first_payload_type ps) (encode_payload_chain ps @ rest))"
    using Cons.prems canonical_first[of ps] len
    by (simp add: payload_iter_next_def payloads_def p to_be16_def canonical_pt_def raw_def
        del: of_nat_add of_nat_Suc of_nat_numeral)
  then show ?case
    using Cons p by (subst iter_items.simps) simp
qed

lemma for_payloads_encode [simp]:
  "chain_wf ps \<Longrightarrow> for_payloads (first_payload_type ps) (encode_payload_chain ps) f s =
     try_fold f s (map (\<lambda>p. Inr (raw p)) ps)"
  using iter_items_encode[of ps "[]"] by (simp add: for_payloads_def)

lemma length_encode_payload_chain:
  "length (encode_payload_chain ps) = sum_list (map (\<lambda>p. 4 + length (snd p)) ps)"
  by (induction ps rule: encode_payload_chain.induct) simp_all

lemma items_ok_map [simp]: "items_ok (map (\<lambda>p. Inr (f p)) ps) = map f ps"
  by (induction ps) (auto simp: items_ok_def)

text \<open>
  The other direction: what was parsed is written back byte for byte, but for the reserved bits
  of the flags octet, which are cleared.
\<close>

lemma and_single_bit: "v AND push_bit n 1 = (if bit v n then push_bit n 1 else 0)" for v :: u8
  by (rule bit_eqI) (auto simp: bit_simps)

lemma flags_to_from: "flags_to_u8 (flags_from_u8 v) = v AND 0x38"
proof -
  have "v AND 0x38 = (v AND 0x08) OR (v AND 0x10) OR (v AND 0x20)"
    by (simp flip: bit.conj_disj_distrib)
  then show ?thesis
    using and_single_bit[of v 3] and_single_bit[of v 4] and_single_bit[of v 5]
    by (simp add: flags_to_u8_def flags_from_u8_def)
qed

lemma version_octet: "push_bit 4 (drop_bit 4 v) OR (v AND 0x0f) = (v :: u8)"
proof -
  have m: "(15 :: u8) = mask 4" by (simp add: mask_eq_exp_minus_1)
  have "push_bit 4 (drop_bit 4 v) OR (v AND mask 4) = v"
    by (rule bit_eqI) (auto simp: bit_simps)
  then show ?thesis by (simp add: m)
qed

lemma list_split28:
  "length xs \<ge> 28 \<Longrightarrow> take 28 xs = take 8 xs @ take 8 (drop 8 xs) @
     [xs ! 16, xs ! 17, xs ! 18, xs ! 19] @ take 4 (drop 20 xs) @ take 4 (drop 24 xs)"
  by (intro nth_equalityI)
    (auto simp: nth_append nth_Cons' less_diff_conv intro!: arg_cong[where f = "(!) xs"])

lemma ike_header_to_bytes_parse:
  assumes "ike_header_parse input = Ok h"
  shows "ike_header_to_bytes h = (take HEADER_LEN input)[19 := input ! 19 AND 0x38]"
proof -
  have "28 \<le> length input" using assms by (auto simp: ike_header_parse_def HEADER_LEN_def split: if_splits)
  moreover have "length (take 8 input) = 8" "length (take 8 (drop 8 input)) = 8"
    "length (take 4 (drop 20 input)) = 4" "length (take 4 (drop 24 input)) = 4"
    using calculation by auto
  ultimately show ?thesis
    using assms unfolding HEADER_LEN_def
    by (subst list_split28) (auto simp: ike_header_parse_def HEADER_LEN_def ike_header_to_bytes_def
       to_from_be flags_to_from version_octet list_update_append)
qed

text \<open>A body of 65532 bytes is written with length field 0, which the peer's walk rejects.\<close>

lemma oversized_payload_rejected:
  assumes "length body = 65532" and "t \<noteq> PT_NoNext"
  shows "iter_items (payloads t (encode_payload_chain [(t, body)])) = Ok [Inl (ShortPayload 0)]"
proof -
  have "iter_items (\<lparr>it_next = t, it_rest = r, it_done = True\<rparr>) = Ok []" for r
    by (rule iter_items_done) simp
  then show ?thesis using assms
    by (subst iter_items.simps)
      (simp add: payload_iter_next_def payloads_def to_be16_def from_be16_def Let_def)
qed

section \<open>Properties\<close>

text \<open>
  The layout of a payload on the wire: the type of the next payload, the flags, the length and the
  data. A position holds no payload when fewer than four bytes are left, or when the length there
  is less than four or more than what is left.
\<close>

definition payload_layout :: "u8 \<times> u8 \<Rightarrow> raw_payload \<Rightarrow> bytes" where
  "payload_layout g p = [fst g, snd g] @ to_be16 (of_nat (4 + length (rp_data p))) @ rp_data p"

definition no_payload_at :: "bytes \<Rightarrow> bool" where
  "no_payload_at rest \<longleftrightarrow> length rest < 4 \<or>
     (let l = unat (from_be16 (rest ! 2) (rest ! 3)) in l < 4 \<or> length rest < l)"

lemma split4: "4 \<le> l \<Longrightarrow> l \<le> length xs \<Longrightarrow> xs = [xs ! 0, xs ! 1] @ [xs ! 2, xs ! 3] @ take (l - 4) (drop 4 xs) @ drop l xs"
proof -
  assume a: "4 \<le> l" "l \<le> length xs"
  have "take (l - 4) (drop 4 xs) @ drop l xs = drop 4 xs" using a append_take_drop_id[of "l - 4" "drop 4 xs"] by simp
  moreover have "xs = [xs ! 0, xs ! 1, xs ! 2, xs ! 3] @ drop 4 xs"
    by (rule nth_equalityI) (use a in \<open>auto simp: nth_append nth_Cons' less_diff_conv intro!: arg_cong[where f = "(!) xs"]\<close>)
  ultimately show ?thesis by simp
qed

lemma payload_iter_next_layout:
  assumes "payload_iter_next it = Ok (Some (Inr p), it')"
  obtains n c where "it_rest it = payload_layout (n, c) p @ it_rest it'" "it_next it' = payload_type_from_u8 n"
    "rp_type p = it_next it" "rp_critical p = (c AND 0x80 \<noteq> 0)" "it_next it \<noteq> PT_NoNext" "4 + length (rp_data p) < 65536"
    "it_done it' = it_done it" "\<not> it_done it"
proof -
  let ?r = "it_rest it" and ?l = "unat (from_be16 (it_rest it ! 2) (it_rest it ! 3))"
  have h: "4 \<le> ?l" "?l \<le> length ?r" "it_rest it' = drop ?l ?r" "rp_data p = take (?l - 4) (drop 4 ?r)"
    "it_next it' = payload_type_from_u8 (?r ! 0)" "rp_type p = it_next it" "rp_critical p = (?r ! 1 AND 0x80 \<noteq> 0)"
    "it_next it \<noteq> PT_NoNext" "it_done it' = it_done it" "\<not> it_done it"
    using assms by (auto simp: payload_iter_next_def Let_def res_iff not_less split: if_splits)
  have len: "4 + length (rp_data p) = ?l" using h(1,2,4) by simp
  have "to_be16 (of_nat (4 + length (rp_data p))) = [?r ! 2, ?r ! 3]"
    unfolding len by (simp add: to_be16_from_be16)
  then have "?r = payload_layout (?r ! 0, ?r ! 1) p @ it_rest it'"
    using split4[OF h(1,2)] by (simp add: payload_layout_def h(3,4))
  moreover have "4 + length (rp_data p) < 65536" unfolding len using unsigned_less[of "from_be16 (?r ! 2) (?r ! 3)"] by simp
  ultimately show thesis using that h by blast
qed

lemma payload_iter_next_stop:
  "payload_iter_next it = Ok (Some (Inl e), it') \<Longrightarrow> it_done it' \<and> it_next it \<noteq> PT_NoNext \<and> no_payload_at (it_rest it)"
  "payload_iter_next it = Ok (None, it') \<Longrightarrow> \<not> it_done it \<Longrightarrow> it_next it = PT_NoNext"
  by (auto simp: payload_iter_next_def Let_def res_iff no_payload_at_def split: if_splits)

lemma iter_items_shape:
  assumes "\<not> it_done it"
  shows "\<exists>ps gs ts rest errs. iter_items it = Ok (map Inr ps @ map Inl errs) \<and> length gs = length ps \<and>
     it_rest it = concat (map2 payload_layout gs ps) @ rest \<and>
     ts = it_next it # map (\<lambda>g. payload_type_from_u8 (fst g)) gs \<and> map rp_type ps = butlast ts \<and> PT_NoNext \<notin> set (butlast ts) \<and>
     map rp_critical ps = map (\<lambda>g. snd g AND 0x80 \<noteq> 0) gs \<and> list_all (\<lambda>p. 4 + length (rp_data p) < 65536) ps \<and>
     (if last ts = PT_NoNext then errs = [] else length errs = 1 \<and> no_payload_at rest)"
  using assms
proof (induction it rule: iter_items.induct)
  case (1 it)
  obtain x it' where n: "payload_iter_next it = Ok (x, it')"
    by (cases "payload_iter_next it") auto
  consider "x = None" | e where "x = Some (Inl e)" | p where "x = Some (Inr p)"
    by (metis option.exhaust sum.exhaust)
  then show ?case
  proof cases
    case 1
    then have "iter_items it = Ok []" "it_next it = PT_NoNext"
      using n payload_iter_next_stop(2) "1.prems" by (auto simp: iter_items.simps[of it])
    then show ?thesis by (intro exI[of _ "[]"] exI[of _ "[it_next it]"] exI[of _ "it_rest it"]) simp
  next
    case (2 e)
    then have "it_done it'" "it_next it \<noteq> PT_NoNext" "no_payload_at (it_rest it)" using n payload_iter_next_stop(1) by auto
    moreover from this have "iter_items it = Ok [Inl e]" using n 2 iter_items_done[of it'] by (simp add: iter_items.simps[of it])
    ultimately show ?thesis
      by (intro exI[of _ "[]"] exI[of _ "[it_next it]"] exI[of _ "it_rest it"] exI[of _ "[e]"]) simp
  next
    case (3 p)
    obtain m c where l: "it_rest it = payload_layout (m, c) p @ it_rest it'" "it_next it' = payload_type_from_u8 m"
      "rp_type p = it_next it" "rp_critical p = (c AND 0x80 \<noteq> 0)" "it_next it \<noteq> PT_NoNext" "4 + length (rp_data p) < 65536"
      "it_done it' = it_done it" "\<not> it_done it"
      by (rule payload_iter_next_layout[OF n[unfolded 3]])
    obtain ps gs rest errs where i: "iter_items it' = Ok (map Inr ps @ map Inl errs)" "length gs = length ps"
      "it_rest it' = concat (map2 payload_layout gs ps) @ rest"
      "map rp_type ps = butlast (it_next it' # map (\<lambda>g. payload_type_from_u8 (fst g)) gs)"
      "PT_NoNext \<notin> set (butlast (it_next it' # map (\<lambda>g. payload_type_from_u8 (fst g)) gs))"
      "map rp_critical ps = map (\<lambda>g. snd g AND 0x80 \<noteq> 0) gs" "list_all (\<lambda>p. 4 + length (rp_data p) < 65536) ps"
      "if last (it_next it' # map (\<lambda>g. payload_type_from_u8 (fst g)) gs) = PT_NoNext then errs = [] else length errs = 1 \<and> no_payload_at rest"
      using "1.IH"[OF n refl 3] l(7,8) by blast
    have "iter_items it = Ok (map Inr (p # ps) @ map Inl errs)" using n 3 i(1) by (simp add: iter_items.simps[of it])
    then show ?thesis
      using i(2-8) l by (intro exI[of _ "p # ps"] exI[of _ "(m, c) # gs"] exI[of _ rest] exI[of _ errs]) (simp split: if_splits)
  qed
qed

text \<open>
  C25. Walking the payload chain of any byte string ends and never panics, and reads exactly what is
  there. The body is the payloads yielded, each as its four-byte generic header with the length
  field followed by its data, side by side and in order, and a rest. The first payload has the
  type the caller names and each further one the type that the header before it names; the critical
  flags are the top bits of the headers. The walk ends without an error when a header names no next
  payload, and otherwise with one error, at a rest that holds no payload.
\<close>
theorem payload_walk_total:
  "\<exists>ps gs ts rest errs. iter_items (payloads first body) = Ok (map Inr ps @ map Inl errs) \<and> length gs = length ps \<and>
     body = concat (map2 payload_layout gs ps) @ rest \<and>
     ts = first # map (\<lambda>g. payload_type_from_u8 (fst g)) gs \<and> map rp_type ps = butlast ts \<and> PT_NoNext \<notin> set (butlast ts) \<and>
     map rp_critical ps = map (\<lambda>g. snd g AND 0x80 \<noteq> 0) gs \<and> list_all (\<lambda>p. 4 + length (rp_data p) < 65536) ps \<and>
     (if last ts = PT_NoNext then errs = [] else length errs = 1 \<and> no_payload_at rest)"
  using iter_items_shape[of "payloads first body"] by (simp add: payloads_def)

lemma message_builder_parse:
  assumes "header_wf h" "chain_wf ps"
  shows "ike_header_parse (message_builder_build \<lparr>mb_header = h, mb_payloads = ps\<rparr>) =
      Ok (h\<lparr>h_next_payload := first_payload_type ps,
            h_length := of_nat (HEADER_LEN + length (encode_payload_chain ps))\<rparr>)"
proof -
  have "header_wf (h\<lparr>h_next_payload := first_payload_type ps, h_length := l\<rparr>)" for l
    using assms canonical_first by (simp add: header_wf_def)
  then show ?thesis
    by (simp only: message_builder_build_def Let_def ike_header_parse_to_bytes
        message_builder.simps)
qed

lemma message_builder_body:
  "slice_from (message_builder_build \<lparr>mb_header = h, mb_payloads = ps\<rparr>) HEADER_LEN =
     Ok (encode_payload_chain ps)"
  by (simp add: message_builder_build_def Let_def)

text \<open>
  A message built from a header and payloads that fit the wire parses back: the header is the
  one given with the first payload type and the total length filled in, and walking the rest
  yields exactly the payloads pushed.
\<close>
theorem message_builder_roundtrip:
  assumes "header_wf h" "chain_wf ps"
  shows "ike_header_parse (message_builder_build \<lparr>mb_header = h, mb_payloads = ps\<rparr>) =
      Ok (h\<lparr>h_next_payload := first_payload_type ps,
            h_length := of_nat (HEADER_LEN + length (encode_payload_chain ps))\<rparr>) \<and>
    iter_items (payloads (first_payload_type ps)
        (drop HEADER_LEN (message_builder_build \<lparr>mb_header = h, mb_payloads = ps\<rparr>))) =
      Ok (map (\<lambda>p. Inr (raw p)) ps)"
  using assms message_builder_parse iter_items_encode[of ps "[]"]
  by (simp add: message_builder_build_def Let_def)

definition sample_header :: ike_header where
  "sample_header = \<lparr>h_initiator_spi = 1, h_responder_spi = 0, h_next_payload = PT_NoNext,
     h_major_version = 2, h_minor_version = 0, h_exchange_type = IkeSaInit,
     h_flags = \<lparr>f_initiator = True, f_version = False, f_response = False\<rparr>,
     h_message_id = 0, h_length = 0\<rparr>"

lemma sample_header_wf: "header_wf sample_header"
  by (simp add: sample_header_def header_wf_def)

theorem message_builder_roundtrip_witness:
  "header_wf sample_header \<and> chain_wf [(PT_Nonce, [1, 2])] \<and>
   iter_items (payloads PT_Nonce (drop HEADER_LEN (message_builder_build
      \<lparr>mb_header = sample_header, mb_payloads = [(PT_Nonce, [1, 2])]\<rparr>))) =
      Ok [Inr (raw (PT_Nonce, [1, 2]))]"
  using message_builder_roundtrip[of sample_header "[(PT_Nonce, [1, 2])]"] sample_header_wf
  by simp

text \<open>
  A header whose type numbers are canonical and whose version nibbles fit is read back from
  its 28 bytes, whatever follows them.
\<close>
theorem header_roundtrip:
  "header_wf h \<Longrightarrow> ike_header_parse (ike_header_to_bytes h @ rest) = Ok h"
  by simp

theorem header_roundtrip_witness:
  "header_wf sample_header \<and> ike_header_parse (ike_header_to_bytes sample_header @ [7]) = Ok sample_header"
  using header_roundtrip[of sample_header "[7]"] sample_header_wf by simp

text \<open>
  What the header parser accepts, the writer prints back byte for byte, but for the reserved
  bits of the flags octet, which are cleared.
\<close>
theorem header_reprint:
  "ike_header_parse input = Ok h \<Longrightarrow>
     ike_header_to_bytes h = (take HEADER_LEN input)[19 := input ! 19 AND 0x38]"
  by (rule ike_header_to_bytes_parse)

theorem header_reprint_witness:
  "ike_header_to_bytes sample_header =
     (take HEADER_LEN (ike_header_to_bytes sample_header))[19 := 0x08 AND 0x38]"
proof -
  have "ike_header_to_bytes sample_header ! 19 = 0x08"
    by (simp add: ike_header_to_bytes_def sample_header_def nth_append flags_to_u8_def)
  moreover have "ike_header_parse (ike_header_to_bytes sample_header) = Ok sample_header"
    using ike_header_parse_to_bytes[OF sample_header_wf, of "[]"] by simp
  ultimately show ?thesis using header_reprint by metis
qed

end
