(* ===== verification/Payload.thy ===== *)
theory Payload
  imports Message
begin

text \<open>
  The typed payload bodies of \<open>src/src/ikev2/payload.rs\<close>: the Security Association with its
  proposals and transforms, Key Exchange, Nonce, Identification, Authentication, Traffic
  Selectors, Configuration, Notify, Delete, Certificate and Certificate Request.

  Every body is an instance of \<open>body_codec\<close>: its parser never panics, on any bytes, and reads
  back what the serializer wrote, for the values that fit their wire fields (the \<open>_wf\<close>
  predicates). The substructures are instances of \<open>item_codec\<close> and their loops of
  \<open>item_loop\<close> and \<open>count_loop\<close>.
\<close>

unbundle bit_operations_syntax

section \<open>Numbers\<close>

definition TT_ENCR :: u8 where [simp]: "TT_ENCR = 1"
definition TT_PRF :: u8 where [simp]: "TT_PRF = 2"
definition TT_INTEG :: u8 where [simp]: "TT_INTEG = 3"
definition TT_DH :: u8 where [simp]: "TT_DH = 4"
definition TT_ESN :: u8 where [simp]: "TT_ESN = 5"

definition AES_CBC :: u16 where [simp]: "AES_CBC = 12"
definition AES_GCM_16 :: u16 where [simp]: "AES_GCM_16 = 20"
definition PRF_HMAC_SHA2_256 :: u16 where [simp]: "PRF_HMAC_SHA2_256 = 5"
definition AUTH_HMAC_SHA2_256_128 :: u16 where [simp]: "AUTH_HMAC_SHA2_256_128 = 12"
definition MODP_1024 :: u16 where [simp]: "MODP_1024 = 2"
definition MODP_2048 :: u16 where [simp]: "MODP_2048 = 14"
definition ID_X25519 :: u16 where [simp]: "ID_X25519 = 31"
definition ESN_NONE :: u16 where [simp]: "ESN_NONE = 0"

definition PROTO_IKE :: u8 where [simp]: "PROTO_IKE = 1"
definition PROTO_ESP :: u8 where [simp]: "PROTO_ESP = 3"

definition ATTR_KEY_LENGTH :: u16 where [simp]: "ATTR_KEY_LENGTH = 14"
definition ATTR_FORMAT_TV :: u16 where [simp]: "ATTR_FORMAT_TV = 0x8000"

section \<open>Transforms, proposals, the Security Association\<close>

record transform =
  tr_type :: u8
  tr_id :: u16
  tr_key_length :: "u16 option"

function find_key_length_loop :: "bytes \<Rightarrow> u16 option \<Rightarrow> u16 option res" where
  "find_key_length_loop attrs key_length =
     (if 4 \<le> length attrs then
        bindR (u16be attrs 0) (\<lambda>header.
          let attr_type = header AND 0x7fff in
          if header AND ATTR_FORMAT_TV \<noteq> 0 then
            bindR (if attr_type = ATTR_KEY_LENGTH then bindR (u16be attrs 2) (\<lambda>v. Ok (Some v))
                   else Ok key_length) (\<lambda>key_length'.
            bindR (slice_from attrs 4) (\<lambda>attrs'. find_key_length_loop attrs' key_length'))
          else bindR (u16be attrs 2) (\<lambda>len.
            if length attrs < 4 + unat len then Err (BadLength (4 + unat len) (length attrs))
            else bindR (slice_from attrs (4 + unat len)) (\<lambda>attrs'.
              find_key_length_loop attrs' key_length)))
      else Ok key_length)"
  by pat_completeness auto
termination
  by (relation "measure (\<lambda>(attrs, _). length attrs)") (auto simp: res_iff)

declare find_key_length_loop.simps [simp del]

definition find_key_length :: "bytes \<Rightarrow> u16 option res" where
  "find_key_length attrs = find_key_length_loop attrs None"

definition transform_parse :: "bytes \<Rightarrow> (transform \<times> nat) res" where
  "transform_parse buf =
     (if length buf < 8 then Err (Truncated 8 (length buf))
      else bindR (u16be buf 2) (\<lambda>len.
        let l = unat len in
        if l < 8 then Err (ShortPayload len)
        else if length buf < l then Err (BadLength l (length buf))
        else bindR (idx buf 4) (\<lambda>ty. bindR (u16be buf 6) (\<lambda>tid.
          bindR (slice buf 8 l) (\<lambda>attrs. bindR (find_key_length attrs) (\<lambda>kl.
            Ok (\<lparr>tr_type = ty, tr_id = tid, tr_key_length = kl\<rparr>, l)))))))"

definition transform_attrs :: "transform \<Rightarrow> bytes" where
  "transform_attrs t = (case tr_key_length t of
     Some kl \<Rightarrow> to_be16 (ATTR_FORMAT_TV OR ATTR_KEY_LENGTH) @ to_be16 kl
   | None \<Rightarrow> [])"

definition transform_write :: "bool \<Rightarrow> transform \<Rightarrow> bytes" where
  "transform_write is_last t =
     (let attrs = transform_attrs t in
      [if is_last then 0 else 3, 0] @ to_be16 (of_nat (8 + length attrs)) @
      [tr_type t, 0] @ to_be16 (tr_id t) @ attrs)"

record proposal =
  pr_num :: u8
  pr_protocol_id :: u8
  pr_spi :: bytes
  pr_transforms :: "transform list"

primrec proposal_transforms :: "nat \<Rightarrow> bytes \<Rightarrow> nat \<Rightarrow> nat \<Rightarrow> transform list res" where
  "proposal_transforms 0 buf off l = Ok []"
| "proposal_transforms (Suc k) buf off l =
     bindR (slice buf off l) (\<lambda>s. bindR (transform_parse s) (\<lambda>(t, consumed).
       bindR (proposal_transforms k buf (off + consumed) l) (\<lambda>ts. Ok (t # ts))))"

definition proposal_parse :: "bytes \<Rightarrow> (proposal \<times> nat) res" where
  "proposal_parse buf =
     (if length buf < 8 then Err (Truncated 8 (length buf))
      else bindR (u16be buf 2) (\<lambda>len.
        let l = unat len in
        if l < 8 then Err (ShortPayload len)
        else if length buf < l then Err (BadLength l (length buf))
        else bindR (idx buf 4) (\<lambda>num. bindR (idx buf 5) (\<lambda>proto.
          bindR (idx buf 6) (\<lambda>spi_size. bindR (idx buf 7) (\<lambda>transform_count.
          if l < 8 + unat spi_size then Err (BadLength (8 + unat spi_size) l)
          else bindR (slice buf 8 (8 + unat spi_size)) (\<lambda>spi.
            bindR (proposal_transforms (unat transform_count) buf (8 + unat spi_size) l) (\<lambda>ts.
            Ok (\<lparr>pr_num = num, pr_protocol_id = proto, pr_spi = spi, pr_transforms = ts\<rparr>, l)))))))))"

definition proposal_write :: "bool \<Rightarrow> proposal \<Rightarrow> bytes" where
  "proposal_write is_last p =
     (let body = write_all transform_write (pr_transforms p) in
      [if is_last then 0 else 2, 0] @ to_be16 (of_nat (8 + length (pr_spi p) + length body)) @
      [pr_num p, pr_protocol_id p, of_nat (length (pr_spi p)), of_nat (length (pr_transforms p))] @
      pr_spi p @ body)"

record security_association =
  sa_proposals :: "proposal list"

lemma proposal_parse_consumed: "proposal_parse buf = Ok (p, n) \<Longrightarrow> 8 \<le> n \<and> n \<le> length buf"
  by (auto simp: proposal_parse_def Let_def res_iff split: if_splits)

function sa_proposals_loop :: "bytes \<Rightarrow> nat \<Rightarrow> proposal list res" where
  "sa_proposals_loop body off =
     (if off < length body then
        bindR (slice_from body off) (\<lambda>s. bindR (proposal_parse s) (\<lambda>(p, consumed).
          bindR (sa_proposals_loop body (off + consumed)) (\<lambda>ps. Ok (p # ps))))
      else Ok [])"
  by pat_completeness auto
termination
  by (relation "measure (\<lambda>(body, off). length body - off)")
    (auto simp: res_iff dest!: proposal_parse_consumed)

declare sa_proposals_loop.simps [simp del]

definition security_association_parse :: "bytes \<Rightarrow> security_association res" where
  "security_association_parse body =
     bindR (sa_proposals_loop body 0) (\<lambda>ps. Ok \<lparr>sa_proposals = ps\<rparr>)"

definition security_association_to_bytes :: "security_association \<Rightarrow> bytes" where
  "security_association_to_bytes sa = write_all proposal_write (sa_proposals sa)"

section \<open>Key Exchange, Nonce, Identification, Authentication\<close>

record key_exchange =
  ke_dh_group :: u16
  ke_data :: bytes

definition key_exchange_parse :: "bytes \<Rightarrow> key_exchange res" where
  "key_exchange_parse body =
     (if length body < 4 then Err (Truncated 4 (length body))
      else bindR (u16be body 0) (\<lambda>g. bindR (slice_from body 4) (\<lambda>d.
        Ok \<lparr>ke_dh_group = g, ke_data = d\<rparr>)))"

definition key_exchange_to_bytes :: "key_exchange \<Rightarrow> bytes" where
  "key_exchange_to_bytes ke = to_be16 (ke_dh_group ke) @ to_be16 0 @ ke_data ke"

record nonce =
  no_data :: bytes

definition nonce_parse :: "bytes \<Rightarrow> nonce" where
  "nonce_parse body = \<lparr>no_data = body\<rparr>"

definition nonce_to_bytes :: "nonce \<Rightarrow> bytes" where
  "nonce_to_bytes n = no_data n"

definition ID_FQDN :: u8 where [simp]: "ID_FQDN = 2"

record identification =
  id_id_type :: u8
  id_data :: bytes

definition identification_fqdn :: "bytes \<Rightarrow> identification" where
  "identification_fqdn name = \<lparr>id_id_type = ID_FQDN, id_data = name\<rparr>"

definition identification_parse :: "bytes \<Rightarrow> identification res" where
  "identification_parse body =
     (if length body < 4 then Err (Truncated 4 (length body))
      else bindR (idx body 0) (\<lambda>t. bindR (slice_from body 4) (\<lambda>d.
        Ok \<lparr>id_id_type = t, id_data = d\<rparr>)))"

definition identification_to_bytes :: "identification \<Rightarrow> bytes" where
  "identification_to_bytes i = [id_id_type i] @ [0, 0, 0] @ id_data i"

definition SHARED_KEY :: u8 where [simp]: "SHARED_KEY = 2"
definition ECDSA_SHA256_P256 :: u8 where [simp]: "ECDSA_SHA256_P256 = 9"
definition DIGITAL_SIGNATURE :: u8 where [simp]: "DIGITAL_SIGNATURE = 14"

record authentication =
  au_method :: u8
  au_data :: bytes

definition authentication_parse :: "bytes \<Rightarrow> authentication res" where
  "authentication_parse body =
     (if length body < 4 then Err (Truncated 4 (length body))
      else bindR (idx body 0) (\<lambda>m. bindR (slice_from body 4) (\<lambda>d.
        Ok \<lparr>au_method = m, au_data = d\<rparr>)))"

definition authentication_to_bytes :: "authentication \<Rightarrow> bytes" where
  "authentication_to_bytes a = [au_method a] @ [0, 0, 0] @ au_data a"

section \<open>Traffic selectors\<close>

text \<open>\<open>std::net::Ipv4Addr\<close>: its four octets.\<close>

datatype ipv4 = Ipv4 u8 u8 u8 u8

fun octets :: "ipv4 \<Rightarrow> bytes" where
  "octets (Ipv4 a b c d) = [a, b, c, d]"

definition IPV4_ADDR_RANGE :: u8 where [simp]: "IPV4_ADDR_RANGE = 7"

record traffic_selector =
  ts_ts_type :: u8
  ts_ip_protocol :: u8
  ts_start_port :: u16
  ts_end_port :: u16
  ts_start_addr :: bytes
  ts_end_addr :: bytes

definition ipv4_any :: traffic_selector where
  "ipv4_any = \<lparr>ts_ts_type = IPV4_ADDR_RANGE, ts_ip_protocol = 0, ts_start_port = 0,
     ts_end_port = 65535, ts_start_addr = [0, 0, 0, 0], ts_end_addr = [255, 255, 255, 255]\<rparr>"

definition ipv4_host :: "ipv4 \<Rightarrow> traffic_selector" where
  "ipv4_host a = \<lparr>ts_ts_type = IPV4_ADDR_RANGE, ts_ip_protocol = 0, ts_start_port = 0,
     ts_end_port = 65535, ts_start_addr = octets a, ts_end_addr = octets a\<rparr>"

definition traffic_selector_parse :: "bytes \<Rightarrow> (traffic_selector \<times> nat) res" where
  "traffic_selector_parse buf =
     (if length buf < 8 then Err (Truncated 8 (length buf))
      else bindR (u16be buf 2) (\<lambda>len.
        let l = unat len in
        if l < 8 \<or> length buf < l \<or> (l - 8) mod 2 \<noteq> 0 then Err (BadLength l (length buf))
        else let addr_len = (l - 8) div 2 in
          bindR (idx buf 0) (\<lambda>ty. bindR (idx buf 1) (\<lambda>proto.
          bindR (u16be buf 4) (\<lambda>sp. bindR (u16be buf 6) (\<lambda>ep.
          bindR (slice buf 8 (8 + addr_len)) (\<lambda>sa.
          bindR (slice buf (8 + addr_len) (8 + 2 * addr_len)) (\<lambda>ea.
            Ok (\<lparr>ts_ts_type = ty, ts_ip_protocol = proto, ts_start_port = sp, ts_end_port = ep,
                 ts_start_addr = sa, ts_end_addr = ea\<rparr>, l)))))))))"

definition traffic_selector_write :: "traffic_selector \<Rightarrow> bytes" where
  "traffic_selector_write ts =
     [ts_ts_type ts, ts_ip_protocol ts] @
     to_be16 (of_nat (8 + length (ts_start_addr ts) + length (ts_end_addr ts))) @
     to_be16 (ts_start_port ts) @ to_be16 (ts_end_port ts) @ ts_start_addr ts @ ts_end_addr ts"

record traffic_selectors =
  tss_selectors :: "traffic_selector list"

primrec traffic_selectors_loop :: "nat \<Rightarrow> bytes \<Rightarrow> nat \<Rightarrow> traffic_selector list res" where
  "traffic_selectors_loop 0 body off = Ok []"
| "traffic_selectors_loop (Suc k) body off =
     bindR (slice_from body off) (\<lambda>s. bindR (traffic_selector_parse s) (\<lambda>(ts, consumed).
       bindR (traffic_selectors_loop k body (off + consumed)) (\<lambda>tss. Ok (ts # tss))))"

definition traffic_selectors_parse :: "bytes \<Rightarrow> traffic_selectors res" where
  "traffic_selectors_parse body =
     (if length body < 4 then Err (Truncated 4 (length body))
      else bindR (idx body 0) (\<lambda>count. bindR (traffic_selectors_loop (unat count) body 4) (\<lambda>tss.
        Ok \<lparr>tss_selectors = tss\<rparr>)))"

definition traffic_selectors_to_bytes :: "traffic_selectors \<Rightarrow> bytes" where
  "traffic_selectors_to_bytes t =
     [of_nat (length (tss_selectors t))] @ [0, 0, 0] @
     write_all (\<lambda>_. traffic_selector_write) (tss_selectors t)"

section \<open>Configuration\<close>

definition CFG_REQUEST :: u8 where [simp]: "CFG_REQUEST = 1"
definition CFG_REPLY :: u8 where [simp]: "CFG_REPLY = 2"
definition INTERNAL_IP4_ADDRESS :: u16 where [simp]: "INTERNAL_IP4_ADDRESS = 1"
definition INTERNAL_IP4_NETMASK :: u16 where [simp]: "INTERNAL_IP4_NETMASK = 2"
definition INTERNAL_IP4_DNS :: u16 where [simp]: "INTERNAL_IP4_DNS = 3"

record config_attr =
  ca_attr_type :: u16
  ca_value :: bytes

definition config_attr_ipv4 :: "u16 \<Rightarrow> ipv4 \<Rightarrow> config_attr" where
  "config_attr_ipv4 t a = \<lparr>ca_attr_type = t, ca_value = octets a\<rparr>"

definition config_attr_write :: "config_attr \<Rightarrow> bytes" where
  "config_attr_write a =
     to_be16 (ca_attr_type a AND 0x7fff) @ to_be16 (of_nat (length (ca_value a))) @ ca_value a"

definition config_attr_parse :: "bytes \<Rightarrow> (config_attr \<times> nat) res" where
  "config_attr_parse buf =
     (if length buf < 4 then Err (Truncated 4 (length buf))
      else bindR (u16be buf 0) (\<lambda>h. bindR (u16be buf 2) (\<lambda>len.
        if length buf < 4 + unat len then Err (BadLength (4 + unat len) (length buf))
        else bindR (slice buf 4 (4 + unat len)) (\<lambda>v.
          Ok (\<lparr>ca_attr_type = h AND 0x7fff, ca_value = v\<rparr>, 4 + unat len)))))"

record configuration =
  cp_cfg_type :: u8
  cp_attrs :: "config_attr list"

definition reply_ipv4 :: "ipv4 \<Rightarrow> ipv4 option \<Rightarrow> ipv4 option \<Rightarrow> configuration" where
  "reply_ipv4 addr netmask dns =
     \<lparr>cp_cfg_type = CFG_REPLY,
      cp_attrs = [config_attr_ipv4 INTERNAL_IP4_ADDRESS addr] @
        (case netmask of Some m \<Rightarrow> [config_attr_ipv4 INTERNAL_IP4_NETMASK m] | None \<Rightarrow> []) @
        (case dns of Some d \<Rightarrow> [config_attr_ipv4 INTERNAL_IP4_DNS d] | None \<Rightarrow> [])\<rparr>"

definition request_ipv4 :: configuration where
  "request_ipv4 = \<lparr>cp_cfg_type = CFG_REQUEST,
     cp_attrs = [\<lparr>ca_attr_type = INTERNAL_IP4_ADDRESS, ca_value = []\<rparr>]\<rparr>"

definition configuration_to_bytes :: "configuration \<Rightarrow> bytes" where
  "configuration_to_bytes c =
     [cp_cfg_type c] @ [0, 0, 0] @ write_all (\<lambda>_. config_attr_write) (cp_attrs c)"

lemma config_attr_parse_consumed: "config_attr_parse buf = Ok (a, n) \<Longrightarrow> 4 \<le> n \<and> n \<le> length buf"
  by (auto simp: config_attr_parse_def res_iff split: if_splits)

function configuration_loop :: "bytes \<Rightarrow> nat \<Rightarrow> config_attr list res" where
  "configuration_loop body off =
     (if off < length body then
        bindR (slice_from body off) (\<lambda>s. bindR (config_attr_parse s) (\<lambda>(a, consumed).
          bindR (configuration_loop body (off + consumed)) (\<lambda>as. Ok (a # as))))
      else Ok [])"
  by pat_completeness auto
termination
  by (relation "measure (\<lambda>(body, off). length body - off)")
    (auto simp: res_iff dest!: config_attr_parse_consumed)

declare configuration_loop.simps [simp del]

definition configuration_parse :: "bytes \<Rightarrow> configuration res" where
  "configuration_parse body =
     (if length body < 4 then Err (Truncated 4 (length body))
      else bindR (idx body 0) (\<lambda>t. bindR (configuration_loop body 4) (\<lambda>as.
        Ok \<lparr>cp_cfg_type = t, cp_attrs = as\<rparr>)))"

definition assigned_ipv4 :: "configuration \<Rightarrow> ipv4 option" where
  "assigned_ipv4 c =
     map_option (\<lambda>a. Ipv4 (ca_value a ! 0) (ca_value a ! 1) (ca_value a ! 2) (ca_value a ! 3))
       (find (\<lambda>a. ca_attr_type a = INTERNAL_IP4_ADDRESS \<and> length (ca_value a) = 4) (cp_attrs c))"

section \<open>Notify, Delete, certificates\<close>

definition INVALID_KE_PAYLOAD :: u16 where [simp]: "INVALID_KE_PAYLOAD = 17"
definition NAT_DETECTION_SOURCE_IP :: u16 where [simp]: "NAT_DETECTION_SOURCE_IP = 16388"
definition NAT_DETECTION_DESTINATION_IP :: u16 where [simp]: "NAT_DETECTION_DESTINATION_IP = 16389"
definition COOKIE :: u16 where [simp]: "COOKIE = 16390"
definition REKEY_SA :: u16 where [simp]: "REKEY_SA = 16393"
definition MOBIKE_SUPPORTED :: u16 where [simp]: "MOBIKE_SUPPORTED = 16396"
definition UPDATE_SA_ADDRESSES :: u16 where [simp]: "UPDATE_SA_ADDRESSES = 16400"
definition SIGNATURE_HASH_ALGORITHMS :: u16 where [simp]: "SIGNATURE_HASH_ALGORITHMS = 16431"
definition SHA2_256 :: u16 where [simp]: "SHA2_256 = 2"
definition X509_SIGNATURE :: u8 where [simp]: "X509_SIGNATURE = 4"

record notify =
  nt_protocol_id :: u8
  nt_spi :: bytes
  nt_notify_type :: u16
  nt_data :: bytes

definition notify_status :: "u16 \<Rightarrow> bytes \<Rightarrow> notify" where
  "notify_status t d = \<lparr>nt_protocol_id = 0, nt_spi = [], nt_notify_type = t, nt_data = d\<rparr>"

definition notify_is_error :: "notify \<Rightarrow> bool" where
  "notify_is_error n \<longleftrightarrow> nt_notify_type n < 16384"

definition notify_parse :: "bytes \<Rightarrow> notify res" where
  "notify_parse body =
     (if length body < 4 then Err (Truncated 4 (length body))
      else bindR (idx body 1) (\<lambda>sz.
        let spi_size = unat sz in
        if length body < 4 + spi_size then Err (BadLength (4 + spi_size) (length body))
        else bindR (idx body 0) (\<lambda>proto. bindR (slice body 4 (4 + spi_size)) (\<lambda>spi.
          bindR (u16be body 2) (\<lambda>t. bindR (slice_from body (4 + spi_size)) (\<lambda>d.
          Ok \<lparr>nt_protocol_id = proto, nt_spi = spi, nt_notify_type = t, nt_data = d\<rparr>))))))"

definition notify_to_bytes :: "notify \<Rightarrow> bytes" where
  "notify_to_bytes n = [nt_protocol_id n, of_nat (length (nt_spi n))] @ to_be16 (nt_notify_type n) @
     nt_spi n @ nt_data n"

record delete =
  de_protocol_id :: u8
  de_spis :: "u32 list"

definition delete_ike_sa :: delete where
  "delete_ike_sa = \<lparr>de_protocol_id = PROTO_IKE, de_spis = []\<rparr>"

definition delete_esp :: "u32 list \<Rightarrow> delete" where
  "delete_esp spis = \<lparr>de_protocol_id = PROTO_ESP, de_spis = spis\<rparr>"

text \<open>The loop \<open>for i in 0..num\<close> that reads the SPIs, with \<open>k\<close> iterations left.\<close>

primrec delete_spis_loop :: "nat \<Rightarrow> bytes \<Rightarrow> nat \<Rightarrow> u32 list res" where
  "delete_spis_loop 0 body i = Ok []"
| "delete_spis_loop (Suc k) body i =
     bindR (slice body (4 + i * 4) (8 + i * 4)) (\<lambda>s.
       bindR (delete_spis_loop k body (i + 1)) (\<lambda>spis. Ok (from_be32 s # spis)))"

definition delete_parse :: "bytes \<Rightarrow> delete res" where
  "delete_parse body =
     (if length body < 4 then Err (Truncated 4 (length body))
      else bindR (idx body 0) (\<lambda>proto. bindR (idx body 1) (\<lambda>sz. bindR (u16be body 2) (\<lambda>n.
        let num = unat n in
        if sz = 0 then Ok \<lparr>de_protocol_id = proto, de_spis = []\<rparr>
        else if sz = 4 then
          (if length body < 4 + num * 4 then Err (BadLength (4 + num * 4) (length body))
           else bindR (delete_spis_loop num body 0) (\<lambda>spis.
             Ok \<lparr>de_protocol_id = proto, de_spis = spis\<rparr>))
        else Err (Crypto ''unsupported Delete SPI size'')))))"

definition delete_to_bytes :: "delete \<Rightarrow> bytes" where
  "delete_to_bytes d =
     [de_protocol_id d, if de_protocol_id d = PROTO_IKE then 0 else 4] @
     to_be16 (of_nat (length (de_spis d))) @ concat (map to_be32 (de_spis d))"

record certificate =
  ce_encoding :: u8
  ce_data :: bytes

definition certificate_x509 :: "bytes \<Rightarrow> certificate" where
  "certificate_x509 der = \<lparr>ce_encoding = X509_SIGNATURE, ce_data = der\<rparr>"

definition certificate_parse :: "bytes \<Rightarrow> certificate res" where
  "certificate_parse body = (case body of
     [] \<Rightarrow> Err (Truncated 1 0)
   | e # _ \<Rightarrow> bindR (slice_from body 1) (\<lambda>d. Ok \<lparr>ce_encoding = e, ce_data = d\<rparr>))"

definition certificate_to_bytes :: "certificate \<Rightarrow> bytes" where
  "certificate_to_bytes c = [ce_encoding c] @ ce_data c"

text \<open>\<open>chunks_exact(n)\<close>: the full chunks of length \<open>n > 0\<close>; a shorter remainder is dropped.\<close>

function chunks_exact :: "nat \<Rightarrow> 'a list \<Rightarrow> 'a list list" where
  "chunks_exact n xs =
     (if n = 0 \<or> length xs < n then [] else take n xs # chunks_exact n (drop n xs))"
  by pat_completeness auto
termination by (relation "measure (\<lambda>(n, xs). length xs)") auto

declare chunks_exact.simps [simp del]

record cert_request =
  cr_encoding :: u8
  cr_ca_hashes :: "bytes list"

definition cert_request_x509 :: "bytes list \<Rightarrow> cert_request" where
  "cert_request_x509 hs = \<lparr>cr_encoding = X509_SIGNATURE, cr_ca_hashes = hs\<rparr>"

definition cert_request_parse :: "bytes \<Rightarrow> cert_request res" where
  "cert_request_parse body = (case body of
     [] \<Rightarrow> Err (Truncated 1 0)
   | e # _ \<Rightarrow> bindR (slice_from body 1) (\<lambda>rest.
       if length rest mod 20 \<noteq> 0 then Err (BadLength (length rest) (length rest))
       else Ok \<lparr>cr_encoding = e, cr_ca_hashes = chunks_exact 20 rest\<rparr>))"

definition cert_request_to_bytes :: "cert_request \<Rightarrow> bytes" where
  "cert_request_to_bytes c = [cr_encoding c] @ concat (cr_ca_hashes c)"

section \<open>The SA codec\<close>

lemma find_key_length_not_Panic: "find_key_length_loop attrs kl \<noteq> Panic"
proof (induction attrs kl rule: find_key_length_loop.induct)
  case (1 attrs kl)
  then show ?case
    by (subst find_key_length_loop.simps) (auto simp: res_iff Let_def split: if_splits)
qed

lemma find_key_length_attrs: "find_key_length (transform_attrs t) = Ok (tr_key_length t)"
proof (cases "tr_key_length t")
  case (Some kl)
  have h: "from_be16 128 32782 = 0x800e" by (simp add: from_be16_def)
  have "find_key_length_loop (to_be16 0x800e @ to_be16 kl) None = Ok (Some kl)"
    by (simp add: find_key_length_loop.simps to_be16_def h)
  with Some show ?thesis by (simp add: find_key_length_def transform_attrs_def)
qed (simp add: find_key_length_def transform_attrs_def find_key_length_loop.simps)

lemma length_transform_attrs: "length (transform_attrs t) \<le> 4"
  by (simp add: transform_attrs_def split: option.splits)

interpretation transform: item_codec transform_write transform_parse "\<lambda>_. True"
proof
  fix t :: transform and l rest
  have "unat (of_nat (8 + length (transform_attrs t)) :: u16) = 8 + length (transform_attrs t)"
    using length_transform_attrs[of t] by (intro unat_of_nat16) simp
  then show "transform_parse (transform_write l t @ rest) = Ok (t, length (transform_write l t))"
    by (simp add: transform_parse_def transform_write_def to_be16_def Let_def find_key_length_attrs
        del: of_nat_add of_nat_numeral)
next
  fix bs t n assume "transform_parse bs = Ok (t, n)"
  then show "0 < n \<and> n \<le> length bs"
    by (auto simp: transform_parse_def Let_def res_iff split: if_splits)
next
  fix bs show "transform_parse bs \<noteq> Panic"
    using find_key_length_not_Panic
    by (auto simp: transform_parse_def Let_def find_key_length_def res_iff)
qed

interpretation transforms: count_loop transform_write transform_parse "\<lambda>_. True" proposal_transforms
  by unfold_locales simp_all

definition proposal_wf :: "proposal \<Rightarrow> bool" where
  "proposal_wf p \<longleftrightarrow> length (pr_spi p) < 256 \<and> length (pr_transforms p) < 256"

lemma length_transform_write: "length (transform_write l t) \<le> 12"
  using length_transform_attrs[of t] by (simp add: transform_write_def Let_def)

lemma length_write_transforms: "length (write_all transform_write ts) \<le> 12 * length ts"
proof (induction ts)
  case (Cons t ts)
  then show ?case using length_transform_write[of "ts = []" t] by simp
qed simp

interpretation proposal: item_codec proposal_write proposal_parse proposal_wf
proof
  fix p l rest assume wf: "proposal_wf p"
  let ?w = "write_all transform_write (pr_transforms p)"
  let ?len = "8 + length (pr_spi p) + length ?w"
  have "length ?w \<le> 12 * 255"
    using length_write_transforms[of "pr_transforms p"] wf by (simp add: proposal_wf_def)
  then have len: "unat (of_nat ?len :: u16) = ?len"
    using wf by (intro unat_of_nat16) (simp add: proposal_wf_def)
  define pre where "pre = [if l then 0 else 2, 0 :: u8] @ to_be16 (of_nat ?len) @
    [pr_num p, pr_protocol_id p, of_nat (length (pr_spi p)), of_nat (length (pr_transforms p))] @ pr_spi p"
  have pre: "length pre = 8 + length (pr_spi p)" by (simp add: pre_def)
  have eq: "proposal_write l p = pre @ ?w" by (simp add: pre_def proposal_write_def Let_def)
  have "proposal_transforms (length (pr_transforms p)) (pre @ ?w @ rest) (length pre) ?len =
      Ok (pr_transforms p)"
    by (rule transforms.cloop_write_all) (simp_all add: pre)
  then have "proposal_transforms (length (pr_transforms p)) (pre @ ?w @ rest) (8 + length (pr_spi p)) ?len =
      Ok (pr_transforms p)"
    by (simp add: pre)
  with len wf show "proposal_parse (proposal_write l p @ rest) = Ok (p, length (proposal_write l p))"
    unfolding eq append_assoc
    by (simp add: proposal_parse_def pre proposal_wf_def Let_def del: of_nat_add of_nat_numeral)
       (simp add: pre_def to_be16_def del: of_nat_add of_nat_numeral)
next
  fix bs p n assume "proposal_parse bs = Ok (p, n)"
  then show "0 < n \<and> n \<le> length bs" using proposal_parse_consumed by fastforce
next
  fix bs show "proposal_parse bs \<noteq> Panic"
    using transforms.cloop_not_Panic
    by (auto simp: proposal_parse_def Let_def res_iff)
qed

interpretation proposals: item_loop proposal_write proposal_parse proposal_wf sa_proposals_loop
  by unfold_locales (rule sa_proposals_loop.simps)

definition sa_wf :: "security_association \<Rightarrow> bool" where
  "sa_wf sa \<longleftrightarrow> (\<forall>p \<in> set (sa_proposals sa). proposal_wf p)"

interpretation sa: body_codec security_association_to_bytes security_association_parse sa_wf
proof
  fix x assume "sa_wf x"
  then show "security_association_parse (security_association_to_bytes x) = Ok x"
    using proposals.loop_write_all[of "sa_proposals x" "[]"]
    by (simp add: sa_wf_def security_association_parse_def security_association_to_bytes_def)
next
  fix bs show "security_association_parse bs \<noteq> Panic"
    using proposals.loop_not_Panic by (auto simp: security_association_parse_def res_iff)
qed

section \<open>The other codecs\<close>

interpretation ke: body_codec key_exchange_to_bytes key_exchange_parse "\<lambda>_. True"
  by unfold_locales
    (auto simp: key_exchange_parse_def key_exchange_to_bytes_def to_be16_def res_iff)

interpretation nonce: body_codec nonce_to_bytes "\<lambda>b. Ok (nonce_parse b)" "\<lambda>_. True"
  by unfold_locales (simp_all add: nonce_to_bytes_def nonce_parse_def)

interpretation ident: body_codec identification_to_bytes identification_parse "\<lambda>_. True"
  by unfold_locales (auto simp: identification_parse_def identification_to_bytes_def res_iff)

interpretation auth: body_codec authentication_to_bytes authentication_parse "\<lambda>_. True"
  by unfold_locales (auto simp: authentication_parse_def authentication_to_bytes_def res_iff)

definition ts_wf :: "traffic_selector \<Rightarrow> bool" where
  "ts_wf ts \<longleftrightarrow> length (ts_start_addr ts) = length (ts_end_addr ts) \<and>
     8 + 2 * length (ts_start_addr ts) < 65536"

interpretation ts: item_codec "\<lambda>_. traffic_selector_write" traffic_selector_parse ts_wf
proof
  fix t :: traffic_selector and l :: bool and rest assume wf: "ts_wf t"
  let ?n = "length (ts_start_addr t)"
  have "unat (of_nat (8 + ?n + ?n) :: u16) = 8 + ?n + ?n"
    using wf by (intro unat_of_nat16) (simp add: ts_wf_def)
  with wf show "traffic_selector_parse (traffic_selector_write t @ rest) =
      Ok (t, length (traffic_selector_write t))"
    by (simp add: traffic_selector_parse_def traffic_selector_write_def ts_wf_def to_be16_def Let_def
        flip: mult_2 del: of_nat_add of_nat_numeral)
next
  fix bs t n assume "traffic_selector_parse bs = Ok (t, n)"
  then show "0 < n \<and> n \<le> length bs"
    by (auto simp: traffic_selector_parse_def Let_def res_iff split: if_splits)
next
  fix bs show "traffic_selector_parse bs \<noteq> Panic"
    by (auto simp: traffic_selector_parse_def Let_def res_iff)
qed

interpretation selectors: count_loop "\<lambda>_. traffic_selector_write" traffic_selector_parse ts_wf
    "\<lambda>k buf off e. traffic_selectors_loop k (take e buf) off"
  by unfold_locales (simp_all add: slice_take)

definition tss_wf :: "traffic_selectors \<Rightarrow> bool" where
  "tss_wf t \<longleftrightarrow> length (tss_selectors t) < 256 \<and> (\<forall>ts \<in> set (tss_selectors t). ts_wf ts)"

interpretation tss: body_codec traffic_selectors_to_bytes traffic_selectors_parse tss_wf
proof
  fix t :: traffic_selectors assume wf: "tss_wf t"
  let ?w = "write_all (\<lambda>_. traffic_selector_write) (tss_selectors t)"
  have "traffic_selectors_loop (length (tss_selectors t))
      ([of_nat (length (tss_selectors t)), 0, 0, 0] @ ?w) 4 = Ok (tss_selectors t)"
    using wf selectors.cloop_write_all[of "tss_selectors t" "[of_nat (length (tss_selectors t)), 0, 0, 0]"
        "4 + length ?w" "[]"]
    by (simp add: tss_wf_def eval_nat_numeral)
  with wf show "traffic_selectors_parse (traffic_selectors_to_bytes t) = Ok t"
    by (simp add: traffic_selectors_parse_def traffic_selectors_to_bytes_def tss_wf_def)
next
  fix bs show "traffic_selectors_parse bs \<noteq> Panic"
    using selectors.cloop_not_Panic[of 4 "length bs" bs]
    by (auto simp: traffic_selectors_parse_def res_iff)
qed

definition config_attr_wf :: "config_attr \<Rightarrow> bool" where
  "config_attr_wf a \<longleftrightarrow> ca_attr_type a AND 0x7fff = ca_attr_type a \<and> length (ca_value a) < 65536"

interpretation cattr: item_codec "\<lambda>_. config_attr_write" config_attr_parse config_attr_wf
proof
  fix a :: config_attr and l :: bool and rest assume wf: "config_attr_wf a"
  then have "unat (of_nat (length (ca_value a)) :: u16) = length (ca_value a)"
    by (intro unat_of_nat16) (simp add: config_attr_wf_def)
  with wf show "config_attr_parse (config_attr_write a @ rest) = Ok (a, length (config_attr_write a))"
    by (simp add: config_attr_parse_def config_attr_write_def config_attr_wf_def to_be16_def
        del: of_nat_add of_nat_numeral)
next
  fix bs a n assume "config_attr_parse bs = Ok (a, n)"
  then show "0 < n \<and> n \<le> length bs" using config_attr_parse_consumed by fastforce
next
  fix bs show "config_attr_parse bs \<noteq> Panic"
    by (auto simp: config_attr_parse_def res_iff)
qed

interpretation cattrs: item_loop "\<lambda>_. config_attr_write" config_attr_parse config_attr_wf configuration_loop
  by unfold_locales (rule configuration_loop.simps)

definition configuration_wf :: "configuration \<Rightarrow> bool" where
  "configuration_wf c \<longleftrightarrow> (\<forall>a \<in> set (cp_attrs c). config_attr_wf a)"

interpretation cp: body_codec configuration_to_bytes configuration_parse configuration_wf
proof
  fix c assume "configuration_wf c"
  then show "configuration_parse (configuration_to_bytes c) = Ok c"
    using cattrs.loop_write_all[of "cp_attrs c" "[cp_cfg_type c, 0, 0, 0]"]
    by (simp add: configuration_wf_def configuration_parse_def configuration_to_bytes_def
        eval_nat_numeral)
next
  fix bs show "configuration_parse bs \<noteq> Panic"
    using cattrs.loop_not_Panic by (auto simp: configuration_parse_def res_iff)
qed

definition notify_wf :: "notify \<Rightarrow> bool" where
  "notify_wf n \<longleftrightarrow> length (nt_spi n) < 256"

interpretation notif: body_codec notify_to_bytes notify_parse notify_wf
  by unfold_locales
    (auto simp: notify_parse_def notify_to_bytes_def notify_wf_def to_be16_def Let_def res_iff)

text \<open>
  A Delete for the IKE SA carries no SPIs; with other protocols each SPI is four bytes.
\<close>

definition delete_wf :: "delete \<Rightarrow> bool" where
  "delete_wf d \<longleftrightarrow> length (de_spis d) < 65536 \<and> (de_protocol_id d = PROTO_IKE \<longrightarrow> de_spis d = [])"

lemma length_concat_be32 [simp]: "length (concat (map to_be32 spis)) = 4 * length spis"
  by (induction spis) auto

lemma delete_spis_loop_write:
  "length pre = 4 + i * 4 \<Longrightarrow>
     delete_spis_loop (length spis) (pre @ concat (map to_be32 spis)) i = Ok spis"
proof (induction spis arbitrary: pre i)
  case (Cons s spis)
  have "delete_spis_loop (length spis) ((pre @ to_be32 s) @ concat (map to_be32 spis)) (i + 1) = Ok spis"
    using Cons.prems by (intro Cons.IH) simp
  then show ?case using Cons.prems by simp
qed simp

lemma delete_spis_loop_not_Panic: "4 + (i + k) * 4 \<le> length body \<Longrightarrow> delete_spis_loop k body i \<noteq> Panic"
  by (induction k arbitrary: i) (auto simp: res_iff)

interpretation del: body_codec delete_to_bytes delete_parse delete_wf
proof
  fix d assume wf: "delete_wf d"
  then have len: "unat (of_nat (length (de_spis d)) :: u16) = length (de_spis d)"
    by (intro unat_of_nat16) (simp add: delete_wf_def)
  show "delete_parse (delete_to_bytes d) = Ok d"
    using wf len delete_spis_loop_write[of "take 4 (delete_to_bytes d)" 0 "de_spis d"]
    by (cases "de_protocol_id d = PROTO_IKE")
      (auto simp: delete_parse_def delete_to_bytes_def delete_wf_def to_be16_def Let_def)
next
  fix bs show "delete_parse bs \<noteq> Panic"
    using delete_spis_loop_not_Panic[of 0 _ bs] by (auto simp: delete_parse_def Let_def res_iff)
qed

interpretation cert: body_codec certificate_to_bytes certificate_parse "\<lambda>_. True"
  by unfold_locales
    (auto simp: certificate_parse_def certificate_to_bytes_def res_iff split: list.splits)

lemma chunks_exact_concat:
  "0 < n \<Longrightarrow> \<forall>h \<in> set hs. length h = n \<Longrightarrow> chunks_exact n (concat hs) = hs"
  by (induction hs) (subst chunks_exact.simps, simp)+

lemma length_concat_const: "\<forall>h \<in> set hs. length h = n \<Longrightarrow> length (concat hs) = n * length hs"
  by (induction hs) auto

definition cert_request_wf :: "cert_request \<Rightarrow> bool" where
  "cert_request_wf c \<longleftrightarrow> (\<forall>h \<in> set (cr_ca_hashes c). length h = 20)"

interpretation certreq: body_codec cert_request_to_bytes cert_request_parse cert_request_wf
proof
  fix c assume wf: "cert_request_wf c"
  then have "length (concat (cr_ca_hashes c)) = 20 * length (cr_ca_hashes c)"
    "chunks_exact 20 (concat (cr_ca_hashes c)) = cr_ca_hashes c"
    by (simp_all only: cert_request_wf_def length_concat_const chunks_exact_concat zero_less_numeral)
  then show "cert_request_parse (cert_request_to_bytes c) = Ok c"
    by (simp add: cert_request_parse_def cert_request_to_bytes_def del: length_concat)
next
  fix bs show "cert_request_parse bs \<noteq> Panic"
    by (auto simp: cert_request_parse_def res_iff split: list.splits)
qed

section \<open>Properties\<close>

lemmas parsers_not_Panic [simp] =
  sa.dec_total ke.dec_total ident.dec_total auth.dec_total tss.dec_total cp.dec_total
  notif.dec_total del.dec_total cert.dec_total certreq.dec_total

lemmas body_roundtrips [simp] =
  sa.dec_enc ke.dec_enc[OF TrueI] ident.dec_enc[OF TrueI] auth.dec_enc[OF TrueI] tss.dec_enc
  cp.dec_enc notif.dec_enc del.dec_enc cert.dec_enc[OF TrueI] certreq.dec_enc

text \<open>
  No payload parser panics, whatever bytes the peer sends: every index and slice it takes is
  in range.
\<close>
theorem payload_parsers_total:
  "security_association_parse bs \<noteq> Panic \<and> key_exchange_parse bs \<noteq> Panic \<and>
   identification_parse bs \<noteq> Panic \<and> authentication_parse bs \<noteq> Panic \<and>
   traffic_selectors_parse bs \<noteq> Panic \<and> configuration_parse bs \<noteq> Panic \<and>
   notify_parse bs \<noteq> Panic \<and> delete_parse bs \<noteq> Panic \<and>
   certificate_parse bs \<noteq> Panic \<and> cert_request_parse bs \<noteq> Panic"
  by simp

text \<open>
  C26. A Security Association whose proposals have at most 255 transforms and SPIs of at most 255
  bytes is read back from its wire form, nested substructures, key-length attributes and
  last-substructure markers included.
\<close>
theorem security_association_roundtrip:
  "sa_wf sa \<Longrightarrow> security_association_parse (security_association_to_bytes sa) = Ok sa"
  by simp

theorem security_association_roundtrip_witness:
  "security_association_parse (security_association_to_bytes
     \<lparr>sa_proposals = [\<lparr>pr_num = 1, pr_protocol_id = PROTO_ESP, pr_spi = [1, 2, 3, 4],
        pr_transforms = [\<lparr>tr_type = TT_ENCR, tr_id = AES_GCM_16, tr_key_length = Some 256\<rparr>,
          \<lparr>tr_type = TT_ESN, tr_id = ESN_NONE, tr_key_length = None\<rparr>]\<rparr>]\<rparr>) =
   Ok \<lparr>sa_proposals = [\<lparr>pr_num = 1, pr_protocol_id = PROTO_ESP, pr_spi = [1, 2, 3, 4],
        pr_transforms = [\<lparr>tr_type = TT_ENCR, tr_id = AES_GCM_16, tr_key_length = Some 256\<rparr>,
          \<lparr>tr_type = TT_ESN, tr_id = ESN_NONE, tr_key_length = None\<rparr>]\<rparr>]\<rparr>"
  by (rule security_association_roundtrip) (simp add: sa_wf_def proposal_wf_def)

text \<open>
  Traffic selectors, configuration, notify, delete and certificate-request bodies that fit
  their length and count fields are read back from their wire form.
\<close>
theorem counted_bodies_roundtrip:
  assumes "tss_wf t" "configuration_wf c" "notify_wf n" "delete_wf d" "cert_request_wf r"
  shows "traffic_selectors_parse (traffic_selectors_to_bytes t) = Ok t \<and>
    configuration_parse (configuration_to_bytes c) = Ok c \<and>
    notify_parse (notify_to_bytes n) = Ok n \<and>
    delete_parse (delete_to_bytes d) = Ok d \<and>
    cert_request_parse (cert_request_to_bytes r) = Ok r"
  using assms by simp

theorem counted_bodies_roundtrip_witness:
  "traffic_selectors_parse (traffic_selectors_to_bytes \<lparr>tss_selectors = [ipv4_any]\<rparr>) =
     Ok \<lparr>tss_selectors = [ipv4_any]\<rparr> \<and>
   configuration_parse (configuration_to_bytes request_ipv4) = Ok request_ipv4 \<and>
   notify_parse (notify_to_bytes (notify_status COOKIE [1, 2])) = Ok (notify_status COOKIE [1, 2]) \<and>
   delete_parse (delete_to_bytes (delete_esp [7, 8])) = Ok (delete_esp [7, 8]) \<and>
   cert_request_parse (cert_request_to_bytes (cert_request_x509 [])) = Ok (cert_request_x509 [])"
  by (rule counted_bodies_roundtrip)
    (simp_all add: tss_wf_def ts_wf_def ipv4_any_def configuration_wf_def request_ipv4_def
      config_attr_wf_def notify_wf_def notify_status_def delete_wf_def delete_esp_def
      cert_request_wf_def cert_request_x509_def)

end
