(* ===== verification/Primitives.thy ===== *)
theory Primitives
  imports Prelude "HOL-Library.Stream"
begin

text \<open>
  What the program takes from outside: the cryptographic crates and the randomness.

  \<^item> \<open>primitives\<close> has one field per operation of the crates \<open>hmac\<close>, \<open>sha1\<close>, \<open>sha2\<close>, \<open>md4\<close>,
    \<open>des\<close>, \<open>x25519-dalek\<close>, \<open>num-bigint-dig\<close>, \<open>aes-gcm\<close> and \<open>cbc\<close> that the sources call. It is
    an argument \<open>C\<close> of every definition that uses one. A Rust array \<open>[u8; n]\<close> that a crate
    returns is a word of \<open>8 n\<close> bits, read as bytes by \<open>be_encode n\<close>.
  \<^item> The laws below (\<open>gcm_correct\<close>, \<open>x25519_correct\<close>, \<open>modpow_correct\<close>, \<open>cbc_correct\<close>) state
    their documented behaviour; properties that need one have it as a hypothesis.
    \<open>toy_primitives\<close> satisfies all of them and serves the witnesses.
  \<^item> \<open>src/src/entropy.rs\<close>: the trait \<open>Entropy\<close> is its method \<open>fill\<close>, a function from the state
    and the length to the bytes and the new state. \<open>SeedEntropy\<close> is SplitMix64;
    \<open>OsEntropy\<close> holds the bytes that the device \<open>/dev/urandom\<close> has still to give, a stream, since
    reading the device does not end. The locale \<open>entropy\<close> is the trait's contract.
\<close>

unbundle bit_operations_syntax

section \<open>The cryptographic crates\<close>

record primitives =
  hmac_sha256 :: "bytes \<Rightarrow> bytes \<Rightarrow> 256 word"        \<comment> \<open>key, data\<close>
  hmac_sha1 :: "bytes \<Rightarrow> bytes \<Rightarrow> 160 word"          \<comment> \<open>key, data\<close>
  sha256 :: "bytes \<Rightarrow> 256 word"
  sha1 :: "bytes \<Rightarrow> 160 word"
  md4 :: "bytes \<Rightarrow> 128 word"
  des_block :: "bytes \<Rightarrow> bytes \<Rightarrow> 64 word"           \<comment> \<open>8-byte key, block\<close>
  x25519_base :: "bytes \<Rightarrow> 256 word"                \<comment> \<open>private scalar\<close>
  x25519_dh :: "bytes \<Rightarrow> bytes \<Rightarrow> 256 word"           \<comment> \<open>private scalar, peer's public key\<close>
  modpow :: "nat \<Rightarrow> nat \<Rightarrow> nat \<Rightarrow> nat"               \<comment> \<open>base, exponent, modulus\<close>
  gcm_key_ok :: "bytes \<Rightarrow> bool"
  gcm_encrypt :: "bytes \<Rightarrow> bytes \<Rightarrow> bytes \<Rightarrow> bytes \<Rightarrow> bytes option"  \<comment> \<open>key, nonce, aad, message\<close>
  gcm_decrypt :: "bytes \<Rightarrow> bytes \<Rightarrow> bytes \<Rightarrow> bytes \<Rightarrow> bytes option"
  cbc_key_ok :: "bytes \<Rightarrow> bytes \<Rightarrow> bool"             \<comment> \<open>key, iv\<close>
  cbc_encrypt :: "bytes \<Rightarrow> bytes \<Rightarrow> bytes \<Rightarrow> bytes"    \<comment> \<open>key, iv, aligned data\<close>
  cbc_decrypt :: "bytes \<Rightarrow> bytes \<Rightarrow> bytes \<Rightarrow> bytes option"

text \<open>
  AES-256-GCM: a 32-byte key is accepted; up to the mode's limits a message encrypts to its
  length plus the 16-byte tag and decrypts to itself under the same nonce and associated data.
\<close>

definition GCM_MAX :: nat where "GCM_MAX = 2 ^ 36"

definition gcm_correct :: "primitives \<Rightarrow> bool" where
  "gcm_correct C \<longleftrightarrow>
     (\<forall>k. length k = 32 \<longrightarrow> gcm_key_ok C k) \<and>
     (\<forall>k n a m. length k = 32 \<longrightarrow> length n = 12 \<longrightarrow> length a \<le> GCM_MAX \<longrightarrow> length m \<le> GCM_MAX \<longrightarrow>
        (\<exists>c. gcm_encrypt C k n a m = Some c \<and> length c = length m + 16 \<and>
             gcm_decrypt C k n a c = Some m))"

text \<open>X25519: the two parties compute the same secret (RFC 7748, section 6.1).\<close>

definition x25519_correct :: "primitives \<Rightarrow> bool" where
  "x25519_correct C \<longleftrightarrow>
     (\<forall>a b. length a = 32 \<longrightarrow> length b = 32 \<longrightarrow>
        x25519_dh C a (be_encode 32 (x25519_base C b)) = x25519_dh C b (be_encode 32 (x25519_base C a)))"

definition modpow_correct :: "primitives \<Rightarrow> bool" where
  "modpow_correct C \<longleftrightarrow> (\<forall>b e m. 0 < m \<longrightarrow> modpow C b e m = b ^ e mod m)"

text \<open>AES-256-CBC without padding on whole blocks.\<close>

definition cbc_correct :: "primitives \<Rightarrow> bool" where
  "cbc_correct C \<longleftrightarrow>
     (\<forall>k iv. length k = 32 \<longrightarrow> length iv = 16 \<longrightarrow> cbc_key_ok C k iv) \<and>
     (\<forall>k iv m. length k = 32 \<longrightarrow> length iv = 16 \<longrightarrow> length m mod 16 = 0 \<longrightarrow>
        length (cbc_encrypt C k iv m) = length m \<and>
        cbc_decrypt C k iv (cbc_encrypt C k iv m) = Some m)"

lemma gcm_correct_ok: "gcm_correct C \<Longrightarrow> length k = 32 \<Longrightarrow> gcm_key_ok C k"
  by (simp add: gcm_correct_def)

lemma gcm_correctE:
  assumes "gcm_correct C" "length k = 32" "length n = 12" "length a \<le> GCM_MAX" "length m \<le> GCM_MAX"
  obtains c where "gcm_encrypt C k n a m = Some c" "length c = length m + 16"
    "gcm_decrypt C k n a c = Some m"
  using assms unfolding gcm_correct_def by blast

lemma GCM_MAX_ge [simp]: "n \<le> 2 ^ 36 \<Longrightarrow> n \<le> GCM_MAX"
  by (simp add: GCM_MAX_def)

text \<open>
  An instance that satisfies the laws. It is no cryptography: hashes fold the bytes, the cipher
  appends a tag computed from the key, nonce and associated data.
\<close>

definition toy_hash :: "bytes \<Rightarrow> 'a::len word" where
  "toy_hash bs = foldl (\<lambda>h b. 31 * h + ucast b + 1) 7 bs"

definition toy_tag :: "bytes \<Rightarrow> bytes \<Rightarrow> bytes \<Rightarrow> bytes \<Rightarrow> bytes" where
  "toy_tag k n a m = be_encode 16 (toy_hash (k @ n @ a @ m) :: 128 word)"

definition toy_primitives :: primitives where
  "toy_primitives = \<lparr>
     hmac_sha256 = (\<lambda>k d. toy_hash (k @ d)), hmac_sha1 = (\<lambda>k d. toy_hash (k @ d)),
     sha256 = toy_hash, sha1 = toy_hash, md4 = toy_hash,
     des_block = (\<lambda>k d. toy_hash (k @ d)),
     x25519_base = (\<lambda>a. be_decode a),
     x25519_dh = (\<lambda>a b. be_decode a * be_decode b),
     modpow = (\<lambda>b e m. b ^ e mod m),
     gcm_key_ok = (\<lambda>k. length k = 32),
     gcm_encrypt = (\<lambda>k n a m. Some (m @ toy_tag k n a m)),
     gcm_decrypt = (\<lambda>k n a c. let m = take (length c - 16) c in
       if 16 \<le> length c \<and> drop (length c - 16) c = toy_tag k n a m then Some m else None),
     cbc_key_ok = (\<lambda>k iv. length k = 32 \<and> length iv = 16),
     cbc_encrypt = (\<lambda>k iv m. m),
     cbc_decrypt = (\<lambda>k iv c. Some c)\<rparr>"

lemma length_toy_tag [simp]: "length (toy_tag k n a m) = 16"
  by (simp add: toy_tag_def)

lemma toy_gcm_correct: "gcm_correct toy_primitives"
  by (simp add: gcm_correct_def toy_primitives_def Let_def)

lemma toy_x25519_correct: "x25519_correct toy_primitives"
proof -
  have "be_decode (be_encode 32 (w :: 256 word)) = w" for w
    by (simp add: be_decode_be_encode_take take_bit_word_eq_self)
  then show ?thesis
    by (simp add: x25519_correct_def toy_primitives_def mult.commute)
qed

lemma toy_modpow_correct: "modpow_correct toy_primitives"
  by (simp add: modpow_correct_def toy_primitives_def)

lemma toy_cbc_correct: "cbc_correct toy_primitives"
  by (simp add: cbc_correct_def toy_primitives_def)

section \<open>Entropy\<close>

type_synonym 'e filler = "'e \<Rightarrow> nat \<Rightarrow> bytes \<times> 'e"

definition next_u64 :: "'e filler \<Rightarrow> 'e \<Rightarrow> u64 \<times> 'e" where
  "next_u64 fill e = (let (b, e') = fill e 8 in (from_be64 b, e'))"

definition next_array32 :: "'e filler \<Rightarrow> 'e \<Rightarrow> bytes \<times> 'e" where
  "next_array32 fill e = fill e 32"

text \<open>The device is what opening it gives: nothing when it cannot be opened.\<close>

record os_entropy =
  oe_file :: "u8 stream"

definition os_entropy_new :: "u8 stream option \<Rightarrow> os_entropy option" where
  "os_entropy_new device = map_option (\<lambda>bs. \<lparr>oe_file = bs\<rparr>) device"

definition os_entropy_fill :: "os_entropy \<Rightarrow> nat \<Rightarrow> bytes \<times> os_entropy" where
  "os_entropy_fill e n = (stake n (oe_file e), e\<lparr>oe_file := sdrop n (oe_file e)\<rparr>)"

record seed_entropy =
  se_state :: u64

definition seed_entropy_new :: "u64 \<Rightarrow> seed_entropy" where
  "seed_entropy_new seed = \<lparr>se_state = seed\<rparr>"

definition seed_entropy_next :: "seed_entropy \<Rightarrow> u64 \<times> seed_entropy" where
  "seed_entropy_next s =
     (let st = se_state s + 0x9E3779B97F4A7C15;
          z0 = st;
          z1 = (z0 XOR drop_bit 30 z0) * 0xBF58476D1CE4E5B9;
          z2 = (z1 XOR drop_bit 27 z1) * 0x94D049BB133111EB
      in (z2 XOR drop_bit 31 z2, s\<lparr>se_state := st\<rparr>))"

text \<open>\<open>for chunk in out.chunks_mut(8)\<close> over an output of \<open>n\<close> bytes.\<close>

function seed_entropy_fill :: "seed_entropy \<Rightarrow> nat \<Rightarrow> bytes \<times> seed_entropy" where
  "seed_entropy_fill s n =
     (if n = 0 then ([], s)
      else let (z, s') = seed_entropy_next s;
               chunk = min 8 n;
               (rest, s'') = seed_entropy_fill s' (n - chunk)
           in (take chunk (to_be64 z) @ rest, s''))"
  by pat_completeness auto
termination by (relation "measure snd") auto

declare seed_entropy_fill.simps [simp del]

locale entropy =
  fixes fill :: "'e filler"
  assumes fill_length: "length (fst (fill e n)) = n"
begin

lemma next_array32_length: "next_array32 fill e = (b, e') \<Longrightarrow> length b = 32"
  using fill_length[of e 32] by (simp add: next_array32_def)

lemma fill_length_eq: "fill e n = (b, e') \<Longrightarrow> length b = n"
  using fill_length[of e n] by simp

end

lemma length_seed_entropy_fill: "length (fst (seed_entropy_fill s n)) = n"
proof (induction s n rule: seed_entropy_fill.induct)
  case (1 s n)
  show ?case
  proof (cases "n = 0")
    case True
    then show ?thesis by (simp add: seed_entropy_fill.simps)
  next
    case False
    obtain z s' where z: "seed_entropy_next s = (z, s')" by (cases "seed_entropy_next s")
    then show ?thesis
      using 1[OF False refl z[symmetric] refl] False
      by (subst seed_entropy_fill.simps) (auto simp: Let_def split: prod.splits)
  qed
qed

interpretation seed: entropy seed_entropy_fill
  by unfold_locales (rule length_seed_entropy_fill)

interpretation os: entropy os_entropy_fill
  by unfold_locales (simp add: os_entropy_fill_def)

text \<open>No byte of the device is used twice: two reads in a row are one longer read.\<close>

lemma os_entropy_fill_twice:
  assumes "os_entropy_fill e m = (xs, e1)" "os_entropy_fill e1 n = (ys, e2)"
  shows "os_entropy_fill e (m + n) = (xs @ ys, e2)"
  using assms by (auto simp: os_entropy_fill_def stake_add[symmetric])

end
