(* ===== verification/Crypto.thy ===== *)
theory Crypto
  imports Primitives
begin

text \<open>
  The key schedule of \<open>src/src/crypto.rs\<close>: the Diffie-Hellman groups, the PRF, \<open>prf+\<close>, and the
  derivation of the IKE SA keys, the rekeyed IKE SA keys and the CHILD SA keys.

  The lemmas show that both parties of a group compute the same secret, that \<open>prf+\<close> is the stream
  of RFC 7296 section 2.13 cut to the wanted length, and that the derivations never run out of
  key material and return keys of the negotiated lengths.
\<close>

section \<open>Diffie-Hellman\<close>

definition x25519_public :: "primitives \<Rightarrow> bytes \<Rightarrow> bytes" where
  "x25519_public C priv = be_encode 32 (x25519_base C priv)"

definition x25519_shared :: "primitives \<Rightarrow> bytes \<Rightarrow> bytes \<Rightarrow> bytes" where
  "x25519_shared C priv peer_public = be_encode 32 (x25519_dh C priv peer_public)"

definition MODP_1024_PRIME :: bytes where
  "MODP_1024_PRIME = [
     0xFF, 0xFF, 0xFF, 0xFF, 0xFF, 0xFF, 0xFF, 0xFF, 0xC9, 0x0F, 0xDA, 0xA2, 0x21, 0x68, 0xC2, 0x34,
     0xC4, 0xC6, 0x62, 0x8B, 0x80, 0xDC, 0x1C, 0xD1, 0x29, 0x02, 0x4E, 0x08, 0x8A, 0x67, 0xCC, 0x74,
     0x02, 0x0B, 0xBE, 0xA6, 0x3B, 0x13, 0x9B, 0x22, 0x51, 0x4A, 0x08, 0x79, 0x8E, 0x34, 0x04, 0xDD,
     0xEF, 0x95, 0x19, 0xB3, 0xCD, 0x3A, 0x43, 0x1B, 0x30, 0x2B, 0x0A, 0x6D, 0xF2, 0x5F, 0x14, 0x37,
     0x4F, 0xE1, 0x35, 0x6D, 0x6D, 0x51, 0xC2, 0x45, 0xE4, 0x85, 0xB5, 0x76, 0x62, 0x5E, 0x7E, 0xC6,
     0xF4, 0x4C, 0x42, 0xE9, 0xA6, 0x37, 0xED, 0x6B, 0x0B, 0xFF, 0x5C, 0xB6, 0xF4, 0x06, 0xB7, 0xED,
     0xEE, 0x38, 0x6B, 0xFB, 0x5A, 0x89, 0x9F, 0xA5, 0xAE, 0x9F, 0x24, 0x11, 0x7C, 0x4B, 0x1F, 0xE6,
     0x49, 0x28, 0x66, 0x51, 0xEC, 0xE6, 0x53, 0x81, 0xFF, 0xFF, 0xFF, 0xFF, 0xFF, 0xFF, 0xFF, 0xFF]"

definition MODP_2048_PRIME :: bytes where
  "MODP_2048_PRIME = [
     0xFF, 0xFF, 0xFF, 0xFF, 0xFF, 0xFF, 0xFF, 0xFF, 0xC9, 0x0F, 0xDA, 0xA2, 0x21, 0x68, 0xC2, 0x34,
     0xC4, 0xC6, 0x62, 0x8B, 0x80, 0xDC, 0x1C, 0xD1, 0x29, 0x02, 0x4E, 0x08, 0x8A, 0x67, 0xCC, 0x74,
     0x02, 0x0B, 0xBE, 0xA6, 0x3B, 0x13, 0x9B, 0x22, 0x51, 0x4A, 0x08, 0x79, 0x8E, 0x34, 0x04, 0xDD,
     0xEF, 0x95, 0x19, 0xB3, 0xCD, 0x3A, 0x43, 0x1B, 0x30, 0x2B, 0x0A, 0x6D, 0xF2, 0x5F, 0x14, 0x37,
     0x4F, 0xE1, 0x35, 0x6D, 0x6D, 0x51, 0xC2, 0x45, 0xE4, 0x85, 0xB5, 0x76, 0x62, 0x5E, 0x7E, 0xC6,
     0xF4, 0x4C, 0x42, 0xE9, 0xA6, 0x37, 0xED, 0x6B, 0x0B, 0xFF, 0x5C, 0xB6, 0xF4, 0x06, 0xB7, 0xED,
     0xEE, 0x38, 0x6B, 0xFB, 0x5A, 0x89, 0x9F, 0xA5, 0xAE, 0x9F, 0x24, 0x11, 0x7C, 0x4B, 0x1F, 0xE6,
     0x49, 0x28, 0x66, 0x51, 0xEC, 0xE4, 0x5B, 0x3D, 0xC2, 0x00, 0x7C, 0xB8, 0xA1, 0x63, 0xBF, 0x05,
     0x98, 0xDA, 0x48, 0x36, 0x1C, 0x55, 0xD3, 0x9A, 0x69, 0x16, 0x3F, 0xA8, 0xFD, 0x24, 0xCF, 0x5F,
     0x83, 0x65, 0x5D, 0x23, 0xDC, 0xA3, 0xAD, 0x96, 0x1C, 0x62, 0xF3, 0x56, 0x20, 0x85, 0x52, 0xBB,
     0x9E, 0xD5, 0x29, 0x07, 0x70, 0x96, 0x96, 0x6D, 0x67, 0x0C, 0x35, 0x4E, 0x4A, 0xBC, 0x98, 0x04,
     0xF1, 0x74, 0x6C, 0x08, 0xCA, 0x18, 0x21, 0x7C, 0x32, 0x90, 0x5E, 0x46, 0x2E, 0x36, 0xCE, 0x3B,
     0xE3, 0x9E, 0x77, 0x2C, 0x18, 0x0E, 0x86, 0x03, 0x9B, 0x27, 0x83, 0xA2, 0xEC, 0x07, 0xA2, 0x8F,
     0xB5, 0xC5, 0x5D, 0xF0, 0x6F, 0x4C, 0x52, 0xC9, 0xDE, 0x2B, 0xCB, 0xF6, 0x95, 0x58, 0x17, 0x18,
     0x39, 0x95, 0x49, 0x7C, 0xEA, 0x95, 0x6A, 0xE5, 0x15, 0xD2, 0x26, 0x18, 0x98, 0xFA, 0x05, 0x10,
     0x15, 0x72, 0x8E, 0x5A, 0x8A, 0xAC, 0xAA, 0x68, 0xFF, 0xFF, 0xFF, 0xFF, 0xFF, 0xFF, 0xFF, 0xFF]"

text \<open>
  \<open>BigUint\<close> values are natural numbers; \<open>be_nat\<close> and \<open>nat_be\<close> are \<open>from_bytes_be\<close> and
  \<open>to_bytes_be\<close> (the latter without leading zeros, and a single zero byte for zero).
\<close>

definition be_nat :: "bytes \<Rightarrow> nat" where
  "be_nat bs = foldl (\<lambda>acc b. acc * 256 + unat b) 0 bs"

fun nat_be :: "nat \<Rightarrow> bytes" where
  "nat_be n = (if n < 256 then [of_nat n] else nat_be (n div 256) @ [of_nat (n mod 256)])"

declare nat_be.simps [simp del]

definition modexp :: "primitives \<Rightarrow> bytes \<Rightarrow> bytes \<Rightarrow> bytes \<Rightarrow> bytes res" where
  "modexp C base e prime =
     (let v = nat_be (modpow C (be_nat base) (be_nat e) (be_nat prime)) in
      if length prime < length v then Panic
      else Ok (replicate (length prime - length v) 0 @ v))"

definition modp_public :: "primitives \<Rightarrow> bytes \<Rightarrow> bytes \<Rightarrow> bytes res" where
  "modp_public C e prime = modexp C [2] e prime"

definition modp_shared :: "primitives \<Rightarrow> bytes \<Rightarrow> bytes \<Rightarrow> bytes \<Rightarrow> bytes res" where
  "modp_shared C e peer_public prime = modexp C peer_public e prime"

definition modp_valid :: "bytes \<Rightarrow> bytes \<Rightarrow> bool" where
  "modp_valid y prime \<longleftrightarrow> 1 < be_nat y \<and> be_nat y < be_nat prime - 1"

datatype dh_group = X25519 | Modp1024 | Modp2048

definition dh_group_from_transform_id :: "u16 \<Rightarrow> dh_group option" where
  "dh_group_from_transform_id i =
     (if i = 31 then Some X25519 else if i = 2 then Some Modp1024
      else if i = 14 then Some Modp2048 else None)"

fun dh_group_transform_id :: "dh_group \<Rightarrow> u16" where
  "dh_group_transform_id X25519 = 31"
| "dh_group_transform_id Modp1024 = 2"
| "dh_group_transform_id Modp2048 = 14"

fun public_len :: "dh_group \<Rightarrow> nat" where
  "public_len X25519 = 32"
| "public_len Modp1024 = 128"
| "public_len Modp2048 = 256"

fun dh_public :: "primitives \<Rightarrow> dh_group \<Rightarrow> bytes \<Rightarrow> bytes res" where
  "dh_public C X25519 priv = bindR (slice_to priv 32) (\<lambda>s. Ok (x25519_public C s))"
| "dh_public C Modp1024 priv = modp_public C priv MODP_1024_PRIME"
| "dh_public C Modp2048 priv = modp_public C priv MODP_2048_PRIME"

definition dh_shared :: "primitives \<Rightarrow> dh_group \<Rightarrow> bytes \<Rightarrow> bytes \<Rightarrow> bytes res" where
  "dh_shared C g priv y =
     (if length y \<noteq> public_len g then Err (BadKeyExchange (dh_group_transform_id g) (length y))
      else case g of
        X25519 \<Rightarrow> bindR (slice_to priv 32) (\<lambda>s. Ok (x25519_shared C s y))
      | Modp1024 \<Rightarrow>
          if \<not> modp_valid y MODP_1024_PRIME then Err (BadKeyExchange 2 (length y))
          else modp_shared C priv y MODP_1024_PRIME
      | Modp2048 \<Rightarrow>
          if \<not> modp_valid y MODP_2048_PRIME then Err (BadKeyExchange 14 (length y))
          else modp_shared C priv y MODP_2048_PRIME)"

section \<open>The PRF and the key schedule\<close>

definition prf_hmac :: "primitives \<Rightarrow> bytes \<Rightarrow> bytes \<Rightarrow> bytes" where
  "prf_hmac C key dat = be_encode 32 (hmac_sha256 C key dat)"

lemma length_prf_hmac [simp]: "length (prf_hmac C key dat) = 32"
  by (simp add: prf_hmac_def)

definition saturating_add1 :: "u8 \<Rightarrow> u8" where
  "saturating_add1 c = (if c = 255 then 255 else c + 1)"

text \<open>The loop of \<open>prf_plus\<close> with its variables \<open>out\<close>, \<open>prev\<close> and \<open>counter\<close>.\<close>

function prf_plus_loop :: "primitives \<Rightarrow> bytes \<Rightarrow> bytes \<Rightarrow> nat \<Rightarrow> bytes \<Rightarrow> bytes \<Rightarrow> u8 \<Rightarrow> bytes" where
  "prf_plus_loop C key seed out_len out prev counter =
     (if length out < out_len then
        let block = prf_hmac C key (prev @ seed @ [counter])
        in prf_plus_loop C key seed out_len (out @ block) block (saturating_add1 counter)
      else out)"
  by pat_completeness auto
termination
  by (relation "measure (\<lambda>(C, key, seed, out_len, out, _). out_len - length out)") auto

declare prf_plus_loop.simps [simp del]

definition prf_plus :: "primitives \<Rightarrow> bytes \<Rightarrow> bytes \<Rightarrow> nat \<Rightarrow> bytes" where
  "prf_plus C key seed out_len = take out_len (prf_plus_loop C key seed out_len [] [] 1)"

record key_lengths =
  kl_prf :: nat
  kl_integ :: nat
  kl_encr :: nat

record session_keys =
  sk_d :: bytes
  sk_ai :: bytes
  sk_ar :: bytes
  sk_ei :: bytes
  sk_er :: bytes
  sk_pi :: bytes
  sk_pr :: bytes

text \<open>The closure \<open>take\<close>: the next \<open>n\<close> bytes of the key material, and the advanced offset.\<close>

definition take_key :: "bytes \<Rightarrow> nat \<Rightarrow> nat \<Rightarrow> (bytes \<times> nat) res" where
  "take_key km off n = bindR (slice km off (off + n)) (\<lambda>s. Ok (s, off + n))"

definition cut_session_keys :: "bytes \<Rightarrow> key_lengths \<Rightarrow> session_keys res" where
  "cut_session_keys km l =
     bindR (take_key km 0 (kl_prf l)) (\<lambda>(d, off).
     bindR (take_key km off (kl_integ l)) (\<lambda>(ai, off).
     bindR (take_key km off (kl_integ l)) (\<lambda>(ar, off).
     bindR (take_key km off (kl_encr l)) (\<lambda>(ei, off).
     bindR (take_key km off (kl_encr l)) (\<lambda>(er, off).
     bindR (take_key km off (kl_prf l)) (\<lambda>(pi, off).
     bindR (take_key km off (kl_prf l)) (\<lambda>(pr, off).
       Ok \<lparr>sk_d = d, sk_ai = ai, sk_ar = ar, sk_ei = ei, sk_er = er, sk_pi = pi, sk_pr = pr\<rparr>)))))))"

definition derive_session_keys ::
    "primitives \<Rightarrow> bytes \<Rightarrow> bytes \<Rightarrow> bytes \<Rightarrow> u64 \<Rightarrow> u64 \<Rightarrow> key_lengths \<Rightarrow> session_keys res" where
  "derive_session_keys C shared_secret ni nr spi_i spi_r l =
     (let nonces = ni @ nr;
          skeyseed = prf_hmac C nonces shared_secret;
          seed = nonces @ to_be64 spi_i @ to_be64 spi_r;
          total = 3 * kl_prf l + 2 * kl_integ l + 2 * kl_encr l;
          km = prf_plus C skeyseed seed total
      in cut_session_keys km l)"

definition derive_rekey_session_keys ::
    "primitives \<Rightarrow> bytes \<Rightarrow> bytes \<Rightarrow> bytes \<Rightarrow> bytes \<Rightarrow> u64 \<Rightarrow> u64 \<Rightarrow> key_lengths \<Rightarrow> session_keys res"
  where
  "derive_rekey_session_keys C sk_d_old shared_secret ni nr spi_i spi_r l =
     (let dat = shared_secret @ ni @ nr;
          skeyseed = prf_hmac C sk_d_old dat;
          seed = ni @ nr @ to_be64 spi_i @ to_be64 spi_r;
          total = 3 * kl_prf l + 2 * kl_integ l + 2 * kl_encr l;
          km = prf_plus C skeyseed seed total
      in cut_session_keys km l)"

record child_keys =
  ck_encr_i :: bytes
  ck_integ_i :: bytes
  ck_encr_r :: bytes
  ck_integ_r :: bytes

definition derive_child_keys :: "primitives \<Rightarrow> bytes \<Rightarrow> bytes \<Rightarrow> bytes \<Rightarrow> nat \<Rightarrow> nat \<Rightarrow> child_keys res"
  where
  "derive_child_keys C skd ni nr encr_len integ_len =
     (let seed = ni @ nr;
          km = prf_plus C skd seed (2 * (encr_len + integ_len))
      in bindR (take_key km 0 encr_len) (\<lambda>(ei, off).
         bindR (take_key km off integ_len) (\<lambda>(ii, off).
         bindR (take_key km off encr_len) (\<lambda>(er, off).
         bindR (take_key km off integ_len) (\<lambda>(ir, off).
           Ok \<lparr>ck_encr_i = ei, ck_integ_i = ii, ck_encr_r = er, ck_integ_r = ir\<rparr>)))))"

section \<open>Agreement of the Diffie-Hellman groups\<close>

lemma dh_group_transform_id_inverse [simp]:
  "dh_group_from_transform_id (dh_group_transform_id g) = Some g"
  by (cases g) (simp_all add: dh_group_from_transform_id_def)

lemma dh_group_from_transform_id_Some:
  "dh_group_from_transform_id i = Some g \<longleftrightarrow> i = dh_group_transform_id g"
  by (cases g) (auto simp: dh_group_from_transform_id_def)

lemma be_nat_snoc [simp]: "be_nat (bs @ [b]) = be_nat bs * 256 + unat b"
  by (simp add: be_nat_def)

lemma be_nat_Nil [simp]: "be_nat [] = 0"
  by (simp add: be_nat_def)

lemma unat_byte: "unat (b :: u8) < 256"
  using unsigned_less[of b, where 'a = nat] by simp

lemma be_nat_less: "be_nat bs < 256 ^ length bs"
proof (induction bs rule: rev_induct)
  case (snoc b bs)
  have "unat b < 256" by (rule unat_byte)
  then have "be_nat bs * 256 + unat b < (be_nat bs + 1) * 256" by simp
  also have "\<dots> \<le> 256 ^ length bs * 256" using snoc by (intro mult_le_mono1) simp
  finally show ?case by simp
qed simp

lemma be_nat_zeros: "be_nat (replicate n 0 @ bs) = be_nat bs"
proof (induction bs rule: rev_induct)
  case Nil
  then show ?case by (induction n) (simp_all flip: replicate_append_same)
next
  case (snoc b bs)
  then show ?case by (simp flip: append_assoc)
qed

lemma be_nat_nat_be [simp]: "be_nat (nat_be n) = n"
proof (induction n rule: nat_be.induct)
  case (1 n)
  then show ?case
    by (subst nat_be.simps) (auto simp: be_nat_def[of "[_]"])
qed

lemma length_nat_be: "n < 256 ^ k \<Longrightarrow> 0 < k \<Longrightarrow> length (nat_be n) \<le> k"
proof (induction n arbitrary: k rule: nat_be.induct)
  case (1 n)
  show ?case
  proof (cases "n < 256")
    case True
    then show ?thesis using 1 by (simp add: nat_be.simps)
  next
    case False
    then obtain k' where k: "k = Suc k'" "0 < k'" using 1
      by (cases k; cases "k - 1") auto
    have "n div 256 < 256 ^ k'" using 1 k by (simp add: less_mult_imp_div_less mult.commute)
    then show ?thesis using 1(1)[OF False, of k'] False k by (subst nat_be.simps) simp
  qed
qed

lemma be_nat_inj: "length xs = length ys \<Longrightarrow> be_nat xs = be_nat ys \<Longrightarrow> xs = ys"
proof (induction xs arbitrary: ys rule: rev_induct)
  case (snoc x xs)
  then obtain y zs where ys: "ys = zs @ [y]" by (cases ys rule: rev_cases) auto
  have "(be_nat xs * 256 + unat x) div 256 = (be_nat zs * 256 + unat y) div 256"
    "(be_nat xs * 256 + unat x) mod 256 = (be_nat zs * 256 + unat y) mod 256"
    using snoc.prems ys by simp_all
  then have "be_nat xs = be_nat zs" "x = y"
    using unat_byte[of x] unat_byte[of y] by (simp_all add: word_unat_eq_iff)
  then show ?case using snoc ys by simp
qed simp

lemma be_nat_append: "be_nat (xs @ ys) = be_nat xs * 256 ^ length ys + be_nat ys"
proof (induction ys rule: rev_induct)
  case (snoc y ys)
  have "be_nat (xs @ ys @ [y]) = be_nat (xs @ ys) * 256 + unat y"
    by (simp flip: append_assoc)
  then show ?case using snoc by (simp add: algebra_simps)
qed simp

lemma modexp_correct:
  assumes "modpow_correct C" "prime = b # ps" "0 < unat b"
  shows "\<exists>v. modexp C base e prime = Ok v \<and> length v = length prime \<and>
    be_nat v = be_nat base ^ be_nat e mod be_nat prime"
proof -
  let ?v = "be_nat base ^ be_nat e mod be_nat prime"
  have "be_nat [b] = unat b" by (simp add: be_nat_def)
  then have pos: "0 < be_nat prime" using assms be_nat_append[of "[b]" ps] by simp
  then have "?v < 256 ^ length prime"
    using be_nat_less[of prime] by (meson mod_less_divisor order_less_trans)
  then have "length (nat_be ?v) \<le> length prime" using assms by (intro length_nat_be) simp_all
  with pos assms(1) show ?thesis
    by (simp add: modexp_def modpow_correct_def be_nat_zeros Let_def)
qed

fun group_prime :: "dh_group \<Rightarrow> bytes" where
  "group_prime X25519 = []"
| "group_prime Modp1024 = MODP_1024_PRIME"
| "group_prime Modp2048 = MODP_2048_PRIME"

lemma group_prime_head:
  "g \<noteq> X25519 \<Longrightarrow> \<exists>ps. group_prime g = 255 # ps \<and> length (group_prime g) = public_len g"
  by (cases g) (simp_all add: MODP_1024_PRIME_def MODP_2048_PRIME_def)

lemma modp_group_simps:
  "g \<noteq> X25519 \<Longrightarrow> dh_public C g priv = modexp C [2] priv (group_prime g)"
  "g \<noteq> X25519 \<Longrightarrow> dh_shared C g priv y =
     (if length y \<noteq> public_len g then Err (BadKeyExchange (dh_group_transform_id g) (length y))
      else if \<not> modp_valid y (group_prime g) then Err (BadKeyExchange (dh_group_transform_id g) (length y))
      else modexp C y priv (group_prime g))"
  by (cases g; simp add: dh_shared_def modp_public_def modp_shared_def)+

lemma public_len_bound: "public_len g < 1000"
  by (cases g) simp_all

lemma dh_public_ok:
  assumes "modpow_correct C" "32 \<le> length priv"
  shows "\<exists>p. dh_public C g priv = Ok p \<and> length p = public_len g"
proof (cases "g = X25519")
  case True
  then show ?thesis using assms by (simp add: x25519_public_def)
next
  case False
  then obtain ps where "group_prime g = 255 # ps" "length (group_prime g) = public_len g"
    using group_prime_head by blast
  then show ?thesis
    using modexp_correct[OF assms(1), of "group_prime g" 255 ps "[2]" priv] False
    by (auto simp: modp_group_simps)
qed

lemma dh_not_Panic:
  assumes "modpow_correct C" "32 \<le> length priv"
  shows "dh_public C g priv \<noteq> Panic" "dh_shared C g priv y \<noteq> Panic"
proof -
  show "dh_public C g priv \<noteq> Panic" using dh_public_ok[OF assms, of g] by auto
  show "dh_shared C g priv y \<noteq> Panic"
  proof (cases "g = X25519")
    case True
    then show ?thesis using assms(2) by (simp add: dh_shared_def)
  next
    case False
    then obtain ps where "group_prime g = 255 # ps" using group_prime_head by blast
    then show ?thesis
      using modexp_correct[OF assms(1), of "group_prime g" 255 ps y priv] False
      by (auto simp: modp_group_simps)
  qed
qed

lemma modp_agreement:
  assumes C: "modpow_correct C" and g: "g \<noteq> X25519"
    and a: "dh_public C g a = Ok pa" and b: "dh_public C g b = Ok pb"
    and ab: "dh_shared C g a pb = Ok s" and ba: "dh_shared C g b pa = Ok s'"
  shows "s = s'"
proof -
  let ?p = "be_nat (group_prime g)"
  obtain ps where p: "group_prime g = 255 # ps" using group_prime_head[OF g] by blast
  have pub: "be_nat v = be_nat [2] ^ be_nat e mod ?p" if "dh_public C g e = Ok v" for e v
    using modexp_correct[OF C p, of "[2]" e] that g by (auto simp: modp_group_simps)
  have sh: "length v = length (group_prime g) \<and> be_nat v = be_nat y ^ be_nat e mod ?p"
    if "dh_shared C g e y = Ok v" for e y v
    using modexp_correct[OF C p, of y e] that g by (auto simp: modp_group_simps split: if_splits)
  have "be_nat s = be_nat s'"
    using sh[OF ab] sh[OF ba] pub[OF a] pub[OF b]
    by (simp add: power_mod mult.commute flip: power_mult)
  then show ?thesis using sh[OF ab] sh[OF ba] by (intro be_nat_inj) simp_all
qed

lemma dh_agreement:
  assumes "x25519_correct C" "modpow_correct C" "length a = 32" "length b = 32"
    and "dh_public C g a = Ok pa" "dh_public C g b = Ok pb"
    and "dh_shared C g a pb = Ok s" "dh_shared C g b pa = Ok s'"
  shows "s = s'"
proof (cases "g = X25519")
  case True
  have "x25519_dh C a (be_encode 32 (x25519_base C b)) = x25519_dh C b (be_encode 32 (x25519_base C a))"
    using assms(1,3,4) unfolding x25519_correct_def by blast
  then show ?thesis
    using True assms by (auto simp: dh_shared_def x25519_shared_def x25519_public_def)
next
  case False
  then show ?thesis using modp_agreement[of C g a pa b pb s s'] assms by blast
qed

section \<open>The PRF stream\<close>

lemma length_prf_plus_loop:
  "out_len \<le> length (prf_plus_loop C key seed out_len out prev counter)"
  by (induction C key seed out_len out prev counter rule: prf_plus_loop.induct)
    (subst prf_plus_loop.simps, simp add: Let_def)

lemma length_prf_plus [simp]: "length (prf_plus C key seed n) = n"
  using length_prf_plus_loop[of n C key seed "[]" "[]" 1] by (simp add: prf_plus_def)

text \<open>RFC 7296, section 2.13: \<open>T1 = prf(K, S | 1)\<close>, \<open>Tn = prf(K, T(n-1) | S | n)\<close>.\<close>

primrec prf_block :: "primitives \<Rightarrow> bytes \<Rightarrow> bytes \<Rightarrow> nat \<Rightarrow> bytes" where
  "prf_block C key seed 0 = []"
| "prf_block C key seed (Suc n) = prf_hmac C key (prf_block C key seed n @ seed @ [of_nat (Suc n)])"

definition prf_stream :: "primitives \<Rightarrow> bytes \<Rightarrow> bytes \<Rightarrow> nat \<Rightarrow> bytes" where
  "prf_stream C key seed n = concat (map (prf_block C key seed) [1..<Suc n])"

lemma prf_stream_Suc: "prf_stream C key seed (Suc n) = prf_stream C key seed n @ prf_block C key seed (Suc n)"
  by (simp add: prf_stream_def)

lemma length_prf_stream [simp]: "length (prf_stream C key seed n) = 32 * n"
  by (induction n) (simp_all add: prf_stream_Suc, simp add: prf_stream_def)

lemma saturating_add1_of_nat: "i < 255 \<Longrightarrow> saturating_add1 (of_nat i) = of_nat (Suc i)"
  using word_of_nat_eq_iff[where 'a = 8, of i 255] by (auto simp: saturating_add1_def take_bit_nat_eq_self)

lemma prf_plus_loop_stream:
  assumes "i \<le> j" "j \<le> 255" "32 * j < n + 32" "n \<le> 32 * j" "i < j \<Longrightarrow> counter = of_nat (Suc i)"
  shows "prf_plus_loop C key seed n (prf_stream C key seed i) (prf_block C key seed i) counter =
    prf_stream C key seed j"
  using assms
proof (induction "j - i" arbitrary: i counter)
  case 0
  then show ?case by (subst prf_plus_loop.simps) simp
next
  case (Suc k)
  have less: "length (prf_stream C key seed i) < n" using Suc by simp
  have "Suc i < j \<Longrightarrow> saturating_add1 (of_nat (Suc i)) = of_nat (Suc (Suc i))"
    using Suc.prems by (intro saturating_add1_of_nat) simp
  then have "prf_plus_loop C key seed n (prf_stream C key seed (Suc i)) (prf_block C key seed (Suc i))
      (saturating_add1 counter) = prf_stream C key seed j"
    using Suc by (intro Suc.hyps(1)) simp_all
  moreover have "counter = of_nat (Suc i)" using Suc by simp
  ultimately show ?case
    using less by (subst prf_plus_loop.simps) (simp add: Let_def prf_stream_Suc del: of_nat_Suc)
qed

lemma prf_plus_stream:
  assumes "n \<le> 255 * 32"
  shows "prf_plus C key seed n = take n (prf_stream C key seed ((n + 31) div 32))"
proof -
  have "prf_stream C key seed 0 = []" by (simp add: prf_stream_def)
  then show ?thesis
    using prf_plus_loop_stream[of 0 "(n + 31) div 32" n 1 C key seed] assms
    by (simp add: prf_plus_def)
qed

section \<open>The derivations\<close>

lemma take_key_iff:
  "off + n \<le> length km \<Longrightarrow> take_key km off n = Ok (take n (drop off km), off + n)"
  by (simp add: take_key_def)

definition keys_sized :: "key_lengths \<Rightarrow> session_keys \<Rightarrow> bool" where
  "keys_sized l k \<longleftrightarrow> length (sk_d k) = kl_prf l \<and> length (sk_ai k) = kl_integ l \<and>
     length (sk_ar k) = kl_integ l \<and> length (sk_ei k) = kl_encr l \<and> length (sk_er k) = kl_encr l \<and>
     length (sk_pi k) = kl_prf l \<and> length (sk_pr k) = kl_prf l"

lemma split_length:
  "length xs = n + m \<Longrightarrow> \<exists>a b. xs = a @ b \<and> length a = n \<and> length b = m"
  by (rule exI[of _ "take n xs"], rule exI[of _ "drop n xs"]) simp

lemma cut_session_keys_ok:
  assumes "length km = 3 * kl_prf l + 2 * kl_integ l + 2 * kl_encr l"
  shows "\<exists>k. cut_session_keys km l = Ok k \<and> keys_sized l k \<and>
    km = sk_d k @ sk_ai k @ sk_ar k @ sk_ei k @ sk_er k @ sk_pi k @ sk_pr k"
proof -
  have "length km = kl_prf l + (kl_integ l + (kl_integ l + (kl_encr l + (kl_encr l + (kl_prf l + kl_prf l)))))"
    using assms by simp
  then obtain d ai ar ei er pi pr where "km = d @ ai @ ar @ ei @ er @ pi @ pr"
    "length d = kl_prf l" "length ai = kl_integ l" "length ar = kl_integ l" "length ei = kl_encr l"
    "length er = kl_encr l" "length pi = kl_prf l" "length pr = kl_prf l"
    by (metis split_length)
  then show ?thesis by (simp add: cut_session_keys_def take_key_iff keys_sized_def)
qed

lemma derive_session_keys_ok:
  "\<exists>k. derive_session_keys C s ni nr spi_i spi_r l = Ok k \<and> keys_sized l k"
  "\<exists>k. derive_rekey_session_keys C skd s ni nr spi_i spi_r l = Ok k \<and> keys_sized l k"
  unfolding derive_session_keys_def derive_rekey_session_keys_def Let_def
  using cut_session_keys_ok[of _ l] by (meson length_prf_plus)+

lemma derive_child_keys_ok:
  "\<exists>k. derive_child_keys C skd ni nr e i = Ok k \<and> length (ck_encr_i k) = e \<and> length (ck_encr_r k) = e"
  by (simp add: derive_child_keys_def take_key_iff Let_def)

section \<open>Properties\<close>

text \<open>
  Diffie-Hellman agreement: in each of the three groups, from 32-byte private values, when both
  sides accept the other's public value they compute the same secret. For the MODP groups this
  follows from modular arithmetic over the padded big-endian values of the code.
\<close>
theorem dh_group_agreement:
  assumes "x25519_correct C" "modpow_correct C" "length a = 32" "length b = 32"
    and "dh_public C g a = Ok pa" "dh_public C g b = Ok pb"
    and "dh_shared C g a pb = Ok s" "dh_shared C g b pa = Ok s'"
  shows "s = s'"
  using assms by (rule dh_agreement)

lemma x25519_shared_ok:
  "length a = 32 \<Longrightarrow> dh_shared C X25519 a (be_encode 32 w) = Ok (be_encode 32 (x25519_dh C a (be_encode 32 w)))"
  by (simp add: dh_shared_def x25519_shared_def)

theorem dh_group_agreement_witness:
  "dh_shared toy_primitives X25519 (replicate 32 3) (x25519_public toy_primitives (replicate 32 5)) =
   dh_shared toy_primitives X25519 (replicate 32 5) (x25519_public toy_primitives (replicate 32 3))"
proof -
  let ?pub = "\<lambda>v. x25519_public toy_primitives (replicate 32 v)"
  let ?sec = "\<lambda>v w. be_encode 32 (x25519_dh toy_primitives (replicate 32 v) (?pub w))"
  have "dh_public toy_primitives X25519 (replicate 32 v) = Ok (?pub v)" for v by simp
  moreover have "dh_shared toy_primitives X25519 (replicate 32 v) (?pub w) = Ok (?sec v w)" for v w
    by (simp add: x25519_shared_ok x25519_public_def)
  moreover have "?sec 3 5 = ?sec 5 3"
    by (rule dh_group_agreement[OF toy_x25519_correct toy_modpow_correct _ _
        calculation(1) calculation(1) calculation(2) calculation(2)]) simp_all
  ultimately show ?thesis by simp
qed

text \<open>
  C31. \<open>prf+\<close>: for every length up to the RFC's limit of 255 blocks, the loop with its saturating
  8-bit counter returns the first bytes of the stream \<open>T1 | T2 | ...\<close> of RFC 7296 section 2.13,
  and its result always has the wanted length.
\<close>
theorem prf_plus_rfc:
  "length (prf_plus C key seed n) = n \<and>
   (n \<le> 255 * 32 \<longrightarrow> prf_plus C key seed n = take n (prf_stream C key seed ((n + 31) div 32)))"
  using prf_plus_stream by simp

theorem prf_plus_rfc_witness:
  "prf_plus toy_primitives [1] [2] 40 = take 40 (prf_stream toy_primitives [1] [2] 2)"
  using prf_plus_rfc[of toy_primitives "[1]" "[2]" 40] by simp

text \<open>
  C33. The key schedule always succeeds: the derivation of the IKE SA keys cuts the whole \<open>prf+\<close>
  output, in the order of RFC 7296 section 2.14 and with the negotiated lengths.
\<close>
theorem session_keys_layout:
  "\<exists>k. derive_session_keys C s ni nr spi_i spi_r l = Ok k \<and> keys_sized l k \<and>
     prf_plus C (prf_hmac C (ni @ nr) s) (ni @ nr @ to_be64 spi_i @ to_be64 spi_r)
       (3 * kl_prf l + 2 * kl_integ l + 2 * kl_encr l) =
     sk_d k @ sk_ai k @ sk_ar k @ sk_ei k @ sk_er k @ sk_pi k @ sk_pr k"
  unfolding derive_session_keys_def Let_def append_assoc by (rule cut_session_keys_ok) simp

end
