(* ===== verification/Sk.thy ===== *)
theory Sk
  imports Payload Crypto
begin

text \<open>
  The encrypted payload, \<open>src/src/ikev2/sk.rs\<close>, and the AUTH octets, \<open>src/src/ikev2/auth.rs\<close>.

  With a correct AES-GCM the encrypted message opens to the payloads that were sealed; opening
  never panics on any bytes and accepts a message only after the AEAD has verified its
  ciphertext with the whole IKE header and the payload header as associated data.
\<close>

section \<open>AUTH octets\<close>

definition ascii :: "string \<Rightarrow> bytes" where
  "ascii s = map of_char s"

definition KEY_PAD :: bytes where
  "KEY_PAD = ascii ''Key Pad for IKEv2''"

definition signed_octets :: "primitives \<Rightarrow> bytes \<Rightarrow> bytes \<Rightarrow> bytes \<Rightarrow> bytes \<Rightarrow> bytes" where
  "signed_octets C real_message peer_nonce sk_p id_body =
     real_message @ peer_nonce @ prf_hmac C sk_p id_body"

definition initiator_signed_octets :: "primitives \<Rightarrow> bytes \<Rightarrow> bytes \<Rightarrow> bytes \<Rightarrow> bytes \<Rightarrow> bytes" where
  "initiator_signed_octets C real_message_i nr skpi idi_body = signed_octets C real_message_i nr skpi idi_body"

definition responder_signed_octets :: "primitives \<Rightarrow> bytes \<Rightarrow> bytes \<Rightarrow> bytes \<Rightarrow> bytes \<Rightarrow> bytes" where
  "responder_signed_octets C real_message_r ni skpr idr_body = signed_octets C real_message_r ni skpr idr_body"

definition psk_auth :: "primitives \<Rightarrow> bytes \<Rightarrow> bytes \<Rightarrow> bytes" where
  "psk_auth C psk octs = prf_hmac C (prf_hmac C psk KEY_PAD) octs"

section \<open>The SK payload\<close>

definition IV_LEN :: nat where [simp]: "IV_LEN = 8"
definition ICV_LEN :: nat where [simp]: "ICV_LEN = 16"
definition SALT_LEN :: nat where [simp]: "SALT_LEN = 4"
definition AES256_KEY_LEN :: nat where [simp]: "AES256_KEY_LEN = 32"

definition split_key :: "bytes \<Rightarrow> (bytes \<times> bytes) res" where
  "split_key sk_e =
     (if length sk_e \<noteq> AES256_KEY_LEN + SALT_LEN then
        Err (Crypto ''SK_e must be 36 bytes (32-byte AES-256 key + 4-byte GCM salt)'')
      else bindR (slice_to sk_e AES256_KEY_LEN) (\<lambda>k.
           bindR (slice_from sk_e AES256_KEY_LEN) (\<lambda>salt. Ok (k, salt))))"

definition gcm_nonce :: "bytes \<Rightarrow> bytes \<Rightarrow> bytes" where
  "gcm_nonce salt iv = salt @ iv"

text \<open>The cipher object and one call of it, with the error the code reports.\<close>

definition aead_encrypt :: "primitives \<Rightarrow> bytes \<Rightarrow> bytes \<Rightarrow> bytes \<Rightarrow> bytes \<Rightarrow> bytes res" where
  "aead_encrypt C key nonce aad plaintext =
     (if \<not> gcm_key_ok C key then Err (Crypto ''bad AES-256 key length'')
      else ok_or (gcm_encrypt C key nonce aad plaintext) (Crypto ''GCM encryption failed''))"

definition aead_decrypt :: "primitives \<Rightarrow> bytes \<Rightarrow> bytes \<Rightarrow> bytes \<Rightarrow> bytes \<Rightarrow> bytes res" where
  "aead_decrypt C key nonce aad ct =
     (if \<not> gcm_key_ok C key then Err (Crypto ''bad AES-256 key length'')
      else ok_or (gcm_decrypt C key nonce aad ct) BadIntegrity)"

definition gcm_seal :: "primitives \<Rightarrow> bytes \<Rightarrow> bytes \<Rightarrow> bytes \<Rightarrow> bytes \<Rightarrow> bytes res" where
  "gcm_seal C sk_e iv aad plaintext =
     bindR (split_key sk_e) (\<lambda>(key, salt). aead_encrypt C key (gcm_nonce salt iv) aad plaintext)"

definition gcm_open :: "primitives \<Rightarrow> bytes \<Rightarrow> bytes \<Rightarrow> bytes \<Rightarrow> bytes \<Rightarrow> bytes res" where
  "gcm_open C sk_e iv aad ct_and_tag =
     bindR (split_key sk_e) (\<lambda>(key, salt). aead_decrypt C key (gcm_nonce salt iv) aad ct_and_tag)"

definition build_encrypted_gcm ::
    "primitives \<Rightarrow> ike_header \<Rightarrow> payload_type \<Rightarrow> bytes \<Rightarrow> bytes \<Rightarrow> bytes \<Rightarrow> bytes res" where
  "build_encrypted_gcm C header first_inner inner sk_e iv =
     bindR (split_key sk_e) (\<lambda>(key, salt).
       let plaintext = inner @ [0];
           sk_body_len = IV_LEN + length plaintext + ICV_LEN;
           sk_payload_len = 4 + sk_body_len;
           total_len = HEADER_LEN + sk_payload_len;
           header_bytes = ike_header_to_bytes
             (header\<lparr>h_next_payload := PT_Encrypted, h_length := of_nat total_len\<rparr>);
           sk_gen = [payload_type_to_u8 first_inner, 0] @ to_be16 (of_nat sk_payload_len);
           aad = header_bytes @ sk_gen
       in bindR (aead_encrypt C key (gcm_nonce salt iv) aad plaintext) (\<lambda>ct_and_tag.
            Ok (header_bytes @ sk_gen @ iv @ ct_and_tag)))"

text \<open>The Pad Length octet and the padding are removed from a decrypted plaintext.\<close>

definition strip_padding :: "string \<Rightarrow> string \<Rightarrow> bytes \<Rightarrow> bytes res" where
  "strip_padding empty_msg pad_msg plaintext =
     (case plaintext of [] \<Rightarrow> Err (Crypto empty_msg)
      | _ \<Rightarrow> let pad_len = unat (last plaintext) in
          if length plaintext < pad_len + 1 then Err (Crypto pad_msg)
          else slice_to plaintext (length plaintext - 1 - pad_len))"

definition open_encrypted_gcm :: "primitives \<Rightarrow> bytes \<Rightarrow> bytes \<Rightarrow> (payload_type \<times> bytes) res" where
  "open_encrypted_gcm C message sk_e =
     bindR (split_key sk_e) (\<lambda>(key, salt).
     bindR (ike_header_parse message) (\<lambda>header.
       if h_next_payload header \<noteq> PT_Encrypted then Err (MissingPayload ''SK'')
       else bindR (slice_from message HEADER_LEN) (\<lambda>body.
         if length body < 4 then Err (Truncated 4 (length body))
         else bindR (idx body 0) (\<lambda>b0. bindR (u16be body 2) (\<lambda>len.
           let sk_payload_len = unat len in
           if sk_payload_len < 4 + IV_LEN + ICV_LEN \<or> length body < sk_payload_len then
             Err (BadLength sk_payload_len (length body))
           else bindR (slice body 4 sk_payload_len) (\<lambda>sk_body.
             bindR (slice_to sk_body IV_LEN) (\<lambda>iv.
             bindR (slice_from sk_body IV_LEN) (\<lambda>ct_and_tag.
             bindR (slice_to message (HEADER_LEN + 4)) (\<lambda>aad.
             bindR (aead_decrypt C key (gcm_nonce salt iv) aad ct_and_tag) (\<lambda>plaintext.
             bindR (strip_padding ''empty plaintext'' ''pad length exceeds plaintext'' plaintext) (\<lambda>inner.
               Ok (payload_type_from_u8 b0, inner)))))))))))) "

section \<open>Lemmas\<close>

lemma split_key_iff [res_iff]:
  "split_key k = Ok (a, b) \<longleftrightarrow> length k = 36 \<and> a = take 32 k \<and> b = drop 32 k"
  "split_key k \<noteq> Panic"
  by (auto simp: split_key_def)

lemma split_key_ok: "length k = 36 \<Longrightarrow> split_key k = Ok (take 32 k, drop 32 k)"
  by (simp add: split_key_def)

lemma aead_not_Panic [res_iff]: "aead_encrypt C k n a m \<noteq> Panic" "aead_decrypt C k n a m \<noteq> Panic"
  by (simp_all add: aead_encrypt_def aead_decrypt_def res_iff)

lemma aead_decrypt_Ok [res_iff]:
  "aead_decrypt C k n a c = Ok m \<longleftrightarrow> gcm_key_ok C k \<and> gcm_decrypt C k n a c = Some m"
  by (simp add: aead_decrypt_def res_iff)

lemma strip_padding_zero [simp]: "strip_padding e p (m @ [0]) = Ok m"
  by (cases m) (simp_all add: strip_padding_def)

lemma strip_padding_not_Panic [res_iff]: "strip_padding e p m \<noteq> Panic"
  by (auto simp: strip_padding_def Let_def res_iff split: list.split)

lemma strip_padding_prefix:
  "strip_padding e p pt = Ok m \<Longrightarrow> \<exists>pad. pt = m @ pad \<and> 0 < length pad \<and> length pad \<le> 256"
proof -
  assume a: "strip_padding e p pt = Ok m"
  then have "pt \<noteq> []" and m: "m = take (length pt - 1 - unat (last pt)) pt"
    and "unat (last pt) + 1 \<le> length pt"
    by (auto simp: strip_padding_def Let_def res_iff split: list.splits if_splits)
  then show ?thesis
    using unat_byte[of "last pt"] by (intro exI[of _ "drop (length pt - 1 - unat (last pt)) pt"]) auto
qed

lemma build_encrypted_gcm_ok:
  assumes C: "gcm_correct C" and k: "length sk_e = 36" and iv: "length iv = 8"
    and len: "length inner < 65507"
  obtains ct where "build_encrypted_gcm C h t inner sk_e iv = Ok
      (ike_header_to_bytes (h\<lparr>h_next_payload := PT_Encrypted,
          h_length := of_nat (HEADER_LEN + (4 + (8 + (length inner + 1) + 16)))\<rparr>) @
        ([payload_type_to_u8 t, 0] @ to_be16 (of_nat (4 + (8 + (length inner + 1) + 16)))) @ iv @ ct)"
    "length ct = length inner + 17"
    "gcm_decrypt C (take 32 sk_e) (drop 32 sk_e @ iv)
      (ike_header_to_bytes (h\<lparr>h_next_payload := PT_Encrypted,
          h_length := of_nat (HEADER_LEN + (4 + (8 + (length inner + 1) + 16)))\<rparr>) @
        ([payload_type_to_u8 t, 0] @ to_be16 (of_nat (4 + (8 + (length inner + 1) + 16))))) ct =
      Some (inner @ [0])"
proof -
  let ?aad = "ike_header_to_bytes (h\<lparr>h_next_payload := PT_Encrypted,
      h_length := of_nat (HEADER_LEN + (4 + (8 + (length inner + 1) + 16)))\<rparr>) @
    ([payload_type_to_u8 t, 0] @ to_be16 (of_nat (4 + (8 + (length inner + 1) + 16))))"
  obtain ct where ct: "gcm_encrypt C (take 32 sk_e) (drop 32 sk_e @ iv) ?aad (inner @ [0]) = Some ct"
    "length ct = length (inner @ [0]) + 16"
    "gcm_decrypt C (take 32 sk_e) (drop 32 sk_e @ iv) ?aad ct = Some (inner @ [0])"
    by (rule gcm_correctE[OF C, of "take 32 sk_e" "drop 32 sk_e @ iv" ?aad "inner @ [0]"])
      (use k iv len in \<open>simp_all add: HEADER_LEN_def\<close>)
  have "gcm_key_ok C (take 32 sk_e)" using gcm_correct_ok[OF C] k by simp
  then show thesis
    using ct k that
    by (simp add: build_encrypted_gcm_def split_key_ok aead_encrypt_def gcm_nonce_def Let_def
        del: of_nat_add of_nat_Suc of_nat_numeral)
qed

lemma build_encrypted_length:
  assumes "gcm_correct C" "length sk_e = 36" "length iv = 8" "length inner < 65507"
    and "build_encrypted_gcm C h t inner sk_e iv = Ok m"
  shows "length m = length inner + 57"
  by (rule build_encrypted_gcm_ok[OF assms(1-4), of h t]) (use assms(3,5) in \<open>simp add: HEADER_LEN_def\<close>)

lemma open_encrypted_wire:
  assumes "gcm_correct C" "header_wf h" "h_next_payload h = PT_Encrypted"
    and "length sk_e = 36" "length iv = 8" "16 \<le> length ct" "unat len = 12 + length ct"
    and "gcm_decrypt C (take 32 sk_e) (drop 32 sk_e @ iv)
      (ike_header_to_bytes h @ [ty, 0] @ to_be16 len) ct = Some (inner @ [0])"
  shows "open_encrypted_gcm C (ike_header_to_bytes h @ ([ty, 0] @ to_be16 len) @ iv @ ct) sk_e =
    Ok (payload_type_from_u8 ty, inner)"
  using assms gcm_correct_ok[OF assms(1), of "take 32 sk_e"]
  by (simp add: open_encrypted_gcm_def split_key_ok to_be16_def aead_decrypt_def gcm_nonce_def Let_def)

lemma open_build_encrypted:
  assumes "gcm_correct C" "header_wf h" "canonical_pt t" "length sk_e = 36" "length iv = 8"
    and "length inner < 65507"
  obtains m where "build_encrypted_gcm C h t inner sk_e iv = Ok m"
    "open_encrypted_gcm C m sk_e = Ok (t, inner)"
    "ike_header_parse m = Ok (h\<lparr>h_next_payload := PT_Encrypted,
       h_length := of_nat (HEADER_LEN + (4 + (8 + (length inner + 1) + 16)))\<rparr>)"
proof -
  let ?n = "4 + (8 + (length inner + 1) + 16)"
  let ?h = "h\<lparr>h_next_payload := PT_Encrypted, h_length := of_nat (HEADER_LEN + ?n)\<rparr>"
  let ?gen = "[payload_type_to_u8 t, 0] @ to_be16 (of_nat ?n)"
  obtain ct where ct: "build_encrypted_gcm C h t inner sk_e iv =
      Ok (ike_header_to_bytes ?h @ ?gen @ iv @ ct)" "length ct = length inner + 17"
    "gcm_decrypt C (take 32 sk_e) (drop 32 sk_e @ iv) (ike_header_to_bytes ?h @ ?gen) ct = Some (inner @ [0])"
    by (rule build_encrypted_gcm_ok[OF assms(1,4-6), of h t])
  have wf: "header_wf ?h" using assms(2) by (simp add: header_wf_def)
  have n: "unat (of_nat ?n :: u16) = ?n" using assms(6) by (intro unat_of_nat16) simp
  have "open_encrypted_gcm C (ike_header_to_bytes ?h @ ?gen @ iv @ ct) sk_e =
      Ok (payload_type_from_u8 (payload_type_to_u8 t), inner)"
    by (rule open_encrypted_wire[OF assms(1) wf _ assms(4,5)]) (use ct n in simp_all)
  then show thesis
    using that[OF ct(1)] assms(3) ike_header_parse_to_bytes[OF wf] by (simp add: canonical_pt_def)
qed

text \<open>Sealing and opening a whole payload chain.\<close>

lemma encrypted_chain:
  assumes "gcm_correct C" "header_wf h" "chain_wf ps" "length sk_e = 36" "length iv = 8"
    and "length (encode_payload_chain ps) < 65507"
  shows "\<exists>m. build_encrypted_gcm C h (first_payload_type ps) (encode_payload_chain ps) sk_e iv = Ok m \<and>
    open_encrypted_gcm C m sk_e = Ok (first_payload_type ps, encode_payload_chain ps)"
  using open_build_encrypted[OF assms(1,2) canonical_first[OF assms(3)] assms(4-6)] by blast

lemma open_encrypted_gcm_not_Panic [simp]: "open_encrypted_gcm C m k \<noteq> Panic"
  by (auto simp: open_encrypted_gcm_def HEADER_LEN_def Let_def res_iff ike_header_parse_def split: if_splits)

lemma build_encrypted_gcm_not_Panic [simp]: "build_encrypted_gcm C h t inner k iv \<noteq> Panic"
  by (auto simp: build_encrypted_gcm_def Let_def res_iff)

section \<open>Properties\<close>

text \<open>
  The SK payload round trip: with a correct AEAD, a 36-byte key and contents that fit the 16-bit
  payload length, sealing succeeds and the receiver with the same key gets the first payload type
  and the inner chain back, from a message whose header names the encrypted payload.
\<close>
theorem sk_roundtrip:
  assumes "gcm_correct C" "header_wf h" "canonical_pt t" "length sk_e = 36" "length iv = 8"
    and "length inner < 65507"
  shows "\<exists>m. build_encrypted_gcm C h t inner sk_e iv = Ok m \<and>
    open_encrypted_gcm C m sk_e = Ok (t, inner)"
  using open_build_encrypted[OF assms] by blast

theorem sk_roundtrip_witness:
  "\<exists>m. build_encrypted_gcm toy_primitives sample_header PT_Nonce [1, 2, 3] (replicate 36 5) (replicate 8 1) = Ok m \<and>
    open_encrypted_gcm toy_primitives m (replicate 36 5) = Ok (PT_Nonce, [1, 2, 3])"
  by (rule sk_roundtrip[OF toy_gcm_correct sample_header_wf]) simp_all

text \<open>
  C32. Opening is authenticated: it never panics, and it returns an inner chain only when the AEAD
  accepted the ciphertext under the key, the salt and the carried IV with the 28 header bytes and
  the four bytes of the payload header as associated data, and the chain is the decrypted
  plaintext without its padding. A key of another length is refused.
\<close>
theorem sk_open_authenticated:
  "open_encrypted_gcm C m sk_e \<noteq> Panic \<and>
   (\<forall>t inner. open_encrypted_gcm C m sk_e = Ok (t, inner) \<longrightarrow> length sk_e = 36 \<and>
     (\<exists>iv ct pad. length iv = 8 \<and> 16 \<le> length ct \<and>
        take (4 + 8 + length ct) (drop HEADER_LEN m) = take 4 (drop HEADER_LEN m) @ iv @ ct \<and>
        gcm_decrypt C (take 32 sk_e) (drop 32 sk_e @ iv) (take (HEADER_LEN + 4) m) ct = Some (inner @ pad) \<and>
        0 < length pad \<and> length pad \<le> 256))"
proof (intro conjI allI impI)
  fix t inner assume a: "open_encrypted_gcm C m sk_e = Ok (t, inner)"
  then show "length sk_e = 36" by (auto simp: open_encrypted_gcm_def res_iff)
  obtain body where body: "slice_from m HEADER_LEN = Ok body"
    using a by (auto simp: open_encrypted_gcm_def res_iff split: if_splits)
  then have b: "drop HEADER_LEN m = body" by (simp add: res_iff)
  obtain l sk pt where l: "28 \<le> l" "l \<le> length body" and sk: "sk = take (l - 4) (drop 4 body)"
    and pt: "gcm_decrypt C (take 32 sk_e) (drop 32 sk_e @ take 8 sk) (take (HEADER_LEN + 4) m) (drop 8 sk) = Some pt"
    and st: "strip_padding ''empty plaintext'' ''pad length exceeds plaintext'' pt = Ok inner"
    using a body by (auto simp: open_encrypted_gcm_def Let_def res_iff gcm_nonce_def not_less split: if_splits)
  obtain pad where pad: "pt = inner @ pad" "0 < length pad" "length pad \<le> 256"
    using strip_padding_prefix[OF st] by blast
  have "take l body = take 4 body @ sk" using l take_add[of 4 "l - 4" body] by (simp add: sk)
  moreover have "4 + 8 + length (drop 8 sk) = l" using l by (simp add: sk)
  ultimately have "take (4 + 8 + length (drop 8 sk)) body = take 4 body @ take 8 sk @ drop 8 sk"
    by simp
  moreover have "length (take 8 sk) = 8" "16 \<le> length (drop 8 sk)" using l by (simp_all add: sk)
  ultimately show "\<exists>iv ct pad. length iv = 8 \<and> 16 \<le> length ct \<and>
      take (4 + 8 + length ct) (drop HEADER_LEN m) = take 4 (drop HEADER_LEN m) @ iv @ ct \<and>
      gcm_decrypt C (take 32 sk_e) (drop 32 sk_e @ iv) (take (HEADER_LEN + 4) m) ct = Some (inner @ pad) \<and>
      0 < length pad \<and> length pad \<le> 256"
    unfolding b using pt pad by blast
qed simp

theorem sk_open_authenticated_witness:
  "\<exists>m iv ct pad. build_encrypted_gcm toy_primitives sample_header PT_Nonce [1, 2, 3] (replicate 36 5) (replicate 8 1) = Ok m \<and>
     open_encrypted_gcm toy_primitives m (replicate 36 5) = Ok (PT_Nonce, [1, 2, 3]) \<and>
     length iv = 8 \<and> take (4 + 8 + length ct) (drop HEADER_LEN m) = take 4 (drop HEADER_LEN m) @ iv @ ct \<and>
     gcm_decrypt toy_primitives (replicate 32 5) (replicate 4 5 @ iv) (take (HEADER_LEN + 4) m) ct = Some ([1, 2, 3] @ pad) \<and>
     0 < length pad"
proof -
  obtain m where m: "build_encrypted_gcm toy_primitives sample_header PT_Nonce [1, 2, 3] (replicate 36 5) (replicate 8 1) = Ok m"
    "open_encrypted_gcm toy_primitives m (replicate 36 5) = Ok (PT_Nonce, [1, 2, 3])"
    by (rule open_build_encrypted[OF toy_gcm_correct sample_header_wf, of PT_Nonce "replicate 36 5" "replicate 8 1" "[1, 2, 3]"]) simp_all
  from sk_open_authenticated[of toy_primitives m "replicate 36 5", THEN conjunct2, rule_format, OF m(2)]
  obtain iv ct pad where "length iv = 8" "take (4 + 8 + length ct) (drop HEADER_LEN m) = take 4 (drop HEADER_LEN m) @ iv @ ct"
    "gcm_decrypt toy_primitives (take 32 (replicate 36 5)) (drop 32 (replicate 36 5) @ iv) (take (HEADER_LEN + 4) m) ct = Some ([1, 2, 3] @ pad)"
    "0 < length pad"
    by blast
  then show ?thesis
    by (intro exI[of _ m] exI[of _ iv] exI[of _ ct] exI[of _ pad]) (use m in simp)
qed

end
