(* ===== verification/Fragment.thy ===== *)
theory Fragment
  imports Sk "HOL-Library.Multiset"
begin

text \<open>
  IKE message fragmentation, \<open>src/src/ikev2/fragment.rs\<close>: the fragments of a built message, in
  whatever order they arrive, reassemble to the inner chain. Fragment numbers and the total are
  16-bit, so the round trip needs at most 65535 fragments.
\<close>

definition SKF_EXTRA :: nat where [simp]: "SKF_EXTRA = 4"
definition SKF_MIN_BODY :: nat where [simp]: "SKF_MIN_BODY = SKF_EXTRA + IV_LEN + ICV_LEN"

text \<open>\<open>chunks(n)\<close>: pieces of length \<open>n\<close>, the last one possibly shorter.\<close>

function chunks :: "nat \<Rightarrow> 'a list \<Rightarrow> 'a list list" where
  "chunks n xs = (if n = 0 \<or> xs = [] then [] else take n xs # chunks n (drop n xs))"
  by pat_completeness auto
termination by (relation "measure (\<lambda>(n, xs). length xs)") auto

declare chunks.simps [simp del]

definition fragment_aad :: "ike_header \<Rightarrow> payload_type \<Rightarrow> u16 \<Rightarrow> u16 \<Rightarrow> nat \<Rightarrow> bytes \<times> bytes \<times> bytes" where
  "fragment_aad header first_inner frag_num ntotal plaintext_len =
     (let skf_payload_len = 4 + SKF_EXTRA + IV_LEN + plaintext_len + ICV_LEN;
          total_len = HEADER_LEN + skf_payload_len;
          hdr_bytes = ike_header_to_bytes
            (header\<lparr>h_next_payload := PT_EncryptedFragment, h_length := of_nat total_len\<rparr>);
          skf_gen = [if frag_num = 1 then payload_type_to_u8 first_inner else 0, 0] @
            to_be16 (of_nat skf_payload_len)
      in (hdr_bytes, skf_gen, hdr_bytes @ skf_gen @ to_be16 frag_num @ to_be16 ntotal))"

definition build_fragment ::
    "primitives \<Rightarrow> ike_header \<Rightarrow> payload_type \<Rightarrow> bytes \<Rightarrow> u64 \<Rightarrow> u16 \<Rightarrow> nat \<times> bytes \<Rightarrow> bytes res" where
  "build_fragment C header first_inner sk_e iv_base ntotal ic =
     (case ic of (i, chunk) \<Rightarrow>
      let frag_num = of_nat (i + 1) :: u16;
          iv = to_be64 (iv_base + ucast frag_num);
          plaintext = chunk @ [0]
      in case fragment_aad header first_inner frag_num ntotal (length plaintext) of
           (hdr_bytes, skf_gen, aad) \<Rightarrow>
             bindR (gcm_seal C sk_e iv aad plaintext) (\<lambda>ct_and_tag.
               Ok (hdr_bytes @ skf_gen @ to_be16 frag_num @ to_be16 ntotal @ iv @ ct_and_tag)))"

definition build_fragments ::
    "primitives \<Rightarrow> ike_header \<Rightarrow> payload_type \<Rightarrow> bytes \<Rightarrow> bytes \<Rightarrow> u64 \<Rightarrow> nat \<Rightarrow> bytes list res" where
  "build_fragments C header first_inner inner sk_e iv_base content_per_fragment =
     (if content_per_fragment = 0 then Err (Crypto ''fragment content size must be > 0'')
      else let cs = (if inner = [] then [[]] else chunks content_per_fragment inner);
               ntotal = of_nat (length cs)
           in mapR (build_fragment C header first_inner sk_e iv_base ntotal) (enumerate 0 cs))"

record fragment =
  fr_frag_num :: u16
  fr_total :: u16
  fr_next_payload :: u8
  fr_content :: bytes

definition open_fragment :: "primitives \<Rightarrow> bytes \<Rightarrow> bytes \<Rightarrow> fragment res" where
  "open_fragment C sk_e message =
     bindR (ike_header_parse message) (\<lambda>header.
       if h_next_payload header \<noteq> PT_EncryptedFragment then Err (MissingPayload ''SKF'')
       else bindR (slice_from message HEADER_LEN) (\<lambda>body.
         if length body < 4 + SKF_MIN_BODY then Err (Truncated (4 + SKF_MIN_BODY) (length body))
         else bindR (idx body 0) (\<lambda>next_payload. bindR (u16be body 2) (\<lambda>len.
           let skf_payload_len = unat len in
           if skf_payload_len < 4 + SKF_MIN_BODY \<or> length body < skf_payload_len then
             Err (BadLength skf_payload_len (length body))
           else bindR (u16be body 4) (\<lambda>frag_num. bindR (u16be body 6) (\<lambda>ntotal.
             bindR (slice body 8 16) (\<lambda>iv. bindR (slice body 16 skf_payload_len) (\<lambda>ct_and_tag.
             bindR (slice_to message (HEADER_LEN + 4 + SKF_EXTRA)) (\<lambda>aad.
             bindR (gcm_open C sk_e iv aad ct_and_tag) (\<lambda>plaintext.
             bindR (strip_padding ''empty fragment'' ''pad length exceeds fragment'' plaintext) (\<lambda>content.
               Ok \<lparr>fr_frag_num = frag_num, fr_total = ntotal, fr_next_payload = next_payload,
                   fr_content = content\<rparr>))))))))))) "

text \<open>The check \<^verbatim>\<open>for (i, f) in frags.iter().enumerate()\<close>: numbers 1, 2, 3, ...\<close>

fun numbered_from :: "nat \<Rightarrow> fragment list \<Rightarrow> bool" where
  "numbered_from i [] = True"
| "numbered_from i (f # fs) \<longleftrightarrow> fr_frag_num f = of_nat (i + 1) \<and> numbered_from (i + 1) fs"

definition reassemble :: "primitives \<Rightarrow> bytes list \<Rightarrow> bytes \<Rightarrow> (payload_type \<times> bytes) res" where
  "reassemble C messages sk_e =
     bindR (mapR (open_fragment C sk_e) messages) (\<lambda>frags.
       case frags of [] \<Rightarrow> Err (Crypto ''no fragments'')
       | f0 # _ \<Rightarrow>
         let ntotal = fr_total f0 in
         if ntotal = 0 \<or> list_ex (\<lambda>f. fr_total f \<noteq> ntotal) frags then
           Err (Crypto ''inconsistent Total Fragments'')
         else if length frags \<noteq> unat ntotal then Err (Crypto ''wrong number of fragments'')
         else let sorted = sort_key fr_frag_num frags in
           if \<not> numbered_from 0 sorted then Err (Crypto ''duplicate or missing fragment number'')
           else bindR (idx sorted 0) (\<lambda>f.
             Ok (payload_type_from_u8 (fr_next_payload f), concat (map fr_content sorted))))"

section \<open>One fragment\<close>

definition opened :: "payload_type \<Rightarrow> u16 \<Rightarrow> nat \<times> bytes \<Rightarrow> fragment" where
  "opened t ntotal ic = \<lparr>fr_frag_num = of_nat (fst ic + 1), fr_total = ntotal,
     fr_next_payload = (if of_nat (fst ic + 1) = (1 :: u16) then payload_type_to_u8 t else 0),
     fr_content = snd ic\<rparr>"

lemma open_fragment_wire:
  assumes "gcm_correct C" "header_wf h" "h_next_payload h = PT_EncryptedFragment"
    and "length sk_e = 36" "length iv = 8" "16 \<le> length ct" "unat len = 16 + length ct"
    and "gcm_decrypt C (take 32 sk_e) (drop 32 sk_e @ iv)
      (ike_header_to_bytes h @ ([ty, 0] @ to_be16 len) @ to_be16 num @ to_be16 ntotal) ct = Some (inner @ [0])"
  shows "open_fragment C sk_e
      (ike_header_to_bytes h @ ([ty, 0] @ to_be16 len) @ to_be16 num @ to_be16 ntotal @ iv @ ct) =
    Ok \<lparr>fr_frag_num = num, fr_total = ntotal, fr_next_payload = ty, fr_content = inner\<rparr>"
proof -
  define B where "B = ([ty, 0] @ to_be16 len) @ to_be16 num @ to_be16 ntotal @ iv @ ct"
  define aad where "aad = ike_header_to_bytes h @ ([ty, 0] @ to_be16 len) @ to_be16 num @ to_be16 ntotal"
  let ?m = "ike_header_to_bytes h @ B"
  have f: "length B = 16 + length ct" "idx B 0 = Ok ty" "u16be B 2 = Ok len" "u16be B 4 = Ok num"
    "u16be B 6 = Ok ntotal"
    using assms(5) by (simp_all add: B_def to_be16_def)
  have "slice B 8 16 = Ok iv" "slice B 16 (16 + length ct) = Ok ct"
    using assms(5) by (simp_all add: B_def to_be16_def)
  moreover have "slice_to ?m (HEADER_LEN + 4 + SKF_EXTRA) = Ok aad"
    by (simp add: B_def aad_def to_be16_def)
  ultimately have "open_fragment C sk_e ?m =
      Ok \<lparr>fr_frag_num = num, fr_total = ntotal, fr_next_payload = ty, fr_content = inner\<rparr>"
    using f assms(2-4,6,7) assms(8)[folded aad_def] gcm_correct_ok[OF assms(1), of "take 32 sk_e"]
    by (simp add: open_fragment_def gcm_open_def split_key_ok aead_decrypt_def gcm_nonce_def Let_def)
  then show ?thesis by (simp add: B_def)
qed

lemma gcm_seal_ok:
  assumes "gcm_correct C" "length sk_e = 36" "length iv = 8" "length aad \<le> 2 ^ 36" "length m \<le> 2 ^ 36"
  obtains ct where "gcm_seal C sk_e iv aad m = Ok ct" "length ct = length m + 16"
    "gcm_decrypt C (take 32 sk_e) (drop 32 sk_e @ iv) aad ct = Some m"
proof -
  obtain ct where ct: "gcm_encrypt C (take 32 sk_e) (drop 32 sk_e @ iv) aad m = Some ct"
    "length ct = length m + 16" "gcm_decrypt C (take 32 sk_e) (drop 32 sk_e @ iv) aad ct = Some m"
    by (rule gcm_correctE[OF assms(1), of "take 32 sk_e" "drop 32 sk_e @ iv" aad m]) (use assms in simp_all)
  have "gcm_key_ok C (take 32 sk_e)" using gcm_correct_ok[OF assms(1)] assms(2) by simp
  then have "gcm_seal C sk_e iv aad m = Ok ct"
    using ct(1) assms(2) by (simp add: gcm_seal_def split_key_ok aead_encrypt_def gcm_nonce_def)
  then show thesis using ct(2,3) that by blast
qed

lemma build_open_fragment:
  assumes C: "gcm_correct C" and h: "header_wf h" and k: "length sk_e = 36"
    and c: "length (snd ic) < 65503"
  shows "\<exists>m. build_fragment C h t sk_e ivb ntotal ic = Ok m \<and> open_fragment C sk_e m = Ok (opened t ntotal ic)"
proof -
  obtain i c where ic: "ic = (i, c)" by (cases ic)
  define num where "num = (of_nat (i + 1) :: u16)"
  define n where "n = 4 + SKF_EXTRA + IV_LEN + length (c @ [0]) + ICV_LEN"
  define H where "H = h\<lparr>h_next_payload := PT_EncryptedFragment, h_length := of_nat (HEADER_LEN + n)\<rparr>"
  define ty where "ty = (if num = 1 then payload_type_to_u8 t else 0)"
  let ?aad = "ike_header_to_bytes H @ ([ty, 0] @ to_be16 (of_nat n)) @ to_be16 num @ to_be16 ntotal"
  let ?iv = "to_be64 (ivb + ucast num)"
  have len: "length (to_be64 (ivb + ucast num)) = 8" by simp
  obtain ct where ct: "gcm_seal C sk_e ?iv ?aad (c @ [0]) = Ok ct" "length ct = length (c @ [0]) + 16"
    "gcm_decrypt C (take 32 sk_e) (drop 32 sk_e @ ?iv) ?aad ct = Some (c @ [0])"
    by (rule gcm_seal_ok[OF C k len, of ?aad "c @ [0]"]) (use c ic in \<open>simp_all add: HEADER_LEN_def\<close>)
  have n: "unat (of_nat n :: u16) = 16 + length ct"
    using c ic ct(2) by (subst unat_of_nat16) (simp_all add: n_def)
  have "header_wf H" "h_next_payload H = PT_EncryptedFragment"
    using h by (simp_all add: H_def header_wf_def)
  from open_fragment_wire[OF C this k len _ n ct(3)] ct(2)
  have "open_fragment C sk_e (ike_header_to_bytes H @ ([ty, 0] @ to_be16 (of_nat n)) @ to_be16 num @
      to_be16 ntotal @ ?iv @ ct) = Ok (opened t ntotal ic)"
    by (simp add: opened_def ic ty_def num_def)
  moreover have "build_fragment C h t sk_e ivb ntotal ic =
      Ok (ike_header_to_bytes H @ ([ty, 0] @ to_be16 (of_nat n)) @ to_be16 num @ to_be16 ntotal @ ?iv @ ct)"
    using ct(1) unfolding build_fragment_def ic fragment_aad_def Let_def prod.case
      num_def[symmetric] n_def[symmetric] H_def[symmetric] ty_def[symmetric] by simp
  ultimately show ?thesis by blast
qed

section \<open>Reassembly\<close>

lemma concat_chunks: "0 < n \<Longrightarrow> concat (chunks n xs) = xs"
proof (induction n xs rule: chunks.induct)
  case (1 n xs)
  then show ?case by (subst chunks.simps) auto
qed

lemma length_chunk: "c \<in> set (chunks n xs) \<Longrightarrow> length c \<le> n"
proof (induction n xs rule: chunks.induct)
  case (1 n xs)
  show ?case
  proof (cases "n = 0 \<or> xs = []")
    case False
    then show ?thesis using 1 by (auto simp: chunks.simps[of n xs])
  qed (use 1 in \<open>simp add: chunks.simps\<close>)
qed

lemma numbered_from_opened: "numbered_from i (map (opened t ntotal) (enumerate i cs))"
  by (induction cs arbitrary: i) (simp_all add: opened_def)

lemma opened_contents: "concat (map fr_content (map (opened t ntotal) (enumerate i cs))) = concat cs"
  by (induction cs arbitrary: i) (simp_all add: opened_def)

lemma opened_numbers:
  "map fr_frag_num (map (opened t ntotal) (enumerate i cs)) = map (\<lambda>k. of_nat (k + 1)) [i..<i + length cs]"
proof -
  have "map fr_frag_num (map (opened t ntotal) (enumerate i cs)) =
      map (\<lambda>k. of_nat (k + 1)) (map fst (enumerate i cs))"
    by (simp only: map_map comp_def opened_def fragment.simps)
  then show ?thesis by (simp only: map_fst_enumerate)
qed

lemma sort_opened:
  assumes "mset fs = mset (map (opened t ntotal) (enumerate 0 cs))" "length cs < 65536"
  shows "sort_key fr_frag_num fs = map (opened t ntotal) (enumerate 0 cs)"
proof (rule sort_key_inj_key_eq[OF assms(1)])
  let ?os = "map (opened t ntotal) (enumerate 0 cs)"
  have u: "unat (of_nat (k + 1) :: u16) = k + 1" if "k < length cs" for k
    using that assms(2) by (intro unat_of_nat16) simp
  have "inj_on (\<lambda>k. of_nat (k + 1) :: u16) (set [0..<0 + length cs])"
    by (rule inj_onI) (metis u add_0 add_right_imp_eq atLeastLessThan_iff set_upt)
  then have "distinct (map fr_frag_num ?os)"
    unfolding opened_numbers by (simp only: distinct_map distinct_upt simp_thms)
  then show "inj_on fr_frag_num (set fs)"
    using mset_eq_setD[OF assms(1)] by (simp only: distinct_map)
  show "sorted (map fr_frag_num ?os)"
    unfolding opened_numbers sorted_wrt_map
  proof (rule sorted_wrt_mono_rel[OF _ sorted_upt])
    fix x y assume "x \<in> set [0..<0 + length cs]" "y \<in> set [0..<0 + length cs]" "x \<le> y"
    then show "of_nat (x + 1) \<le> (of_nat (y + 1) :: u16)"
      using u[of x] u[of y] unfolding word_le_nat_alt by (metis add_0 add_le_mono1 atLeastLessThan_iff set_upt)
  qed
qed

lemma reassemble_opened:
  assumes ms: "mapR (open_fragment C sk_e) ms = Ok fs"
    and fs: "mset fs = mset (map (opened t (of_nat (length cs))) (enumerate 0 cs))"
    and n: "0 < length cs" "length cs < 65536" and t: "canonical_pt t"
  shows "reassemble C ms sk_e = Ok (t, concat cs)"
proof -
  let ?os = "map (opened t (of_nat (length cs))) (enumerate 0 cs)"
  obtain c0 cs' where cs: "cs = c0 # cs'" using n(1) by (cases cs) auto
  have len: "length fs = length cs" using mset_eq_length[OF fs] by simp
  have tot: "fr_total f = of_nat (length cs)" if "f \<in> set fs" for f
    using that mset_eq_setD[OF fs] by (auto simp: opened_def)
  obtain f0 fs' where f0: "fs = f0 # fs'" using len n(1) by (cases fs) auto
  have u: "unat (of_nat (length cs) :: u16) = length cs" using n(2) by simp
  then have "(of_nat (length cs) :: u16) \<noteq> 0" using n(1) by (metis unat_0 less_irrefl)
  moreover have "\<not> list_ex (\<lambda>f. fr_total f \<noteq> fr_total f0) fs"
    using tot f0 by (simp add: list_ex_iff)
  moreover have "idx ?os 0 = Ok (opened t (of_nat (length cs)) (0, c0))" by (simp add: cs)
  ultimately show ?thesis
    using ms sort_opened[OF fs n(2)] tot[of f0] f0 u len t numbered_from_opened[of 0 t "of_nat (length cs)" cs]
      opened_contents[of t "of_nat (length cs)" 0 cs]
    by (simp add: reassemble_def canonical_pt_def Let_def) (simp add: opened_def)
qed

text \<open>
  C29. Fragmentation round trip: building the fragments succeeds, and whatever order they arrive in,
  reassembling them returns the first payload type and the whole inner chain, provided the pieces
  fit a payload and there are at most 65535 of them.
\<close>
theorem fragments_reassemble:
  assumes C: "gcm_correct C" and h: "header_wf h" and t: "canonical_pt t" and k: "length sk_e = 36"
    and n: "0 < n" "n < 65503" and len: "length (chunks n inner) < 65536"
  shows "\<exists>ms. build_fragments C h t inner sk_e ivb n = Ok ms \<and>
    (\<forall>ms'. mset ms' = mset ms \<longrightarrow> reassemble C ms' sk_e = Ok (t, inner))"
proof -
  let ?cs = "if inner = [] then [[]] else chunks n inner"
  let ?ntotal = "of_nat (length ?cs) :: u16"
  have small: "length (snd ic) < 65503" if "ic \<in> set (enumerate 0 ?cs)" for ic
    using that n length_chunk[of "snd ic" n inner]
    by (auto simp: in_set_enumerate_eq split: if_splits dest: nth_mem)
  obtain f where f: "\<And>ic. ic \<in> set (enumerate 0 ?cs) \<Longrightarrow>
      build_fragment C h t sk_e ivb ?ntotal ic = Ok (f ic) \<and> open_fragment C sk_e (f ic) = Ok (opened t ?ntotal ic)"
    using build_open_fragment[OF C h k, of _ t ivb ?ntotal] small by metis
  define g where "g m = (case open_fragment C sk_e m of Ok x \<Rightarrow> x | _ \<Rightarrow> undefined)" for m
  have b: "build_fragments C h t inner sk_e ivb n = Ok (map f (enumerate 0 ?cs))"
    using f n mapR_Ok[of "enumerate 0 ?cs" "build_fragment C h t sk_e ivb ?ntotal" f]
    by (simp add: build_fragments_def Let_def)
  have "reassemble C ms' sk_e = Ok (t, inner)" if p: "mset ms' = mset (map f (enumerate 0 ?cs))" for ms'
  proof -
    have o: "mapR (open_fragment C sk_e) ms' = Ok (map g ms')"
      using mset_eq_setD[OF p] f by (intro mapR_Ok) (auto simp: g_def)
    have "mset (map g ms') = mset (map g (map f (enumerate 0 ?cs)))"
      using p by (simp only: mset_map)
    also have "map g (map f (enumerate 0 ?cs)) = map (opened t ?ntotal) (enumerate 0 ?cs)"
      using f by (simp add: g_def)
    finally have m: "mset (map g ms') = mset (map (opened t ?ntotal) (enumerate 0 ?cs))" .
    have "0 < length ?cs" "length ?cs < 65536" "concat ?cs = inner"
      using len n by (auto simp: concat_chunks chunks.simps[of n inner])
    then show ?thesis using reassemble_opened[OF o m _ _ t] by (simp only:)
  qed
  then show ?thesis using b by blast
qed

theorem fragments_reassemble_witness:
  "\<exists>ms. build_fragments toy_primitives sample_header PT_Nonce [1, 2, 3] (replicate 36 5) 0 2 = Ok ms \<and>
    (\<forall>ms'. mset ms' = mset ms \<longrightarrow> reassemble toy_primitives ms' (replicate 36 5) = Ok (PT_Nonce, [1, 2, 3]))"
  by (rule fragments_reassemble[OF toy_gcm_correct sample_header_wf]) (simp_all add: chunks.simps)

end
