(* ===== verification/Natt.thy ===== *)
theory Natt
  imports Payload Primitives
begin

text \<open>
  NAT traversal, \<open>src/src/ikev2/natt.rs\<close>: the detection hashes and their notifies, and the
  non-ESP marker that separates IKE from ESP on UDP port 4500.
\<close>

datatype ip_addr = V4 ipv4 | V6 "128 word"

record socket_addr =
  sock_ip :: ip_addr
  sock_port :: u16

fun ip_octets :: "ip_addr \<Rightarrow> bytes" where
  "ip_octets (V4 a) = octets a"
| "ip_octets (V6 a) = be_encode 16 a"

definition NON_ESP_MARKER :: bytes where
  "NON_ESP_MARKER = [0, 0, 0, 0]"

definition nat_detection_hash :: "primitives \<Rightarrow> u64 \<Rightarrow> u64 \<Rightarrow> ip_addr \<Rightarrow> u16 \<Rightarrow> bytes" where
  "nat_detection_hash C spi_i spi_r ip port =
     be_encode 20 (sha1 C (to_be64 spi_i @ to_be64 spi_r @ ip_octets ip @ to_be16 port))"

definition source_ip_notify :: "primitives \<Rightarrow> u64 \<Rightarrow> u64 \<Rightarrow> ip_addr \<Rightarrow> u16 \<Rightarrow> notify" where
  "source_ip_notify C spi_i spi_r our_ip our_port =
     notify_status NAT_DETECTION_SOURCE_IP (nat_detection_hash C spi_i spi_r our_ip our_port)"

definition destination_ip_notify :: "primitives \<Rightarrow> u64 \<Rightarrow> u64 \<Rightarrow> ip_addr \<Rightarrow> u16 \<Rightarrow> notify" where
  "destination_ip_notify C spi_i spi_r peer_ip peer_port =
     notify_status NAT_DETECTION_DESTINATION_IP (nat_detection_hash C spi_i spi_r peer_ip peer_port)"

definition peer_is_behind_nat :: "primitives \<Rightarrow> bytes \<Rightarrow> u64 \<Rightarrow> u64 \<Rightarrow> ip_addr \<Rightarrow> u16 \<Rightarrow> bool" where
  "peer_is_behind_nat C source_notify_data spi_i spi_r observed_ip observed_port \<longleftrightarrow>
     source_notify_data \<noteq> nat_detection_hash C spi_i spi_r observed_ip observed_port"

definition we_are_behind_nat :: "primitives \<Rightarrow> bytes \<Rightarrow> u64 \<Rightarrow> u64 \<Rightarrow> ip_addr \<Rightarrow> u16 \<Rightarrow> bool" where
  "we_are_behind_nat C dest_notify_data spi_i spi_r our_ip our_port \<longleftrightarrow>
     dest_notify_data \<noteq> nat_detection_hash C spi_i spi_r our_ip our_port"

definition is_ike_on_4500 :: "bytes \<Rightarrow> bool res" where
  "is_ike_on_4500 datagram =
     (if 4 \<le> length datagram then bindR (slice_to datagram 4) (\<lambda>m. Ok (m = NON_ESP_MARKER))
      else Ok False)"

definition wrap_ike_4500 :: "bytes \<Rightarrow> bytes" where
  "wrap_ike_4500 message = NON_ESP_MARKER @ message"

definition unwrap_ike_4500 :: "bytes \<Rightarrow> bytes option res" where
  "unwrap_ike_4500 datagram =
     bindR (is_ike_on_4500 datagram) (\<lambda>b.
       if b then bindR (slice_from datagram 4) (\<lambda>m. Ok (Some m)) else Ok None)"

lemma length_nat_detection_hash [simp]: "length (nat_detection_hash C i r ip p) = 20"
  by (simp add: nat_detection_hash_def)

lemma wrap_unwrap_4500: "unwrap_ike_4500 (wrap_ike_4500 m) = Ok (Some m)"
  by (simp add: unwrap_ike_4500_def is_ike_on_4500_def wrap_ike_4500_def NON_ESP_MARKER_def)

lemma unwrap_4500_Some: "unwrap_ike_4500 d = Ok (Some m) \<Longrightarrow> d = wrap_ike_4500 m"
  by (auto simp: unwrap_ike_4500_def is_ike_on_4500_def wrap_ike_4500_def res_iff split: if_splits)
     (metis append_take_drop_id)

lemma to_be32_zero: "to_be32 v = [0, 0, 0, 0] \<Longrightarrow> v = 0"
proof -
  assume "to_be32 v = [0, 0, 0, 0]"
  then have "from_be32 (to_be32 v) = from_be32 [0, 0, 0, 0]" by (rule arg_cong)
  moreover have "from_be32 [0, 0, 0, 0] = 0" by (simp add: from_be32_def be_decode_def)
  ultimately show "v = 0" by simp
qed

section \<open>Properties\<close>

text \<open>
  UDP port 4500 demultiplexing is exact: unwrapping never panics, gives the message back that
  was wrapped, accepts nothing else, and an ESP packet, whose SPI is not zero, is never taken for
  IKE.
\<close>
theorem port_4500_demultiplexing:
  "unwrap_ike_4500 (wrap_ike_4500 m) = Ok (Some m) \<and>
   (unwrap_ike_4500 d = Ok (Some m) \<longrightarrow> d = wrap_ike_4500 m) \<and>
   unwrap_ike_4500 d \<noteq> Panic \<and>
   (spi \<noteq> 0 \<longrightarrow> unwrap_ike_4500 (to_be32 spi @ rest) = Ok None)"
proof -
  have "unwrap_ike_4500 d \<noteq> Panic"
    by (auto simp: unwrap_ike_4500_def is_ike_on_4500_def res_iff split: if_splits)
  moreover have "spi \<noteq> 0 \<longrightarrow> unwrap_ike_4500 (to_be32 spi @ rest) = Ok None"
    using to_be32_zero[of spi]
    by (auto simp: unwrap_ike_4500_def is_ike_on_4500_def NON_ESP_MARKER_def)
  ultimately show ?thesis using wrap_unwrap_4500 unwrap_4500_Some by blast
qed

theorem port_4500_demultiplexing_witness:
  "unwrap_ike_4500 (to_be32 1 @ [9]) = Ok None \<and> wrap_ike_4500 [1] = wrap_ike_4500 [1]"
  using port_4500_demultiplexing[of "[1]" "wrap_ike_4500 [1]" 1 "[9]"] by simp

end
