(* ===== verification/Transport.thy ===== *)
theory Transport
  imports Natt
begin

text \<open>
  The UDP transport, \<open>src/src/transport.rs\<close>: \<open>DriverError\<close>, which wraps an IKE error or an I/O error,
  and \<open>UdpTransport\<close> over the blocking sockets of the standard library.

  The state of the network is explicit: the addresses in use, the datagrams on their way and the
  receive queue of each socket. What the operating system and the network decide is the parameter
  \<open>ip_layer\<close>: the port given for port zero, whether a datagram is accepted for sending, the address
  a socket is seen under at a destination (routing and NAT) and the socket that owns a destination.
  A receive call takes the oldest datagram of the queue, cut to the buffer; on an empty queue it
  fails after the read timeout, or never returns when none is set (\<open>IoBlocked\<close>).
\<close>

section \<open>Outcomes\<close>

datatype 'a io = IoOk 'a | IoErr | IoBlocked

datatype 'a driven = Done 'a | IkeFailed ike_error | IoFailed | Blocked | Panicked

text \<open>The operator \<open>?\<close> with the conversions of \<open>IkeError\<close> and \<open>io::Error\<close> into \<open>DriverError\<close>.\<close>

definition ike :: "'a res \<Rightarrow> ('a \<Rightarrow> 'b driven) \<Rightarrow> 'b driven" where
  "ike m f = (case m of Ok x \<Rightarrow> f x | Err e \<Rightarrow> IkeFailed e | Panic \<Rightarrow> Panicked)"

lemma ike_simps [simp]: "ike (Ok x) f = f x" "ike (Err e) f = IkeFailed e" "ike Panic f = Panicked"
  by (simp_all add: ike_def)

lemma ike_iff [res_iff]:
  "ike m f = Done y \<longleftrightarrow> (\<exists>x. m = Ok x \<and> f x = Done y)"
  by (cases m) simp_all

section \<open>Sockets\<close>

record udp_net =
  un_bound :: "socket_addr list"
  un_flight :: "(socket_addr \<times> bytes \<times> socket_addr) list"
  un_inbox :: "socket_addr \<Rightarrow> (bytes \<times> socket_addr) list"

record ip_layer =
  il_port :: "udp_net \<Rightarrow> ip_addr \<Rightarrow> u16 option"
  il_sends :: "bytes \<Rightarrow> socket_addr \<Rightarrow> bool"
  il_source :: "socket_addr \<Rightarrow> socket_addr \<Rightarrow> socket_addr"
  il_owner :: "socket_addr \<Rightarrow> socket_addr option"

definition MAX_DATAGRAM :: nat where "MAX_DATAGRAM = 65535"

record udp_transport =
  ut_addr :: socket_addr
  ut_timeout :: "nat option"

text \<open>The address that one candidate of \<open>ToSocketAddrs\<close> gives, if it is free.\<close>

definition bind_one :: "ip_layer \<Rightarrow> udp_net \<Rightarrow> socket_addr \<Rightarrow> socket_addr option" where
  "bind_one IP net addr =
     (case (if sock_port addr = 0 then map_option (\<lambda>p. addr\<lparr>sock_port := p\<rparr>) (il_port IP net (sock_ip addr))
            else Some addr) of
        None \<Rightarrow> None
      | Some a \<Rightarrow> if a \<in> set (un_bound net) then None else Some a)"

definition transport_bind :: "ip_layer \<Rightarrow> socket_addr list \<Rightarrow> udp_net \<Rightarrow> udp_transport io \<times> udp_net" where
  "transport_bind IP addrs net =
     (case find_map (bind_one IP net) addrs of
        None \<Rightarrow> (IoErr, net)
      | Some a \<Rightarrow> (IoOk \<lparr>ut_addr = a, ut_timeout = None\<rparr>,
                  net\<lparr>un_bound := a # un_bound net, un_inbox := (un_inbox net)(a := [])\<rparr>))"

definition transport_local_addr :: "udp_transport \<Rightarrow> socket_addr io" where
  "transport_local_addr tp = IoOk (ut_addr tp)"

text \<open>The standard library refuses a timeout of zero.\<close>

definition transport_set_read_timeout :: "udp_transport \<Rightarrow> nat option \<Rightarrow> unit io \<times> udp_transport" where
  "transport_set_read_timeout tp dur =
     (if dur = Some 0 then (IoErr, tp) else (IoOk (), tp\<lparr>ut_timeout := dur\<rparr>))"

text \<open>\<open>UdpSocket::recv_from\<close>: the buffer, the number of bytes written to it and the sender.\<close>

definition socket_recv_from :: "udp_transport \<Rightarrow> bytes \<Rightarrow> udp_net \<Rightarrow> (bytes \<times> nat \<times> socket_addr) io \<times> udp_net" where
  "socket_recv_from tp buf net =
     (case un_inbox net (ut_addr tp) of
        [] \<Rightarrow> (if ut_timeout tp = None then IoBlocked else IoErr, net)
      | (d, from) # rest \<Rightarrow>
          (IoOk (take (length buf) d @ drop (length d) buf, min (length d) (length buf), from),
           net\<lparr>un_inbox := (un_inbox net)(ut_addr tp := rest)\<rparr>))"

definition transport_recv_from :: "udp_transport \<Rightarrow> udp_net \<Rightarrow> (bytes \<times> socket_addr) io \<times> udp_net" where
  "transport_recv_from tp net =
     (case socket_recv_from tp (replicate MAX_DATAGRAM 0) net of
        (IoOk (buf, n, from), net') \<Rightarrow> (IoOk (take n buf, from), net')
      | (IoErr, net') \<Rightarrow> (IoErr, net')
      | (IoBlocked, net') \<Rightarrow> (IoBlocked, net'))"

definition transport_send_to ::
    "ip_layer \<Rightarrow> udp_transport \<Rightarrow> bytes \<Rightarrow> socket_addr \<Rightarrow> udp_net \<Rightarrow> nat io \<times> udp_net" where
  "transport_send_to IP tp data to net =
     (if il_sends IP data to
      then (IoOk (length data), net\<lparr>un_flight := un_flight net @ [(to, data, il_source IP (ut_addr tp) to)]\<rparr>)
      else (IoErr, net))"

section \<open>Delivery\<close>

text \<open>A datagram reaches the queue of the socket that owns its destination, or is lost when no socket does.\<close>

definition deliver :: "ip_layer \<Rightarrow> socket_addr \<times> bytes \<times> socket_addr \<Rightarrow> udp_net \<Rightarrow> udp_net" where
  "deliver IP g net =
     (case g of (to, d, from) \<Rightarrow>
        (case il_owner IP to of
           None \<Rightarrow> net
         | Some a \<Rightarrow> if a \<in> set (un_bound net)
                    then net\<lparr>un_inbox := (un_inbox net)(a := un_inbox net a @ [(d, from)])\<rparr> else net))"

definition deliver_all :: "ip_layer \<Rightarrow> udp_net \<Rightarrow> udp_net" where
  "deliver_all IP net = fold (deliver IP) (un_flight net) (net\<lparr>un_flight := []\<rparr>)"

section \<open>Lemmas\<close>

lemma transport_recv_Cons:
  assumes "un_inbox net (ut_addr tp) = (d, from) # rest"
  shows "transport_recv_from tp net =
    (IoOk (take MAX_DATAGRAM d, from), net\<lparr>un_inbox := (un_inbox net)(ut_addr tp := rest)\<rparr>)"
  using assms by (simp add: transport_recv_from_def socket_recv_from_def min_def)

lemma transport_recv_Nil:
  assumes "un_inbox net (ut_addr tp) = []"
  shows "transport_recv_from tp net = (if ut_timeout tp = None then IoBlocked else IoErr, net)"
  using assms by (simp add: transport_recv_from_def socket_recv_from_def)

text \<open>The largest payload of a UDP datagram over IPv4, which every system sends.\<close>

definition UDP_PAYLOAD :: nat where "UDP_PAYLOAD = 65507"

definition sends_udp :: "ip_layer \<Rightarrow> bool" where
  "sends_udp IP \<longleftrightarrow> (\<forall>d to. length d \<le> UDP_PAYLOAD \<longrightarrow> il_sends IP d to)"

text \<open>A socket on such a system can send what fits a datagram.\<close>

definition udp_ok :: "(bytes \<Rightarrow> bool) \<Rightarrow> bool" where
  "udp_ok sends \<longleftrightarrow> (\<forall>d. length d \<le> UDP_PAYLOAD \<longrightarrow> sends d)"

lemma udp_ok_True [simp]: "udp_ok (\<lambda>_. True)"
  by (simp add: udp_ok_def)

text \<open>
  The network carries datagrams for an address to a socket: the address belongs to the socket, which is
  open, and nothing else is under way to it. Two sockets are connected when requests arrive at one
  and answers to the source that it sees come back to the other; this holds on one network and
  through a NAT.
\<close>

definition carries :: "ip_layer \<Rightarrow> socket_addr \<Rightarrow> udp_transport \<Rightarrow> udp_net \<Rightarrow> bool" where
  "carries IP to b net \<longleftrightarrow> sends_udp IP \<and> il_owner IP to = Some (ut_addr b) \<and> ut_addr b \<in> set (un_bound net) \<and>
     un_flight net = [] \<and> un_inbox net (ut_addr b) = []"

definition connected :: "ip_layer \<Rightarrow> udp_transport \<Rightarrow> socket_addr \<Rightarrow> udp_transport \<Rightarrow> udp_net \<Rightarrow> bool" where
  "connected IP a to b net \<longleftrightarrow> carries IP to b net \<and> carries IP (il_source IP (ut_addr a) to) a net"

lemma send_deliver:
  assumes "carries IP to b net" "length d \<le> UDP_PAYLOAD"
  obtains net1 where "transport_send_to IP a d to net = (IoOk (length d), net1)"
    "deliver_all IP net1 = net\<lparr>un_inbox := (un_inbox net)(ut_addr b := [(d, il_source IP (ut_addr a) to)])\<rparr>"
proof -
  let ?net1 = "net\<lparr>un_flight := [(to, d, il_source IP (ut_addr a) to)]\<rparr>"
  have "transport_send_to IP a d to net = (IoOk (length d), ?net1)"
    using assms by (simp add: transport_send_to_def carries_def sends_udp_def)
  moreover have "deliver_all IP ?net1 =
      net\<lparr>un_inbox := (un_inbox net)(ut_addr b := [(d, il_source IP (ut_addr a) to)])\<rparr>"
    using assms(1) by (simp add: deliver_all_def deliver_def carries_def)
  ultimately show thesis by (rule that)
qed

lemma carries_empty: "carries IP to b net \<Longrightarrow> (un_inbox net)(ut_addr b := []) = un_inbox net"
  by (auto simp: carries_def)

text \<open>A whole datagram that fits the buffer is read back, by the transport and by a plain socket.\<close>

lemma send_deliver_recv:
  assumes "carries IP to b net" "length d \<le> UDP_PAYLOAD"
  obtains net1 where "transport_send_to IP a d to net = (IoOk (length d), net1)"
    "transport_recv_from b (deliver_all IP net1) = (IoOk (d, il_source IP (ut_addr a) to), net)"
    "\<And>n. length d \<le> n \<Longrightarrow> socket_recv_from b (replicate n 0) (deliver_all IP net1) =
      (IoOk (d @ replicate (n - length d) 0, length d, il_source IP (ut_addr a) to), net)"
proof -
  obtain net1 where net1: "transport_send_to IP a d to net = (IoOk (length d), net1)"
    "deliver_all IP net1 = net\<lparr>un_inbox := (un_inbox net)(ut_addr b := [(d, il_source IP (ut_addr a) to)])\<rparr>"
    by (rule send_deliver[OF assms])
  have "take MAX_DATAGRAM d = d" using assms(2) by (simp add: MAX_DATAGRAM_def UDP_PAYLOAD_def)
  then have "transport_recv_from b (deliver_all IP net1) = (IoOk (d, il_source IP (ut_addr a) to), net)"
    using net1(2) carries_empty[OF assms(1)] by (simp add: transport_recv_Cons)
  moreover have "socket_recv_from b (replicate n 0) (deliver_all IP net1) =
      (IoOk (d @ replicate (n - length d) 0, length d, il_source IP (ut_addr a) to), net)" if "length d \<le> n" for n
    using that net1(2) carries_empty[OF assms(1)] by (simp add: socket_recv_from_def min_def)
  ultimately show thesis using that net1(1) by blast
qed

end
