(* ===== verification/Sign.thy ===== *)
theory Sign
  imports Sk
begin

text \<open>
  Signature authentication and X.509 path validation, \<open>src/src/ikev2/sign.rs\<close>.

  The crates \<open>rsa\<close>, \<open>p256\<close>, \<open>x509-cert\<close> and \<open>der\<close> are the record \<open>pki\<close>, an argument \<open>P\<close> of the
  definitions: decoding of certificates and extensions, and the signature primitives. Their key
  objects are opaque byte strings. A decoded certificate is the record of the fields the code
  reads.

  The lemmas show that what a key signs its public key verifies, and that a certificate is
  accepted only along a chain of valid, correctly named and signed CA certificates from the leaf
  to a trust anchor.
\<close>

section \<open>The certificate crates\<close>

type_synonym key_handle = bytes

datatype general_name = DnsName bytes | OtherName

record x509 =
  xc_spki_der :: "bytes option"
  xc_spki_oid :: string
  xc_tbs_der :: "bytes option"
  xc_signature :: "bytes option"
  xc_signature_oid :: string
  xc_subject_der :: "bytes option"
  xc_issuer_der :: "bytes option"
  xc_not_before :: u64
  xc_not_after :: u64
  xc_extensions :: "(string \<times> bytes) list option"

record pki =
  x509_from_der :: "bytes \<Rightarrow> x509 option"
  san_from_der :: "bytes \<Rightarrow> general_name list option"
  basic_constraints_ca :: "bytes \<Rightarrow> bool option"
  rsa_public_from_der :: "bytes \<Rightarrow> key_handle option"
  p256_public_from_der :: "bytes \<Rightarrow> key_handle option"
  p256_private_from_pkcs8 :: "bytes \<Rightarrow> key_handle option"
  rsa_pkcs1_sign :: "key_handle \<Rightarrow> bytes \<Rightarrow> bytes option"
  rsa_pkcs1_verify :: "key_handle \<Rightarrow> bytes \<Rightarrow> bytes \<Rightarrow> bool"
  rsa_pss_verify :: "key_handle \<Rightarrow> bytes \<Rightarrow> bytes \<Rightarrow> bool"
  p256_sign_prehash :: "key_handle \<Rightarrow> bytes \<Rightarrow> bytes option"
  p256_sig_to_der :: "bytes \<Rightarrow> bytes"
  p256_sig_from_der :: "bytes \<Rightarrow> bytes option"
  p256_sig_to_bytes :: "bytes \<Rightarrow> bytes"
  p256_verify_prehash :: "key_handle \<Rightarrow> bytes \<Rightarrow> bytes \<Rightarrow> bool"

section \<open>Signature schemes\<close>

definition RSA_SHA256 :: bytes where
  "RSA_SHA256 = [0x30, 0x0d, 0x06, 0x09, 0x2a, 0x86, 0x48, 0x86, 0xf7, 0x0d, 0x01, 0x01, 0x0b, 0x05, 0x00]"

definition ECDSA_P256_SHA256 :: bytes where
  "ECDSA_P256_SHA256 = [0x30, 0x0a, 0x06, 0x08, 0x2a, 0x86, 0x48, 0xce, 0x3d, 0x04, 0x03, 0x02]"

definition RSA_PSS_SHA256 :: bytes where
  "RSA_PSS_SHA256 = [
     0x30, 0x41, 0x06, 0x09, 0x2a, 0x86, 0x48, 0x86, 0xf7, 0x0d, 0x01, 0x01, 0x0a,
     0x30, 0x34,
     0xa0, 0x0f, 0x30, 0x0d, 0x06, 0x09, 0x60, 0x86, 0x48, 0x01, 0x65, 0x03, 0x04, 0x02, 0x01,
     0x05, 0x00,
     0xa1, 0x1c, 0x30, 0x1a, 0x06, 0x09, 0x2a, 0x86, 0x48, 0x86, 0xf7, 0x0d, 0x01, 0x01,
     0x08,
     0x30, 0x0d, 0x06, 0x09, 0x60, 0x86, 0x48, 0x01, 0x65, 0x03, 0x04, 0x02, 0x01, 0x05,
     0x00,
     0xa2, 0x03, 0x02, 0x01, 0x20]"

definition OID_RSA_ENCRYPTION :: string where "OID_RSA_ENCRYPTION = ''1.2.840.113549.1.1.1''"
definition OID_EC_PUBLIC_KEY :: string where "OID_EC_PUBLIC_KEY = ''1.2.840.10045.2.1''"
definition OID_SHA256_WITH_RSA :: string where "OID_SHA256_WITH_RSA = ''1.2.840.113549.1.1.11''"
definition OID_ECDSA_WITH_SHA256 :: string where "OID_ECDSA_WITH_SHA256 = ''1.2.840.10045.4.3.2''"

datatype scheme = RsaPkcs1Sha256 | RsaPssSha256 | EcdsaP256Sha256

definition scheme_of :: "bytes \<Rightarrow> scheme option" where
  "scheme_of alg =
     (if alg = RSA_SHA256 then Some RsaPkcs1Sha256
      else if alg = RSA_PSS_SHA256 then Some RsaPssSha256
      else if alg = ECDSA_P256_SHA256 then Some EcdsaP256Sha256
      else None)"

definition wrap_auth_data :: "bytes \<Rightarrow> bytes \<Rightarrow> bytes" where
  "wrap_auth_data alg sig = [of_nat (length alg)] @ alg @ sig"

definition parse_auth_data :: "bytes \<Rightarrow> (bytes \<times> bytes) res" where
  "parse_auth_data dat =
     (case dat of
        [] \<Rightarrow> Err (Truncated 1 0)
      | b # _ \<Rightarrow> let e = 1 + unat b in
          if length dat < e then Err (Truncated e (length dat))
          else bindR (slice dat 1 e) (\<lambda>alg. bindR (slice_from dat e) (\<lambda>sig. Ok (alg, sig))))"

section \<open>Signing and verifying\<close>

datatype signing_key = RsaSha256 key_handle | EcdsaP256 key_handle

definition ecdsa_p256_from_pkcs8_der :: "pki \<Rightarrow> bytes \<Rightarrow> signing_key res" where
  "ecdsa_p256_from_pkcs8_der P der =
     bindR (ok_or (p256_private_from_pkcs8 P der) (Crypto ''bad EC PKCS#8 DER private key'')) (\<lambda>key.
       Ok (EcdsaP256 key))"

fun algorithm_id :: "signing_key \<Rightarrow> bytes" where
  "algorithm_id (RsaSha256 _) = RSA_SHA256"
| "algorithm_id (EcdsaP256 _) = ECDSA_P256_SHA256"

definition sha256_digest :: "primitives \<Rightarrow> bytes \<Rightarrow> bytes" where
  "sha256_digest C dat = be_encode 32 (sha256 C dat)"

definition sign_auth_data :: "primitives \<Rightarrow> pki \<Rightarrow> signing_key \<Rightarrow> bytes \<Rightarrow> bytes res" where
  "sign_auth_data C P k octs =
     (let digest = sha256_digest C octs in
      bindR (case k of
          RsaSha256 key \<Rightarrow> ok_or (rsa_pkcs1_sign P key digest) (Crypto ''RSA signing failed'')
        | EcdsaP256 key \<Rightarrow>
            bindR (ok_or (p256_sign_prehash P key digest) (Crypto ''ECDSA signing failed'')) (\<lambda>sig.
              Ok (p256_sig_to_der P sig))) (\<lambda>sig.
        Ok (wrap_auth_data (algorithm_id k) sig)))"

definition sign_ecdsa_p256_raw :: "primitives \<Rightarrow> pki \<Rightarrow> signing_key \<Rightarrow> bytes \<Rightarrow> bytes res" where
  "sign_ecdsa_p256_raw C P k octs =
     (case k of
        EcdsaP256 key \<Rightarrow>
          bindR (ok_or (p256_sign_prehash P key (sha256_digest C octs)) (Crypto ''ECDSA signing failed'')) (\<lambda>sig.
            Ok (p256_sig_to_bytes P sig))
      | RsaSha256 _ \<Rightarrow> Err (Crypto ''method 9 needs an ECDSA P-256 key''))"

datatype verifying_key = VK_Rsa key_handle | VK_EcdsaP256 key_handle

definition from_spki_der :: "pki \<Rightarrow> bytes \<Rightarrow> string \<Rightarrow> verifying_key res" where
  "from_spki_der P spki_der alg_oid =
     (if alg_oid = OID_RSA_ENCRYPTION then
        bindR (ok_or (rsa_public_from_der P spki_der) (Crypto ''malformed RSA public key'')) (\<lambda>k. Ok (VK_Rsa k))
      else if alg_oid = OID_EC_PUBLIC_KEY then
        bindR (ok_or (p256_public_from_der P spki_der) (Crypto ''unsupported EC curve (need P-256)'')) (\<lambda>k.
          Ok (VK_EcdsaP256 k))
      else Err (Crypto ''unsupported certificate key algorithm''))"

definition decode_cert :: "pki \<Rightarrow> bytes \<Rightarrow> x509 res" where
  "decode_cert P cert_der = ok_or (x509_from_der P cert_der) (Crypto ''malformed certificate DER'')"

definition from_cert_der :: "pki \<Rightarrow> bytes \<Rightarrow> verifying_key res" where
  "from_cert_der P cert_der =
     bindR (decode_cert P cert_der) (\<lambda>cert.
     bindR (ok_or (xc_spki_der cert) (Crypto ''malformed SPKI'')) (\<lambda>spki_der.
       from_spki_der P spki_der (xc_spki_oid cert)))"

definition check :: "bool \<Rightarrow> ike_error \<Rightarrow> unit res" where
  "check b e = (if b then Ok () else Err e)"

definition verify_auth_data :: "primitives \<Rightarrow> pki \<Rightarrow> verifying_key \<Rightarrow> bytes \<Rightarrow> bytes \<Rightarrow> unit res" where
  "verify_auth_data C P vk auth_data octs =
     bindR (parse_auth_data auth_data) (\<lambda>(alg, sig).
     bindR (ok_or (scheme_of alg) (Crypto ''unsupported signature algorithm'')) (\<lambda>scheme.
       let digest = sha256_digest C octs in
       case (vk, scheme) of
         (VK_Rsa pk, RsaPkcs1Sha256) \<Rightarrow> check (rsa_pkcs1_verify P pk digest sig) AuthFailed
       | (VK_Rsa pk, RsaPssSha256) \<Rightarrow> check (rsa_pss_verify P pk digest sig) AuthFailed
       | (VK_EcdsaP256 k, EcdsaP256Sha256) \<Rightarrow>
           bindR (ok_or (p256_sig_from_der P sig) AuthFailed) (\<lambda>s.
             check (p256_verify_prehash P k digest s) AuthFailed)
       | _ \<Rightarrow> Err (Crypto ''signature algorithm does not match certificate key'')))"

section \<open>Certificates\<close>

definition verify_cert_signed_by :: "primitives \<Rightarrow> pki \<Rightarrow> bytes \<Rightarrow> bytes \<Rightarrow> unit res" where
  "verify_cert_signed_by C P leaf_der issuer_der =
     bindR (ok_or (x509_from_der P leaf_der) (Crypto ''malformed leaf certificate'')) (\<lambda>leaf.
     bindR (from_cert_der P issuer_der) (\<lambda>issuer_key.
     bindR (ok_or (xc_tbs_der leaf) (Crypto ''malformed TBS'')) (\<lambda>tbs.
     bindR (ok_or (xc_signature leaf) (Crypto ''unaligned cert signature'')) (\<lambda>sig.
       let digest = sha256_digest C tbs in
       case issuer_key of
         VK_Rsa pk \<Rightarrow>
           if xc_signature_oid leaf = OID_SHA256_WITH_RSA then
             check (rsa_pkcs1_verify P pk digest sig) AuthFailed
           else Err (Crypto ''unsupported certificate signature algorithm'')
       | VK_EcdsaP256 k \<Rightarrow>
           if xc_signature_oid leaf = OID_ECDSA_WITH_SHA256 then
             bindR (ok_or (p256_sig_from_der P sig) AuthFailed) (\<lambda>s.
               check (p256_verify_prehash P k digest s) AuthFailed)
           else Err (Crypto ''unsupported certificate signature algorithm'')))))"

definition ascii_lower :: "u8 \<Rightarrow> u8" where
  "ascii_lower b = (if 65 \<le> b \<and> b \<le> 90 then b + 32 else b)"

definition eq_ignore_ascii_case :: "bytes \<Rightarrow> bytes \<Rightarrow> bool" where
  "eq_ignore_ascii_case a b \<longleftrightarrow> map ascii_lower a = map ascii_lower b"

definition is_dns_name :: "bytes \<Rightarrow> general_name \<Rightarrow> bool" where
  "is_dns_name name gn = (case gn of DnsName dns \<Rightarrow> eq_ignore_ascii_case dns name | OtherName \<Rightarrow> False)"

primrec san_loop :: "pki \<Rightarrow> bytes \<Rightarrow> (string \<times> bytes) list \<Rightarrow> bool res" where
  "san_loop P name [] = Ok False"
| "san_loop P name (ext # exts) =
     (if fst ext \<noteq> ''2.5.29.17'' then san_loop P name exts
      else bindR (ok_or (san_from_der P (snd ext)) (Crypto ''malformed SubjectAltName'')) (\<lambda>san.
        if list_ex (is_dns_name name) san then Ok True else san_loop P name exts))"

definition cert_has_dns_name :: "pki \<Rightarrow> bytes \<Rightarrow> bytes \<Rightarrow> bool res" where
  "cert_has_dns_name P cert_der name =
     bindR (decode_cert P cert_der) (\<lambda>cert.
       case xc_extensions cert of None \<Rightarrow> Ok False | Some exts \<Rightarrow> san_loop P name exts)"

definition cert_validity :: "pki \<Rightarrow> bytes \<Rightarrow> (u64 \<times> u64) res" where
  "cert_validity P cert_der =
     bindR (decode_cert P cert_der) (\<lambda>cert. Ok (xc_not_before cert, xc_not_after cert))"

primrec ca_loop :: "pki \<Rightarrow> (string \<times> bytes) list \<Rightarrow> bool res" where
  "ca_loop P [] = Ok False"
| "ca_loop P (ext # exts) =
     (if fst ext = ''2.5.29.19'' then
        ok_or (basic_constraints_ca P (snd ext)) (Crypto ''malformed BasicConstraints'')
      else ca_loop P exts)"

definition cert_is_ca :: "pki \<Rightarrow> bytes \<Rightarrow> bool res" where
  "cert_is_ca P cert_der =
     bindR (decode_cert P cert_der) (\<lambda>cert.
       case xc_extensions cert of None \<Rightarrow> Ok False | Some exts \<Rightarrow> ca_loop P exts)"

definition subject_dn :: "pki \<Rightarrow> bytes \<Rightarrow> bytes res" where
  "subject_dn P cert_der =
     bindR (decode_cert P cert_der) (\<lambda>cert. ok_or (xc_subject_der cert) (Crypto ''bad subject DN''))"

definition issuer_dn :: "pki \<Rightarrow> bytes \<Rightarrow> bytes res" where
  "issuer_dn P cert_der =
     bindR (decode_cert P cert_der) (\<lambda>cert. ok_or (xc_issuer_der cert) (Crypto ''bad issuer DN''))"

definition within_validity :: "pki \<Rightarrow> bytes \<Rightarrow> u64 \<Rightarrow> unit res" where
  "within_validity P cert_der now =
     bindR (cert_validity P cert_der) (\<lambda>(not_before, not_after).
       if now < not_before \<or> not_after < now then Err AuthFailed else Ok ())"

text \<open>The inner loop over the anchors: whether one of them issued the current certificate.\<close>

primrec anchor_loop :: "primitives \<Rightarrow> pki \<Rightarrow> bytes \<Rightarrow> bytes \<Rightarrow> bytes list \<Rightarrow> bool res" where
  "anchor_loop C P current want_issuer [] = Ok False"
| "anchor_loop C P current want_issuer (a # as) =
     bindR (subject_dn P a) (\<lambda>dn.
       if dn = want_issuer \<and> verify_cert_signed_by C P current a = Ok () then Ok True
       else anchor_loop C P current want_issuer as)"

definition issued_by_intermediate :: "primitives \<Rightarrow> pki \<Rightarrow> bytes \<Rightarrow> bytes \<Rightarrow> bytes \<Rightarrow> bool" where
  "issued_by_intermediate C P current want_issuer ca \<longleftrightarrow>
     subject_dn P ca = Ok want_issuer \<and> cert_is_ca P ca = Ok True \<and>
     verify_cert_signed_by C P current ca = Ok ()"

text \<open>The outer loop, with the number of hops left.\<close>

primrec chain_loop :: "primitives \<Rightarrow> pki \<Rightarrow> bytes list \<Rightarrow> bytes list \<Rightarrow> u64 \<Rightarrow> nat \<Rightarrow> bytes \<Rightarrow> unit res" where
  "chain_loop C P intermediates anchors now 0 current = Err AuthFailed"
| "chain_loop C P intermediates anchors now (Suc k) current =
     bindR (within_validity P current now) (\<lambda>_.
     bindR (issuer_dn P current) (\<lambda>want_issuer.
     bindR (anchor_loop C P current want_issuer anchors) (\<lambda>anchored.
       if anchored then Ok ()
       else case find (issued_by_intermediate C P current want_issuer) intermediates of
         Some ca \<Rightarrow> chain_loop C P intermediates anchors now k ca
       | None \<Rightarrow> Err AuthFailed)))"

definition validate_chain :: "primitives \<Rightarrow> pki \<Rightarrow> bytes \<Rightarrow> bytes list \<Rightarrow> bytes list \<Rightarrow> u64 \<Rightarrow> unit res" where
  "validate_chain C P leaf_der intermediates anchors now =
     chain_loop C P intermediates anchors now (length intermediates + 1) leaf_der"

definition verify_cert_auth ::
    "primitives \<Rightarrow> pki \<Rightarrow> bytes \<Rightarrow> bytes list \<Rightarrow> bytes list \<Rightarrow> bytes option \<Rightarrow> u64 \<Rightarrow> bytes \<Rightarrow> bytes \<Rightarrow> unit res"
  where
  "verify_cert_auth C P leaf_der intermediates trusted expected_dns now auth_data octs =
     bindR (if leaf_der \<in> set trusted then within_validity P leaf_der now
            else validate_chain C P leaf_der intermediates trusted now) (\<lambda>_.
     bindR (case expected_dns of
              Some name \<Rightarrow> if cert_has_dns_name P leaf_der name \<noteq> Ok True then Err AuthFailed else Ok ()
            | None \<Rightarrow> Ok ()) (\<lambda>_.
     bindR (from_cert_der P leaf_der) (\<lambda>vk. verify_auth_data C P vk auth_data octs)))"

definition ca_key_hash :: "primitives \<Rightarrow> pki \<Rightarrow> bytes \<Rightarrow> bytes res" where
  "ca_key_hash C P cert_der =
     bindR (decode_cert P cert_der) (\<lambda>cert.
     bindR (ok_or (xc_spki_der cert) (Crypto ''malformed SPKI'')) (\<lambda>spki_der.
       Ok (be_encode 20 (sha1 C spki_der))))"

section \<open>Signatures verify\<close>

text \<open>A private and a public key belong together when what one signs the other verifies.\<close>

fun key_pair :: "pki \<Rightarrow> signing_key \<Rightarrow> verifying_key \<Rightarrow> bool" where
  "key_pair P (RsaSha256 k) (VK_Rsa pk) \<longleftrightarrow>
     (\<forall>d s. rsa_pkcs1_sign P k d = Some s \<longrightarrow> rsa_pkcs1_verify P pk d s)"
| "key_pair P (EcdsaP256 k) (VK_EcdsaP256 pk) \<longleftrightarrow>
     (\<forall>d s. p256_sign_prehash P k d = Some s \<longrightarrow>
        p256_sig_from_der P (p256_sig_to_der P s) = Some s \<and> p256_verify_prehash P pk d s)"
| "key_pair P _ _ \<longleftrightarrow> False"

lemma parse_wrap_auth_data: "length alg < 256 \<Longrightarrow> parse_auth_data (wrap_auth_data alg sig) = Ok (alg, sig)"
  by (simp add: parse_auth_data_def wrap_auth_data_def Let_def)

lemma parse_auth_data_not_Panic [simp]: "parse_auth_data dat \<noteq> Panic"
  by (auto simp: parse_auth_data_def Let_def res_iff split: list.splits)

lemma scheme_of_algorithm [simp]:
  "scheme_of RSA_SHA256 = Some RsaPkcs1Sha256" "scheme_of ECDSA_P256_SHA256 = Some EcdsaP256Sha256"
  by (simp_all add: scheme_of_def RSA_SHA256_def ECDSA_P256_SHA256_def RSA_PSS_SHA256_def)

lemma length_algorithms [simp]: "length RSA_SHA256 = 15" "length ECDSA_P256_SHA256 = 12"
  by (simp_all add: RSA_SHA256_def ECDSA_P256_SHA256_def)

lemma sign_verify:
  assumes "key_pair P k vk" "sign_auth_data C P k octs = Ok dat"
  shows "verify_auth_data C P vk dat octs = Ok ()"
proof (cases k)
  case (RsaSha256 h)
  then obtain pk sig where "vk = VK_Rsa pk" "rsa_pkcs1_sign P h (sha256_digest C octs) = Some sig"
    "dat = wrap_auth_data RSA_SHA256 sig"
    using assms by (cases vk) (auto simp: sign_auth_data_def res_iff)
  then show ?thesis
    using assms(1) RsaSha256 by (simp add: verify_auth_data_def parse_wrap_auth_data check_def)
next
  case (EcdsaP256 h)
  then obtain pk sig where "vk = VK_EcdsaP256 pk" "p256_sign_prehash P h (sha256_digest C octs) = Some sig"
    "dat = wrap_auth_data ECDSA_P256_SHA256 (p256_sig_to_der P sig)"
    using assms by (cases vk) (auto simp: sign_auth_data_def res_iff)
  then show ?thesis
    using assms(1) EcdsaP256 by (simp add: verify_auth_data_def parse_wrap_auth_data check_def)
qed

section \<open>Paths\<close>

text \<open>
  The specification of a trusted path: each certificate is valid now; it was signed by an anchor
  of the right name, or by an intermediate CA of the right name which is trusted in turn.
\<close>

inductive trusted_path :: "primitives \<Rightarrow> pki \<Rightarrow> bytes set \<Rightarrow> bytes set \<Rightarrow> u64 \<Rightarrow> bytes \<Rightarrow> bytes list \<Rightarrow> bool"
  for C P I A now where
  anchored: "within_validity P c now = Ok () \<Longrightarrow> issuer_dn P c = Ok dn \<Longrightarrow> a \<in> A \<Longrightarrow>
    subject_dn P a = Ok dn \<Longrightarrow> verify_cert_signed_by C P c a = Ok () \<Longrightarrow> trusted_path C P I A now c [a]"
| via: "within_validity P c now = Ok () \<Longrightarrow> issuer_dn P c = Ok dn \<Longrightarrow> i \<in> I \<Longrightarrow>
    subject_dn P i = Ok dn \<Longrightarrow> cert_is_ca P i = Ok True \<Longrightarrow> verify_cert_signed_by C P c i = Ok () \<Longrightarrow>
    trusted_path C P I A now i path \<Longrightarrow> trusted_path C P I A now c (i # path)"

lemma anchor_loop_True:
  "anchor_loop C P c dn as = Ok True \<Longrightarrow>
     \<exists>a \<in> set as. subject_dn P a = Ok dn \<and> verify_cert_signed_by C P c a = Ok ()"
  by (induction as) (auto simp: res_iff split: if_splits)

lemma chain_loop_trusted:
  "chain_loop C P is as now k c = Ok () \<Longrightarrow>
     \<exists>path. trusted_path C P (set is) (set as) now c path \<and> length path \<le> k"
proof (induction k arbitrary: c)
  case (Suc k)
  then obtain dn anchored where v: "within_validity P c now = Ok ()" "issuer_dn P c = Ok dn"
    "anchor_loop C P c dn as = Ok anchored"
    and rest: "(if anchored then Ok () else case find (issued_by_intermediate C P c dn) is of
         Some ca \<Rightarrow> chain_loop C P is as now k ca | None \<Rightarrow> Err AuthFailed) = Ok ()"
    by (auto simp: res_iff)
  show ?case
  proof (cases anchored)
    case True
    then show ?thesis using v anchor_loop_True[of C P c dn as] by (force intro: trusted_path.anchored)
  next
    case False
    then obtain i where i: "find (issued_by_intermediate C P c dn) is = Some i"
      "chain_loop C P is as now k i = Ok ()" using rest by (auto split: option.splits)
    then have "i \<in> set is" "issued_by_intermediate C P c dn i" by (auto simp: find_Some_iff)
    with v Suc.IH[OF i(2)] show ?thesis
      by (force simp: issued_by_intermediate_def intro: trusted_path.via)
  qed
qed simp

lemma anchor_loop_not_Panic [simp]: "anchor_loop C P c dn as \<noteq> Panic"
  by (induction as) (auto simp: subject_dn_def decode_cert_def res_iff)

lemma chain_loop_not_Panic: "chain_loop C P is as now k c \<noteq> Panic"
  by (induction k arbitrary: c)
    (auto simp: within_validity_def cert_validity_def issuer_dn_def decode_cert_def res_iff
      split: option.splits if_splits)

lemma validate_chain_not_Panic [simp]: "validate_chain C P leaf is as now \<noteq> Panic"
  unfolding validate_chain_def by (rule chain_loop_not_Panic)

lemma within_validity_not_Panic [simp]: "within_validity P c now \<noteq> Panic"
  by (auto simp: within_validity_def cert_validity_def decode_cert_def res_iff split: if_splits)

lemma from_cert_der_not_Panic [simp]: "from_cert_der P c \<noteq> Panic"
  by (auto simp: from_cert_der_def from_spki_der_def decode_cert_def res_iff)

lemma verify_auth_data_not_Panic [simp]: "verify_auth_data C P vk d o' \<noteq> Panic"
  by (auto simp: verify_auth_data_def check_def Let_def res_iff split: verifying_key.splits scheme.splits)

lemma verify_cert_auth_not_Panic [simp]:
  "verify_cert_auth C P leaf is ts dns now d o' \<noteq> Panic"
  by (auto simp: verify_cert_auth_def res_iff split: option.splits if_splits)

lemma verify_cert_auth_OkD:
  assumes "verify_cert_auth C P leaf is trusted dns now dat octs = Ok ()"
  shows "(leaf \<in> set trusted \<and> within_validity P leaf now = Ok () \<or>
      (\<exists>path. trusted_path C P (set is) (set trusted) now leaf path \<and> length path \<le> length is + 1)) \<and>
    (\<forall>name. dns = Some name \<longrightarrow> cert_has_dns_name P leaf name = Ok True) \<and>
    (\<exists>vk. from_cert_der P leaf = Ok vk \<and> verify_auth_data C P vk dat octs = Ok ())"
  using assms chain_loop_trusted[of C P "is" trusted now "length is + 1" leaf]
  by (auto simp: verify_cert_auth_def validate_chain_def res_iff split: if_splits option.splits)

section \<open>Properties\<close>

text \<open>
  C24. Certificate authentication is sound: when it accepts, the leaf is a pinned certificate valid
  now, or there is a trusted path of at most one certificate more than there are intermediates,
  on which every certificate is valid now, names its issuer, is signed by it, and every
  intermediate issuer is a CA; the expected DNS name is in the leaf; and the AUTH data verifies
  under the leaf's key over the signed octets. It never panics.
\<close>
theorem cert_auth_sound:
  "verify_cert_auth C P leaf is trusted dns now dat octs \<noteq> Panic \<and>
   (verify_cert_auth C P leaf is trusted dns now dat octs = Ok () \<longrightarrow>
    (leaf \<in> set trusted \<and> within_validity P leaf now = Ok () \<or>
      (\<exists>path. trusted_path C P (set is) (set trusted) now leaf path \<and> length path \<le> length is + 1)) \<and>
    (\<forall>name. dns = Some name \<longrightarrow> cert_has_dns_name P leaf name = Ok True) \<and>
    (\<exists>vk. from_cert_der P leaf = Ok vk \<and> verify_auth_data C P vk dat octs = Ok ()))"
  by (rule conjI[OF verify_cert_auth_not_Panic impI[OF verify_cert_auth_OkD]])

text \<open>
  A toy PKI for the witnesses: every byte string is a self-issued RSA certificate that is its own
  key, signatures are the key followed by the digest.
\<close>

definition toy_pki :: pki where
  "toy_pki = \<lparr>
     x509_from_der = (\<lambda>c. Some \<lparr>xc_spki_der = Some c, xc_spki_oid = OID_RSA_ENCRYPTION, xc_tbs_der = Some c,
       xc_signature = Some c, xc_signature_oid = OID_SHA256_WITH_RSA, xc_subject_der = Some [],
       xc_issuer_der = Some [], xc_not_before = 0, xc_not_after = 100, xc_extensions = None\<rparr>),
     san_from_der = (\<lambda>_. None), basic_constraints_ca = (\<lambda>_. None),
     rsa_public_from_der = Some, p256_public_from_der = (\<lambda>_. None), p256_private_from_pkcs8 = Some,
     rsa_pkcs1_sign = (\<lambda>k d. Some (k @ d)), rsa_pkcs1_verify = (\<lambda>k d s. s = k @ d),
     rsa_pss_verify = (\<lambda>_ _ _. False),
     p256_sign_prehash = (\<lambda>k d. Some (k @ d)), p256_sig_to_der = (\<lambda>s. s), p256_sig_from_der = Some,
     p256_sig_to_bytes = (\<lambda>s. s), p256_verify_prehash = (\<lambda>k d s. s = k @ d)\<rparr>"

lemma toy_leaf: "from_cert_der toy_pki [7] = Ok (VK_Rsa [7])" "within_validity toy_pki [7] 50 = Ok ()"
  by (simp_all add: from_cert_der_def decode_cert_def toy_pki_def from_spki_der_def within_validity_def
      cert_validity_def)

lemma toy_key_pair: "key_pair toy_pki (RsaSha256 k) (VK_Rsa k)" "key_pair toy_pki (EcdsaP256 k) (VK_EcdsaP256 k)"
  by (simp_all add: toy_pki_def)

lemma toy_signs: "\<exists>dat. sign_auth_data C toy_pki k octs = Ok dat"
  by (cases k) (simp_all add: sign_auth_data_def toy_pki_def)

theorem cert_auth_sound_witness:
  "\<exists>dat. verify_cert_auth toy_primitives toy_pki [7] [] [[7]] None 50 dat [1, 2] = Ok () \<and>
     (\<exists>vk. from_cert_der toy_pki [7] = Ok vk \<and> verify_auth_data toy_primitives toy_pki vk dat [1, 2] = Ok ())"
proof -
  obtain dat where d: "sign_auth_data toy_primitives toy_pki (RsaSha256 [7]) [1, 2] = Ok dat"
    using toy_signs by blast
  have "verify_cert_auth toy_primitives toy_pki [7] [] [[7]] None 50 dat [1, 2] = Ok ()"
    using sign_verify[OF toy_key_pair(1) d] toy_leaf by (simp add: verify_cert_auth_def)
  then show ?thesis using cert_auth_sound[of toy_primitives toy_pki "[7]" "[]" "[[7]]" None 50 dat "[1, 2]"] by blast
qed

text \<open>
  What a key signs verifies: for a matching key pair, RSA or ECDSA, the method-14 AUTH data made
  by \<open>sign_auth_data\<close> is accepted by \<open>verify_auth_data\<close> over the same octets, and verification never
  panics on any AUTH data.
\<close>
theorem signature_roundtrip:
  assumes "key_pair P k vk" "sign_auth_data C P k octs = Ok dat"
  shows "verify_auth_data C P vk dat octs = Ok () \<and> verify_auth_data C P vk any octs' \<noteq> Panic"
  using sign_verify[OF assms] by simp

theorem signature_roundtrip_witness:
  "\<exists>dat. sign_auth_data toy_primitives toy_pki (EcdsaP256 [3]) [1, 2] = Ok dat \<and>
     verify_auth_data toy_primitives toy_pki (VK_EcdsaP256 [3]) dat [1, 2] = Ok ()"
  using toy_signs[of toy_primitives "EcdsaP256 [3]" "[1, 2]"]
    signature_roundtrip[OF toy_key_pair(2), of toy_primitives "[3]" "[1, 2]"] by blast

end
