(* ===== verification/Negotiate.thy ===== *)
theory Negotiate
  imports Payload Crypto
begin

text \<open>
  Suite negotiation, \<open>src/src/ikev2/negotiate.rs\<close>.

  The specification says which suites a proposal makes acceptable and how they rank; the lemmas
  show that \<open>select\<close> returns the best suite of the first proposal that has one, and that the
  proposal echoed in the response selects the same suite again.
\<close>

section \<open>The code\<close>

record chosen_suite =
  cs_proposal_num :: u8
  cs_encr_id :: u16
  cs_encr_key_bits :: u16
  cs_prf_id :: u16
  cs_integ_id :: "u16 option"
  cs_dh_id :: u16

definition suite_key_lengths :: "chosen_suite \<Rightarrow> key_lengths" where
  "suite_key_lengths s =
     (let salt = (if cs_encr_id s = AES_GCM_16 then 4 else 0) in
      \<lparr>kl_prf = 32, kl_integ = (if cs_integ_id s \<noteq> None then 32 else 0),
       kl_encr = unat (cs_encr_key_bits s div 8) + salt\<rparr>)"

definition to_proposal :: "chosen_suite \<Rightarrow> proposal" where
  "to_proposal s =
     \<lparr>pr_num = cs_proposal_num s, pr_protocol_id = PROTO_IKE, pr_spi = [],
      pr_transforms =
        [\<lparr>tr_type = TT_ENCR, tr_id = cs_encr_id s, tr_key_length = Some (cs_encr_key_bits s)\<rparr>,
         \<lparr>tr_type = TT_PRF, tr_id = cs_prf_id s, tr_key_length = None\<rparr>] @
        (case cs_integ_id s of
           Some integ \<Rightarrow> [\<lparr>tr_type = TT_INTEG, tr_id = integ, tr_key_length = None\<rparr>] | None \<Rightarrow> []) @
        [\<lparr>tr_type = TT_DH, tr_id = cs_dh_id s, tr_key_length = None\<rparr>]\<rparr>"

definition has :: "proposal \<Rightarrow> u8 \<Rightarrow> u16 \<Rightarrow> u16 option \<Rightarrow> bool" where
  "has p ttype tid key_bits =
     list_ex (\<lambda>t. tr_type t = ttype \<and> tr_id t = tid \<and>
       (case key_bits of Some bits \<Rightarrow> tr_key_length t = Some bits | None \<Rightarrow> True)) (pr_transforms p)"

definition select_from_proposal :: "proposal \<Rightarrow> chosen_suite option" where
  "select_from_proposal p =
     (if pr_protocol_id p \<noteq> PROTO_IKE then None
      else if \<not> has p TT_PRF PRF_HMAC_SHA2_256 None then None
      else case find (\<lambda>g. has p TT_DH g None) [ID_X25519, MODP_2048, MODP_1024] of
        None \<Rightarrow> None
      | Some dh \<Rightarrow>
          if has p TT_ENCR AES_GCM_16 (Some 256) then
            Some \<lparr>cs_proposal_num = pr_num p, cs_encr_id = AES_GCM_16, cs_encr_key_bits = 256,
              cs_prf_id = PRF_HMAC_SHA2_256, cs_integ_id = None, cs_dh_id = dh\<rparr>
          else if has p TT_ENCR AES_CBC (Some 256) \<and> has p TT_INTEG AUTH_HMAC_SHA2_256_128 None then
            Some \<lparr>cs_proposal_num = pr_num p, cs_encr_id = AES_CBC, cs_encr_key_bits = 256,
              cs_prf_id = PRF_HMAC_SHA2_256, cs_integ_id = Some AUTH_HMAC_SHA2_256_128, cs_dh_id = dh\<rparr>
          else None)"

definition select :: "security_association \<Rightarrow> chosen_suite option" where
  "select sa = find_map select_from_proposal (sa_proposals sa)"

section \<open>The specification\<close>

text \<open>The suites the program can run: AES-GCM-16-256, or AES-CBC-256 with HMAC-SHA2-256-128.\<close>

definition suite_supported :: "chosen_suite \<Rightarrow> bool" where
  "suite_supported s \<longleftrightarrow> cs_encr_key_bits s = 256 \<and> cs_prf_id s = PRF_HMAC_SHA2_256 \<and>
     cs_dh_id s \<in> {ID_X25519, MODP_2048, MODP_1024} \<and>
     (cs_encr_id s = AES_GCM_16 \<and> cs_integ_id s = None \<or>
      cs_encr_id s = AES_CBC \<and> cs_integ_id s = Some AUTH_HMAC_SHA2_256_128)"

text \<open>A suite is acceptable for a proposal that offers each of its transforms.\<close>

definition offers :: "proposal \<Rightarrow> u8 \<Rightarrow> u16 \<Rightarrow> bool" where
  "offers p ty tid \<longleftrightarrow> (\<exists>t \<in> set (pr_transforms p). tr_type t = ty \<and> tr_id t = tid)"

definition acceptable :: "proposal \<Rightarrow> chosen_suite \<Rightarrow> bool" where
  "acceptable p s \<longleftrightarrow> suite_supported s \<and> pr_protocol_id p = PROTO_IKE \<and>
     cs_proposal_num s = pr_num p \<and> offers p TT_PRF (cs_prf_id s) \<and> offers p TT_DH (cs_dh_id s) \<and>
     (\<exists>t \<in> set (pr_transforms p). tr_type t = TT_ENCR \<and> tr_id t = cs_encr_id s \<and>
        tr_key_length t = Some (cs_encr_key_bits s)) \<and>
     (\<forall>i. cs_integ_id s = Some i \<longrightarrow> offers p TT_INTEG i)"

definition encr_rank :: "chosen_suite \<Rightarrow> nat" where
  "encr_rank s = (if cs_encr_id s = AES_GCM_16 then 0 else 1)"

definition dh_rank :: "chosen_suite \<Rightarrow> nat" where
  "dh_rank s = (if cs_dh_id s = ID_X25519 then 0 else if cs_dh_id s = MODP_2048 then 1 else 2)"

definition best :: "proposal \<Rightarrow> chosen_suite \<Rightarrow> bool" where
  "best p s \<longleftrightarrow> acceptable p s \<and>
     (\<forall>t. acceptable p t \<longrightarrow> encr_rank s \<le> encr_rank t \<and> dh_rank s \<le> dh_rank t)"

section \<open>Refinement\<close>

lemma has_iff:
  "has p ty tid None \<longleftrightarrow> offers p ty tid"
  "has p ty tid (Some b) \<longleftrightarrow>
     (\<exists>t \<in> set (pr_transforms p). tr_type t = ty \<and> tr_id t = tid \<and> tr_key_length t = Some b)"
  by (auto simp: has_def offers_def list_ex_iff)

lemma acceptable_iff:
  "acceptable p s \<longleftrightarrow> suite_supported s \<and> pr_protocol_id p = PROTO_IKE \<and>
     cs_proposal_num s = pr_num p \<and> has p TT_PRF (cs_prf_id s) None \<and> has p TT_DH (cs_dh_id s) None \<and>
     has p TT_ENCR (cs_encr_id s) (Some (cs_encr_key_bits s)) \<and>
     (\<forall>i. cs_integ_id s = Some i \<longrightarrow> has p TT_INTEG i None)"
  by (simp only: acceptable_def has_iff)

lemma select_from_proposal_acceptable:
  "select_from_proposal p = Some s \<Longrightarrow> acceptable p s"
  by (auto simp: select_from_proposal_def acceptable_iff suite_supported_def split: if_splits)

lemma select_from_proposal_best:
  assumes "acceptable p t"
  shows "\<exists>s. select_from_proposal p = Some s \<and> encr_rank s \<le> encr_rank t \<and> dh_rank s \<le> dh_rank t"
  using assms
  by (simp add: select_from_proposal_def acceptable_iff suite_supported_def, elim disjE conjE)
    (simp_all add: encr_rank_def dh_rank_def)

lemma supported_rank_unique:
  "suite_supported s \<Longrightarrow> suite_supported t \<Longrightarrow> cs_proposal_num s = cs_proposal_num t \<Longrightarrow>
     encr_rank s = encr_rank t \<Longrightarrow> dh_rank s = dh_rank t \<Longrightarrow> s = t"
  by (cases s; cases t) (auto simp: suite_supported_def encr_rank_def dh_rank_def)

lemma best_unique: "best p s \<Longrightarrow> best p t \<Longrightarrow> s = t"
  using acceptable_def[of p s] acceptable_def[of p t]
  by (intro supported_rank_unique order_antisym) (simp_all add: best_def)

lemma select_from_proposal_imp_best: "select_from_proposal p = Some s \<Longrightarrow> best p s"
  using select_from_proposal_acceptable[of p s] select_from_proposal_best[of p]
  by (auto simp: best_def)

lemma select_from_proposal_Some: "select_from_proposal p = Some s \<longleftrightarrow> best p s"
proof
  assume b: "best p s"
  then obtain t where "select_from_proposal p = Some t"
    using select_from_proposal_best[of p s] by (auto simp: best_def)
  then show "select_from_proposal p = Some s"
    using b best_unique select_from_proposal_imp_best by blast
qed (rule select_from_proposal_imp_best)

lemma select_from_proposal_None: "select_from_proposal p = None \<longleftrightarrow> (\<forall>s. \<not> acceptable p s)"
  using select_from_proposal_acceptable[of p] select_from_proposal_best[of p]
  by (cases "select_from_proposal p") auto

lemma select_supported: "select sa = Some s \<Longrightarrow> suite_supported s"
  using select_from_proposal_acceptable
  by (auto simp: select_def find_map_Some acceptable_def)

lemma select_to_proposal [simp]:
  "suite_supported s \<Longrightarrow> select \<lparr>sa_proposals = [to_proposal s]\<rparr> = Some s"
  by (cases s, simp add: suite_supported_def, elim disjE conjE)
    (simp_all add: select_def select_from_proposal_def to_proposal_def has_def)

lemma to_proposal_wf [simp]: "proposal_wf (to_proposal s)"
  by (simp add: proposal_wf_def to_proposal_def split: option.split)

lemma suite_supported_group:
  "suite_supported s \<Longrightarrow> \<exists>g. dh_group_from_transform_id (cs_dh_id s) = Some g"
  by (auto simp: suite_supported_def dh_group_from_transform_id_def)

lemma suite_key_lengths_gcm:
  "suite_supported s \<Longrightarrow> cs_encr_id s = AES_GCM_16 \<Longrightarrow>
     suite_key_lengths s = \<lparr>kl_prf = 32, kl_integ = 0, kl_encr = 36\<rparr>"
  by (auto simp: suite_key_lengths_def suite_supported_def)

section \<open>Properties\<close>

text \<open>
  C30. Negotiation meets its specification: \<open>select\<close> returns a suite exactly when it is the best
  ranked acceptable suite (AEAD before CBC, X25519 before MODP-2048 before MODP-1024) of a
  proposal before which no proposal is acceptable; it returns none exactly when no proposal has
  an acceptable suite.
\<close>
theorem select_spec:
  "(select sa = Some s \<longleftrightarrow>
      (\<exists>before p after. sa_proposals sa = before @ p # after \<and>
         (\<forall>q \<in> set before. \<forall>t. \<not> acceptable q t) \<and> best p s)) \<and>
   (select sa = None \<longleftrightarrow> (\<forall>p \<in> set (sa_proposals sa). \<forall>t. \<not> acceptable p t))"
  by (simp add: select_def find_map_Some find_map_None select_from_proposal_Some
      select_from_proposal_None)

definition sample_offer :: security_association where
  "sample_offer = \<lparr>sa_proposals = [\<lparr>pr_num = 1, pr_protocol_id = PROTO_IKE, pr_spi = [],
     pr_transforms = [\<lparr>tr_type = TT_ENCR, tr_id = AES_GCM_16, tr_key_length = Some 256\<rparr>,
       \<lparr>tr_type = TT_PRF, tr_id = PRF_HMAC_SHA2_256, tr_key_length = None\<rparr>,
       \<lparr>tr_type = TT_DH, tr_id = ID_X25519, tr_key_length = None\<rparr>]\<rparr>]\<rparr>"

definition sample_suite :: chosen_suite where
  "sample_suite = \<lparr>cs_proposal_num = 1, cs_encr_id = AES_GCM_16, cs_encr_key_bits = 256,
     cs_prf_id = PRF_HMAC_SHA2_256, cs_integ_id = None, cs_dh_id = ID_X25519\<rparr>"

lemma select_sample: "select sample_offer = Some sample_suite"
  by (simp add: select_def sample_offer_def sample_suite_def select_from_proposal_def has_def)

theorem select_spec_witness:
  "\<exists>before p after. sa_proposals sample_offer = before @ p # after \<and> best p sample_suite"
  using select_spec[of sample_offer sample_suite] select_sample by blast

text \<open>
  The response's proposal names the chosen suite: after a round trip through the wire format it
  selects the same suite again, so both sides derive keys for one suite.
\<close>
theorem chosen_proposal_roundtrip:
  assumes "select sa = Some s"
  shows "\<exists>sa'. security_association_parse
      (security_association_to_bytes \<lparr>sa_proposals = [to_proposal s]\<rparr>) = Ok sa' \<and> select sa' = Some s"
  using select_supported[OF assms] by (simp add: sa_wf_def)

theorem chosen_proposal_roundtrip_witness:
  "\<exists>sa'. security_association_parse
      (security_association_to_bytes \<lparr>sa_proposals = [to_proposal sample_suite]\<rparr>) = Ok sa' \<and>
    select sa' = Some sample_suite"
  by (rule chosen_proposal_roundtrip[OF select_sample])

end
