(* ===== verification/Sa_Init.thy ===== *)
theory Sa_Init
  imports Negotiate Natt
begin

text \<open>
  The \<open>IKE_SA_INIT\<close> exchange of both roles, \<open>src/src/ikev2/exchange.rs\<close>: the ephemeral inputs, the
  parser of the exchange's payloads, the initiator's request and completion, and the responder
  with its cookie policy, group renegotiation and NAT detection.

  The lemmas show that a built message parses back, that an initiator and a responder that both
  complete hold the same suite, SPIs, nonces, transcripts and keys, that the cookie gate opens
  only for the expected cookie, and that neither side panics on any bytes from the network.
\<close>

section \<open>State\<close>

definition SUPPORTED_SIGNATURE_HASHES :: "u16 list" where
  "SUPPORTED_SIGNATURE_HASHES = [SHA2_256]"

record local_secret =
  ls_dh_private :: bytes
  ls_nonce :: bytes
  ls_spi :: u64

record completed_sa_init =
  ci_role :: role
  ci_spi_i :: u64
  ci_spi_r :: u64
  ci_suite :: chosen_suite
  ci_keys :: session_keys
  ci_ni :: bytes
  ci_nr :: bytes
  ci_init_message :: bytes
  ci_resp_message :: bytes
  ci_peer_signature_hashes :: "u16 list"

definition local_secret_generate :: "'e filler \<Rightarrow> 'e \<Rightarrow> nat \<Rightarrow> local_secret \<times> 'e" where
  "local_secret_generate fill e nonce_len =
     (let (dh_private, e1) = next_array32 fill e;
          (nonce, e2) = fill e1 nonce_len;
          (spi, e3) = next_u64 fill e2
      in (\<lparr>ls_dh_private = dh_private, ls_nonce = nonce, ls_spi = (if spi = 0 then 1 else spi)\<rparr>, e3))"

definition default_offer :: security_association where
  "default_offer = \<lparr>sa_proposals = [\<lparr>pr_num = 1, pr_protocol_id = PROTO_IKE, pr_spi = [],
     pr_transforms = [\<lparr>tr_type = TT_ENCR, tr_id = AES_GCM_16, tr_key_length = Some 256\<rparr>,
       \<lparr>tr_type = TT_PRF, tr_id = PRF_HMAC_SHA2_256, tr_key_length = None\<rparr>,
       \<lparr>tr_type = TT_DH, tr_id = ID_X25519, tr_key_length = None\<rparr>]\<rparr>]\<rparr>"

section \<open>Parsing\<close>

record sa_init_payloads =
  si_sa :: security_association
  si_ke :: key_exchange
  si_nonce :: nonce
  si_signature_hashes :: "u16 list"
  si_cookie :: "bytes option"

definition parse_signature_hashes :: "bytes \<Rightarrow> u16 list" where
  "parse_signature_hashes dat = map (\<lambda>c. from_be16 (c ! 0) (c ! 1)) (chunks_exact 2 dat)"

text \<open>The local variables of \<open>parse_sa_init\<close> while it walks the chain.\<close>

record sa_init_vars =
  v_sa :: "security_association option"
  v_ke :: "key_exchange option"
  v_nonce :: "nonce option"
  v_signature_hashes :: "u16 list"
  v_cookie :: "bytes option"

definition sa_init_payload :: "sa_init_vars \<Rightarrow> raw_payload \<Rightarrow> sa_init_vars res" where
  "sa_init_payload v p =
     (case rp_type p of
        PT_SecurityAssociation \<Rightarrow>
          bindR (security_association_parse (rp_data p)) (\<lambda>sa. Ok (v\<lparr>v_sa := Some sa\<rparr>))
      | PT_KeyExchange \<Rightarrow> bindR (key_exchange_parse (rp_data p)) (\<lambda>ke. Ok (v\<lparr>v_ke := Some ke\<rparr>))
      | PT_Nonce \<Rightarrow> Ok (v\<lparr>v_nonce := Some (nonce_parse (rp_data p))\<rparr>)
      | PT_Notify \<Rightarrow>
          (case notify_parse (rp_data p) of
             Ok n \<Rightarrow>
               if nt_notify_type n = SIGNATURE_HASH_ALGORITHMS then
                 Ok (v\<lparr>v_signature_hashes := parse_signature_hashes (nt_data n)\<rparr>)
               else if nt_notify_type n = COOKIE then Ok (v\<lparr>v_cookie := Some (nt_data n)\<rparr>)
               else Ok v
           | Err _ \<Rightarrow> Ok v
           | Panic \<Rightarrow> Panic)
      | _ \<Rightarrow> Ok v)"

definition parse_sa_init :: "ike_header \<Rightarrow> bytes \<Rightarrow> sa_init_payloads res" where
  "parse_sa_init header body =
     bindR (for_payloads (h_next_payload header) body sa_init_payload
       \<lparr>v_sa = None, v_ke = None, v_nonce = None, v_signature_hashes = [], v_cookie = None\<rparr>) (\<lambda>v.
     bindR (ok_or (v_sa v) (MissingPayload ''SA'')) (\<lambda>sa.
     bindR (ok_or (v_ke v) (MissingPayload ''KE'')) (\<lambda>ke.
     bindR (ok_or (v_nonce v) (MissingPayload ''Nonce'')) (\<lambda>nonce.
       Ok \<lparr>si_sa = sa, si_ke = ke, si_nonce = nonce, si_signature_hashes = v_signature_hashes v,
           si_cookie = v_cookie v\<rparr>))))"

section \<open>Building\<close>

definition sighash_notify :: notify where
  "sighash_notify =
     notify_status SIGNATURE_HASH_ALGORITHMS (concat (map to_be16 SUPPORTED_SIGNATURE_HASHES))"

definition base_header :: "u64 \<Rightarrow> u64 \<Rightarrow> flags \<Rightarrow> ike_header" where
  "base_header spi_i spi_r fl =
     \<lparr>h_initiator_spi = spi_i, h_responder_spi = spi_r, h_next_payload = PT_NoNext,
      h_major_version = 2, h_minor_version = 0, h_exchange_type = IkeSaInit, h_flags = fl,
      h_message_id = 0, h_length = 0\<rparr>"

definition build_sa_init ::
    "ike_header \<Rightarrow> security_association \<Rightarrow> u16 \<Rightarrow> bytes \<Rightarrow> bytes \<Rightarrow> notify list \<Rightarrow> bytes" where
  "build_sa_init header sa dh_group dh_pub nonce extra_notifies =
     (let ke = \<lparr>ke_dh_group = dh_group, ke_data = dh_pub\<rparr>;
          b0 = message_builder_new header;
          b1 = message_builder_push b0 PT_SecurityAssociation (security_association_to_bytes sa);
          b2 = message_builder_push b1 PT_KeyExchange (key_exchange_to_bytes ke);
          b3 = message_builder_push b2 PT_Nonce (nonce_to_bytes \<lparr>no_data = nonce\<rparr>);
          b4 = message_builder_push b3 PT_Notify (notify_to_bytes sighash_notify);
          b5 = foldl (\<lambda>b n. message_builder_push b PT_Notify (notify_to_bytes n)) b4 extra_notifies
      in message_builder_build b5)"

definition dh_peer :: "key_exchange \<Rightarrow> dh_group \<Rightarrow> bytes res" where
  "dh_peer ke g =
     (if ke_dh_group ke \<noteq> dh_group_transform_id g then
        Err (DhGroupMismatch (dh_group_transform_id g) (ke_dh_group ke))
      else if length (ke_data ke) \<noteq> public_len g then
        Err (BadKeyExchange (ke_dh_group ke) (length (ke_data ke)))
      else Ok (ke_data ke))"

definition offer_dh_group :: "security_association \<Rightarrow> dh_group" where
  "offer_dh_group offer =
     (case (case sa_proposals offer of
              [] \<Rightarrow> None
            | p # _ \<Rightarrow> Option.bind (find (\<lambda>t. tr_type t = TT_DH) (pr_transforms p))
                (\<lambda>t. dh_group_from_transform_id (tr_id t))) of
        Some g \<Rightarrow> g | None \<Rightarrow> X25519)"

definition initiator_request :: "primitives \<Rightarrow> local_secret \<Rightarrow> security_association \<Rightarrow> bytes res" where
  "initiator_request C loc offer =
     (let g = offer_dh_group offer in
      bindR (dh_public C g (ls_dh_private loc)) (\<lambda>pub.
        Ok (build_sa_init
          (base_header (ls_spi loc) 0 \<lparr>f_initiator = True, f_version = False, f_response = False\<rparr>)
          offer (dh_group_transform_id g) pub (ls_nonce loc) [])))"

section \<open>The responder\<close>

record cookie_policy =
  ckp_secret :: bytes
  ckp_peer :: bytes
  ckp_required :: bool

definition ike_cookie :: "primitives \<Rightarrow> bytes \<Rightarrow> u64 \<Rightarrow> bytes \<Rightarrow> bytes \<Rightarrow> bytes" where
  "ike_cookie C secret spi_i ni addr = be_encode 32 (sha256 C (secret @ to_be64 spi_i @ ni @ addr))"

definition response_flags :: flags where
  "response_flags = \<lparr>f_initiator = False, f_version = False, f_response = True\<rparr>"

definition build_cookie_challenge :: "u64 \<Rightarrow> bytes \<Rightarrow> bytes" where
  "build_cookie_challenge spi_i cookie =
     message_builder_build (message_builder_push
       (message_builder_new (base_header spi_i 0 response_flags))
       PT_Notify (notify_to_bytes (notify_status COOKIE cookie)))"

datatype sa_init_result =
    Established bytes completed_sa_init
  | InvalidKe bytes u16
  | CookieRequired bytes

definition build_invalid_ke :: "u64 \<Rightarrow> u16 \<Rightarrow> bytes" where
  "build_invalid_ke spi_i g =
     message_builder_build (message_builder_push
       (message_builder_new (base_header spi_i 0 response_flags))
       PT_Notify (notify_to_bytes (notify_status INVALID_KE_PAYLOAD (to_be16 g))))"

definition natt_notifies ::
    "primitives \<Rightarrow> u64 \<Rightarrow> u64 \<Rightarrow> (socket_addr \<times> socket_addr) option \<Rightarrow> notify list" where
  "natt_notifies C spi_i spi_r natt =
     (case natt of
        Some (our_addr, peer_addr) \<Rightarrow>
          [source_ip_notify C spi_i spi_r (sock_ip our_addr) (sock_port our_addr),
           destination_ip_notify C spi_i spi_r (sock_ip peer_addr) (sock_port peer_addr)]
      | None \<Rightarrow> [])"

definition cookie_check ::
    "primitives \<Rightarrow> cookie_policy option \<Rightarrow> ike_header \<Rightarrow> sa_init_payloads \<Rightarrow> bytes option" where
  "cookie_check C cookie header ps =
     (case cookie of
        Some pol \<Rightarrow>
          if ckp_required pol then
            let expected = ike_cookie C (ckp_secret pol) (h_initiator_spi header)
                  (no_data (si_nonce ps)) (ckp_peer pol)
            in if si_cookie ps \<noteq> Some expected then
                 Some (build_cookie_challenge (h_initiator_spi header) expected)
               else None
          else None
      | None \<Rightarrow> None)"

definition responder_establish ::
    "primitives \<Rightarrow> bytes \<Rightarrow> local_secret \<Rightarrow> (socket_addr \<times> socket_addr) option \<Rightarrow> ike_header \<Rightarrow>
     sa_init_payloads \<Rightarrow> chosen_suite \<Rightarrow> dh_group \<Rightarrow> sa_init_result res" where
  "responder_establish C request loc natt header ps suite g =
     bindR (dh_peer (si_ke ps) g) (\<lambda>peer_public.
     bindR (dh_public C g (ls_dh_private loc)) (\<lambda>our_public.
     bindR (dh_shared C g (ls_dh_private loc) peer_public) (\<lambda>shared.
       let spi_i = h_initiator_spi header; spi_r = ls_spi loc in
       bindR (derive_session_keys C shared (no_data (si_nonce ps)) (ls_nonce loc) spi_i spi_r
         (suite_key_lengths suite)) (\<lambda>keys.
         let extra_notifies = natt_notifies C spi_i spi_r natt;
             response = build_sa_init (base_header spi_i spi_r response_flags)
               \<lparr>sa_proposals = [to_proposal suite]\<rparr> (cs_dh_id suite) our_public (ls_nonce loc)
               extra_notifies
         in Ok (Established response
              \<lparr>ci_role = Responder, ci_spi_i = spi_i, ci_spi_r = spi_r, ci_suite = suite,
               ci_keys = keys, ci_ni = no_data (si_nonce ps), ci_nr = ls_nonce loc,
               ci_init_message = request, ci_resp_message = response,
               ci_peer_signature_hashes = si_signature_hashes ps\<rparr>)))))"

definition responder_respond_inner ::
    "primitives \<Rightarrow> bytes \<Rightarrow> local_secret \<Rightarrow> (socket_addr \<times> socket_addr) option \<Rightarrow>
     cookie_policy option \<Rightarrow> sa_init_result res" where
  "responder_respond_inner C request loc natt cookie =
     bindR (ike_header_parse request) (\<lambda>header.
     bindR (slice_from request HEADER_LEN) (\<lambda>body.
     bindR (parse_sa_init header body) (\<lambda>ps.
       case cookie_check C cookie header ps of
         Some challenge \<Rightarrow> Ok (CookieRequired challenge)
       | None \<Rightarrow>
           bindR (ok_or (select (si_sa ps)) NoProposalChosen) (\<lambda>suite.
           bindR (ok_or (dh_group_from_transform_id (cs_dh_id suite)) NoProposalChosen) (\<lambda>g.
             if ke_dh_group (si_ke ps) \<noteq> dh_group_transform_id g then
               (case natt of
                  Some _ \<Rightarrow> Ok (InvalidKe
                    (build_invalid_ke (h_initiator_spi header) (dh_group_transform_id g))
                    (dh_group_transform_id g))
                | None \<Rightarrow> Err (DhGroupMismatch (dh_group_transform_id g) (ke_dh_group (si_ke ps))))
             else responder_establish C request loc natt header ps suite g)))))"

definition responder_respond :: "primitives \<Rightarrow> bytes \<Rightarrow> local_secret \<Rightarrow> (bytes \<times> completed_sa_init) res"
  where
  "responder_respond C request loc =
     bindR (responder_respond_inner C request loc None None) (\<lambda>r. case r of
        Established response sa \<Rightarrow> Ok (response, sa)
      | InvalidKe _ g \<Rightarrow> Err (DhGroupMismatch g g)
      | CookieRequired _ \<Rightarrow> Err NoProposalChosen)"

definition responder_respond_natt ::
    "primitives \<Rightarrow> bytes \<Rightarrow> local_secret \<Rightarrow> socket_addr \<Rightarrow> socket_addr \<Rightarrow> cookie_policy option \<Rightarrow>
     sa_init_result res" where
  "responder_respond_natt C request loc our_addr peer_addr cookie =
     responder_respond_inner C request loc (Some (our_addr, peer_addr)) cookie"

section \<open>The initiator's completion\<close>

definition initiator_complete ::
    "primitives \<Rightarrow> local_secret \<Rightarrow> bytes \<Rightarrow> bytes \<Rightarrow> completed_sa_init res" where
  "initiator_complete C loc request response =
     bindR (ike_header_parse response) (\<lambda>header.
     bindR (slice_from response HEADER_LEN) (\<lambda>body.
     bindR (parse_sa_init header body) (\<lambda>ps.
     bindR (ok_or (select (si_sa ps)) NoProposalChosen) (\<lambda>suite.
     bindR (ok_or (dh_group_from_transform_id (cs_dh_id suite)) NoProposalChosen) (\<lambda>g.
     bindR (dh_peer (si_ke ps) g) (\<lambda>peer_public.
     bindR (dh_shared C g (ls_dh_private loc) peer_public) (\<lambda>shared.
       let spi_i = ls_spi loc; spi_r = h_responder_spi header in
       bindR (derive_session_keys C shared (ls_nonce loc) (no_data (si_nonce ps)) spi_i spi_r
         (suite_key_lengths suite)) (\<lambda>keys.
         Ok \<lparr>ci_role = Initiator, ci_spi_i = spi_i, ci_spi_r = spi_r, ci_suite = suite,
             ci_keys = keys, ci_ni = ls_nonce loc, ci_nr = no_data (si_nonce ps),
             ci_init_message = request, ci_resp_message = response,
             ci_peer_signature_hashes = si_signature_hashes ps\<rparr>))))))))"

section \<open>Parsing what was built\<close>

definition sa_init_chain ::
    "security_association \<Rightarrow> u16 \<Rightarrow> bytes \<Rightarrow> bytes \<Rightarrow> notify list \<Rightarrow> payload_chain" where
  "sa_init_chain sa g pub n ex =
     [(PT_SecurityAssociation, security_association_to_bytes sa),
      (PT_KeyExchange, key_exchange_to_bytes \<lparr>ke_dh_group = g, ke_data = pub\<rparr>),
      (PT_Nonce, n), (PT_Notify, notify_to_bytes sighash_notify)] @
     map (\<lambda>n. (PT_Notify, notify_to_bytes n)) ex"

lemma push_notifies:
  "foldl (\<lambda>b n. message_builder_push b PT_Notify (notify_to_bytes n)) b ex =
     b\<lparr>mb_payloads := mb_payloads b @ map (\<lambda>n. (PT_Notify, notify_to_bytes n)) ex\<rparr>"
  by (induction ex arbitrary: b) (simp_all add: message_builder_push_def)

lemma build_sa_init_eq:
  "build_sa_init h sa g pub n ex =
     message_builder_build \<lparr>mb_header = h, mb_payloads = sa_init_chain sa g pub n ex\<rparr>"
  unfolding build_sa_init_def Let_def push_notifies
  by (simp add: message_builder_new_def message_builder_push_def sa_init_chain_def nonce_to_bytes_def)

definition notify_fits :: "notify \<Rightarrow> bool" where
  "notify_fits n \<longleftrightarrow> notify_wf n \<and> length (notify_to_bytes n) < 65532"

lemma sighash_notify_fits [simp]: "notify_fits sighash_notify"
  by (simp add: sighash_notify_def notify_fits_def notify_wf_def notify_status_def notify_to_bytes_def
      SUPPORTED_SIGNATURE_HASHES_def)

definition take_notify :: "sa_init_vars \<Rightarrow> notify \<Rightarrow> sa_init_vars" where
  "take_notify v n =
     (if nt_notify_type n = SIGNATURE_HASH_ALGORITHMS then
        v\<lparr>v_signature_hashes := parse_signature_hashes (nt_data n)\<rparr>
      else if nt_notify_type n = COOKIE then v\<lparr>v_cookie := Some (nt_data n)\<rparr> else v)"

lemma sa_init_payload_notify:
  "notify_wf n \<Longrightarrow> sa_init_payload v (raw (PT_Notify, notify_to_bytes n)) = Ok (take_notify v n)"
  by (simp add: sa_init_payload_def take_notify_def)

lemma fold_notifies:
  "\<forall>n \<in> set ex. notify_wf n \<Longrightarrow>
     try_fold sa_init_payload v (map (\<lambda>p. Inr (raw p)) (map (\<lambda>n. (PT_Notify, notify_to_bytes n)) ex)) =
     Ok (foldl take_notify v ex)"
  by (induction ex arbitrary: v) (simp_all add: sa_init_payload_notify)

lemma take_notify_fold [simp]:
  "v_sa (foldl take_notify v ex) = v_sa v" "v_ke (foldl take_notify v ex) = v_ke v"
  "v_nonce (foldl take_notify v ex) = v_nonce v"
  by (induction ex arbitrary: v) (simp_all add: take_notify_def)

lemma take_notify_fold_cong:
  "v_signature_hashes v = v_signature_hashes w \<Longrightarrow> v_cookie v = v_cookie w \<Longrightarrow>
     v_signature_hashes (foldl take_notify v ex) = v_signature_hashes (foldl take_notify w ex) \<and>
     v_cookie (foldl take_notify v ex) = v_cookie (foldl take_notify w ex)"
proof (induction ex arbitrary: v w)
  case (Cons n ex)
  show ?case
    unfolding foldl.simps by (rule Cons.IH) (use Cons.prems in \<open>simp_all add: take_notify_def\<close>)
qed simp

lemma parse_signature_hashes_write [simp]: "parse_signature_hashes (concat (map to_be16 hs)) = hs"
proof -
  have "chunks_exact 2 (concat (map to_be16 hs)) = map to_be16 hs"
    by (rule chunks_exact_concat) auto
  then show ?thesis
    by (simp add: parse_signature_hashes_def to_be16_def comp_def)
qed

text \<open>The sizes under which an \<open>IKE_SA_INIT\<close> message fits its length fields.\<close>

definition sa_init_fits :: "security_association \<Rightarrow> bytes \<Rightarrow> bytes \<Rightarrow> bool" where
  "sa_init_fits sa pub n \<longleftrightarrow> sa_wf sa \<and> length (security_association_to_bytes sa) < 65532 \<and>
     length pub < 65528 \<and> length n < 65532"

lemma sa_init_chain_wf:
  "sa_init_fits sa pub n \<Longrightarrow> \<forall>m \<in> set ex. notify_fits m \<Longrightarrow> chain_wf (sa_init_chain sa g pub n ex)"
  using sighash_notify_fits unfolding sa_init_fits_def sa_init_chain_def
  by (auto simp: notify_fits_def key_exchange_to_bytes_def chain_wf_def simp del: sighash_notify_fits)

lemma first_sa_init_chain [simp]: "first_payload_type (sa_init_chain sa g pub n ex) = PT_SecurityAssociation"
  by (simp add: sa_init_chain_def)

lemma parse_sa_init_chain:
  assumes "sa_init_fits sa pub n" "\<forall>m \<in> set ex. notify_fits m"
    and "h_next_payload h = PT_SecurityAssociation"
  shows "parse_sa_init h (encode_payload_chain (sa_init_chain sa g pub n ex)) =
    (let v = foldl take_notify \<lparr>v_sa = None, v_ke = None, v_nonce = None,
           v_signature_hashes = SUPPORTED_SIGNATURE_HASHES, v_cookie = None\<rparr> ex
     in Ok \<lparr>si_sa = sa, si_ke = \<lparr>ke_dh_group = g, ke_data = pub\<rparr>, si_nonce = \<lparr>no_data = n\<rparr>,
            si_signature_hashes = v_signature_hashes v, si_cookie = v_cookie v\<rparr>)"
proof -
  have ex: "\<forall>m \<in> set ex. notify_wf m" using assms(2) by (simp add: notify_fits_def)
  let ?v = "\<lparr>v_sa = None, v_ke = None, v_nonce = None,
    v_signature_hashes = SUPPORTED_SIGNATURE_HASHES, v_cookie = None\<rparr>"
  have "notify_wf sighash_notify" using sighash_notify_fits by (simp add: notify_fits_def)
  then have "for_payloads PT_SecurityAssociation (encode_payload_chain (sa_init_chain sa g pub n ex))
      sa_init_payload \<lparr>v_sa = None, v_ke = None, v_nonce = None, v_signature_hashes = [], v_cookie = None\<rparr> =
      Ok (foldl take_notify (?v\<lparr>v_sa := Some sa, v_ke := Some \<lparr>ke_dh_group = g, ke_data = pub\<rparr>,
        v_nonce := Some \<lparr>no_data = n\<rparr>\<rparr>) ex)"
    using for_payloads_encode[OF sa_init_chain_wf[OF assms(1,2)], of g sa_init_payload] assms(1)
      fold_notifies[OF ex]
    by (simp add: sa_init_chain_def sa_init_payload_notify sa_init_fits_def)
       (simp add: sa_init_payload_def nonce_parse_def take_notify_def sighash_notify_def notify_status_def)
  then show ?thesis
    using assms(3) take_notify_fold_cong[of "?v\<lparr>v_sa := Some sa, v_ke := Some \<lparr>ke_dh_group = g, ke_data = pub\<rparr>,
        v_nonce := Some \<lparr>no_data = n\<rparr>\<rparr>" ?v ex]
    by (simp add: parse_sa_init_def Let_def)
qed

lemma base_header_wf [simp]: "header_wf (base_header i r fl)"
  by (simp add: base_header_def header_wf_def)

lemma parse_build_sa_init:
  assumes "sa_init_fits sa pub n" "\<forall>m \<in> set ex. notify_fits m"
  shows "\<exists>h body.
    ike_header_parse (build_sa_init (base_header i r fl) sa g pub n ex) = Ok h \<and>
    slice_from (build_sa_init (base_header i r fl) sa g pub n ex) HEADER_LEN = Ok body \<and>
    h_initiator_spi h = i \<and> h_responder_spi h = r \<and> h_exchange_type h = IkeSaInit \<and>
    parse_sa_init h body =
      (let v = foldl take_notify \<lparr>v_sa = None, v_ke = None, v_nonce = None,
             v_signature_hashes = SUPPORTED_SIGNATURE_HASHES, v_cookie = None\<rparr> ex
       in Ok \<lparr>si_sa = sa, si_ke = \<lparr>ke_dh_group = g, ke_data = pub\<rparr>, si_nonce = \<lparr>no_data = n\<rparr>,
              si_signature_hashes = v_signature_hashes v, si_cookie = v_cookie v\<rparr>)"
proof -
  let ?h = "(base_header i r fl)\<lparr>h_next_payload := first_payload_type (sa_init_chain sa g pub n ex),
    h_length := of_nat (HEADER_LEN + length (encode_payload_chain (sa_init_chain sa g pub n ex)))\<rparr>"
  have "ike_header_parse (build_sa_init (base_header i r fl) sa g pub n ex) = Ok ?h"
    unfolding build_sa_init_eq using assms by (intro message_builder_parse sa_init_chain_wf) simp_all
  moreover have "slice_from (build_sa_init (base_header i r fl) sa g pub n ex) HEADER_LEN =
      Ok (encode_payload_chain (sa_init_chain sa g pub n ex))"
    unfolding build_sa_init_eq by (rule message_builder_body)
  moreover have "h_initiator_spi ?h = i" "h_responder_spi ?h = r" "h_exchange_type ?h = IkeSaInit" by (simp_all add: base_header_def)
  moreover have "h_next_payload ?h = PT_SecurityAssociation" by simp
  moreover note parse_sa_init_chain[OF assms calculation(6), of g]
  ultimately show ?thesis by blast
qed

lemma natt_notifies_fit: "\<forall>m \<in> set (natt_notifies C i r natt). notify_fits m"
  by (auto simp: natt_notifies_def source_ip_notify_def destination_ip_notify_def notify_status_def
      notify_fits_def notify_wf_def notify_to_bytes_def split: option.splits)

lemma natt_notifies_ignored [simp]: "foldl take_notify v (natt_notifies C i r natt) = v"
  by (auto simp: natt_notifies_def source_ip_notify_def destination_ip_notify_def notify_status_def
      take_notify_def split: option.splits)

section \<open>Agreement\<close>

definition local_wf :: "local_secret \<Rightarrow> bool" where
  "local_wf l \<longleftrightarrow> length (ls_dh_private l) = 32 \<and> length (ls_nonce l) < 65532"

definition offer_wf :: "security_association \<Rightarrow> bool" where
  "offer_wf sa \<longleftrightarrow> sa_wf sa \<and> length (security_association_to_bytes sa) < 65532"

lemma length_to_proposal: "length (security_association_to_bytes \<lparr>sa_proposals = [to_proposal s]\<rparr>) < 1000"
  using length_write_transforms[of "pr_transforms (to_proposal s)"]
  by (simp add: security_association_to_bytes_def proposal_write_def Let_def)
     (simp add: to_proposal_def split: option.splits)

lemma request_fits:
  assumes "modpow_correct C" "local_wf l" "offer_wf offer" "dh_public C g (ls_dh_private l) = Ok pub"
  shows "sa_init_fits offer pub (ls_nonce l)"
  using dh_public_ok[OF assms(1), of "ls_dh_private l" g] assms public_len_bound[of g]
  by (auto simp: sa_init_fits_def offer_wf_def local_wf_def)

lemma response_fits:
  assumes "modpow_correct C" "local_wf l" "dh_public C g (ls_dh_private l) = Ok pub"
  shows "sa_init_fits \<lparr>sa_proposals = [to_proposal s]\<rparr> pub (ls_nonce l)"
  using assms length_to_proposal[of s] by (intro request_fits) (simp_all add: offer_wf_def sa_wf_def)

text \<open>What an established responder has done with a request that parses.\<close>

lemma responder_establishedE:
  assumes "responder_respond_inner C request l natt cookie = Ok (Established resp sa)"
    and "ike_header_parse request = Ok h" "slice_from request HEADER_LEN = Ok body"
    and "parse_sa_init h body = Ok ps"
  obtains suite g pub s k where "select (si_sa ps) = Some suite"
    "cs_dh_id suite = dh_group_transform_id g" "ke_dh_group (si_ke ps) = dh_group_transform_id g"
    "length (ke_data (si_ke ps)) = public_len g"
    "dh_public C g (ls_dh_private l) = Ok pub" "dh_shared C g (ls_dh_private l) (ke_data (si_ke ps)) = Ok s"
    "derive_session_keys C s (no_data (si_nonce ps)) (ls_nonce l) (h_initiator_spi h) (ls_spi l)
      (suite_key_lengths suite) = Ok k"
    "resp = build_sa_init (base_header (h_initiator_spi h) (ls_spi l) response_flags)
      \<lparr>sa_proposals = [to_proposal suite]\<rparr> (cs_dh_id suite) pub (ls_nonce l)
      (natt_notifies C (h_initiator_spi h) (ls_spi l) natt)"
    "sa = \<lparr>ci_role = Responder, ci_spi_i = h_initiator_spi h, ci_spi_r = ls_spi l, ci_suite = suite,
      ci_keys = k, ci_ni = no_data (si_nonce ps), ci_nr = ls_nonce l, ci_init_message = request,
      ci_resp_message = resp, ci_peer_signature_hashes = si_signature_hashes ps\<rparr>"
    "cookie_check C cookie h ps = None"
  using assms
  by (auto simp: responder_respond_inner_def responder_establish_def dh_peer_def Let_def res_iff
      dh_group_from_transform_id_Some split: option.splits if_splits)

lemma initiator_complete_built:
  assumes "sa_init_fits \<lparr>sa_proposals = [to_proposal suite]\<rparr> pub n" "\<forall>m \<in> set ex. notify_fits m"
    and "\<And>v. foldl take_notify v ex = v"
    and "suite_supported suite" "cs_dh_id suite = dh_group_transform_id g" "length pub = public_len g"
    and resp: "resp = build_sa_init (base_header i r fl) \<lparr>sa_proposals = [to_proposal suite]\<rparr>
      (cs_dh_id suite) pub n ex"
  shows "initiator_complete C l req resp =
    bindR (dh_shared C g (ls_dh_private l) pub) (\<lambda>s.
      bindR (derive_session_keys C s (ls_nonce l) n (ls_spi l) r (suite_key_lengths suite)) (\<lambda>k.
        Ok \<lparr>ci_role = Initiator, ci_spi_i = ls_spi l, ci_spi_r = r, ci_suite = suite, ci_keys = k,
            ci_ni = ls_nonce l, ci_nr = n, ci_init_message = req, ci_resp_message = resp,
            ci_peer_signature_hashes = SUPPORTED_SIGNATURE_HASHES\<rparr>))"
proof -
  obtain h body where "ike_header_parse resp = Ok h" "slice_from resp HEADER_LEN = Ok body"
    "h_responder_spi h = r"
    "parse_sa_init h body = Ok \<lparr>si_sa = \<lparr>sa_proposals = [to_proposal suite]\<rparr>,
       si_ke = \<lparr>ke_dh_group = cs_dh_id suite, ke_data = pub\<rparr>, si_nonce = \<lparr>no_data = n\<rparr>,
       si_signature_hashes = SUPPORTED_SIGNATURE_HASHES, si_cookie = None\<rparr>"
    using parse_build_sa_init[OF assms(1,2), of i r fl "cs_dh_id suite"] assms(3)
    unfolding resp by (auto simp: Let_def)
  then show ?thesis
    using assms(4-6) by (simp add: initiator_complete_def dh_peer_def Let_def)
qed

lemma sa_init_agreement_aux:
  assumes C: "x25519_correct C" "modpow_correct C"
    and wf: "local_wf li" "local_wf lr" "offer_wf offer"
    and req: "initiator_request C li offer = Ok req"
    and resp: "responder_respond_inner C req lr natt cookie = Ok (Established resp sar)"
  shows "initiator_complete C li req resp = Ok (sar\<lparr>ci_role := Initiator\<rparr>) \<or>
    (cs_dh_id (ci_suite sar) \<noteq> ID_X25519 \<and> (\<exists>e. initiator_complete C li req resp = Err e))"
proof -
  let ?g = "offer_dh_group offer"
  obtain pi where pi: "dh_public C ?g (ls_dh_private li) = Ok pi"
    and req': "req = build_sa_init (base_header (ls_spi li) 0
      \<lparr>f_initiator = True, f_version = False, f_response = False\<rparr>) offer (dh_group_transform_id ?g) pi (ls_nonce li) []"
    using req by (auto simp: initiator_request_def Let_def res_iff)
  obtain h body where h: "ike_header_parse req = Ok h" "slice_from req HEADER_LEN = Ok body"
    "h_initiator_spi h = ls_spi li"
    and ps: "parse_sa_init h body = Ok \<lparr>si_sa = offer,
       si_ke = \<lparr>ke_dh_group = dh_group_transform_id ?g, ke_data = pi\<rparr>, si_nonce = \<lparr>no_data = ls_nonce li\<rparr>,
       si_signature_hashes = SUPPORTED_SIGNATURE_HASHES, si_cookie = None\<rparr>"
    using parse_build_sa_init[OF request_fits[OF C(2) wf(1,3) pi], of "[]" "ls_spi li" 0
        "\<lparr>f_initiator = True, f_version = False, f_response = False\<rparr>" "dh_group_transform_id ?g"]
    unfolding req' by (auto simp: Let_def)
  obtain suite g pr s k where r: "select offer = Some suite"
    "cs_dh_id suite = dh_group_transform_id g" "dh_group_transform_id ?g = dh_group_transform_id g"
    "dh_public C g (ls_dh_private lr) = Ok pr" "dh_shared C g (ls_dh_private lr) pi = Ok s"
    "derive_session_keys C s (ls_nonce li) (ls_nonce lr) (ls_spi li) (ls_spi lr)
      (suite_key_lengths suite) = Ok k"
    "resp = build_sa_init (base_header (ls_spi li) (ls_spi lr) response_flags)
      \<lparr>sa_proposals = [to_proposal suite]\<rparr> (cs_dh_id suite) pr (ls_nonce lr)
      (natt_notifies C (ls_spi li) (ls_spi lr) natt)"
    "sar = \<lparr>ci_role = Responder, ci_spi_i = ls_spi li, ci_spi_r = ls_spi lr, ci_suite = suite,
      ci_keys = k, ci_ni = ls_nonce li, ci_nr = ls_nonce lr, ci_init_message = req,
      ci_resp_message = resp, ci_peer_signature_hashes = SUPPORTED_SIGNATURE_HASHES\<rparr>"
    by (rule responder_establishedE[OF resp h(1,2) ps]) (use h(3) in simp)
  have g: "?g = g" using r(3) by (metis dh_group_transform_id_inverse option.inject)
  have len: "length pr = public_len g"
    using dh_public_ok[OF C(2), of "ls_dh_private lr" g] r(4) wf(2) by (auto simp: local_wf_def)
  have fin: "initiator_complete C li req resp =
    bindR (dh_shared C g (ls_dh_private li) pr) (\<lambda>s.
      bindR (derive_session_keys C s (ls_nonce li) (ls_nonce lr) (ls_spi li) (ls_spi lr)
        (suite_key_lengths suite)) (\<lambda>k. Ok (sar\<lparr>ci_role := Initiator, ci_keys := k\<rparr>)))"
    using initiator_complete_built[OF response_fits[OF C(2) wf(2) r(4)] natt_notifies_fit natt_notifies_ignored
        select_supported[OF r(1)] r(2) len r(7), of C li req] r(8) by simp
  show ?thesis
  proof (cases "dh_shared C g (ls_dh_private li) pr")
    case (Ok s')
    have "s' = s"
      using dh_agreement[OF C, of "ls_dh_private li" "ls_dh_private lr" g pi pr s' s] wf(1,2) pi r(4,5) Ok g
      by (simp add: local_wf_def)
    then show ?thesis using fin Ok r(6,8) by simp
  next
    case (Err e)
    have "g \<noteq> X25519" using Err wf(1) len by (auto simp: dh_shared_def local_wf_def)
    then show ?thesis using fin Err r(2,8) by (cases g) simp_all
  next
    case Panic
    then show ?thesis
      using dh_not_Panic(2)[OF C(2), of "ls_dh_private li" g pr] wf(1) by (simp add: local_wf_def)
  qed
qed

section \<open>Safety\<close>

lemma sa_init_payload_not_Panic: "sa_init_payload v p \<noteq> Panic"
  by (auto simp: sa_init_payload_def res_iff split: payload_type.splits res.splits)

lemma parse_sa_init_not_Panic [simp]: "parse_sa_init h body \<noteq> Panic"
  using for_payloads_not_Panic[of sa_init_payload, OF sa_init_payload_not_Panic]
  by (auto simp: parse_sa_init_def res_iff)

lemma header_then_body: "ike_header_parse m = Ok h \<Longrightarrow> HEADER_LEN \<le> length m"
  by (auto simp: ike_header_parse_def split: if_splits)

lemma derive_session_keys_not_Panic [simp]: "derive_session_keys C s ni nr i r l \<noteq> Panic"
  using derive_session_keys_ok(1)[of C s ni nr i r l] by auto

lemma responder_not_Panic:
  assumes "modpow_correct C" "length (ls_dh_private l) = 32"
  shows "responder_respond_inner C request l natt cookie \<noteq> Panic"
  using dh_not_Panic[OF assms(1), of "ls_dh_private l"] assms(2)
  by (auto simp: responder_respond_inner_def responder_establish_def dh_peer_def Let_def res_iff
      split: option.splits if_splits dest: header_then_body)

lemma initiator_not_Panic:
  assumes "modpow_correct C" "length (ls_dh_private l) = 32"
  shows "initiator_complete C l request response \<noteq> Panic"
  using dh_not_Panic[OF assms(1), of "ls_dh_private l"] assms(2)
  by (auto simp: initiator_complete_def dh_peer_def Let_def res_iff
      split: if_splits dest: header_then_body)

context entropy
begin

lemma generate_wf:
  "local_secret_generate fill e n = (l, e') \<Longrightarrow>
     length (ls_dh_private l) = 32 \<and> length (ls_nonce l) = n \<and> ls_spi l \<noteq> 0"
  by (auto simp: local_secret_generate_def Let_def dest: next_array32_length fill_length_eq
      split: prod.splits if_splits)

end

lemma cookie_requiredD:
  "responder_respond_inner C request l natt cookie = Ok (CookieRequired c) \<Longrightarrow>
     \<exists>h body ps. ike_header_parse request = Ok h \<and> slice_from request HEADER_LEN = Ok body \<and>
       parse_sa_init h body = Ok ps \<and> cookie_check C cookie h ps = Some c"
  by (auto simp: responder_respond_inner_def responder_establish_def Let_def res_iff
      split: option.splits if_splits)

section \<open>Properties\<close>

definition sample_local :: "u8 \<Rightarrow> u64 \<Rightarrow> local_secret" where
  "sample_local v spi = \<lparr>ls_dh_private = replicate 32 v, ls_nonce = replicate 32 (v + 1), ls_spi = spi\<rparr>"

lemma sample_local_wf [simp]: "local_wf (sample_local v spi)"
  by (simp add: sample_local_def local_wf_def)

lemma default_offer_wf [simp]: "offer_wf default_offer"
  by (simp add: offer_wf_def sa_wf_def default_offer_def proposal_wf_def security_association_to_bytes_def
      proposal_write_def transform_write_def transform_attrs_def Let_def)

lemma default_offer_select: "select default_offer = Some sample_suite"
  using select_sample by (simp add: default_offer_def sample_offer_def)

lemma x25519_run:
  assumes C: "x25519_correct C" "modpow_correct C" and wf: "local_wf li" "local_wf lr" "offer_wf offer"
    and offer: "select offer = Some suite" "cs_dh_id suite = ID_X25519" "offer_dh_group offer = X25519"
  shows "\<exists>req resp sar. initiator_request C li offer = Ok req \<and>
    responder_respond_inner C req lr natt None = Ok (Established resp sar) \<and>
    initiator_complete C li req resp = Ok (sar\<lparr>ci_role := Initiator\<rparr>) \<and>
    ci_role sar = Responder \<and> ci_suite sar = suite \<and> ci_spi_i sar = ls_spi li \<and> ci_spi_r sar = ls_spi lr \<and>
    keys_sized (suite_key_lengths suite) (ci_keys sar) \<and> ci_peer_signature_hashes sar = SUPPORTED_SIGNATURE_HASHES \<and>
    (\<exists>h. ike_header_parse req = Ok h \<and> h_exchange_type h = IkeSaInit)"
proof -
  obtain pi where pi: "dh_public C X25519 (ls_dh_private li) = Ok pi" "length pi = 32"
    using dh_public_ok[OF C(2), of "ls_dh_private li" X25519] wf(1) by (auto simp: local_wf_def)
  define req where "req = build_sa_init (base_header (ls_spi li) 0
      \<lparr>f_initiator = True, f_version = False, f_response = False\<rparr>) offer 31 pi (ls_nonce li) []"
  have r: "initiator_request C li offer = Ok req"
    using pi by (simp add: initiator_request_def offer(3) req_def Let_def)
  obtain h body where h: "ike_header_parse req = Ok h" "slice_from req HEADER_LEN = Ok body" "h_initiator_spi h = ls_spi li"
    "h_exchange_type h = IkeSaInit" "parse_sa_init h body = Ok \<lparr>si_sa = offer, si_ke = \<lparr>ke_dh_group = 31, ke_data = pi\<rparr>,
       si_nonce = \<lparr>no_data = ls_nonce li\<rparr>, si_signature_hashes = SUPPORTED_SIGNATURE_HASHES, si_cookie = None\<rparr>"
    using parse_build_sa_init[OF request_fits[OF C(2) wf(1,3) pi(1)], of "[]" "ls_spi li" 0
        "\<lparr>f_initiator = True, f_version = False, f_response = False\<rparr>" 31]
    by (auto simp: req_def Let_def)
  obtain k where k: "derive_session_keys C (x25519_shared C (ls_dh_private lr) pi) (ls_nonce li) (ls_nonce lr)
      (h_initiator_spi h) (ls_spi lr) (suite_key_lengths suite) = Ok k"
    "keys_sized (suite_key_lengths suite) k"
    using derive_session_keys_ok(1) by blast
  have "\<exists>resp sar. responder_respond_inner C req lr natt None = Ok (Established resp sar) \<and>
      cs_dh_id (ci_suite sar) = ID_X25519 \<and> ci_role sar = Responder \<and> ci_suite sar = suite \<and>
      ci_spi_i sar = ls_spi li \<and> ci_spi_r sar = ls_spi lr \<and> keys_sized (suite_key_lengths suite) (ci_keys sar) \<and>
      ci_peer_signature_hashes sar = SUPPORTED_SIGNATURE_HASHES"
    using wf(2) pi(2) k h offer(2)
    by (simp add: responder_respond_inner_def cookie_check_def offer(1)
        responder_establish_def dh_group_from_transform_id_def dh_peer_def dh_shared_def
        local_wf_def Let_def)
  then show ?thesis
    using sa_init_agreement_aux[OF C wf(1,2,3) r] r h(1,4) by metis
qed

lemma default_run:
  assumes C: "x25519_correct C" "modpow_correct C" and wf: "local_wf li" "local_wf lr"
  shows "\<exists>req resp sar. initiator_request C li default_offer = Ok req \<and>
    responder_respond_inner C req lr natt None = Ok (Established resp sar) \<and>
    initiator_complete C li req resp = Ok (sar\<lparr>ci_role := Initiator\<rparr>) \<and>
    ci_role sar = Responder \<and> ci_suite sar = sample_suite \<and> ci_spi_i sar = ls_spi li \<and> ci_spi_r sar = ls_spi lr \<and>
    keys_sized (suite_key_lengths sample_suite) (ci_keys sar) \<and> ci_peer_signature_hashes sar = SUPPORTED_SIGNATURE_HASHES \<and>
    (\<exists>h. ike_header_parse req = Ok h \<and> h_exchange_type h = IkeSaInit)"
  by (rule x25519_run[OF C wf default_offer_wf default_offer_select])
    (simp_all add: sample_suite_def offer_dh_group_def default_offer_def dh_group_from_transform_id_def)

text \<open>The size of the two messages, without NAT detection notifies.\<close>

lemma length_build_sa_init:
  "length (build_sa_init h sa g pub n []) = 54 + length (security_association_to_bytes sa) + length pub + length n"
  by (simp add: build_sa_init_def Let_def message_builder_new_def message_builder_push_def message_builder_build_def
      length_encode_payload_chain key_exchange_to_bytes_def nonce_to_bytes_def sighash_notify_def notify_status_def
      notify_to_bytes_def SUPPORTED_SIGNATURE_HASHES_def HEADER_LEN_def)

lemma initiator_request_length:
  assumes "modpow_correct C" "local_wf l" "length (ls_nonce l) \<le> 1000" "initiator_request C l default_offer = Ok req"
  shows "length req \<le> 65000"
proof -
  obtain g pub where g: "dh_public C g (ls_dh_private l) = Ok pub"
    "length req = 54 + length (security_association_to_bytes default_offer) + length pub + length (ls_nonce l)"
    using assms(4) by (auto simp: initiator_request_def Let_def res_iff length_build_sa_init)
  moreover have "length (security_association_to_bytes default_offer) \<le> 1000"
    by (simp add: default_offer_def security_association_to_bytes_def proposal_write_def transform_write_def transform_attrs_def Let_def)
  ultimately show ?thesis
    using dh_public_ok[OF assms(1), of "ls_dh_private l" g] assms(2,3) public_len_bound[of g] by (auto simp: local_wf_def)
qed

lemma responder_response_length:
  assumes "modpow_correct C" "local_wf l" "length (ls_nonce l) \<le> 1000"
    and "responder_respond_inner C req l None None = Ok (Established resp sa)"
  shows "length resp \<le> 65000"
proof -
  obtain h body ps where h: "ike_header_parse req = Ok h" "slice_from req HEADER_LEN = Ok body" "parse_sa_init h body = Ok ps"
    using assms(4) by (auto simp: responder_respond_inner_def bindR_Ok_iff)
  obtain suite g pub where g: "dh_public C g (ls_dh_private l) = Ok pub"
    "length resp = 54 + length (security_association_to_bytes \<lparr>sa_proposals = [to_proposal suite]\<rparr>) + length pub + length (ls_nonce l)"
    by (rule responder_establishedE[OF assms(4) h]) (simp add: natt_notifies_def length_build_sa_init)
  then show ?thesis
    using dh_public_ok[OF assms(1), of "ls_dh_private l" g] assms(2,3) public_len_bound[of g] length_to_proposal[of suite]
    by (auto simp: local_wf_def)
qed

text \<open>
  C2. Key agreement of \<open>IKE_SA_INIT\<close>: whenever the responder establishes on the initiator's own
  request and the initiator completes on the response, the initiator's state is the responder's
  with the role exchanged. Both hold the same suite, SPIs, nonces, message transcripts and all
  seven session keys.
\<close>
theorem sa_init_key_agreement:
  assumes "x25519_correct C" "modpow_correct C" "local_wf li" "local_wf lr" "offer_wf offer"
    and "initiator_request C li offer = Ok req"
    and "responder_respond_inner C req lr natt cookie = Ok (Established resp sar)"
    and "initiator_complete C li req resp = Ok sai"
  shows "sai = sar\<lparr>ci_role := Initiator\<rparr>"
  using sa_init_agreement_aux[OF assms(1-7)] assms(8) by auto

theorem sa_init_key_agreement_witness:
  "\<exists>req resp sar sai. initiator_request toy_primitives (sample_local 3 7) default_offer = Ok req \<and>
     responder_respond_inner toy_primitives req (sample_local 5 9) None None = Ok (Established resp sar) \<and>
     initiator_complete toy_primitives (sample_local 3 7) req resp = Ok sai \<and>
     sai = sar\<lparr>ci_role := Initiator\<rparr>"
proof -
  obtain req resp sar sai where r:
    "initiator_request toy_primitives (sample_local 3 7) default_offer = Ok req"
    "responder_respond_inner toy_primitives req (sample_local 5 9) None None = Ok (Established resp sar)"
    "initiator_complete toy_primitives (sample_local 3 7) req resp = Ok sai"
    using default_run[OF toy_x25519_correct toy_modpow_correct sample_local_wf sample_local_wf] by blast
  then have "sai = sar\<lparr>ci_role := Initiator\<rparr>"
    by (intro sa_init_key_agreement[OF toy_x25519_correct toy_modpow_correct sample_local_wf
        sample_local_wf default_offer_wf r])
  with r show ?thesis by blast
qed

text \<open>
  With the default offer the exchange succeeds: the initiator builds a request, the responder
  establishes on it and the initiator completes on the response with the responder's keys.
\<close>
theorem sa_init_default_succeeds:
  assumes "x25519_correct C" "modpow_correct C" "local_wf li" "local_wf lr"
  shows "\<exists>req resp sar. initiator_request C li default_offer = Ok req \<and>
    responder_respond C req lr = Ok (resp, sar) \<and>
    initiator_complete C li req resp = Ok (sar\<lparr>ci_role := Initiator\<rparr>)"
  using default_run[OF assms, of None] by (fastforce simp: responder_respond_def)

theorem sa_init_default_succeeds_witness:
  "\<exists>req resp sar. initiator_request toy_primitives (sample_local 3 7) default_offer = Ok req \<and>
    responder_respond toy_primitives req (sample_local 5 9) = Ok (resp, sar) \<and>
    initiator_complete toy_primitives (sample_local 3 7) req resp = Ok (sar\<lparr>ci_role := Initiator\<rparr>)"
  by (intro sa_init_default_succeeds toy_x25519_correct toy_modpow_correct sample_local_wf)

lemma cookie_challenge_content:
  assumes "length cookie = 32"
  shows "\<exists>hc p n. ike_header_parse (build_cookie_challenge spi cookie) = Ok hc \<and> h_initiator_spi hc = spi \<and> h_responder_spi hc = 0 \<and>
    h_exchange_type hc = IkeSaInit \<and> f_response (h_flags hc) \<and>
    iter_items (payloads (h_next_payload hc) (drop HEADER_LEN (build_cookie_challenge spi cookie))) = Ok [Inr p] \<and>
    rp_type p = PT_Notify \<and> notify_parse (rp_data p) = Ok n \<and> nt_notify_type n = 16390 \<and> nt_data n = cookie"
proof -
  let ?n = "notify_status COOKIE cookie" and ?h = "base_header spi 0 response_flags"
  let ?ps = "[(PT_Notify, notify_to_bytes ?n)]"
  have b: "build_cookie_challenge spi cookie = message_builder_build \<lparr>mb_header = ?h, mb_payloads = ?ps\<rparr>"
    by (simp add: build_cookie_challenge_def message_builder_new_def message_builder_push_def)
  have wf: "notify_wf ?n" "chain_wf ?ps" using assms by (simp_all add: notify_wf_def notify_status_def notify_to_bytes_def)
  let ?c = "message_builder_build \<lparr>mb_header = ?h, mb_payloads = ?ps\<rparr>"
  obtain hc where hc: "ike_header_parse ?c = Ok hc" "h_initiator_spi hc = spi" "h_responder_spi hc = 0"
    "h_exchange_type hc = IkeSaInit" "f_response (h_flags hc)" "h_next_payload hc = PT_Notify"
    using message_builder_parse[OF base_header_wf wf(2), of spi 0 response_flags] by (simp add: base_header_def response_flags_def)
  have "iter_items (payloads PT_Notify (drop HEADER_LEN ?c)) = Ok [Inr (raw (PT_Notify, notify_to_bytes ?n))]"
    using iter_items_encode[OF wf(2), of "[]"] by (simp add: message_builder_build_def Let_def)
  then show ?thesis
    unfolding b using wf(1) hc
    by (intro exI[of _ hc] exI[of _ "raw (PT_Notify, notify_to_bytes ?n)"] exI[of _ ?n]) (simp, simp add: notify_status_def)
qed

text \<open>
  C23. The cookie gate: when a cookie is required, a request that parses is answered with the
  challenge, before any Diffie-Hellman and without state, exactly when it does not carry the
  cookie of its exchange, which is the SHA-256 digest of the responder's secret, the initiator's SPI,
  the nonce and the source address. The challenge is an \<open>IKE_SA_INIT\<close> response to that SPI with one
  payload, a notification of type COOKIE whose data is that cookie.
\<close>
theorem cookie_gate:
  assumes "ckp_required pol" "ike_header_parse request = Ok h"
    and "slice_from request HEADER_LEN = Ok body" "parse_sa_init h body = Ok ps"
    and "cookie = be_encode 32 (sha256 C (ckp_secret pol @ to_be64 (h_initiator_spi h) @ no_data (si_nonce ps) @ ckp_peer pol))"
  shows "((\<exists>c. responder_respond_inner C request l natt (Some pol) = Ok (CookieRequired c)) \<longleftrightarrow> si_cookie ps \<noteq> Some cookie) \<and>
    (responder_respond_inner C request l natt (Some pol) = Ok (CookieRequired c) \<longrightarrow>
      (\<exists>hc p n. ike_header_parse c = Ok hc \<and> h_initiator_spi hc = h_initiator_spi h \<and> h_responder_spi hc = 0 \<and>
        h_exchange_type hc = IkeSaInit \<and> f_response (h_flags hc) \<and>
        iter_items (payloads (h_next_payload hc) (drop HEADER_LEN c)) = Ok [Inr p] \<and>
        rp_type p = PT_Notify \<and> notify_parse (rp_data p) = Ok n \<and> nt_notify_type n = 16390 \<and> nt_data n = cookie))"
proof -
  let ?r = "responder_respond_inner C request l natt (Some pol)"
  have chk: "cookie_check C (Some pol) h ps =
      (if si_cookie ps \<noteq> Some cookie then Some (build_cookie_challenge (h_initiator_spi h) cookie) else None)"
    using assms(1) by (simp add: cookie_check_def Let_def ike_cookie_def assms(5))
  have iff: "?r = Ok (CookieRequired c) \<longleftrightarrow> cookie_check C (Some pol) h ps = Some c" for c
  proof
    assume "?r = Ok (CookieRequired c)"
    then show "cookie_check C (Some pol) h ps = Some c" using cookie_requiredD assms(2-4) by fastforce
  next
    assume "cookie_check C (Some pol) h ps = Some c"
    then show "?r = Ok (CookieRequired c)" using assms(2-4) by (auto simp: responder_respond_inner_def)
  qed
  have "length cookie = 32" by (simp add: assms(5))
  from cookie_challenge_content[OF this, of "h_initiator_spi h"] show ?thesis unfolding iff chk by auto
qed

definition sample_policy :: cookie_policy where
  "sample_policy = \<lparr>ckp_secret = [1], ckp_peer = [10, 0, 0, 1], ckp_required = True\<rparr>"

lemma sample_request_parses:
  "\<exists>req h body ps. initiator_request toy_primitives (sample_local 3 7) default_offer = Ok req \<and>
     ike_header_parse req = Ok h \<and> slice_from req HEADER_LEN = Ok body \<and>
     parse_sa_init h body = Ok ps \<and> si_cookie ps = None"
proof -
  obtain pi where pi: "dh_public toy_primitives X25519 (replicate 32 3) = Ok pi"
    using dh_public_ok[OF toy_modpow_correct, of "replicate 32 3" X25519] by auto
  have "offer_dh_group default_offer = X25519"
    by (simp add: offer_dh_group_def default_offer_def dh_group_from_transform_id_def)
  then show ?thesis
    using pi parse_build_sa_init[OF request_fits[OF toy_modpow_correct sample_local_wf default_offer_wf,
        of X25519 3 7 pi], of "[]" 7 0 "\<lparr>f_initiator = True, f_version = False, f_response = False\<rparr>" 31]
    by (auto simp: initiator_request_def sample_local_def)
qed

theorem cookie_gate_witness:
  "\<exists>req h body ps c hc p n. initiator_request toy_primitives (sample_local 3 7) default_offer = Ok req \<and>
     ike_header_parse req = Ok h \<and> slice_from req HEADER_LEN = Ok body \<and> parse_sa_init h body = Ok ps \<and>
     responder_respond_inner toy_primitives req (sample_local 5 9) None (Some sample_policy) = Ok (CookieRequired c) \<and>
     ike_header_parse c = Ok hc \<and> iter_items (payloads (h_next_payload hc) (drop HEADER_LEN c)) = Ok [Inr p] \<and>
     notify_parse (rp_data p) = Ok n \<and>
     nt_data n = be_encode 32 (sha256 toy_primitives ([1] @ to_be64 (h_initiator_spi h) @ no_data (si_nonce ps) @ [10, 0, 0, 1]))"
proof -
  obtain req h body ps where r: "initiator_request toy_primitives (sample_local 3 7) default_offer = Ok req"
    "ike_header_parse req = Ok h" "slice_from req HEADER_LEN = Ok body" "parse_sa_init h body = Ok ps"
    "si_cookie ps = None"
    using sample_request_parses by blast
  have pol: "ckp_required sample_policy" "ckp_secret sample_policy = [1]" "ckp_peer sample_policy = [10, 0, 0, 1]"
    by (simp_all add: sample_policy_def)
  note gate = cookie_gate[OF pol(1) r(2-4) refl, of toy_primitives "sample_local 5 9" None, unfolded pol(2,3)]
  obtain c where c: "responder_respond_inner toy_primitives req (sample_local 5 9) None (Some sample_policy) = Ok (CookieRequired c)"
    using gate r(5) by auto
  from gate[THEN conjunct2, rule_format, OF c] r(1-4) c show ?thesis by blast
qed

text \<open>
  Neither role panics on any bytes it receives in \<open>IKE_SA_INIT\<close>: with a 32-byte private value
  the responder and the initiator's completion return a result or an error.
\<close>
theorem sa_init_never_panics:
  assumes "modpow_correct C" "length (ls_dh_private l) = 32"
  shows "responder_respond_inner C request l natt cookie \<noteq> Panic \<and>
    initiator_complete C l request response \<noteq> Panic"
  using responder_not_Panic[OF assms] initiator_not_Panic[OF assms] by simp

theorem sa_init_never_panics_witness:
  "responder_respond_inner toy_primitives [1, 2, 3] (sample_local 3 7) None None \<noteq> Panic \<and>
    initiator_complete toy_primitives (sample_local 3 7) [1, 2, 3] [] \<noteq> Panic"
  by (rule sa_init_never_panics[OF toy_modpow_correct]) (simp add: sample_local_def)

text \<open>
  Group renegotiation ends: after the responder has named a group with \<open>INVALID_KE_PAYLOAD\<close>, a
  request with the same offer and a key of that group is never answered so again. Without NAT
  traversal the responder never asks for another group or a cookie at all.
\<close>
theorem invalid_ke_retry:
  assumes "sa_init_fits offer pub n" "sa_init_fits offer pub' n'"
    and "responder_respond_inner C (build_sa_init (base_header i r fl) offer g pub n []) l natt cookie =
      Ok (InvalidKe resp g')"
  shows "responder_respond_inner C (build_sa_init (base_header i r fl) offer g' pub' n' []) l natt cookie \<noteq>
      Ok (InvalidKe resp' g'') \<and>
    responder_respond_inner C request l None None \<noteq> Ok (InvalidKe resp' g'') \<and>
    responder_respond_inner C request l None None \<noteq> Ok (CookieRequired resp')"
proof -
  have ps: "\<exists>suite. select offer = Some suite \<and>
      g' = cs_dh_id suite" 
    using assms(3) parse_build_sa_init[OF assms(1), of "[]" i r fl g]
    by (auto simp: responder_respond_inner_def responder_establish_def Let_def res_iff
        dh_group_from_transform_id_Some split: option.splits if_splits)
  then have "responder_respond_inner C (build_sa_init (base_header i r fl) offer g' pub' n' []) l natt cookie \<noteq>
      Ok (InvalidKe resp' g'')"
    using parse_build_sa_init[OF assms(2), of "[]" i r fl g']
    by (auto simp: responder_respond_inner_def responder_establish_def Let_def res_iff
        dh_group_from_transform_id_Some split: option.splits if_splits)
  moreover have "responder_respond_inner C request l None None \<noteq> Ok (InvalidKe resp' g'')"
    "responder_respond_inner C request l None None \<noteq> Ok (CookieRequired resp')"
    by (auto simp: responder_respond_inner_def responder_establish_def cookie_check_def Let_def res_iff
        split: if_splits)
  ultimately show ?thesis by blast
qed

lemma sample_fits: "sa_init_fits default_offer [] []"
  using default_offer_wf by (simp add: sa_init_fits_def offer_wf_def)

definition sample_addr :: socket_addr where
  "sample_addr = \<lparr>sock_ip = V4 (Ipv4 10 0 0 1), sock_port = 500\<rparr>"

lemma sample_invalid_ke:
  "\<exists>resp g. responder_respond_inner toy_primitives
     (build_sa_init (base_header 1 0 response_flags) default_offer 14 [] [] []) (sample_local 3 7)
     (Some (sample_addr, sample_addr)) None = Ok (InvalidKe resp g)"
  using parse_build_sa_init[OF sample_fits, of "[]" 1 0 response_flags 14]
  by (auto simp: responder_respond_inner_def cookie_check_def default_offer_select sample_suite_def
      dh_group_from_transform_id_def)

theorem invalid_ke_retry_witness:
  "\<exists>g. responder_respond_inner toy_primitives
     (build_sa_init (base_header 1 0 response_flags) default_offer g [] [] []) (sample_local 3 7)
     (Some (sample_addr, sample_addr)) None \<noteq> Ok (InvalidKe [] 0)"
  using sample_invalid_ke invalid_ke_retry[OF sample_fits sample_fits] by blast

end
