(* ===== verification/Informational.thy ===== *)
theory Informational
  imports Sa_Init Sk
begin

text \<open>
  The INFORMATIONAL exchange, \<open>src/src/ikev2/informational.rs\<close>, and MOBIKE signalling,
  \<open>src/src/ikev2/mobike.rs\<close>: the sender's and the receiver's key choice agree, so the payloads of
  either role reach the other; an empty message is the liveness probe.
\<close>

section \<open>INFORMATIONAL\<close>

definition our_sk_e :: "completed_sa_init \<Rightarrow> bytes" where
  "our_sk_e sa = (case ci_role sa of Initiator \<Rightarrow> sk_ei (ci_keys sa) | Responder \<Rightarrow> sk_er (ci_keys sa))"

definition peer_sk_e :: "completed_sa_init \<Rightarrow> bytes" where
  "peer_sk_e sa = (case ci_role sa of Initiator \<Rightarrow> sk_er (ci_keys sa) | Responder \<Rightarrow> sk_ei (ci_keys sa))"

definition informational_header :: "completed_sa_init \<Rightarrow> u32 \<Rightarrow> bool \<Rightarrow> ike_header" where
  "informational_header sa message_id is_response =
     \<lparr>h_initiator_spi = ci_spi_i sa, h_responder_spi = ci_spi_r sa, h_next_payload = PT_NoNext,
      h_major_version = 2, h_minor_version = 0, h_exchange_type = Informational,
      h_flags = \<lparr>f_initiator = (ci_role sa = Initiator), f_version = False, f_response = is_response\<rparr>,
      h_message_id = message_id, h_length = 0\<rparr>"

definition build_informational ::
    "primitives \<Rightarrow> completed_sa_init \<Rightarrow> u32 \<Rightarrow> bool \<Rightarrow> payload_chain \<Rightarrow> bytes \<Rightarrow> bytes res" where
  "build_informational C sa message_id is_response inner_payloads iv =
     build_encrypted_gcm C (informational_header sa message_id is_response)
       (first_payload_type inner_payloads) (encode_payload_chain inner_payloads) (our_sk_e sa) iv"

definition dpd_request :: "primitives \<Rightarrow> completed_sa_init \<Rightarrow> u32 \<Rightarrow> bytes \<Rightarrow> bytes res" where
  "dpd_request C sa message_id iv = build_informational C sa message_id False [] iv"

definition open_informational :: "primitives \<Rightarrow> completed_sa_init \<Rightarrow> bytes \<Rightarrow> payload_chain res" where
  "open_informational C sa message =
     bindR (open_encrypted_gcm C message (peer_sk_e sa)) (\<lambda>(first, inner).
       for_payloads first inner (\<lambda>out p. Ok (out @ [(rp_type p, rp_data p)])) [])"

section \<open>MOBIKE\<close>

definition mobike_supported :: notify where
  "mobike_supported = notify_status MOBIKE_SUPPORTED []"

definition build_update_sa_addresses :: "primitives \<Rightarrow> completed_sa_init \<Rightarrow> u32 \<Rightarrow> bytes \<Rightarrow> bytes res" where
  "build_update_sa_addresses C sa message_id iv =
     build_informational C sa message_id False
       [(PT_Notify, notify_to_bytes (notify_status UPDATE_SA_ADDRESSES []))] iv"

definition has_notify :: "payload_chain \<Rightarrow> u16 \<Rightarrow> bool" where
  "has_notify inner want =
     list_ex (\<lambda>(t, body). t = PT_Notify \<and>
       (case notify_parse body of Ok n \<Rightarrow> nt_notify_type n = want | _ \<Rightarrow> False)) inner"

definition contains_update_sa_addresses :: "payload_chain \<Rightarrow> bool" where
  "contains_update_sa_addresses inner = has_notify inner UPDATE_SA_ADDRESSES"

definition peer_supports_mobike :: "payload_chain \<Rightarrow> bool" where
  "peer_supports_mobike inner = has_notify inner MOBIKE_SUPPORTED"

section \<open>Lemmas\<close>

text \<open>Two completed exchanges belong together when they differ in the role only.\<close>

definition sa_pair :: "completed_sa_init \<Rightarrow> completed_sa_init \<Rightarrow> bool" where
  "sa_pair a b \<longleftrightarrow> ci_keys b = ci_keys a \<and> ci_role b = peer (ci_role a) \<and>
     ci_spi_i b = ci_spi_i a \<and> ci_spi_r b = ci_spi_r a \<and> ci_ni b = ci_ni a \<and> ci_nr b = ci_nr a \<and>
     ci_init_message b = ci_init_message a \<and> ci_resp_message b = ci_resp_message a"

definition gcm_keys :: "completed_sa_init \<Rightarrow> bool" where
  "gcm_keys sa \<longleftrightarrow> length (sk_ei (ci_keys sa)) = 36 \<and> length (sk_er (ci_keys sa)) = 36"

lemma sa_pair_keys: "sa_pair a b \<Longrightarrow> peer_sk_e b = our_sk_e a"
  by (cases "ci_role a") (simp_all add: sa_pair_def peer_sk_e_def our_sk_e_def)

lemma gcm_keys_our: "gcm_keys sa \<Longrightarrow> length (our_sk_e sa) = 36"
  by (simp add: gcm_keys_def our_sk_e_def split: role.split)

lemma informational_header_wf [simp]: "header_wf (informational_header sa i r)"
  by (simp add: informational_header_def header_wf_def)

lemma collect_payloads:
  "try_fold (\<lambda>out p. Ok (out @ [(rp_type p, rp_data p)])) acc (map (\<lambda>p. Inr (raw p)) ps) = Ok (acc @ ps)"
  by (induction ps arbitrary: acc) simp_all

lemma informational_delivery:
  assumes "gcm_correct C" "sa_pair a b" "gcm_keys a" "chain_wf ps" "length iv = 8"
    and "length (encode_payload_chain ps) < 65507"
  shows "\<exists>m. build_informational C a mid resp ps iv = Ok m \<and> open_informational C b m = Ok ps"
  using encrypted_chain[OF assms(1) informational_header_wf assms(4) gcm_keys_our[OF assms(3)] assms(5,6), of a mid resp]
    sa_pair_keys[OF assms(2)] collect_payloads[of "[]" ps] assms(4)
  by (auto simp: build_informational_def open_informational_def)

text \<open>
  INFORMATIONAL messages are delivered: what either endpoint of an IKE SA builds, in either
  direction, as request or response, the other endpoint opens to the same payloads; the liveness
  probe opens to none and an address update is recognised.
\<close>
theorem informational_roundtrip:
  assumes "gcm_correct C" "sa_pair a b" "gcm_keys a" "chain_wf ps" "length iv = 8"
    and "length (encode_payload_chain ps) < 65507"
  shows "(\<exists>m. build_informational C a mid resp ps iv = Ok m \<and> open_informational C b m = Ok ps) \<and>
    (\<exists>m. dpd_request C a mid iv = Ok m \<and> open_informational C b m = Ok []) \<and>
    (\<exists>m inner. build_update_sa_addresses C a mid iv = Ok m \<and> open_informational C b m = Ok inner \<and>
       contains_update_sa_addresses inner \<and> \<not> peer_supports_mobike inner)"
proof (intro conjI)
  let ?n = "notify_status UPDATE_SA_ADDRESSES []"
  let ?up = "[(PT_Notify, notify_to_bytes ?n)]"
  show "\<exists>m. build_informational C a mid resp ps iv = Ok m \<and> open_informational C b m = Ok ps"
    using informational_delivery[OF assms] .
  show "\<exists>m. dpd_request C a mid iv = Ok m \<and> open_informational C b m = Ok []"
    unfolding dpd_request_def using assms(5) by (intro informational_delivery[OF assms(1-3)]) simp_all
  have len: "length (notify_to_bytes ?n) = 4" by (simp add: notify_to_bytes_def notify_status_def)
  have "notify_parse (notify_to_bytes ?n) = Ok ?n" by (rule notif.dec_enc) (simp add: notify_wf_def notify_status_def)
  then have "contains_update_sa_addresses ?up" "\<not> peer_supports_mobike ?up"
    by (simp_all add: contains_update_sa_addresses_def peer_supports_mobike_def has_notify_def notify_status_def)
  moreover have "\<exists>m. build_informational C a mid False ?up iv = Ok m \<and> open_informational C b m = Ok ?up"
    using assms(5) len by (intro informational_delivery[OF assms(1-3)]) simp_all
  ultimately show "\<exists>m inner. build_update_sa_addresses C a mid iv = Ok m \<and> open_informational C b m = Ok inner \<and>
      contains_update_sa_addresses inner \<and> \<not> peer_supports_mobike inner"
    unfolding build_update_sa_addresses_def by blast
qed

definition sample_sa :: "role \<Rightarrow> completed_sa_init" where
  "sample_sa r = \<lparr>ci_role = r, ci_spi_i = 1, ci_spi_r = 2, ci_suite = sample_suite,
     ci_keys = \<lparr>sk_d = replicate 32 1, sk_ai = [], sk_ar = [], sk_ei = replicate 36 2, sk_er = replicate 36 3,
       sk_pi = replicate 32 4, sk_pr = replicate 32 5\<rparr>,
     ci_ni = [1], ci_nr = [2], ci_init_message = [3], ci_resp_message = [4],
     ci_peer_signature_hashes = [SHA2_256]\<rparr>"

lemma sample_sa_pair [simp]: "sa_pair (sample_sa r) (sample_sa (peer r))" "gcm_keys (sample_sa r)"
  by (simp_all add: sample_sa_def sa_pair_def gcm_keys_def)

theorem informational_roundtrip_witness:
  "\<exists>m. build_informational toy_primitives (sample_sa Initiator) 2 False [(PT_Delete, [1, 0, 0, 0])] (replicate 8 0) = Ok m \<and>
     open_informational toy_primitives (sample_sa (peer Initiator)) m = Ok [(PT_Delete, [1, 0, 0, 0])]"
  using informational_roundtrip[OF toy_gcm_correct sample_sa_pair, of "[(PT_Delete, [1, 0, 0, 0])]" "replicate 8 0" Initiator 2 False]
  by simp

end
