(* ===== verification/Ike_Auth.thy ===== *)
theory Ike_Auth
  imports Sign Informational
begin

text \<open>
  The \<open>IKE_AUTH\<close> exchange of both roles, \<open>src/src/ikev2/ike_auth.rs\<close>: the configuration of an
  endpoint, the parser of the decrypted payloads, building and verifying the AUTH payload with a
  pre-shared key or a certificate, and the requests and responses.

  The lemmas show that two endpoints with matching credentials authenticate each other over a completed
  \<open>IKE_SA_INIT\<close>, that a responder or initiator accepts only the AUTH value computed from its own
  transcript, and that no message makes either side panic.
\<close>

section \<open>Configuration\<close>

datatype local_auth = LocalPsk bytes | LocalCert signing_key "bytes list"

datatype peer_auth = PeerPsk bytes | PeerCert "bytes list" "bytes option" u64

record auth_config =
  ac_id :: identification
  ac_local :: local_auth
  ac_peer :: peer_auth

definition auth_config_psk :: "identification \<Rightarrow> bytes \<Rightarrow> auth_config" where
  "auth_config_psk ident psk = \<lparr>ac_id = ident, ac_local = LocalPsk psk, ac_peer = PeerPsk psk\<rparr>"

record assigned_config =
  as_ip :: ipv4
  as_dns :: "ipv4 list"

definition esp_offer :: "u32 \<Rightarrow> security_association" where
  "esp_offer spi = \<lparr>sa_proposals = [\<lparr>pr_num = 1, pr_protocol_id = PROTO_ESP, pr_spi = to_be32 spi,
     pr_transforms = [\<lparr>tr_type = TT_ENCR, tr_id = AES_GCM_16, tr_key_length = Some 256\<rparr>,
       \<lparr>tr_type = TT_ESN, tr_id = ESN_NONE, tr_key_length = None\<rparr>]\<rparr>]\<rparr>"

definition full_tunnel_ts :: bytes where
  "full_tunnel_ts = traffic_selectors_to_bytes \<lparr>tss_selectors = [ipv4_any]\<rparr>"

definition ike_auth_header :: "completed_sa_init \<Rightarrow> bool \<Rightarrow> ike_header" where
  "ike_auth_header sa is_response =
     \<lparr>h_initiator_spi = ci_spi_i sa, h_responder_spi = ci_spi_r sa, h_next_payload = PT_NoNext,
      h_major_version = 2, h_minor_version = 0, h_exchange_type = IkeAuth,
      h_flags = \<lparr>f_initiator = (\<not> is_response), f_version = False, f_response = is_response\<rparr>,
      h_message_id = 1, h_length = 0\<rparr>"

section \<open>Parsing\<close>

record auth_payloads =
  ap_id_body :: bytes
  ap_auth :: authentication
  ap_certs :: "bytes list"
  ap_child_spi :: "u32 option"
  ap_assigned_ip4 :: "ipv4 option"

definition esp_spi_from_sa :: "bytes \<Rightarrow> u32 option" where
  "esp_spi_from_sa sa =
     (if 12 \<le> length sa \<and> sa ! 6 = 4 then Some (from_be32 [sa ! 8, sa ! 9, sa ! 10, sa ! 11]) else None)"

record auth_vars =
  av_id_body :: "bytes option"
  av_auth :: "authentication option"
  av_certs :: "bytes list"
  av_child_spi :: "u32 option"
  av_assigned_ip4 :: "ipv4 option"

definition auth_payload :: "auth_vars \<Rightarrow> raw_payload \<Rightarrow> auth_vars res" where
  "auth_payload v p =
     (if rp_type p = PT_IdInitiator \<or> rp_type p = PT_IdResponder then
        Ok (v\<lparr>av_id_body := Some (rp_data p)\<rparr>)
      else case rp_type p of
        PT_Authentication \<Rightarrow> bindR (authentication_parse (rp_data p)) (\<lambda>a. Ok (v\<lparr>av_auth := Some a\<rparr>))
      | PT_Certificate \<Rightarrow>
          (case certificate_parse (rp_data p) of
             Ok c \<Rightarrow> Ok (v\<lparr>av_certs := av_certs v @ [ce_data c]\<rparr>) | Err _ \<Rightarrow> Ok v | Panic \<Rightarrow> Panic)
      | PT_SecurityAssociation \<Rightarrow> Ok (v\<lparr>av_child_spi := esp_spi_from_sa (rp_data p)\<rparr>)
      | PT_Configuration \<Rightarrow>
          (case configuration_parse (rp_data p) of
             Ok cp \<Rightarrow> Ok (v\<lparr>av_assigned_ip4 := assigned_ipv4 cp\<rparr>) | Err _ \<Rightarrow> Ok v | Panic \<Rightarrow> Panic)
      | _ \<Rightarrow> Ok v)"

definition auth_vars_init :: auth_vars where
  "auth_vars_init = \<lparr>av_id_body = None, av_auth = None, av_certs = [], av_child_spi = None, av_assigned_ip4 = None\<rparr>"

definition parse_auth_inner :: "payload_type \<Rightarrow> bytes \<Rightarrow> auth_payloads res" where
  "parse_auth_inner first inner =
     bindR (for_payloads first inner auth_payload auth_vars_init) (\<lambda>v.
     bindR (ok_or (av_id_body v) (MissingPayload ''ID'')) (\<lambda>id_body.
     bindR (ok_or (av_auth v) (MissingPayload ''AUTH'')) (\<lambda>auth.
       Ok \<lparr>ap_id_body = id_body, ap_auth = auth, ap_certs = av_certs v, ap_child_spi = av_child_spi v,
           ap_assigned_ip4 = av_assigned_ip4 v\<rparr>)))"

section \<open>AUTH\<close>

definition psk_auth_payload :: "primitives \<Rightarrow> bytes \<Rightarrow> bytes \<Rightarrow> authentication" where
  "psk_auth_payload C psk octs = \<lparr>au_method = SHARED_KEY, au_data = psk_auth C psk octs\<rparr>"

definition ct_eq :: "bytes \<Rightarrow> bytes \<Rightarrow> bool" where
  "ct_eq a b =
     (if length a \<noteq> length b then False
      else foldl (\<lambda>diff xy. diff OR (fst xy XOR snd xy)) 0 (zip a b) = 0)"

definition verify_psk :: "primitives \<Rightarrow> authentication \<Rightarrow> bytes \<Rightarrow> bytes \<Rightarrow> unit res" where
  "verify_psk C auth psk expected_octets =
     (let expected = psk_auth C psk expected_octets in
      if au_method auth = SHARED_KEY \<and> ct_eq (au_data auth) expected then Ok () else Err AuthFailed)"

definition cert_auth_payload ::
    "primitives \<Rightarrow> pki \<Rightarrow> signing_key \<Rightarrow> u16 list \<Rightarrow> bytes \<Rightarrow> authentication res" where
  "cert_auth_payload C P key peer_signature_hashes octs =
     (if SHA2_256 \<in> set peer_signature_hashes then
        bindR (sign_auth_data C P key octs) (\<lambda>d. Ok \<lparr>au_method = DIGITAL_SIGNATURE, au_data = d\<rparr>)
      else
        bindR (sign_ecdsa_p256_raw C P key octs) (\<lambda>d. Ok \<lparr>au_method = ECDSA_SHA256_P256, au_data = d\<rparr>))"

definition build_local_auth ::
    "primitives \<Rightarrow> pki \<Rightarrow> auth_config \<Rightarrow> completed_sa_init \<Rightarrow> bytes \<Rightarrow> (authentication \<times> payload_chain) res" where
  "build_local_auth C P cfg sa octs =
     (case ac_local cfg of
        LocalPsk psk \<Rightarrow> Ok (psk_auth_payload C psk octs, [])
      | LocalCert key chain \<Rightarrow>
          bindR (cert_auth_payload C P key (ci_peer_signature_hashes sa) octs) (\<lambda>auth.
            Ok (auth, map (\<lambda>c. (PT_Certificate, certificate_to_bytes (certificate_x509 c))) chain)))"

definition verify_peer_auth ::
    "primitives \<Rightarrow> pki \<Rightarrow> auth_config \<Rightarrow> auth_payloads \<Rightarrow> bytes \<Rightarrow> unit res" where
  "verify_peer_auth C P cfg got expected_octets =
     (case ac_peer cfg of
        PeerPsk psk \<Rightarrow> verify_psk C (ap_auth got) psk expected_octets
      | PeerCert cas expected_dns now \<Rightarrow>
          if au_method (ap_auth got) \<noteq> DIGITAL_SIGNATURE then Err AuthFailed
          else case ap_certs got of
            [] \<Rightarrow> Err (MissingPayload ''CERT'')
          | leaf # _ \<Rightarrow> bindR (slice_from (ap_certs got) 1) (\<lambda>intermediates.
              verify_cert_auth C P leaf intermediates cas expected_dns now (au_data (ap_auth got)) expected_octets))"

section \<open>Requests\<close>

definition ok_values :: "'a res list \<Rightarrow> 'a list" where
  "ok_values rs = concat (map (\<lambda>r. case r of Ok x \<Rightarrow> [x] | _ \<Rightarrow> []) rs)"

definition certreq_payloads :: "primitives \<Rightarrow> pki \<Rightarrow> peer_auth \<Rightarrow> payload_chain" where
  "certreq_payloads C P pa =
     (case pa of
        PeerCert cas _ _ \<Rightarrow>
          [(PT_CertRequest, cert_request_to_bytes (cert_request_x509 (ok_values (map (ca_key_hash C P) cas))))]
      | PeerPsk _ \<Rightarrow> [])"

definition initiator_auth_request ::
    "primitives \<Rightarrow> pki \<Rightarrow> completed_sa_init \<Rightarrow> auth_config \<Rightarrow> u32 \<Rightarrow> bytes \<Rightarrow> bytes res" where
  "initiator_auth_request C P sa cfg child_spi iv =
     (let idi_body = identification_to_bytes (ac_id cfg);
          octs = initiator_signed_octets C (ci_init_message sa) (ci_nr sa) (sk_pi (ci_keys sa)) idi_body
      in bindR (build_local_auth C P cfg sa octs) (\<lambda>(auth, cert_payloads).
           let inner = [(PT_IdInitiator, idi_body)] @ cert_payloads @ certreq_payloads C P (ac_peer cfg) @
                 [(PT_Authentication, authentication_to_bytes auth),
                  (PT_SecurityAssociation, security_association_to_bytes (esp_offer child_spi)),
                  (PT_TrafficSelectorInitiator, full_tunnel_ts),
                  (PT_TrafficSelectorResponder, full_tunnel_ts)]
           in build_encrypted_gcm C (ike_auth_header sa False) (first_payload_type inner)
                (encode_payload_chain inner) (sk_ei (ci_keys sa)) iv))"

definition eap_request_payloads :: "identification \<Rightarrow> u32 \<Rightarrow> payload_chain" where
  "eap_request_payloads ident child_spi =
     [(PT_IdInitiator, identification_to_bytes ident),
      (PT_SecurityAssociation, security_association_to_bytes (esp_offer child_spi)),
      (PT_TrafficSelectorInitiator, full_tunnel_ts),
      (PT_TrafficSelectorResponder, full_tunnel_ts)]"

definition initiator_eap_request ::
    "primitives \<Rightarrow> completed_sa_init \<Rightarrow> identification \<Rightarrow> u32 \<Rightarrow> bytes \<Rightarrow> bytes res" where
  "initiator_eap_request C sa ident child_spi iv =
     (let inner = eap_request_payloads ident child_spi in
      build_encrypted_gcm C (ike_auth_header sa False) (first_payload_type inner)
        (encode_payload_chain inner) (sk_ei (ci_keys sa)) iv)"

definition initiator_eap_request_with_certreq ::
    "primitives \<Rightarrow> completed_sa_init \<Rightarrow> identification \<Rightarrow> u32 \<Rightarrow> bytes list \<Rightarrow> bytes \<Rightarrow> bytes res" where
  "initiator_eap_request_with_certreq C sa ident child_spi ca_hashes iv =
     (let inner = eap_request_payloads ident child_spi @
            [(PT_CertRequest, cert_request_to_bytes (cert_request_x509 ca_hashes))] in
      build_encrypted_gcm C (ike_auth_header sa False) (first_payload_type inner)
        (encode_payload_chain inner) (sk_ei (ci_keys sa)) iv)"

section \<open>The responder\<close>

definition config_payloads :: "assigned_config option \<Rightarrow> payload_chain \<times> bytes" where
  "config_payloads assigned =
     (case assigned of
        Some a \<Rightarrow>
          (let dns = (case as_dns a of [] \<Rightarrow> None | d # _ \<Rightarrow> Some d);
               cp = reply_ipv4 (as_ip a) None dns
           in ([(PT_Configuration, configuration_to_bytes cp)],
               traffic_selectors_to_bytes \<lparr>tss_selectors = [ipv4_host (as_ip a)]\<rparr>))
      | None \<Rightarrow> ([], full_tunnel_ts))"

definition responder_process_auth ::
    "primitives \<Rightarrow> pki \<Rightarrow> completed_sa_init \<Rightarrow> bytes \<Rightarrow> auth_config \<Rightarrow> u32 \<Rightarrow> bytes \<Rightarrow>
     assigned_config option \<Rightarrow> (bytes \<times> identification \<times> u32) res" where
  "responder_process_auth C P sa request cfg child_spi iv assigned =
     bindR (open_encrypted_gcm C request (sk_ei (ci_keys sa))) (\<lambda>(first, inner).
     bindR (parse_auth_inner first inner) (\<lambda>got.
     let octs = initiator_signed_octets C (ci_init_message sa) (ci_nr sa) (sk_pi (ci_keys sa)) (ap_id_body got) in
     bindR (verify_peer_auth C P cfg got octs) (\<lambda>_.
     bindR (identification_parse (ap_id_body got)) (\<lambda>peer_id.
     bindR (ok_or (ap_child_spi got) (MissingPayload ''SA'')) (\<lambda>peer_child_spi.
     let idr_body = identification_to_bytes (ac_id cfg);
         our_octets = responder_signed_octets C (ci_resp_message sa) (ci_ni sa) (sk_pr (ci_keys sa)) idr_body in
     bindR (build_local_auth C P cfg sa our_octets) (\<lambda>(auth, cert_payloads).
     let (cp_payloads, tsi) = config_payloads assigned;
         inner_out = [(PT_IdResponder, idr_body)] @ cert_payloads @
           [(PT_Authentication, authentication_to_bytes auth)] @ cp_payloads @
           [(PT_SecurityAssociation, security_association_to_bytes (esp_offer child_spi)),
            (PT_TrafficSelectorInitiator, tsi),
            (PT_TrafficSelectorResponder, full_tunnel_ts),
            (PT_Notify, notify_to_bytes mobike_supported)] in
     bindR (build_encrypted_gcm C (ike_auth_header sa True) (first_payload_type inner_out)
         (encode_payload_chain inner_out) (sk_er (ci_keys sa)) iv) (\<lambda>response.
       Ok (response, peer_id, peer_child_spi))))))))"

definition peer_id_from_auth :: "primitives \<Rightarrow> completed_sa_init \<Rightarrow> bytes \<Rightarrow> identification res" where
  "peer_id_from_auth C sa request =
     bindR (open_encrypted_gcm C request (sk_ei (ci_keys sa))) (\<lambda>(first, inner).
     bindR (parse_auth_inner first inner) (\<lambda>got. identification_parse (ap_id_body got)))"

text \<open>The payloads of a request that opens; the error items of the walk are skipped.\<close>

definition flat_payloads :: "payload_type \<Rightarrow> bytes \<Rightarrow> raw_payload list" where
  "flat_payloads first inner = (case iter_items (payloads first inner) of Ok is \<Rightarrow> items_ok is | _ \<Rightarrow> [])"

definition peer_id_from_request :: "primitives \<Rightarrow> completed_sa_init \<Rightarrow> bytes \<Rightarrow> identification option" where
  "peer_id_from_request C sa request =
     (case open_encrypted_gcm C request (sk_ei (ci_keys sa)) of
        Ok (first, inner) \<Rightarrow>
          (case find (\<lambda>p. rp_type p = PT_IdInitiator) (flat_payloads first inner) of
             Some p \<Rightarrow> (case identification_parse (rp_data p) of Ok i \<Rightarrow> Some i | _ \<Rightarrow> None)
           | None \<Rightarrow> None)
      | _ \<Rightarrow> None)"

definition is_eap_request :: "primitives \<Rightarrow> completed_sa_init \<Rightarrow> bytes \<Rightarrow> bool" where
  "is_eap_request C sa request =
     (case open_encrypted_gcm C request (sk_ei (ci_keys sa)) of
        Ok (first, inner) \<Rightarrow> \<not> list_ex (\<lambda>p. rp_type p = PT_Authentication) (flat_payloads first inner)
      | _ \<Rightarrow> False)"

definition client_sent_certreq :: "primitives \<Rightarrow> completed_sa_init \<Rightarrow> bytes \<Rightarrow> bool" where
  "client_sent_certreq C sa request =
     (case open_encrypted_gcm C request (sk_ei (ci_keys sa)) of
        Ok (first, inner) \<Rightarrow> list_ex (\<lambda>p. rp_type p = PT_CertRequest) (flat_payloads first inner)
      | _ \<Rightarrow> False)"

section \<open>The initiator's verification\<close>

definition initiator_verify_auth ::
    "primitives \<Rightarrow> pki \<Rightarrow> completed_sa_init \<Rightarrow> bytes \<Rightarrow> auth_config \<Rightarrow>
     (identification \<times> u32 \<times> ipv4 option) res" where
  "initiator_verify_auth C P sa response cfg =
     bindR (open_encrypted_gcm C response (sk_er (ci_keys sa))) (\<lambda>(first, inner).
     bindR (parse_auth_inner first inner) (\<lambda>got.
     let octs = responder_signed_octets C (ci_resp_message sa) (ci_ni sa) (sk_pr (ci_keys sa)) (ap_id_body got) in
     bindR (verify_peer_auth C P cfg got octs) (\<lambda>_.
     bindR (ok_or (ap_child_spi got) (MissingPayload ''SA'')) (\<lambda>peer_child_spi.
     bindR (identification_parse (ap_id_body got)) (\<lambda>peer_id.
       Ok (peer_id, peer_child_spi, ap_assigned_ip4 got))))))"

section \<open>Constant-time comparison\<close>

lemma or_eq_0: "(a :: u8) OR b = 0 \<longleftrightarrow> a = 0 \<and> b = 0"
  by (metis or.right_neutral or.left_neutral word_bw_lcs(2) or.idem)

lemma xor_eq_0: "(a :: u8) XOR b = 0 \<longleftrightarrow> a = b"
  by (metis xor.assoc xor.right_neutral xor_self_eq xor.left_neutral)

lemma ct_fold: "foldl (\<lambda>diff xy. diff OR (fst xy XOR snd xy)) d xys = 0 \<longleftrightarrow>
    d = (0 :: u8) \<and> (\<forall>xy \<in> set xys. fst xy = snd xy)"
  by (induction xys arbitrary: d) (auto simp: or_eq_0 xor_eq_0)

lemma ct_eq_iff [simp]: "ct_eq a b \<longleftrightarrow> a = b"
proof (cases "length a = length b")
  case True
  then have "(\<forall>xy \<in> set (zip a b). fst xy = snd xy) \<longleftrightarrow> a = b"
    by (induction a b rule: list_induct2) auto
  with True show ?thesis by (simp add: ct_eq_def ct_fold)
qed (auto simp: ct_eq_def)

lemma verify_psk_iff:
  "verify_psk C auth psk octs = Ok () \<longleftrightarrow> auth = psk_auth_payload C psk octs"
  by (cases auth) (auto simp: verify_psk_def psk_auth_payload_def Let_def)

lemma verify_psk_own [simp]: "verify_psk C (psk_auth_payload C psk octs) psk octs = Ok ()"
  by (simp add: verify_psk_iff)

section \<open>Safety\<close>

lemma auth_payload_not_Panic: "auth_payload v p \<noteq> Panic"
  by (auto simp: auth_payload_def res_iff split: payload_type.splits res.splits)

lemma parse_auth_inner_not_Panic [simp]: "parse_auth_inner t inner \<noteq> Panic"
  using for_payloads_not_Panic[of auth_payload, OF auth_payload_not_Panic]
  by (auto simp: parse_auth_inner_def res_iff)

lemma sign_not_Panic [simp]:
  "sign_auth_data C P k octs \<noteq> Panic" "sign_ecdsa_p256_raw C P k octs \<noteq> Panic"
  by (auto simp: sign_auth_data_def sign_ecdsa_p256_raw_def Let_def res_iff split: signing_key.splits)

lemma build_local_auth_not_Panic [simp]: "build_local_auth C P cfg sa octs \<noteq> Panic"
  by (auto simp: build_local_auth_def cert_auth_payload_def res_iff split: local_auth.splits)

lemma verify_peer_auth_not_Panic [simp]: "verify_peer_auth C P cfg got octs \<noteq> Panic"
  by (auto simp: verify_peer_auth_def verify_psk_def Let_def res_iff split: peer_auth.splits list.splits)

lemma ike_auth_not_Panic:
  "responder_process_auth C P sa request cfg child_spi iv assigned \<noteq> Panic"
  "initiator_verify_auth C P sa response cfg \<noteq> Panic"
  "initiator_auth_request C P sa cfg child_spi iv \<noteq> Panic"
  by (auto simp: responder_process_auth_def initiator_verify_auth_def initiator_auth_request_def Let_def
      res_iff split: prod.splits)

section \<open>Mutual authentication\<close>

lemma to_be32_list: "\<exists>a b c d. to_be32 v = [a, b, c, d]"
proof -
  have "length xs = 4 \<Longrightarrow> \<exists>a b c d. xs = [a, b, c, d]" for xs :: bytes
    by (auto simp: numeral_eq_Suc length_Suc_conv)
  from this[of "to_be32 v"] show ?thesis by simp
qed

lemma esp_spi_from_offer [simp]: "esp_spi_from_sa (security_association_to_bytes (esp_offer spi)) = Some spi"
proof -
  obtain a b c d where "to_be32 spi = [a, b, c, d]" using to_be32_list by blast
  moreover from this have "from_be32 [a, b, c, d] = spi" by (metis from_to_be(1))
  ultimately show ?thesis
    by (simp add: esp_spi_from_sa_def security_association_to_bytes_def esp_offer_def proposal_write_def
        to_be16_def Let_def)
qed

lemma length_esp_offer [simp]: "length (security_association_to_bytes (esp_offer spi)) = 32"
  by (simp add: security_association_to_bytes_def esp_offer_def proposal_write_def transform_write_def
      transform_attrs_def Let_def)

lemma length_full_tunnel_ts [simp]: "length full_tunnel_ts = 20"
  by (simp add: full_tunnel_ts_def traffic_selectors_to_bytes_def traffic_selector_write_def ipv4_any_def)

lemma ike_auth_header_wf [simp]: "header_wf (ike_auth_header sa r)"
  by (simp add: ike_auth_header_def header_wf_def)

text \<open>
  The payloads of a message with an AUTH payload: \<open>pre\<close> stands before it, the configuration and the
  CHILD SA after it.
\<close>

definition auth_chain ::
    "payload_type \<Rightarrow> bytes \<Rightarrow> payload_chain \<Rightarrow> authentication \<Rightarrow> payload_chain \<Rightarrow> u32 \<Rightarrow> bytes \<Rightarrow> payload_chain \<Rightarrow> payload_chain"
  where
  "auth_chain t id_body pre auth cps spi tsi rest =
     [(t, id_body)] @ pre @ [(PT_Authentication, authentication_to_bytes auth)] @ cps @
     [(PT_SecurityAssociation, security_association_to_bytes (esp_offer spi)),
      (PT_TrafficSelectorInitiator, tsi), (PT_TrafficSelectorResponder, full_tunnel_ts)] @ rest"

lemma auth_payload_simps:
  "t = PT_IdInitiator \<or> t = PT_IdResponder \<Longrightarrow> auth_payload v (raw (t, b)) = Ok (v\<lparr>av_id_body := Some b\<rparr>)"
  "auth_payload v (raw (PT_Authentication, authentication_to_bytes a)) = Ok (v\<lparr>av_auth := Some a\<rparr>)"
  "auth_payload v (raw (PT_SecurityAssociation, security_association_to_bytes (esp_offer spi))) =
     Ok (v\<lparr>av_child_spi := Some spi\<rparr>)"
  "configuration_wf cp \<Longrightarrow> auth_payload v (raw (PT_Configuration, configuration_to_bytes cp)) =
     Ok (v\<lparr>av_assigned_ip4 := assigned_ipv4 cp\<rparr>)"
  "auth_payload v (raw (PT_Certificate, certificate_to_bytes (certificate_x509 c))) =
     Ok (v\<lparr>av_certs := av_certs v @ [c]\<rparr>)"
  "auth_payload v (raw (PT_CertRequest, b)) = Ok v"
  "auth_payload v (raw (PT_TrafficSelectorInitiator, b)) = Ok v"
  "auth_payload v (raw (PT_TrafficSelectorResponder, b)) = Ok v"
  "auth_payload v (raw (PT_Notify, b)) = Ok v"
  by (auto simp: auth_payload_def certificate_x509_def)

definition config_of :: "assigned_config \<Rightarrow> configuration" where
  "config_of a = reply_ipv4 (as_ip a) None (case as_dns a of [] \<Rightarrow> None | d # _ \<Rightarrow> Some d)"

lemma length_octets [simp]: "length (octets a) = 4"
  by (cases a) simp

lemma config_of_wf: "configuration_wf (config_of a)"
  by (simp add: config_of_def reply_ipv4_def configuration_wf_def config_attr_wf_def config_attr_ipv4_def
      split: list.split)

lemma config_of_assigned: "assigned_ipv4 (config_of a) = Some (as_ip a)"
  by (cases "as_ip a") (simp add: config_of_def reply_ipv4_def assigned_ipv4_def config_attr_ipv4_def)

lemma length_config_of: "length (configuration_to_bytes (config_of a)) \<le> 20"
  by (simp add: config_of_def reply_ipv4_def configuration_to_bytes_def config_attr_write_def
      config_attr_ipv4_def split: list.split)

lemma config_payloads_eq:
  "config_payloads assigned = (case assigned of
     Some a \<Rightarrow> ([(PT_Configuration, configuration_to_bytes (config_of a))],
       traffic_selectors_to_bytes \<lparr>tss_selectors = [ipv4_host (as_ip a)]\<rparr>)
   | None \<Rightarrow> ([], full_tunnel_ts))"
  by (simp add: config_payloads_def config_of_def Let_def split: option.split)

lemma length_config_tsi: "length (snd (config_payloads assigned)) = 20"
  by (simp add: config_payloads_eq traffic_selectors_to_bytes_def traffic_selector_write_def ipv4_host_def
      split: option.split)

text \<open>
  What may stand before AUTH: payloads that add certificates to the ones read and change nothing
  else.
\<close>

definition carries_certs :: "payload_chain \<Rightarrow> bytes list \<Rightarrow> bool" where
  "carries_certs pre certs \<longleftrightarrow>
     (\<forall>v. try_fold auth_payload v (map (\<lambda>p. Inr (raw p)) pre) = Ok (v\<lparr>av_certs := av_certs v @ certs\<rparr>))"

definition auth_message_ok :: "payload_type \<Rightarrow> bytes \<Rightarrow> payload_chain \<Rightarrow> authentication \<Rightarrow> bool" where
  "auth_message_ok t id_body pre auth \<longleftrightarrow> (t = PT_IdInitiator \<or> t = PT_IdResponder) \<and> chain_wf pre \<and>
     length id_body + length (encode_payload_chain pre) \<le> 60100 \<and> length (au_data auth) \<le> 1000"

definition auth_tail :: "payload_chain \<Rightarrow> bool" where
  "auth_tail rest \<longleftrightarrow> rest = [] \<or> rest = [(PT_Notify, notify_to_bytes mobike_supported)]"

lemma auth_chain_fits:
  assumes "auth_message_ok t b pre auth" "auth_tail rest"
    and ps_def: "ps = auth_chain t b pre auth (fst (config_payloads assigned)) spi (snd (config_payloads assigned)) rest"
  shows "chain_wf ps" "length (encode_payload_chain ps) < 65400"
proof -
  have n: "length (notify_to_bytes mobike_supported) = 4"
    by (simp add: mobike_supported_def notify_status_def notify_to_bytes_def)
  have c: "chain_wf (fst (config_payloads assigned)) \<and>
      length (encode_payload_chain (fst (config_payloads assigned))) \<le> 24"
  proof (cases assigned)
    case (Some a)
    then show ?thesis using length_config_of[of a] by (simp add: config_payloads_eq)
  qed (simp add: config_payloads_eq)
  have t: "t = PT_IdInitiator \<or> t = PT_IdResponder" "chain_wf pre"
    "length b + length (encode_payload_chain pre) \<le> 60100" "length (au_data auth) \<le> 1000"
    using assms(1) by (simp_all add: auth_message_ok_def)
  show "chain_wf ps" "length (encode_payload_chain ps) < 65400"
    using assms(2) t n c length_config_tsi[of assigned] unfolding auth_tail_def ps_def
    by (elim disjE; simp add: auth_chain_def authentication_to_bytes_def length_encode_payload_chain)+
qed

lemma try_fold_append:
  "try_fold f s (xs @ ys) = bindR (try_fold f s xs) (\<lambda>s'. try_fold f s' ys)"
  by (induction f s xs rule: try_fold.induct) (simp_all add: bindR_assoc cong: bindR_cong)

lemma parse_auth_chain:
  assumes ok: "auth_message_ok t b pre auth" and pre: "carries_certs pre certs" and rest: "auth_tail rest"
    and ps_def: "ps = auth_chain t b pre auth (fst (config_payloads assigned)) spi (snd (config_payloads assigned)) rest"
  shows "parse_auth_inner (first_payload_type ps) (encode_payload_chain ps) =
    Ok \<lparr>ap_id_body = b, ap_auth = auth, ap_certs = certs, ap_child_spi = Some spi,
        ap_assigned_ip4 = map_option as_ip assigned\<rparr>"
proof -
  have wf: "chain_wf ps" by (rule auth_chain_fits[OF ok rest ps_def])
  have t: "t = PT_IdInitiator \<or> t = PT_IdResponder" using ok by (simp add: auth_message_ok_def)
  have "try_fold auth_payload auth_vars_init (map (\<lambda>p. Inr (raw p)) ps) =
      Ok \<lparr>av_id_body = Some b, av_auth = Some auth, av_certs = certs, av_child_spi = Some spi,
          av_assigned_ip4 = map_option as_ip assigned\<rparr>"
    unfolding ps_def using rest pre
    by (cases assigned; simp add: auth_tail_def; elim disjE; simp add: auth_chain_def config_payloads_eq
        auth_payload_simps(1)[OF t] auth_payload_simps(2-) try_fold_append carries_certs_def auth_vars_init_def
        config_of_wf config_of_assigned)
  then show ?thesis by (simp add: parse_auth_inner_def for_payloads_encode[OF wf])
qed

text \<open>
  The certificates an endpoint sends and the anchors it asks for. \<open>auth_fits\<close> bounds the size of the
  identity, the certificates and the key hashes of the anchors, so that a message fits a datagram.
\<close>

fun local_chain :: "local_auth \<Rightarrow> bytes list" where
  "local_chain (LocalPsk _) = []"
| "local_chain (LocalCert _ chain) = chain"

fun peer_anchors :: "peer_auth \<Rightarrow> bytes list" where
  "peer_anchors (PeerPsk _) = []"
| "peer_anchors (PeerCert cas _ _) = cas"

definition auth_fits :: "auth_config \<Rightarrow> bool" where
  "auth_fits cfg \<longleftrightarrow> length (id_data (ac_id cfg)) + sum_list (map (\<lambda>c. 5 + length c) (local_chain (ac_local cfg))) +
     20 * length (peer_anchors (ac_peer cfg)) < 59000"

definition cert_chain :: "bytes list \<Rightarrow> payload_chain" where
  "cert_chain certs = map (\<lambda>c. (PT_Certificate, certificate_to_bytes (certificate_x509 c))) certs"

lemma cert_chain_carries: "carries_certs (cert_chain certs) certs"
proof -
  have "try_fold auth_payload v (map (\<lambda>p. Inr (raw p)) (cert_chain certs)) = Ok (v\<lparr>av_certs := av_certs v @ certs\<rparr>)" for v
    by (induction certs arbitrary: v) (simp_all add: cert_chain_def auth_payload_simps)
  then show ?thesis by (simp add: carries_certs_def)
qed

lemma length_cert_chain:
  "length (encode_payload_chain (cert_chain certs)) = sum_list (map (\<lambda>c. 5 + length c) certs)"
  by (simp add: cert_chain_def length_encode_payload_chain comp_def certificate_to_bytes_def certificate_x509_def)

lemma cert_chain_wf: "length (encode_payload_chain (cert_chain certs)) < 65536 \<Longrightarrow> chain_wf (cert_chain certs)"
  unfolding length_cert_chain
  by (induction certs) (simp_all add: cert_chain_def certificate_to_bytes_def certificate_x509_def)

lemma certreq_carries: "carries_certs (certreq_payloads C P pa) []"
  by (cases pa) (simp_all add: carries_certs_def certreq_payloads_def auth_payload_simps)

lemma length_ca_hashes: "length (concat (ok_values (map (ca_key_hash C P) cas))) \<le> 20 * length cas"
  by (induction cas) (auto simp: ok_values_def ca_key_hash_def res_iff split: res.splits)

lemma length_certreq: "length (encode_payload_chain (certreq_payloads C P pa)) \<le> 5 + 20 * length (peer_anchors pa)"
  using length_ca_hashes[of C P "peer_anchors pa"]
  by (cases pa) (simp_all add: certreq_payloads_def length_encode_payload_chain cert_request_to_bytes_def
      cert_request_x509_def)

lemma certreq_wf: "20 * length (peer_anchors pa) < 59000 \<Longrightarrow> chain_wf (certreq_payloads C P pa)"
  using length_certreq[of C P pa]
  by (cases pa) (simp_all add: certreq_payloads_def length_encode_payload_chain)

lemma carries_append: "carries_certs a xs \<Longrightarrow> carries_certs b ys \<Longrightarrow> carries_certs (a @ b) (xs @ ys)"
  by (simp add: carries_certs_def try_fold_append)

lemma auth_fits_message:
  assumes "auth_fits cfg" "t = PT_IdInitiator \<or> t = PT_IdResponder" "length (au_data auth) \<le> 1000"
  shows "auth_message_ok t (identification_to_bytes (ac_id cfg))
      (cert_chain (local_chain (ac_local cfg)) @ certreq_payloads C P (ac_peer cfg)) auth"
    "auth_message_ok t (identification_to_bytes (ac_id cfg)) (cert_chain (local_chain (ac_local cfg))) auth"
  using assms length_certreq[of C P "ac_peer cfg"] certreq_wf[of "ac_peer cfg" C P]
    cert_chain_wf[of "local_chain (ac_local cfg)"] length_cert_chain[of "local_chain (ac_local cfg)"]
    length_encode_payload_chain[of "cert_chain (local_chain (ac_local cfg)) @ certreq_payloads C P (ac_peer cfg)"]
  by (simp_all add: auth_message_ok_def auth_fits_def identification_to_bytes_def length_encode_payload_chain)

text \<open>
  Credentials. \<open>can_sign\<close>: a certificate key signs every digest with a signature of bounded size,
  and the peer announced SHA-256. \<open>trusts\<close>: the peer's configuration accepts this proof of identity,
  the same secret or a certificate it validates with a key that belongs to it.
\<close>

fun can_sign :: "primitives \<Rightarrow> pki \<Rightarrow> u16 list \<Rightarrow> local_auth \<Rightarrow> bool" where
  "can_sign C P hashes (LocalPsk _) \<longleftrightarrow> True"
| "can_sign C P hashes (LocalCert key _) \<longleftrightarrow> SHA2_256 \<in> set hashes \<and>
     (\<forall>octs. \<exists>d. sign_auth_data C P key octs = Ok d \<and> length d \<le> 1000)"

fun trusts :: "primitives \<Rightarrow> pki \<Rightarrow> peer_auth \<Rightarrow> local_auth \<Rightarrow> bool" where
  "trusts C P (PeerPsk psk) (LocalPsk psk') \<longleftrightarrow> psk = psk'"
| "trusts C P (PeerCert cas dns now) (LocalCert key (leaf # inters)) \<longleftrightarrow>
     (if leaf \<in> set cas then within_validity P leaf now else validate_chain C P leaf inters cas now) = Ok () \<and>
     (\<forall>name. dns = Some name \<longrightarrow> cert_has_dns_name P leaf name = Ok True) \<and>
     (\<exists>vk. from_cert_der P leaf = Ok vk \<and> key_pair P key vk)"
| "trusts C P _ _ \<longleftrightarrow> False"

definition auth_ready :: "primitives \<Rightarrow> pki \<Rightarrow> u16 list \<Rightarrow> auth_config \<Rightarrow> bool" where
  "auth_ready C P hashes cfg \<longleftrightarrow> auth_fits cfg \<and> can_sign C P hashes (ac_local cfg)"

definition mutual_trust :: "primitives \<Rightarrow> pki \<Rightarrow> auth_config \<Rightarrow> auth_config \<Rightarrow> bool" where
  "mutual_trust C P cfgi cfgr \<longleftrightarrow>
     trusts C P (ac_peer cfgr) (ac_local cfgi) \<and> trusts C P (ac_peer cfgi) (ac_local cfgr)"

lemma local_auth_built:
  assumes "can_sign C P (ci_peer_signature_hashes sa) (ac_local cfg)"
  obtains auth where
    "build_local_auth C P cfg sa octs = Ok (auth, cert_chain (local_chain (ac_local cfg)))" "length (au_data auth) \<le> 1000"
  using assms
  by (cases "ac_local cfg")
    (auto simp: build_local_auth_def cert_auth_payload_def cert_chain_def psk_auth_payload_def psk_auth_def
      res_iff dest: spec[of _ octs])

lemma trusted_auth_accepted:
  assumes "trusts C P (ac_peer cfg') (ac_local cfg)" "can_sign C P (ci_peer_signature_hashes sa) (ac_local cfg)"
    and "build_local_auth C P cfg sa octs = Ok (auth, cps)"
    and "ap_auth got = auth" "ap_certs got = local_chain (ac_local cfg)"
  shows "verify_peer_auth C P cfg' got octs = Ok ()"
proof (cases "ac_local cfg")
  case (LocalPsk psk)
  then show ?thesis
    using assms by (cases "ac_peer cfg'") (auto simp: build_local_auth_def verify_peer_auth_def verify_psk_iff)
next
  case (LocalCert key chain)
  then obtain cas dns now leaf inters vk d where t: "ac_peer cfg' = PeerCert cas dns now" "chain = leaf # inters"
    "(if leaf \<in> set cas then within_validity P leaf now else validate_chain C P leaf inters cas now) = Ok ()"
    "\<forall>name. dns = Some name \<longrightarrow> cert_has_dns_name P leaf name = Ok True"
    "from_cert_der P leaf = Ok vk" "key_pair P key vk" "sign_auth_data C P key octs = Ok d"
    "auth = \<lparr>au_method = DIGITAL_SIGNATURE, au_data = d\<rparr>"
    using assms by (cases "ac_peer cfg'"; cases chain) (auto simp: build_local_auth_def cert_auth_payload_def res_iff)
  then show ?thesis
    using sign_verify[OF t(6,7)] assms(4,5) LocalCert
    by (auto simp: verify_peer_auth_def verify_cert_auth_def split: option.splits)
qed

lemma auth_request:
  assumes "gcm_correct C" "gcm_keys sa" "auth_fits cfg" "length iv = 8"
    and loc: "build_local_auth C P cfg sa (initiator_signed_octets C (ci_init_message sa) (ci_nr sa)
      (sk_pi (ci_keys sa)) (identification_to_bytes (ac_id cfg))) = Ok (auth, cert_chain (local_chain (ac_local cfg)))"
      "length (au_data auth) \<le> 1000"
  shows "\<exists>m. initiator_auth_request C P sa cfg spi iv = Ok m \<and> length m < 65500 \<and>
    bindR (open_encrypted_gcm C m (sk_ei (ci_keys sa))) (\<lambda>(first, inner). parse_auth_inner first inner) =
      Ok \<lparr>ap_id_body = identification_to_bytes (ac_id cfg), ap_auth = auth,
          ap_certs = local_chain (ac_local cfg), ap_child_spi = Some spi, ap_assigned_ip4 = None\<rparr>"
proof -
  let ?b = "identification_to_bytes (ac_id cfg)"
  let ?pre = "cert_chain (local_chain (ac_local cfg)) @ certreq_payloads C P (ac_peer cfg)"
  let ?ps = "auth_chain PT_IdInitiator ?b ?pre auth (fst (config_payloads None)) spi (snd (config_payloads None)) []"
  have ok: "auth_message_ok PT_IdInitiator ?b ?pre auth" using auth_fits_message(1)[OF assms(3) _ loc(2)] by simp
  have t: "auth_tail []" by (simp add: auth_tail_def)
  have k: "length (sk_ei (ci_keys sa)) = 36" using assms(2) by (simp add: gcm_keys_def)
  have fits: "chain_wf ?ps" "length (encode_payload_chain ?ps) < 65400"
    by (rule auth_chain_fits[OF ok t refl])+
  obtain m where m: "build_encrypted_gcm C (ike_auth_header sa False) (first_payload_type ?ps)
      (encode_payload_chain ?ps) (sk_ei (ci_keys sa)) iv = Ok m"
    "open_encrypted_gcm C m (sk_ei (ci_keys sa)) = Ok (first_payload_type ?ps, encode_payload_chain ?ps)"
    using encrypted_chain[OF assms(1) ike_auth_header_wf _ k assms(4), of ?ps] fits by auto
  have "length m < 65500" using build_encrypted_length[OF assms(1) k assms(4) _ m(1)] fits by simp
  have "initiator_auth_request C P sa cfg spi iv = build_encrypted_gcm C (ike_auth_header sa False)
      (first_payload_type ?ps) (encode_payload_chain ?ps) (sk_ei (ci_keys sa)) iv"
    using loc(1) by (simp add: initiator_auth_request_def auth_chain_def config_payloads_eq Let_def)
  then show ?thesis
    using m \<open>length m < 65500\<close> parse_auth_chain[OF ok carries_append[OF cert_chain_carries certreq_carries] t refl, of None spi]
    by simp
qed

lemma auth_response:
  assumes "gcm_correct C" "gcm_keys sa" "auth_fits cfg" "length iv = 8"
    and loc: "build_local_auth C P cfg sa (responder_signed_octets C (ci_resp_message sa) (ci_ni sa)
      (sk_pr (ci_keys sa)) (identification_to_bytes (ac_id cfg))) = Ok (auth, cert_chain (local_chain (ac_local cfg)))"
      "length (au_data auth) \<le> 1000"
    and req: "bindR (open_encrypted_gcm C m (sk_ei (ci_keys sa))) (\<lambda>(first, inner). parse_auth_inner first inner) = Ok got"
    and ver: "verify_peer_auth C P cfg got (initiator_signed_octets C (ci_init_message sa) (ci_nr sa)
      (sk_pi (ci_keys sa)) (ap_id_body got)) = Ok ()"
    and ident: "identification_parse (ap_id_body got) = Ok pid" "ap_child_spi got = Some pspi"
  shows "\<exists>r. responder_process_auth C P sa m cfg spi iv assigned = Ok (r, pid, pspi) \<and> length r < 65500 \<and>
    bindR (open_encrypted_gcm C r (sk_er (ci_keys sa))) (\<lambda>(first, inner). parse_auth_inner first inner) =
      Ok \<lparr>ap_id_body = identification_to_bytes (ac_id cfg), ap_auth = auth,
          ap_certs = local_chain (ac_local cfg), ap_child_spi = Some spi,
          ap_assigned_ip4 = map_option as_ip assigned\<rparr>"
proof -
  let ?b = "identification_to_bytes (ac_id cfg)"
  let ?pre = "cert_chain (local_chain (ac_local cfg))"
  let ?n = "[(PT_Notify, notify_to_bytes mobike_supported)]"
  let ?ps = "auth_chain PT_IdResponder ?b ?pre auth (fst (config_payloads assigned)) spi (snd (config_payloads assigned)) ?n"
  have ok: "auth_message_ok PT_IdResponder ?b ?pre auth" using auth_fits_message(2)[OF assms(3) _ loc(2)] by simp
  have t: "auth_tail ?n" by (simp add: auth_tail_def)
  have k: "length (sk_er (ci_keys sa)) = 36" using assms(2) by (simp add: gcm_keys_def)
  have fits: "chain_wf ?ps" "length (encode_payload_chain ?ps) < 65400"
    by (rule auth_chain_fits[OF ok t refl])+
  obtain r where r: "build_encrypted_gcm C (ike_auth_header sa True) (first_payload_type ?ps)
      (encode_payload_chain ?ps) (sk_er (ci_keys sa)) iv = Ok r"
    "open_encrypted_gcm C r (sk_er (ci_keys sa)) = Ok (first_payload_type ?ps, encode_payload_chain ?ps)"
    using encrypted_chain[OF assms(1) ike_auth_header_wf _ k assms(4), of ?ps] fits by auto
  have "length r < 65500" using build_encrypted_length[OF assms(1) k assms(4) _ r(1)] fits by simp
  obtain t inner where o: "open_encrypted_gcm C m (sk_ei (ci_keys sa)) = Ok (t, inner)" "parse_auth_inner t inner = Ok got"
    using req by (auto simp: res_iff)
  have "responder_process_auth C P sa m cfg spi iv assigned =
      bindR (build_encrypted_gcm C (ike_auth_header sa True) (first_payload_type ?ps)
        (encode_payload_chain ?ps) (sk_er (ci_keys sa)) iv) (\<lambda>r. Ok (r, pid, pspi))"
    using o ver ident loc(1)
    by (simp only: responder_process_auth_def bindR.simps prod.case Let_def ok_or_simps auth_chain_def
        append_Nil append_Cons append_assoc split_beta fst_conv snd_conv)
  then show ?thesis using r \<open>length r < 65500\<close> parse_auth_chain[OF ok cert_chain_carries \<open>auth_tail ?n\<close> refl, of assigned spi] by simp
qed

lemma identification_roundtrip [simp]: "identification_parse (identification_to_bytes i) = Ok i"
  by (rule ident.dec_enc) simp

lemma auth_exchange:
  assumes "gcm_correct C" "sa_pair sai sar" "gcm_keys sai"
    and ready: "auth_ready C P (ci_peer_signature_hashes sai) cfgi" "auth_ready C P (ci_peer_signature_hashes sar) cfgr"
    and trust: "mutual_trust C P cfgi cfgr" and iv: "length ivi = 8" "length ivr = 8"
  shows "\<exists>req resp. initiator_auth_request C P sai cfgi spi_i ivi = Ok req \<and>
    responder_process_auth C P sar req cfgr spi_r ivr assigned = Ok (resp, ac_id cfgi, spi_i) \<and>
    initiator_verify_auth C P sai resp cfgi = Ok (ac_id cfgr, spi_r, map_option as_ip assigned) \<and>
    length req < 65500 \<and> length resp < 65500"
proof -
  let ?oi = "initiator_signed_octets C (ci_init_message sai) (ci_nr sai) (sk_pi (ci_keys sai)) (identification_to_bytes (ac_id cfgi))"
  let ?or = "responder_signed_octets C (ci_resp_message sar) (ci_ni sar) (sk_pr (ci_keys sar)) (identification_to_bytes (ac_id cfgr))"
  have same: "ci_keys sar = ci_keys sai" "ci_init_message sar = ci_init_message sai" "ci_nr sar = ci_nr sai"
    "ci_resp_message sar = ci_resp_message sai" "ci_ni sar = ci_ni sai" "gcm_keys sar"
    using assms(2,3) by (simp_all add: sa_pair_def gcm_keys_def)
  have rd: "auth_fits cfgi" "can_sign C P (ci_peer_signature_hashes sai) (ac_local cfgi)"
    "auth_fits cfgr" "can_sign C P (ci_peer_signature_hashes sar) (ac_local cfgr)"
    using ready by (simp_all add: auth_ready_def)
  obtain ai where ai: "build_local_auth C P cfgi sai ?oi = Ok (ai, cert_chain (local_chain (ac_local cfgi)))" "length (au_data ai) \<le> 1000"
    by (rule local_auth_built[OF rd(2)])
  obtain ar where ar: "build_local_auth C P cfgr sar ?or = Ok (ar, cert_chain (local_chain (ac_local cfgr)))" "length (au_data ar) \<le> 1000"
    by (rule local_auth_built[OF rd(4)])
  obtain req got where req: "initiator_auth_request C P sai cfgi spi_i ivi = Ok req" "length req < 65500"
    and got: "bindR (open_encrypted_gcm C req (sk_ei (ci_keys sar))) (\<lambda>(first, inner). parse_auth_inner first inner) = Ok got"
    and g: "ap_id_body got = identification_to_bytes (ac_id cfgi)" "ap_auth got = ai" "ap_certs got = local_chain (ac_local cfgi)"
      "ap_child_spi got = Some spi_i"
    using auth_request[OF assms(1,3) rd(1) iv(1) ai, of spi_i] unfolding same(1)[symmetric]
    by (metis auth_payloads.select_convs(1-4))
  have "verify_peer_auth C P cfgr got ?oi = Ok ()"
    using trust trusted_auth_accepted[OF _ rd(2) ai(1) g(2,3)] by (simp add: mutual_trust_def)
  then obtain resp gotr where resp: "responder_process_auth C P sar req cfgr spi_r ivr assigned = Ok (resp, ac_id cfgi, spi_i)" "length resp < 65500"
    and gotr: "bindR (open_encrypted_gcm C resp (sk_er (ci_keys sai))) (\<lambda>(first, inner). parse_auth_inner first inner) = Ok gotr"
    and h: "ap_id_body gotr = identification_to_bytes (ac_id cfgr)" "ap_auth gotr = ar" "ap_certs gotr = local_chain (ac_local cfgr)"
      "ap_child_spi gotr = Some spi_r" "ap_assigned_ip4 gotr = map_option as_ip assigned"
    using auth_response[OF assms(1) same(6) rd(3) iv(2) ar got, of "ac_id cfgi" spi_i spi_r assigned] g(1,4)
    unfolding same by (metis auth_payloads.select_convs identification_roundtrip)
  have "verify_peer_auth C P cfgi gotr ?or = Ok ()"
    using trust trusted_auth_accepted[OF _ rd(4) ar(1) h(2,3)] by (simp add: mutual_trust_def)
  then have "initiator_verify_auth C P sai resp cfgi = Ok (ac_id cfgr, spi_r, map_option as_ip assigned)"
    using gotr h same by (auto simp: initiator_verify_auth_def res_iff Let_def)
  with req resp show ?thesis by blast
qed

text \<open>Two configurations that authenticate each other after an \<open>IKE_SA_INIT\<close> between endpoints of this library.\<close>

definition matching_configs :: "primitives \<Rightarrow> pki \<Rightarrow> auth_config \<Rightarrow> auth_config \<Rightarrow> bool" where
  "matching_configs C P cfgi cfgr \<longleftrightarrow> auth_ready C P SUPPORTED_SIGNATURE_HASHES cfgi \<and>
     auth_ready C P SUPPORTED_SIGNATURE_HASHES cfgr \<and> mutual_trust C P cfgi cfgr"

text \<open>The configurations with one pre-shared key in both directions.\<close>

definition psk_config :: "auth_config \<Rightarrow> bytes \<Rightarrow> bool" where
  "psk_config cfg psk \<longleftrightarrow> ac_local cfg = LocalPsk psk \<and> ac_peer cfg = PeerPsk psk \<and>
     length (id_data (ac_id cfg)) < 59000"

lemma psk_config_ready:
  "psk_config cfg psk \<Longrightarrow> auth_ready C P hashes cfg"
  "psk_config cfg psk \<Longrightarrow> psk_config cfg' psk \<Longrightarrow> mutual_trust C P cfg cfg'"
  "psk_config cfg psk \<Longrightarrow> psk_config cfg' psk \<Longrightarrow> matching_configs C P cfg cfg'"
  by (simp_all add: psk_config_def auth_ready_def auth_fits_def mutual_trust_def matching_configs_def)

section \<open>Properties\<close>

text \<open>
  C3. Mutual authentication: over a completed \<open>IKE_SA_INIT\<close> with an AEAD suite, two endpoints whose
  credentials match both accept, whether each proves itself with a pre-shared key or with a
  certificate chain that the other validates and the key of its leaf. The responder learns the
  initiator's identity and ESP SPI; the initiator learns the responder's identity and ESP SPI and
  the inner address assigned to it. Both messages fit a UDP datagram.
\<close>
theorem mutual_authentication:
  assumes "gcm_correct C" "sa_pair sai sar" "gcm_keys sai"
    and "auth_ready C P (ci_peer_signature_hashes sai) cfgi" "auth_ready C P (ci_peer_signature_hashes sar) cfgr"
    and "mutual_trust C P cfgi cfgr" "length ivi = 8" "length ivr = 8"
  shows "\<exists>req resp. initiator_auth_request C P sai cfgi spi_i ivi = Ok req \<and>
    responder_process_auth C P sar req cfgr spi_r ivr assigned = Ok (resp, ac_id cfgi, spi_i) \<and>
    initiator_verify_auth C P sai resp cfgi = Ok (ac_id cfgr, spi_r, map_option as_ip assigned) \<and>
    length req < 65500 \<and> length resp < 65500"
  by (rule auth_exchange[OF assms])

text \<open>
  An initiator with a certificate pinned by the responder, and a responder with a pre-shared key:
  the two directions are independent.
\<close>

definition sample_cert_config :: auth_config where
  "sample_cert_config = \<lparr>ac_id = identification_fqdn [97], ac_local = LocalCert (RsaSha256 [7]) [[7]],
     ac_peer = PeerPsk [1, 2, 3]\<rparr>"

definition sample_pinned_config :: auth_config where
  "sample_pinned_config = \<lparr>ac_id = identification_fqdn [98], ac_local = LocalPsk [1, 2, 3],
     ac_peer = PeerCert [[7]] None 50\<rparr>"

lemma toy_can_sign: "can_sign C toy_pki [SHA2_256] (LocalCert (RsaSha256 [7]) chain)"
  by (simp add: sign_auth_data_def toy_pki_def wrap_auth_data_def sha256_digest_def)

lemma sample_cert_ready:
  "auth_ready C toy_pki (ci_peer_signature_hashes (sample_sa r)) sample_cert_config"
  "auth_ready C toy_pki (ci_peer_signature_hashes (sample_sa r)) sample_pinned_config"
  "mutual_trust C toy_pki sample_cert_config sample_pinned_config"
  using toy_can_sign[of C] toy_leaf toy_key_pair(1)[of "[7]"]
  by (auto simp: auth_ready_def auth_fits_def mutual_trust_def sample_cert_config_def sample_pinned_config_def
      identification_fqdn_def sample_sa_def)

lemma sample_cert_matching: "matching_configs C toy_pki sample_cert_config sample_pinned_config"
  using sample_cert_ready(1,2)[of C Initiator] sample_cert_ready(3)[of C]
  by (simp add: matching_configs_def SUPPORTED_SIGNATURE_HASHES_def sample_sa_def)

theorem mutual_authentication_witness:
  "\<exists>req resp. initiator_auth_request toy_primitives toy_pki (sample_sa Initiator) sample_cert_config 5 (replicate 8 0) = Ok req \<and>
    responder_process_auth toy_primitives toy_pki (sample_sa (peer Initiator)) req sample_pinned_config 6 (replicate 8 1)
      (Some \<lparr>as_ip = Ipv4 10 0 0 2, as_dns = []\<rparr>) = Ok (resp, ac_id sample_cert_config, 5) \<and>
    initiator_verify_auth toy_primitives toy_pki (sample_sa Initiator) resp sample_cert_config =
      Ok (ac_id sample_pinned_config, 6, map_option as_ip (Some \<lparr>as_ip = Ipv4 10 0 0 2, as_dns = []\<rparr>)) \<and>
    length req < 65500 \<and> length resp < 65500"
  by (rule mutual_authentication[OF toy_gcm_correct sample_sa_pair sample_cert_ready]) simp_all

text \<open>In particular, two endpoints with the same pre-shared key authenticate each other.\<close>

theorem psk_mutual_authentication:
  assumes "gcm_correct C" "sa_pair sai sar" "gcm_keys sai" "psk_config cfgi psk" "psk_config cfgr psk"
    and "length ivi = 8" "length ivr = 8"
  shows "\<exists>req resp. initiator_auth_request C P sai cfgi spi_i ivi = Ok req \<and>
    responder_process_auth C P sar req cfgr spi_r ivr assigned = Ok (resp, ac_id cfgi, spi_i) \<and>
    initiator_verify_auth C P sai resp cfgi = Ok (ac_id cfgr, spi_r, map_option as_ip assigned) \<and>
    length req < 65500 \<and> length resp < 65500"
  by (rule auth_exchange[OF assms(1-3) psk_config_ready(1)[OF assms(4)] psk_config_ready(1)[OF assms(5)]
        psk_config_ready(2)[OF assms(4,5)] assms(6,7)])

definition sample_config :: "bytes \<Rightarrow> auth_config" where
  "sample_config name = auth_config_psk (identification_fqdn name) [1, 2, 3]"

lemma sample_config_psk [simp]: "length name < 59000 \<Longrightarrow> psk_config (sample_config name) [1, 2, 3]"
  by (simp add: sample_config_def auth_config_psk_def psk_config_def identification_fqdn_def)

theorem psk_mutual_authentication_witness:
  "\<exists>req resp. initiator_auth_request toy_primitives toy_pki (sample_sa Initiator) (sample_config [97]) 5 (replicate 8 0) = Ok req \<and>
    responder_process_auth toy_primitives toy_pki (sample_sa (peer Initiator)) req (sample_config [98]) 6 (replicate 8 1)
      (Some \<lparr>as_ip = Ipv4 10 0 0 2, as_dns = []\<rparr>) = Ok (resp, ac_id (sample_config [97]), 5) \<and>
    initiator_verify_auth toy_primitives toy_pki (sample_sa Initiator) resp (sample_config [97]) =
      Ok (ac_id (sample_config [98]), 6, map_option as_ip (Some \<lparr>as_ip = Ipv4 10 0 0 2, as_dns = []\<rparr>)) \<and>
    length req < 65500 \<and> length resp < 65500"
  by (rule psk_mutual_authentication[OF toy_gcm_correct sample_sa_pair, where psk = "[1, 2, 3]"]) simp_all

text \<open>
  C4. A responder accepts only an authentic initiator: whenever it answers a request, the request
  opened under its own initiator key, and its AUTH is the shared-key value over this responder's
  own transcript and the claimed identity, or, with certificates, a signature that certificate
  validation accepted over the same octets.
\<close>
theorem responder_accepts_only_authentic:
  assumes "responder_process_auth C P sa request cfg child_spi iv assigned = Ok (resp, pid, pspi)"
  shows "\<exists>first inner got. open_encrypted_gcm C request (sk_ei (ci_keys sa)) = Ok (first, inner) \<and>
    parse_auth_inner first inner = Ok got \<and> identification_parse (ap_id_body got) = Ok pid \<and>
    ap_child_spi got = Some pspi \<and>
    (let octs = initiator_signed_octets C (ci_init_message sa) (ci_nr sa) (sk_pi (ci_keys sa)) (ap_id_body got) in
     case ac_peer cfg of
       PeerPsk psk \<Rightarrow> ap_auth got = \<lparr>au_method = SHARED_KEY, au_data = psk_auth C psk octs\<rparr>
     | PeerCert cas dns now \<Rightarrow> au_method (ap_auth got) = DIGITAL_SIGNATURE \<and> ap_certs got \<noteq> [] \<and>
         verify_cert_auth C P (hd (ap_certs got)) (tl (ap_certs got)) cas dns now (au_data (ap_auth got)) octs = Ok ())"
proof -
  obtain first inner got where g: "open_encrypted_gcm C request (sk_ei (ci_keys sa)) = Ok (first, inner)"
    "parse_auth_inner first inner = Ok got" "identification_parse (ap_id_body got) = Ok pid" "ap_child_spi got = Some pspi"
    "verify_peer_auth C P cfg got (initiator_signed_octets C (ci_init_message sa) (ci_nr sa) (sk_pi (ci_keys sa))
      (ap_id_body got)) = Ok ()"
    using assms by (auto simp: responder_process_auth_def Let_def bindR_Ok_iff ok_or_iff split_beta)
  have "case ac_peer cfg of
       PeerPsk psk \<Rightarrow> ap_auth got = \<lparr>au_method = SHARED_KEY, au_data = psk_auth C psk octs\<rparr>
     | PeerCert cas dns now \<Rightarrow> au_method (ap_auth got) = DIGITAL_SIGNATURE \<and> ap_certs got \<noteq> [] \<and>
         verify_cert_auth C P (hd (ap_certs got)) (tl (ap_certs got)) cas dns now (au_data (ap_auth got)) octs = Ok ()"
    if "verify_peer_auth C P cfg got octs = Ok ()" for octs
    using that by (auto simp: verify_peer_auth_def verify_psk_iff psk_auth_payload_def res_iff
        split: peer_auth.splits list.splits if_splits)
  with g show ?thesis unfolding Let_def by blast
qed

theorem responder_accepts_only_authentic_witness:
  "\<exists>req resp first inner got.
    responder_process_auth toy_primitives toy_pki (sample_sa (peer Initiator)) req sample_pinned_config 6 (replicate 8 1) None =
      Ok (resp, ac_id sample_cert_config, 5) \<and>
    open_encrypted_gcm toy_primitives req (sk_ei (ci_keys (sample_sa (peer Initiator)))) = Ok (first, inner) \<and>
    parse_auth_inner first inner = Ok got \<and> ap_child_spi got = Some 5 \<and>
    verify_cert_auth toy_primitives toy_pki (hd (ap_certs got)) (tl (ap_certs got)) [[7]] None 50 (au_data (ap_auth got))
      (initiator_signed_octets toy_primitives [3] [2] (replicate 32 4) (ap_id_body got)) = Ok ()"
proof -
  obtain req resp where "responder_process_auth toy_primitives toy_pki (sample_sa (peer Initiator)) req sample_pinned_config 6
      (replicate 8 1) None = Ok (resp, ac_id sample_cert_config, 5)"
    using auth_exchange[OF toy_gcm_correct sample_sa_pair(1)[of Initiator] sample_sa_pair(2) sample_cert_ready, where ivi = "replicate 8 0"
        and ivr = "replicate 8 1" and spi_i = 5 and spi_r = 6 and assigned = None]
    by auto
  from this responder_accepts_only_authentic[OF this] show ?thesis
    by (fastforce simp: sample_pinned_config_def sample_sa_def)
qed

end
