(* ===== verification/Esp.thy ===== *)
theory Esp
  imports Crypto Message
begin

text \<open>
  Userspace ESP, \<open>src/src/esp.rs\<close>, and the data-plane driver, \<open>src/src/tunnel.rs\<close>.

  The lemmas show that a sealed packet opens at the peer to the inner packet and next header,
  that the sequence number and the nonce given to the AEAD never repeat under a key (the counter is
  checked and stops at its maximum), that the two endpoints of a CHILD SA derive matching
  directions, and that opening never panics.
\<close>

section \<open>One direction\<close>

definition KEY_LEN :: nat where [simp]: "KEY_LEN = 32"
definition ESP_SALT_LEN :: nat where [simp]: "ESP_SALT_LEN = 4"
definition ESP_IV_LEN :: nat where [simp]: "ESP_IV_LEN = 8"
definition ESP_ICV_LEN :: nat where [simp]: "ESP_ICV_LEN = 16"
definition ESP_HEADER_LEN :: nat where [simp]: "ESP_HEADER_LEN = 8"

definition NH_IPV4 :: u8 where "NH_IPV4 = 4"
definition NH_IPV6 :: u8 where "NH_IPV6 = 41"

record esp_sa =
  es_spi :: u32
  es_key :: bytes
  es_salt :: bytes
  es_seq :: u32

definition esp_sa_new :: "u32 \<Rightarrow> bytes \<Rightarrow> esp_sa res" where
  "esp_sa_new spi key_material =
     (if length key_material \<noteq> KEY_LEN + ESP_SALT_LEN then
        Err (Crypto ''ESP key material must be 36 bytes (32-byte key + 4-byte salt)'')
      else bindR (slice_to key_material KEY_LEN) (\<lambda>key.
           bindR (slice_from key_material KEY_LEN) (\<lambda>salt.
             Ok \<lparr>es_spi = spi, es_key = key, es_salt = salt, es_seq = 0\<rparr>)))"

definition esp_sa_spi :: "esp_sa \<Rightarrow> u32" where
  "esp_sa_spi sa = es_spi sa"

definition esp_nonce :: "esp_sa \<Rightarrow> bytes \<Rightarrow> bytes" where
  "esp_nonce sa iv = es_salt sa @ iv"

definition checked_add1 :: "u32 \<Rightarrow> u32 option" where
  "checked_add1 n = (if n = 0xFFFFFFFF then None else Some (n + 1))"

definition esp_plaintext :: "bytes \<Rightarrow> u8 \<Rightarrow> bytes" where
  "esp_plaintext inner next_header =
     (let unpadded = length inner + 2;
          pad = (4 - unpadded mod 4) mod 4
      in inner @ map (\<lambda>i. of_nat (i + 1)) [0..<pad] @ [of_nat pad, next_header])"

text \<open>\<open>seal\<close> takes \<open>&mut self\<close>: the result and the SA with its advanced counter.\<close>

definition esp_seal :: "primitives \<Rightarrow> esp_sa \<Rightarrow> bytes \<Rightarrow> u8 \<Rightarrow> bytes res \<times> esp_sa" where
  "esp_seal C sa inner next_header =
     (case checked_add1 (es_seq sa) of
        None \<Rightarrow> (Err (Crypto ''ESP sequence number exhausted; rekey required''), sa)
      | Some seq \<Rightarrow>
          let sa' = sa\<lparr>es_seq := seq\<rparr>;
              iv = to_be64 (ucast seq);
              plaintext = esp_plaintext inner next_header;
              aad = to_be32 (es_spi sa') @ to_be32 seq
          in (if \<not> gcm_key_ok C (es_key sa') then Panic
              else bindR (ok_or (gcm_encrypt C (es_key sa') (esp_nonce sa' iv) aad plaintext)
                     (Crypto ''ESP encryption failed'')) (\<lambda>ct_and_tag.
                   Ok (to_be32 (es_spi sa') @ to_be32 seq @ iv @ ct_and_tag)), sa'))"

definition esp_open :: "primitives \<Rightarrow> esp_sa \<Rightarrow> bytes \<Rightarrow> (bytes \<times> u8) res" where
  "esp_open C sa packet =
     (let min_len = ESP_HEADER_LEN + ESP_IV_LEN + ESP_ICV_LEN in
      if length packet < min_len then Err (Truncated min_len (length packet))
      else bindR (slice packet 0 4) (\<lambda>spi.
        if from_be32 spi \<noteq> es_spi sa then Err (Crypto ''ESP SPI does not match this SA'')
        else bindR (slice packet 8 16) (\<lambda>iv. bindR (slice_from packet 16) (\<lambda>ct_and_tag.
          bindR (slice packet 0 ESP_HEADER_LEN) (\<lambda>aad.
          if \<not> gcm_key_ok C (es_key sa) then Panic
          else bindR (ok_or (gcm_decrypt C (es_key sa) (esp_nonce sa iv) aad ct_and_tag) BadIntegrity) (\<lambda>plaintext.
            if length plaintext < 2 then Err (Crypto ''ESP plaintext shorter than its trailer'')
            else bindR (idx plaintext (length plaintext - 1)) (\<lambda>next_header.
              bindR (idx plaintext (length plaintext - 2)) (\<lambda>pad.
              if length plaintext < 2 + unat pad then Err (Crypto ''ESP pad length exceeds plaintext'')
              else bindR (slice_to plaintext (length plaintext - 2 - unat pad)) (\<lambda>inner.
                Ok (inner, next_header)))))))))) "

section \<open>Both directions\<close>

record child_sa =
  ch_outbound :: esp_sa
  ch_inbound :: esp_sa

text \<open>The closure \<open>esp\<close>: an SA that must exist.\<close>

definition expect_esp :: "u32 \<Rightarrow> bytes \<Rightarrow> esp_sa res" where
  "expect_esp spi material = (case esp_sa_new spi material of Ok sa \<Rightarrow> Ok sa | _ \<Rightarrow> Panic)"

definition child_sa_derive ::
    "primitives \<Rightarrow> bytes \<Rightarrow> bytes \<Rightarrow> bytes \<Rightarrow> role \<Rightarrow> u32 \<Rightarrow> u32 \<Rightarrow> child_sa res" where
  "child_sa_derive C skd ni nr r local_spi peer_spi =
     bindR (derive_child_keys C skd ni nr (KEY_LEN + ESP_SALT_LEN) 0) (\<lambda>keys.
       case r of
         Initiator \<Rightarrow>
           bindR (expect_esp peer_spi (ck_encr_i keys)) (\<lambda>out.
           bindR (expect_esp local_spi (ck_encr_r keys)) (\<lambda>inb.
             Ok \<lparr>ch_outbound = out, ch_inbound = inb\<rparr>))
       | Responder \<Rightarrow>
           bindR (expect_esp peer_spi (ck_encr_r keys)) (\<lambda>out.
           bindR (expect_esp local_spi (ck_encr_i keys)) (\<lambda>inb.
             Ok \<lparr>ch_outbound = out, ch_inbound = inb\<rparr>)))"

text \<open>
  \<open>Tunnel::send\<close> and \<open>Tunnel::recv\<close> around the socket: the datagram handed to the transport, and
  the packet made of a datagram the transport received.
\<close>

record tunnel =
  tu_sa :: child_sa

definition tunnel_new :: "child_sa \<Rightarrow> tunnel" where
  "tunnel_new sa = \<lparr>tu_sa = sa\<rparr>"

definition tunnel_send :: "primitives \<Rightarrow> tunnel \<Rightarrow> bytes \<Rightarrow> u8 \<Rightarrow> bytes res \<times> tunnel" where
  "tunnel_send C t inner next_header =
     (case esp_seal C (ch_outbound (tu_sa t)) inner next_header of
        (r, sa') \<Rightarrow> (r, t\<lparr>tu_sa := (tu_sa t)\<lparr>ch_outbound := sa'\<rparr>\<rparr>))"

definition tunnel_recv :: "primitives \<Rightarrow> tunnel \<Rightarrow> bytes \<Rightarrow> (bytes \<times> u8) res" where
  "tunnel_recv C t packet = esp_open C (ch_inbound (tu_sa t)) packet"

section \<open>Sealing and opening\<close>

definition esp_wf :: "esp_sa \<Rightarrow> bool" where
  "esp_wf sa \<longleftrightarrow> length (es_key sa) = 32 \<and> length (es_salt sa) = 4"

lemma esp_sa_new_wf: "esp_sa_new spi km = Ok sa \<Longrightarrow> esp_wf sa \<and> es_spi sa = spi \<and> es_seq sa = 0"
  by (auto simp: esp_sa_new_def esp_wf_def split: if_splits)

lemma esp_sa_new_ok:
  "length km = 36 \<Longrightarrow> esp_sa_new spi km = Ok \<lparr>es_spi = spi, es_key = take 32 km, es_salt = drop 32 km, es_seq = 0\<rparr>"
  by (simp add: esp_sa_new_def)

lemma pad4: "(u + (4 - u mod 4) mod 4) mod 4 = (0 :: nat)"
proof -
  have "(u mod 4 + (4 - u mod 4) mod 4) mod 4 = 0"
  proof (cases "u mod 4 = 0")
    case False
    then have "(4 - u mod 4) mod 4 = 4 - u mod 4" by simp
    then show ?thesis by simp
  qed simp
  then show ?thesis by (simp only: mod_add_left_eq)
qed

lemma esp_plaintext_trailer:
  "\<exists>pad. esp_plaintext inner nh = inner @ map (\<lambda>i. of_nat (i + 1)) [0..<pad] @ [of_nat pad, nh] \<and> pad < 4 \<and>
     (length inner + pad + 2) mod 4 = 0"
proof (intro exI conjI)
  show "esp_plaintext inner nh = inner @ map (\<lambda>i. of_nat (i + 1)) [0..<(4 - (length inner + 2) mod 4) mod 4] @
      [of_nat ((4 - (length inner + 2) mod 4) mod 4), nh]"
    by (simp only: esp_plaintext_def Let_def)
  show "(4 - (length inner + 2) mod 4) mod 4 < 4" by (rule mod_less_divisor) simp
  show "(length inner + (4 - (length inner + 2) mod 4) mod 4 + 2) mod 4 = 0"
    using pad4[of "length inner + 2"] by (simp only: ac_simps)
qed

lemma esp_seal_ok:
  assumes C: "gcm_correct C" and wf: "esp_wf sa" and seq: "es_seq sa \<noteq> 0xFFFFFFFF"
    and len: "length inner \<le> 2 ^ 36 - 8"
  obtains ct where "esp_seal C sa inner nh =
      (Ok (to_be32 (es_spi sa) @ to_be32 (es_seq sa + 1) @ to_be64 (ucast (es_seq sa + 1)) @ ct),
       sa\<lparr>es_seq := es_seq sa + 1\<rparr>)"
    "16 \<le> length ct"
    "gcm_decrypt C (es_key sa) (es_salt sa @ to_be64 (ucast (es_seq sa + 1)))
      (to_be32 (es_spi sa) @ to_be32 (es_seq sa + 1)) ct = Some (esp_plaintext inner nh)"
proof -
  let ?iv = "to_be64 (ucast (es_seq sa + 1))" and ?aad = "to_be32 (es_spi sa) @ to_be32 (es_seq sa + 1)"
  obtain ct where ct: "gcm_encrypt C (es_key sa) (es_salt sa @ ?iv) ?aad (esp_plaintext inner nh) = Some ct"
    "length ct = length (esp_plaintext inner nh) + 16"
    "gcm_decrypt C (es_key sa) (es_salt sa @ ?iv) ?aad ct = Some (esp_plaintext inner nh)"
    by (rule gcm_correctE[OF C, of "es_key sa" "es_salt sa @ ?iv" ?aad "esp_plaintext inner nh"])
      (use wf len esp_plaintext_trailer[of inner nh] in \<open>auto simp: esp_wf_def\<close>)
  have "gcm_key_ok C (es_key sa)" using gcm_correct_ok[OF C] wf by (simp add: esp_wf_def)
  then show thesis
    using ct seq that by (simp add: esp_seal_def checked_add1_def Let_def esp_nonce_def)
qed

lemma esp_open_sealed:
  assumes "gcm_correct C" "esp_wf sa" "16 \<le> length ct"
    and "gcm_decrypt C (es_key sa) (es_salt sa @ to_be64 iv) (to_be32 (es_spi sa) @ to_be32 seq) ct =
      Some (esp_plaintext inner nh)"
  shows "esp_open C sa (to_be32 (es_spi sa) @ to_be32 seq @ to_be64 iv @ ct) = Ok (inner, nh)"
proof -
  obtain pad where p: "esp_plaintext inner nh = inner @ map (\<lambda>i. of_nat (i + 1)) [0..<pad] @ [of_nat pad, nh]"
    "pad < 4"
    using esp_plaintext_trailer by blast
  have "gcm_key_ok C (es_key sa)" using gcm_correct_ok[OF assms(1)] assms(2) by (simp add: esp_wf_def)
  then show ?thesis
    using assms(3,4) p by (simp add: esp_open_def esp_nonce_def nth_append Let_def)
qed

lemma esp_open_not_Panic:
  assumes "gcm_correct C" "esp_wf sa"
  shows "esp_open C sa packet \<noteq> Panic"
  using gcm_correct_ok[OF assms(1), of "es_key sa"] assms(2)
  by (auto simp: esp_open_def esp_wf_def Let_def res_iff split: if_splits)

section \<open>Sequence numbers\<close>

definition packet_seq :: "bytes \<Rightarrow> u32" where
  "packet_seq p = from_be32 (take 4 (drop 4 p))"

definition packet_iv :: "bytes \<Rightarrow> bytes" where
  "packet_iv p = take 8 (drop 8 p)"

text \<open>
  One call of \<open>seal\<close> by the owner of the SA, with the log of the packets sent so far and what each of
  them carries.
\<close>

type_synonym sealed = "bytes \<times> bytes \<times> u8"

definition esp_step :: "primitives \<Rightarrow> esp_sa \<times> sealed list \<Rightarrow> bytes \<times> u8 \<Rightarrow> esp_sa \<times> sealed list" where
  "esp_step C s e =
     (case esp_seal C (fst s) (fst e) (snd e) of
        (Ok p, sa') \<Rightarrow> (sa', snd s @ [(p, e)])
      | (_, sa') \<Rightarrow> (sa', snd s))"

text \<open>
  \<open>encrypted C sa nonce x\<close>: the body of the packet \<open>x\<close> of the log is what the AEAD gave under the key of
  \<open>sa\<close> and this nonce for the first eight bytes of the packet and the padded inner packet.
\<close>

definition encrypted :: "primitives \<Rightarrow> esp_sa \<Rightarrow> bytes \<Rightarrow> sealed \<Rightarrow> bool" where
  "encrypted C sa nonce x \<longleftrightarrow>
     (case x of (p, inner, nh) \<Rightarrow> gcm_encrypt C (es_key sa) nonce (take 8 p) (esp_plaintext inner nh) = Some (drop 16 p))"

definition nonce_of :: "esp_sa \<Rightarrow> sealed \<Rightarrow> bytes" where
  "nonce_of sa x = esp_nonce sa (packet_iv (fst x))"

lemma nonce_of_seq [simp]: "nonce_of (sa\<lparr>es_seq := n\<rparr>) x = nonce_of sa x" "encrypted C (sa\<lparr>es_seq := n\<rparr>) = encrypted C sa"
  by (simp_all add: nonce_of_def esp_nonce_def encrypted_def fun_eq_iff)

definition esp_inv :: "primitives \<Rightarrow> esp_sa \<times> sealed list \<Rightarrow> bool" where
  "esp_inv C s \<longleftrightarrow> sorted_wrt (<) (map (packet_seq \<circ> fst) (snd s)) \<and>
     (\<forall>x \<in> set (snd s). packet_seq (fst x) \<le> es_seq (fst s) \<and> packet_iv (fst x) = to_be64 (ucast (packet_seq (fst x))) \<and>
        encrypted C (fst s) (nonce_of (fst s) x) x)"

lemma esp_inv_start [simp]: "esp_inv C (sa, [])"
  by (simp add: esp_inv_def)

lemma esp_seal_cases:
  "esp_seal C sa inner nh = (r, sa') \<Longrightarrow>
     (es_seq sa = 0xFFFFFFFF \<and> sa' = sa \<and> (\<exists>e. r = Err e)) \<or>
     (es_seq sa \<noteq> 0xFFFFFFFF \<and> sa' = sa\<lparr>es_seq := es_seq sa + 1\<rparr> \<and>
      (\<forall>p. r = Ok p \<longrightarrow> packet_seq p = es_seq sa' \<and> packet_iv p = to_be64 (ucast (es_seq sa')) \<and>
         encrypted C sa' (nonce_of sa' (p, inner, nh)) (p, inner, nh)))"
  by (auto simp: esp_seal_def checked_add1_def Let_def res_iff packet_seq_def packet_iv_def encrypted_def nonce_of_def
      esp_nonce_def ok_or_def split: if_splits option.splits)

lemma less_Suc_word: "(n :: u32) \<noteq> 0xFFFFFFFF \<Longrightarrow> n < n + 1"
proof -
  assume "n \<noteq> 0xFFFFFFFF"
  moreover have "(0xFFFFFFFF :: u32) = - 1" by simp
  ultimately have "n + 1 \<noteq> 0" by (metis add_eq_0_iff2)
  then have "unat (1 + n) = Suc (unat n)" by (intro unatSuc) (simp add: add.commute)
  then show ?thesis by (simp only: word_less_nat_alt add.commute lessI)
qed

interpretation esp_run: machine "esp_step C" "esp_inv C" for C
proof
  fix s e assume inv: "esp_inv C s"
  obtain r sa' where r: "esp_seal C (fst s) (fst e) (snd e) = (r, sa')" by fastforce
  from esp_seal_cases[OF this] show "esp_inv C (esp_step C s e)"
  proof (elim disjE conjE exE)
    fix e' assume "sa' = fst s" "r = Err e'"
    then show ?thesis using inv r by (simp add: esp_step_def esp_inv_def)
  next
    assume n: "es_seq (fst s) \<noteq> 0xFFFFFFFF" and sa': "sa' = (fst s)\<lparr>es_seq := es_seq (fst s) + 1\<rparr>"
      and p: "\<forall>p. r = Ok p \<longrightarrow> packet_seq p = es_seq sa' \<and> packet_iv p = to_be64 (ucast (es_seq sa')) \<and>
         encrypted C sa' (nonce_of sa' (p, fst e, snd e)) (p, fst e, snd e)"
    have "x \<le> es_seq (fst s) \<Longrightarrow> x < es_seq sa'" for x
      using less_Suc_word[OF n] sa' by (simp add: order_le_less_trans)
    moreover have "nonce_of sa' = nonce_of (fst s)" "encrypted C sa' = encrypted C (fst s)" by (simp_all add: sa' fun_eq_iff)
    ultimately show ?thesis
      using inv r p by (cases r) (auto simp: esp_step_def esp_inv_def sorted_wrt_append intro: order_less_imp_le)
  qed
qed

lemma esp_inv_distinct:
  assumes "esp_inv C s"
  shows "distinct (map (nonce_of (fst s)) (snd s)) \<and> sorted_wrt (<) (map (packet_seq \<circ> fst) (snd s)) \<and>
    (\<forall>x \<in> set (snd s). encrypted C (fst s) (nonce_of (fst s) x) x)"
proof -
  have "map (nonce_of (fst s)) (snd s) = map (\<lambda>n. esp_nonce (fst s) (to_be64 (ucast n))) (map (packet_seq \<circ> fst) (snd s))"
    using assms by (simp add: esp_inv_def nonce_of_def)
  moreover have "inj (\<lambda>n :: u32. esp_nonce (fst s) (to_be64 (ucast n)))"
  proof (rule injI)
    fix x y :: u32 assume "esp_nonce (fst s) (to_be64 (ucast x)) = esp_nonce (fst s) (to_be64 (ucast y))"
    then have "to_be64 (ucast x) = to_be64 (ucast y)" by (simp add: esp_nonce_def)
    then have "(ucast x :: u64) = ucast y" by (metis from_to_be(2))
    then have "ucast (ucast x :: u64) = (ucast (ucast y :: u64) :: u32)" by (rule arg_cong)
    then show "x = y" by (simp add: unsigned_ucast_eq take_bit_word_eq_self)
  qed
  moreover have s: "sorted_wrt (<) (map (packet_seq \<circ> fst) (snd s))" using assms by (simp add: esp_inv_def)
  moreover have "distinct (map (packet_seq \<circ> fst) (snd s))" using s strict_sorted_iff by blast
  ultimately have "distinct (map (nonce_of (fst s)) (snd s))"
    by (simp only: distinct_map[of _ "map (packet_seq \<circ> fst) (snd s)"] inj_on_subset[OF _ subset_UNIV] simp_thms)
  then show ?thesis using s assms by (simp add: esp_inv_def)
qed

lemma foldl_esp_key:
  "es_key (fst (foldl (esp_step C) s calls)) = es_key (fst s) \<and> es_salt (fst (foldl (esp_step C) s calls)) = es_salt (fst s)"
proof (induction calls arbitrary: s)
  case (Cons e calls)
  obtain r sa' where r: "esp_seal C (fst s) (fst e) (snd e) = (r, sa')" by fastforce
  then have "es_key sa' = es_key (fst s) \<and> es_salt sa' = es_salt (fst s)" using esp_seal_cases[OF r] by auto
  then show ?case using Cons[of "esp_step C s e"] r by (cases r) (simp_all add: esp_step_def)
qed simp

section \<open>The two endpoints\<close>

lemma child_sa_derive_ok:
  "\<exists>k. derive_child_keys C skd ni nr 36 0 = Ok k \<and>
     child_sa_derive C skd ni nr r l p =
       (let i = (\<lambda>spi. \<lparr>es_spi = spi, es_key = take 32 (ck_encr_i k), es_salt = drop 32 (ck_encr_i k), es_seq = 0\<rparr>);
            j = (\<lambda>spi. \<lparr>es_spi = spi, es_key = take 32 (ck_encr_r k), es_salt = drop 32 (ck_encr_r k), es_seq = 0\<rparr>)
        in case r of Initiator \<Rightarrow> Ok \<lparr>ch_outbound = i p, ch_inbound = j l\<rparr>
           | Responder \<Rightarrow> Ok \<lparr>ch_outbound = j p, ch_inbound = i l\<rparr>) \<and>
     length (ck_encr_i k) = 36 \<and> length (ck_encr_r k) = 36"
proof -
  obtain k where "derive_child_keys C skd ni nr 36 0 = Ok k" "length (ck_encr_i k) = 36" "length (ck_encr_r k) = 36"
    using derive_child_keys_ok[of C skd ni nr 36 0] by blast
  then show ?thesis
    by (simp add: child_sa_derive_def expect_esp_def esp_sa_new_ok Let_def split: role.split)
qed

lemma child_sa_match:
  assumes "child_sa_derive C skd ni nr r l p = Ok a" "child_sa_derive C skd ni nr (peer r) p l = Ok b"
  shows "ch_outbound a = ch_inbound b \<and> ch_inbound a = ch_outbound b \<and> esp_wf (ch_outbound a) \<and>
    esp_wf (ch_inbound a) \<and> es_seq (ch_outbound a) = 0"
  using child_sa_derive_ok[of C skd ni nr r l p] child_sa_derive_ok[of C skd ni nr "peer r" p l] assms
  by (cases r) (auto simp: Let_def esp_wf_def)

text \<open>Two CHILD SAs with mirrored directions deliver, whatever the sender's counter below its maximum.\<close>

lemma mirrored_delivery:
  assumes "gcm_correct C" "length inner \<le> 2 ^ 36 - 8"
    and m: "ch_inbound b = ch_outbound a" "esp_wf (ch_outbound a)" and n: "n \<noteq> 0xFFFFFFFF"
  shows "\<exists>pkt t'. tunnel_send C (tunnel_new (a\<lparr>ch_outbound := (ch_outbound a)\<lparr>es_seq := n\<rparr>\<rparr>)) inner nh = (Ok pkt, t') \<and>
    tunnel_recv C (tunnel_new b) pkt = Ok (inner, nh)"
proof -
  let ?o = "(ch_outbound a)\<lparr>es_seq := n\<rparr>"
  have "esp_wf ?o" "es_seq ?o \<noteq> 0xFFFFFFFF" using m n by (simp_all add: esp_wf_def)
  then obtain ct where ct: "esp_seal C ?o inner nh =
      (Ok (to_be32 (es_spi ?o) @ to_be32 (es_seq ?o + 1) @ to_be64 (ucast (es_seq ?o + 1)) @ ct), ?o\<lparr>es_seq := es_seq ?o + 1\<rparr>)"
    "16 \<le> length ct" "gcm_decrypt C (es_key ?o) (es_salt ?o @ to_be64 (ucast (es_seq ?o + 1)))
      (to_be32 (es_spi ?o) @ to_be32 (es_seq ?o + 1)) ct = Some (esp_plaintext inner nh)"
    by (rule esp_seal_ok[OF assms(1) _ _ assms(2), of ?o nh])
  then show ?thesis
    using esp_open_sealed[OF assms(1) m(2) ct(2), of "ucast (n + 1)" "n + 1" inner nh]
    by (simp add: tunnel_send_def tunnel_recv_def tunnel_new_def m(1))
qed

section \<open>Properties\<close>

text \<open>
  The ESP data plane works end to end: the two endpoints of a CHILD SA derived from the same key,
  nonces and SPIs have mirrored directions, and while the counter is not exhausted a packet that
  one tunnel sends is received by the other as the same inner packet and next header.
\<close>
theorem esp_tunnel_delivery:
  assumes "gcm_correct C" "length inner \<le> 2 ^ 36 - 8"
    and "child_sa_derive C skd ni nr r l p = Ok a" "child_sa_derive C skd ni nr (peer r) p l = Ok b"
    and "n \<noteq> 0xFFFFFFFF"
  shows "\<exists>pkt t'. tunnel_send C (tunnel_new (a\<lparr>ch_outbound := (ch_outbound a)\<lparr>es_seq := n\<rparr>\<rparr>)) inner nh = (Ok pkt, t') \<and>
    tunnel_recv C (tunnel_new b) pkt = Ok (inner, nh)"
  using mirrored_delivery[OF assms(1,2), of b a n nh] child_sa_match[OF assms(3,4)] assms(5) by metis

lemma toy_child_sa: "\<exists>a. child_sa_derive C skd ni nr r l p = Ok a"
  using child_sa_derive_ok[of C skd ni nr r l p] by (cases r) (auto simp: Let_def)

theorem esp_tunnel_delivery_witness:
  "\<exists>a b pkt t'. child_sa_derive toy_primitives [1] [2] [3] Initiator 5 6 = Ok a \<and>
    child_sa_derive toy_primitives [1] [2] [3] Responder 6 5 = Ok b \<and>
    tunnel_send toy_primitives (tunnel_new (a\<lparr>ch_outbound := (ch_outbound a)\<lparr>es_seq := 0\<rparr>\<rparr>)) [69, 0] 4 = (Ok pkt, t') \<and>
    tunnel_recv toy_primitives (tunnel_new b) pkt = Ok ([69, 0], 4)"
proof -
  obtain a where a: "child_sa_derive toy_primitives [1] [2] [3] Initiator 5 6 = Ok a" using toy_child_sa by blast
  obtain b where b: "child_sa_derive toy_primitives [1] [2] [3] (peer Initiator) 6 5 = Ok b" using toy_child_sa by blast
  from esp_tunnel_delivery[OF toy_gcm_correct _ a b, of "[69, 0]" 0 4] a b show ?thesis by simp
qed

text \<open>
  C5. No nonce reuse: however often an SA seals, from any state of its counter and with failed calls
  in between, the sequence numbers of the packets it emits strictly increase, and the AEAD nonces it
  used are pairwise distinct. That these are the nonces used is part of the statement: the body of each
  packet is what the AEAD gives under the SA's key and the packet's nonce for the header and the padded
  inner packet. When the counter has reached its maximum sealing fails and emits nothing.
\<close>
theorem esp_nonce_unique:
  assumes "snd (foldl (esp_step C) (sa, []) calls) = sent"
  shows "distinct (map (\<lambda>x. esp_nonce sa (packet_iv (fst x))) sent) \<and>
   (\<forall>(p, inner, nh) \<in> set sent. gcm_encrypt C (es_key sa) (esp_nonce sa (packet_iv p)) (take 8 p) (esp_plaintext inner nh) =
      Some (drop 16 p)) \<and>
   sorted_wrt (<) (map (\<lambda>x. packet_seq (fst x)) sent) \<and>
   esp_seal C (sa\<lparr>es_seq := 0xFFFFFFFF\<rparr>) inner nh =
     (Err (Crypto ''ESP sequence number exhausted; rekey required''), sa\<lparr>es_seq := 0xFFFFFFFF\<rparr>)"
proof -
  let ?s = "foldl (esp_step C) (sa, []) calls"
  have n: "nonce_of (fst ?s) = (\<lambda>x. esp_nonce sa (packet_iv (fst x)))" "encrypted C (fst ?s) = encrypted C sa"
    using foldl_esp_key[of C "(sa, [])" calls] by (simp_all add: nonce_of_def esp_nonce_def encrypted_def fun_eq_iff)
  from esp_inv_distinct[OF esp_run.run_inv[of C "(sa, [])" calls]]
  show ?thesis
    by (auto simp: assms n encrypted_def esp_seal_def checked_add1_def split_beta comp_def)
qed

theorem esp_nonce_unique_witness:
  "\<exists>p q r. foldl (esp_step toy_primitives) (\<lparr>es_spi = 1, es_key = replicate 32 0, es_salt = [1, 2, 3, 4], es_seq = 7\<rparr>, [])
       [([69, 0], 4), ([], 4), ([69, 0], 4)] =
     (\<lparr>es_spi = 1, es_key = replicate 32 0, es_salt = [1, 2, 3, 4], es_seq = 10\<rparr>, [(p, [69, 0], 4), (q, [], 4), (r, [69, 0], 4)]) \<and>
     map packet_seq [p, q, r] = [8, 9, 10] \<and>
     distinct (map (\<lambda>p. [1, 2, 3, 4] @ packet_iv p) [p, q, r])"
proof -
  let ?sa = "\<lparr>es_spi = 1, es_key = replicate 32 0, es_salt = [1, 2, 3, 4], es_seq = 7\<rparr> :: esp_sa"
  let ?calls = "[([69, 0], 4), ([], 4), ([69, 0], 4)] :: (bytes \<times> u8) list"
  have wf: "esp_wf (?sa\<lparr>es_seq := n\<rparr>)" for n by (simp add: esp_wf_def)
  have seal: "\<exists>p. esp_seal toy_primitives (?sa\<lparr>es_seq := n\<rparr>) inner 4 = (Ok p, ?sa\<lparr>es_seq := n + 1\<rparr>) \<and> packet_seq p = n + 1"
    if "n \<noteq> 0xFFFFFFFF" "length inner \<le> 2" for n inner
    by (rule esp_seal_ok[OF toy_gcm_correct wf, of n inner 4]) (use that in \<open>auto simp: packet_seq_def\<close>)
  obtain p q r where "esp_seal toy_primitives (?sa\<lparr>es_seq := 7\<rparr>) [69, 0] 4 = (Ok p, ?sa\<lparr>es_seq := 8\<rparr>)" "packet_seq p = 8"
    "esp_seal toy_primitives (?sa\<lparr>es_seq := 8\<rparr>) [] 4 = (Ok q, ?sa\<lparr>es_seq := 9\<rparr>)" "packet_seq q = 9"
    "esp_seal toy_primitives (?sa\<lparr>es_seq := 9\<rparr>) [69, 0] 4 = (Ok r, ?sa\<lparr>es_seq := 10\<rparr>)" "packet_seq r = 10"
    using seal[of 7 "[69, 0]"] seal[of 8 "[]"] seal[of 9 "[69, 0]"] by auto
  then have run: "foldl (esp_step toy_primitives) (?sa, []) ?calls =
      (?sa\<lparr>es_seq := 10\<rparr>, [(p, [69, 0], 4), (q, [], 4), (r, [69, 0], 4)])" and "map packet_seq [p, q, r] = [8, 9, 10]"
    by (simp_all add: esp_step_def)
  moreover have "distinct (map (\<lambda>p. [1, 2, 3, 4] @ packet_iv p) [p, q, r])"
    using esp_nonce_unique[of toy_primitives ?sa ?calls, OF arg_cong[OF run, of snd, unfolded snd_conv]]
    by (simp add: esp_nonce_def)
  ultimately show ?thesis by (intro exI[of _ p] exI[of _ q] exI[of _ r]) simp
qed

text \<open>Opening an ESP packet never panics, whatever the datagram, and refuses another SPI.\<close>
theorem esp_open_safe:
  assumes "gcm_correct C" "esp_wf sa"
  shows "esp_open C sa packet \<noteq> Panic \<and>
    (esp_open C sa packet = Ok r \<longrightarrow> from_be32 (take 4 packet) = es_spi sa)"
  using esp_open_not_Panic[OF assms]
  by (auto simp: esp_open_def Let_def res_iff split: if_splits)

theorem esp_open_safe_witness:
  "esp_open toy_primitives \<lparr>es_spi = 1, es_key = replicate 32 0, es_salt = replicate 4 0, es_seq = 0\<rparr> [1, 2] \<noteq> Panic"
  using esp_open_safe[OF toy_gcm_correct, of "\<lparr>es_spi = 1, es_key = replicate 32 0, es_salt = replicate 4 0, es_seq = 0\<rparr>"]
  by (simp add: esp_wf_def)

end
