(* ===== verification/Drivers.thy ===== *)
theory Drivers
  imports Transport Ike_Auth Esp
begin

text \<open>
  The IKEv2 drivers over UDP: \<open>src/src/ikev2/server.rs\<close> and \<open>src/src/ikev2/client.rs\<close>.

  \<open>Server::handle_one\<close> is first a function of what \<open>recv_from\<close> gave, of whether \<open>send_to\<close> accepts a
  datagram, and of the state, to the outcome, the datagram sent and the new state. In the client, where a
  \<open>send_to\<close> is always followed by a \<open>recv_from\<close>, the pair is a network function from the request
  to the answer. The hash maps are maps.

  The lemmas show the invariant of the server's tables, that the server refines an abstract
  responder that only knows half-open and established SPI pairs, that a client connected to the
  server over a working network ends with the same keys on both sides, and what a replayed
  \<open>IKE_AUTH\<close> does to the CHILD SA.
\<close>

section \<open>The server\<close>

definition NONCE_LEN :: nat where [simp]: "NONCE_LEN = 32"

datatype server_event = SaInit u64 u64 | ServerEstablished u64 u64 identification | Ignored

type_synonym spi_pair = "u64 \<times> u64"

record 'e server =
  sv_entropy :: 'e
  sv_auth :: auth_config
  sv_sessions :: "spi_pair \<rightharpoonup> completed_sa_init"
  sv_children :: "spi_pair \<rightharpoonup> child_sa"

definition server_bind :: "'e \<Rightarrow> auth_config \<Rightarrow> 'e server" where
  "server_bind e auth = \<lparr>sv_entropy = e, sv_auth = auth, sv_sessions = Map.empty, sv_children = Map.empty\<rparr>"

definition session :: "'e server \<Rightarrow> u64 \<Rightarrow> u64 \<Rightarrow> completed_sa_init option" where
  "session s spi_i spi_r = sv_sessions s (spi_i, spi_r)"

definition child :: "'e server \<Rightarrow> u64 \<Rightarrow> u64 \<Rightarrow> child_sa option" where
  "child s spi_i spi_r = sv_children s (spi_i, spi_r)"

definition take_child :: "'e server \<Rightarrow> u64 \<Rightarrow> u64 \<Rightarrow> child_sa option \<times> 'e server" where
  "take_child s spi_i spi_r =
     (sv_children s (spi_i, spi_r), s\<lparr>sv_children := (sv_children s)((spi_i, spi_r) := None)\<rparr>)"

type_synonym 'e handled = "server_event driven \<times> bytes option \<times> 'e server"

definition handle_sa_init :: "'e filler \<Rightarrow> primitives \<Rightarrow> 'e server \<Rightarrow> bytes \<Rightarrow> (bytes \<Rightarrow> bool) \<Rightarrow> 'e handled" where
  "handle_sa_init fill C s data sends =
     (let (loc, e') = local_secret_generate fill (sv_entropy s) NONCE_LEN;
          s1 = s\<lparr>sv_entropy := e'\<rparr>
      in case responder_respond C data loc of
           Err x \<Rightarrow> (IkeFailed x, None, s1)
         | Panic \<Rightarrow> (Panicked, None, s1)
         | Ok (response, sa) \<Rightarrow>
             if \<not> sends response then (IoFailed, Some response, s1)
             else (Done (SaInit (ci_spi_i sa) (ci_spi_r sa)), Some response,
                   s1\<lparr>sv_sessions := (sv_sessions s1)((ci_spi_i sa, ci_spi_r sa) \<mapsto> sa)\<rparr>))"

definition handle_ike_auth :: "'e filler \<Rightarrow> primitives \<Rightarrow> pki \<Rightarrow> 'e server \<Rightarrow> ike_header \<Rightarrow> bytes \<Rightarrow> (bytes \<Rightarrow> bool) \<Rightarrow> 'e handled" where
  "handle_ike_auth fill C P s header data sends =
     (let key = (h_initiator_spi header, h_responder_spi header) in
      case sv_sessions s key of
        None \<Rightarrow> (Done Ignored, None, s)
      | Some sa \<Rightarrow>
          (let (r, e1) = next_u64 fill (sv_entropy s);
               child_spi = ucast r;
               (iv, e2) = fill e1 8;
               s1 = s\<lparr>sv_entropy := e2\<rparr>
           in case responder_process_auth C P sa data (sv_auth s1) child_spi iv None of
                Err x \<Rightarrow> (IkeFailed x, None, s1)
              | Panic \<Rightarrow> (Panicked, None, s1)
              | Ok (response, peer_id, peer_child_spi) \<Rightarrow>
                  if \<not> sends response then (IoFailed, Some response, s1)
                  else (case child_sa_derive C (sk_d (ci_keys sa)) (ci_ni sa) (ci_nr sa) Responder child_spi peer_child_spi of
                          Err x \<Rightarrow> (IkeFailed x, Some response, s1)
                        | Panic \<Rightarrow> (Panicked, Some response, s1)
                        | Ok c \<Rightarrow> (Done (ServerEstablished (fst key) (snd key) peer_id), Some response,
                                  s1\<lparr>sv_children := (sv_children s1)(key \<mapsto> c)\<rparr>))))"

definition handle_one :: "'e filler \<Rightarrow> primitives \<Rightarrow> pki \<Rightarrow> 'e server \<Rightarrow> bytes io \<Rightarrow> (bytes \<Rightarrow> bool) \<Rightarrow> 'e handled" where
  "handle_one fill C P s received sends =
     (case received of
        IoErr \<Rightarrow> (IoFailed, None, s)
      | IoBlocked \<Rightarrow> (Blocked, None, s)
      | IoOk data \<Rightarrow>
          (case ike_header_parse data of
             Err x \<Rightarrow> (IkeFailed x, None, s)
           | Panic \<Rightarrow> (Panicked, None, s)
           | Ok header \<Rightarrow>
               (case h_exchange_type header of
                  IkeSaInit \<Rightarrow> handle_sa_init fill C s data sends
                | IkeAuth \<Rightarrow> handle_ike_auth fill C P s header data sends
                | _ \<Rightarrow> (Done Ignored, None, s))))"

section \<open>The client\<close>

text \<open>Sending a request and waiting for the answer; \<open>None\<close> is an I/O error of either.\<close>

type_synonym 'n network = "'n \<Rightarrow> bytes \<Rightarrow> bytes io \<times> 'n"

definition client_sa_init ::
    "'e filler \<Rightarrow> primitives \<Rightarrow> 'n network \<Rightarrow> 'e \<Rightarrow> 'n \<Rightarrow> completed_sa_init driven \<times> 'e \<times> 'n" where
  "client_sa_init fill C net e n =
     (let (loc, e') = local_secret_generate fill e NONCE_LEN in
      case initiator_request C loc default_offer of
        Err x \<Rightarrow> (IkeFailed x, e', n)
      | Panic \<Rightarrow> (Panicked, e', n)
      | Ok request \<Rightarrow>
          (case net n request of
             (IoErr, n') \<Rightarrow> (IoFailed, e', n')
           | (IoBlocked, n') \<Rightarrow> (Blocked, e', n')
           | (IoOk response, n') \<Rightarrow> (ike (initiator_complete C loc request response) Done, e', n')))"

definition client_authenticate ::
    "'e filler \<Rightarrow> primitives \<Rightarrow> pki \<Rightarrow> 'n network \<Rightarrow> completed_sa_init \<Rightarrow> auth_config \<Rightarrow> u32 \<Rightarrow> 'e \<Rightarrow> 'n \<Rightarrow>
     (identification \<times> u32 \<times> ipv4 option) driven \<times> 'e \<times> 'n" where
  "client_authenticate fill C P net sa cfg child_spi e n =
     (let (iv, e') = fill e 8 in
      case initiator_auth_request C P sa cfg child_spi iv of
        Err x \<Rightarrow> (IkeFailed x, e', n)
      | Panic \<Rightarrow> (Panicked, e', n)
      | Ok request \<Rightarrow>
          (case net n request of
             (IoErr, n') \<Rightarrow> (IoFailed, e', n')
           | (IoBlocked, n') \<Rightarrow> (Blocked, e', n')
           | (IoOk response, n') \<Rightarrow> (ike (initiator_verify_auth C P sa response cfg) Done, e', n')))"

definition client_connect ::
    "'e filler \<Rightarrow> primitives \<Rightarrow> pki \<Rightarrow> 'n network \<Rightarrow> auth_config \<Rightarrow> u32 \<Rightarrow> 'e \<Rightarrow> 'n \<Rightarrow>
     (completed_sa_init \<times> identification \<times> child_sa \<times> ipv4 option) driven \<times> 'e \<times> 'n" where
  "client_connect fill C P net cfg child_spi e n =
     (case client_sa_init fill C net e n of
        (IkeFailed x, e1, n1) \<Rightarrow> (IkeFailed x, e1, n1)
      | (IoFailed, e1, n1) \<Rightarrow> (IoFailed, e1, n1)
      | (Blocked, e1, n1) \<Rightarrow> (Blocked, e1, n1)
      | (Panicked, e1, n1) \<Rightarrow> (Panicked, e1, n1)
      | (Done sa, e1, n1) \<Rightarrow>
          (case client_authenticate fill C P net sa cfg child_spi e1 n1 of
             (IkeFailed x, e2, n2) \<Rightarrow> (IkeFailed x, e2, n2)
           | (IoFailed, e2, n2) \<Rightarrow> (IoFailed, e2, n2)
           | (Blocked, e2, n2) \<Rightarrow> (Blocked, e2, n2)
           | (Panicked, e2, n2) \<Rightarrow> (Panicked, e2, n2)
           | (Done (peer_id, peer_child_spi, assigned_ip), e2, n2) \<Rightarrow>
               (ike (child_sa_derive C (sk_d (ci_keys sa)) (ci_ni sa) (ci_nr sa) Initiator child_spi peer_child_spi)
                  (\<lambda>c. Done (sa, peer_id, c, assigned_ip)), e2, n2)))"

section \<open>The abstract responder\<close>

text \<open>
  What the server promises, without cryptography: which SPI pairs are half-open and which are
  established. Only a half-open pair can become established, and nothing is forgotten but by the
  owner taking a CHILD SA.
\<close>

record abstract_server =
  as_open :: "spi_pair set"
  as_established :: "spi_pair set"

inductive abstract_step :: "abstract_server \<Rightarrow> server_event driven \<Rightarrow> abstract_server \<Rightarrow> bool" where
  A_init: "abstract_step a (Done (SaInit i r)) (a\<lparr>as_open := insert (i, r) (as_open a)\<rparr>)"
| A_auth: "(i, r) \<in> as_open a \<Longrightarrow>
    abstract_step a (Done (ServerEstablished i r ident)) (a\<lparr>as_established := insert (i, r) (as_established a)\<rparr>)"
| A_ignore: "abstract_step a (Done Ignored) a"
| A_ike: "abstract_step a (IkeFailed e) a"
| A_io: "abstract_step a IoFailed a"
| A_blocked: "abstract_step a Blocked a"

inductive_simps abstract_init_iff: "abstract_step a (Done (SaInit i r)) b"
inductive_simps abstract_auth_iff: "abstract_step a (Done (ServerEstablished i r ident)) b"

definition abs_server :: "'e server \<Rightarrow> abstract_server" where
  "abs_server s = \<lparr>as_open = dom (sv_sessions s), as_established = dom (sv_children s)\<rparr>"

definition server_inv :: "'e server \<Rightarrow> bool" where
  "server_inv s \<longleftrightarrow> dom (sv_children s) \<subseteq> dom (sv_sessions s) \<and>
     (\<forall>i r sa. sv_sessions s (i, r) = Some sa \<longrightarrow> ci_spi_i sa = i \<and> ci_spi_r sa = r \<and> ci_role sa = Responder)"

section \<open>The tables of the server\<close>

lemma responder_respond_Ok:
  "responder_respond C data loc = Ok (response, sa) \<longleftrightarrow>
     responder_respond_inner C data loc None None = Ok (Established response sa)"
  by (cases "responder_respond_inner C data loc None None")
    (auto simp: responder_respond_def split: sa_init_result.splits)

lemma responder_respond_fields:
  assumes "responder_respond C data loc = Ok (response, sa)"
  shows "ci_role sa = Responder \<and> ci_spi_r sa = ls_spi loc"
proof -
  have r: "responder_respond_inner C data loc None None = Ok (Established response sa)"
    using assms by (simp only: responder_respond_Ok)
  then obtain h body ps where h: "ike_header_parse data = Ok h" "slice_from data HEADER_LEN = Ok body"
    "parse_sa_init h body = Ok ps"
    by (auto simp: responder_respond_inner_def bindR_Ok_iff)
  show ?thesis by (rule responder_establishedE[OF r h]) simp
qed

lemma responder_respond_not_Panic:
  assumes "modpow_correct C" "length (ls_dh_private l) = 32"
  shows "responder_respond C data l \<noteq> Panic"
  using responder_not_Panic[OF assms, of data None None]
  by (auto simp: responder_respond_def res_iff split: sa_init_result.splits)

lemma child_sa_derive_Ok: "\<exists>c. child_sa_derive C skd ni nr r l p = Ok c"
  by (rule toy_child_sa)

lemma handle_sa_init_cases:
  assumes "handle_sa_init fill C s data ok = (ev, sent, s')"
  shows "(\<exists>e'. s' = s\<lparr>sv_entropy := e'\<rparr> \<and> ((\<exists>x. ev = IkeFailed x) \<or> ev = IoFailed \<or> ev = Panicked)) \<or>
    (\<exists>e' sa. s' = s\<lparr>sv_entropy := e', sv_sessions := (sv_sessions s)((ci_spi_i sa, ci_spi_r sa) \<mapsto> sa)\<rparr> \<and>
       ci_role sa = Responder \<and> ev = Done (SaInit (ci_spi_i sa) (ci_spi_r sa)) \<and> sent \<noteq> None)"
proof -
  obtain l e' where l: "local_secret_generate fill (sv_entropy s) 32 = (l, e')" by fastforce
  show ?thesis
  proof (cases "responder_respond C data l")
    case (Ok x)
    obtain resp sa where x: "x = (resp, sa)" by (cases x)
    have role: "ci_role sa = Responder" using responder_respond_fields[of C data l resp sa] Ok x by blast
    show ?thesis
    proof (cases "ok resp")
      case True
      then have "ev = Done (SaInit (ci_spi_i sa) (ci_spi_r sa))" "sent \<noteq> None"
        "s' = s\<lparr>sv_entropy := e', sv_sessions := (sv_sessions s)((ci_spi_i sa, ci_spi_r sa) \<mapsto> sa)\<rparr>"
        using assms Ok x by (auto simp: handle_sa_init_def l)
      with role show ?thesis by blast
    qed (use assms Ok x in \<open>auto simp: handle_sa_init_def l\<close>)
  qed (use assms in \<open>auto simp: handle_sa_init_def l\<close>)
qed

lemma handle_ike_auth_cases:
  assumes "handle_ike_auth fill C P s h data ok = (ev, sent, s')"
  shows "(\<exists>e'. s' = s\<lparr>sv_entropy := e'\<rparr> \<and> ((\<exists>x. ev = IkeFailed x) \<or> ev = IoFailed \<or> ev = Done Ignored)) \<or>
    (\<exists>e' sa c ident spi iv resp pspi. s' = s\<lparr>sv_entropy := e', sv_children :=
         (sv_children s)((h_initiator_spi h, h_responder_spi h) \<mapsto> c)\<rparr> \<and>
       sv_sessions s (h_initiator_spi h, h_responder_spi h) = Some sa \<and>
       responder_process_auth C P sa data (sv_auth s) spi iv None = Ok (resp, ident, pspi) \<and>
       child_sa_derive C (sk_d (ci_keys sa)) (ci_ni sa) (ci_nr sa) Responder spi pspi = Ok c \<and>
       ev = Done (ServerEstablished (h_initiator_spi h) (h_responder_spi h) ident) \<and> sent = Some resp)"
proof (cases "sv_sessions s (h_initiator_spi h, h_responder_spi h)")
  case None
  then show ?thesis using assms by (auto simp: handle_ike_auth_def intro!: exI[of _ "sv_entropy s"])
next
  case (Some sa)
  obtain r e1 where r: "next_u64 fill (sv_entropy s) = (r, e1)" by fastforce
  obtain iv e2 where iv: "fill e1 8 = (iv, e2)" by fastforce
  have np: "responder_process_auth C P sa data (sv_auth s) (ucast r) iv None \<noteq> Panic" by (rule ike_auth_not_Panic)
  show ?thesis
  proof (cases "responder_process_auth C P sa data (sv_auth s) (ucast r) iv None")
    case (Ok x)
    obtain resp ident pspi where x: "x = (resp, ident, pspi)" by (cases x)
    obtain c where "child_sa_derive C (sk_d (ci_keys sa)) (ci_ni sa) (ci_nr sa) Responder (ucast r) pspi = Ok c"
      using child_sa_derive_Ok by blast
    then show ?thesis
      using assms Some r iv Ok x by (cases "ok resp") (auto simp: handle_ike_auth_def)
  qed (use assms Some r iv np in \<open>auto simp: handle_ike_auth_def\<close>)
qed

text \<open>One call of \<open>handle_one\<close>: either nothing but the randomness changes, or one table grows.\<close>

lemma handle_one_cases:
  assumes "handle_one fill C P s rcv ok = (ev, sent, s')"
  shows "(\<exists>e'. s' = s\<lparr>sv_entropy := e'\<rparr> \<and>
       ((\<exists>x. ev = IkeFailed x) \<or> ev = IoFailed \<or> ev = Blocked \<or> ev = Panicked \<or> ev = Done Ignored)) \<or>
    (\<exists>e' sa. s' = s\<lparr>sv_entropy := e', sv_sessions := (sv_sessions s)((ci_spi_i sa, ci_spi_r sa) \<mapsto> sa)\<rparr> \<and>
       ci_role sa = Responder \<and> ev = Done (SaInit (ci_spi_i sa) (ci_spi_r sa))) \<or>
    (\<exists>e' i r c ident. s' = s\<lparr>sv_entropy := e', sv_children := (sv_children s)((i, r) \<mapsto> c)\<rparr> \<and>
       (i, r) \<in> dom (sv_sessions s) \<and> ev = Done (ServerEstablished i r ident))"
proof -
  have unchanged: ?thesis if "s' = s" "(\<exists>x. ev = IkeFailed x) \<or> ev = IoFailed \<or> ev = Blocked \<or> ev = Panicked \<or> ev = Done Ignored"
    using that by (intro disjI1 exI[of _ "sv_entropy s"]) simp
  show ?thesis
  proof (cases rcv)
    case (IoOk data)
    show ?thesis
    proof (cases "ike_header_parse data")
      case (Ok h)
      consider "h_exchange_type h = IkeSaInit" | "h_exchange_type h = IkeAuth"
        | "h_exchange_type h \<noteq> IkeSaInit" "h_exchange_type h \<noteq> IkeAuth" by blast
      then show ?thesis
      proof cases
        case 1
        then have "handle_sa_init fill C s data ok = (ev, sent, s')" using assms IoOk Ok by (simp add: handle_one_def)
        from handle_sa_init_cases[OF this] show ?thesis by blast
      next
        case 2
        then have "handle_ike_auth fill C P s h data ok = (ev, sent, s')" using assms IoOk Ok by (simp add: handle_one_def)
        from handle_ike_auth_cases[OF this] show ?thesis by blast
      next
        case 3
        then show ?thesis using assms IoOk Ok
          by (intro unchanged) (auto simp: handle_one_def split: exchange_type.splits)
      qed
    next
      case (Err e)
      then show ?thesis using assms IoOk by (intro unchanged) (auto simp: handle_one_def)
    qed simp
  qed (rule unchanged; use assms in \<open>simp add: handle_one_def\<close>)+
qed

lemma handle_one_not_Panicked:
  assumes "modpow_correct C" "entropy fill" "handle_one fill C P s rcv ok = (ev, sent, s')"
  shows "ev \<noteq> Panicked"
proof
  assume ev: "ev = Panicked"
  obtain l e' where l: "local_secret_generate fill (sv_entropy s) 32 = (l, e')" by fastforce
  then have "length (ls_dh_private l) = 32" using entropy.generate_wf[OF assms(2)] by blast
  then have np: "responder_respond C data l \<noteq> Panic" for data by (rule responder_respond_not_Panic[OF assms(1)])
  have "handle_sa_init fill C s data ok \<noteq> (Panicked, sent, s')" for data
    using np[of data] by (cases "responder_respond C data l") (auto simp: handle_sa_init_def l Let_def split: if_splits)
  moreover have "handle_ike_auth fill C P s h data ok \<noteq> (Panicked, sent, s')" for h data
    using handle_ike_auth_cases[of fill C P s h data ok Panicked sent s'] by blast
  ultimately show False
    using assms(3) ev by (auto simp: handle_one_def split: io.splits res.splits exchange_type.splits)
qed

section \<open>Runs of the server\<close>

text \<open>What happens to a server: a datagram or an I/O error arrives, or the owner takes a CHILD SA.\<close>

datatype server_input = Arrives "bytes io" "bytes \<Rightarrow> bool" | Takes u64 u64

fun server_step :: "'e filler \<Rightarrow> primitives \<Rightarrow> pki \<Rightarrow> 'e server \<Rightarrow> server_input \<Rightarrow> 'e server" where
  "server_step fill C P s (Arrives rcv ok) = snd (snd (handle_one fill C P s rcv ok))"
| "server_step fill C P s (Takes i r) = snd (take_child s i r)"

lemma handle_one_inv:
  assumes "handle_one fill C P s rcv ok = (ev, sent, s')" "server_inv s"
  shows "server_inv s'"
  using handle_one_cases[OF assms(1)] assms(2)
  by (elim disjE exE conjE) (auto simp: server_inv_def split: if_splits)

interpretation tables: machine "server_step fill C P" server_inv for fill C P
proof
  fix s :: "'a server" and x
  assume inv: "server_inv s"
  show "server_inv (server_step fill C P s x)"
  proof (cases x)
    case (Arrives rcv ok)
    obtain ev sent s' where h: "handle_one fill C P s rcv ok = (ev, sent, s')" by (cases "handle_one fill C P s rcv ok")
    from handle_one_inv[OF h inv] show ?thesis by (simp add: Arrives h)
  qed (use inv in \<open>auto simp: take_child_def server_inv_def\<close>)
qed

text \<open>The outcomes a run reports, and the SPI pair that an outcome is about.\<close>

fun server_events :: "'e filler \<Rightarrow> primitives \<Rightarrow> pki \<Rightarrow> 'e server \<Rightarrow> server_input list \<Rightarrow> server_event driven list" where
  "server_events fill C P s [] = []"
| "server_events fill C P s (Arrives rcv ok # xs) =
     (case handle_one fill C P s rcv ok of (ev, _, s') \<Rightarrow> ev # server_events fill C P s' xs)"
| "server_events fill C P s (Takes i r # xs) = server_events fill C P (snd (take_child s i r)) xs"

definition concerns :: "u64 \<Rightarrow> u64 \<Rightarrow> server_event driven \<Rightarrow> bool" where
  "concerns i r ev \<longleftrightarrow> ev = Done (SaInit i r) \<or> (\<exists>ident. ev = Done (ServerEstablished i r ident))"

lemma handle_one_isolated:
  assumes "handle_one fill C P s rcv ok = (ev, sent, s')" "\<not> concerns i r ev"
  shows "session s' i r = session s i r \<and> child s' i r = child s i r"
  using handle_one_cases[OF assms(1)] assms(2) by (auto simp: session_def child_def concerns_def)

section \<open>The handshake over a network\<close>

text \<open>
  What the client needs of its network: in a good state, a request that fits a UDP datagram reaches
  the server, and the server's answer, if it fits too, comes back. The server may be refused only
  what does not fit.
\<close>

locale answering_net =
  fixes fs :: "'e filler" and C :: primitives and P :: pki
    and net :: "'n network" and srv :: "'n \<Rightarrow> 'e server" and good :: "'n \<Rightarrow> bool"
  assumes answers: "good n \<Longrightarrow> length req \<le> UDP_PAYLOAD \<Longrightarrow> length resp \<le> UDP_PAYLOAD \<Longrightarrow>
    \<forall>sends. udp_ok sends \<longrightarrow> handle_one fs C P (srv n) (IoOk req) sends = (ev, Some resp, s') \<Longrightarrow>
    \<exists>n'. net n req = (IoOk resp, n') \<and> good n' \<and> srv n' = s'"

text \<open>A network that delivers each request to the server and each answer to the client.\<close>

definition server_net :: "'e filler \<Rightarrow> primitives \<Rightarrow> pki \<Rightarrow> 'e server network" where
  "server_net fill C P s request =
     (let (_, sent, s') = handle_one fill C P s (IoOk request) (\<lambda>_. True)
      in (case sent of Some d \<Rightarrow> IoOk d | None \<Rightarrow> IoErr, s'))"

interpretation direct: answering_net fs C P "server_net fs C P" "\<lambda>s. s" "\<lambda>_. True" for fs C P
  by unfold_locales (simp add: server_net_def)

lemma build_encrypted_header:
  assumes "build_encrypted_gcm C h t inner k iv = Ok m" "header_wf h"
  shows "\<exists>l. ike_header_parse m = Ok (h\<lparr>h_next_payload := PT_Encrypted, h_length := l\<rparr>)"
proof -
  obtain l rest where "m = ike_header_to_bytes (h\<lparr>h_next_payload := PT_Encrypted, h_length := l\<rparr>) @ rest"
    using assms(1) by (auto simp: build_encrypted_gcm_def Let_def bindR_Ok_iff)
  moreover have "header_wf (h\<lparr>h_next_payload := PT_Encrypted, h_length := l\<rparr>)"
    using assms(2) by (simp add: header_wf_def)
  ultimately show ?thesis by (auto intro: ike_header_parse_to_bytes)
qed

lemma auth_request_header:
  assumes "initiator_auth_request C P sa cfg spi iv = Ok m"
  obtains h where "ike_header_parse m = Ok h" "h_exchange_type h = IkeAuth"
    "h_initiator_spi h = ci_spi_i sa" "h_responder_spi h = ci_spi_r sa"
proof -
  obtain t inner where b: "build_encrypted_gcm C (ike_auth_header sa False) t inner (sk_ei (ci_keys sa)) iv = Ok m"
    using assms by (auto simp: initiator_auth_request_def Let_def bindR_Ok_iff)
  from build_encrypted_header[OF b ike_auth_header_wf] that show thesis
    by (auto simp: ike_auth_header_def)
qed

text \<open>The first round: the server stores the half-open SA that mirrors the client's.\<close>

lemma server_opens:
  assumes C: "x25519_correct C" "modpow_correct C" and f: "entropy fc" "entropy fs"
    and li: "local_secret_generate fc e 32 = (li, e1)"
  obtains req resp sar e2 where "initiator_request C li default_offer = Ok req"
    "\<forall>sends. udp_ok sends \<longrightarrow> handle_one fs C P s (IoOk req) sends = (Done (SaInit (ci_spi_i sar) (ci_spi_r sar)), Some resp,
       s\<lparr>sv_entropy := e2, sv_sessions := (sv_sessions s)((ci_spi_i sar, ci_spi_r sar) \<mapsto> sar)\<rparr>)"
    "initiator_complete C li req resp = Ok (sar\<lparr>ci_role := Initiator\<rparr>)" "ci_role sar = Responder" "gcm_keys sar"
    "ci_peer_signature_hashes sar = SUPPORTED_SIGNATURE_HASHES" "length req \<le> UDP_PAYLOAD" "length resp \<le> UDP_PAYLOAD"
proof -
  obtain lr e2 where lr: "local_secret_generate fs (sv_entropy s) 32 = (lr, e2)" by fastforce
  have wf: "local_wf li" "local_wf lr" "length (ls_nonce li) \<le> 1000" "length (ls_nonce lr) \<le> 1000"
    using entropy.generate_wf[OF f(1) li] entropy.generate_wf[OF f(2) lr] by (simp_all add: local_wf_def)
  obtain req resp sar h where r: "initiator_request C li default_offer = Ok req"
    "responder_respond_inner C req lr None None = Ok (Established resp sar)"
    "initiator_complete C li req resp = Ok (sar\<lparr>ci_role := Initiator\<rparr>)" "ci_role sar = Responder"
    "keys_sized (suite_key_lengths sample_suite) (ci_keys sar)"
    "ci_peer_signature_hashes sar = SUPPORTED_SIGNATURE_HASHES" "ike_header_parse req = Ok h" "h_exchange_type h = IkeSaInit"
    using default_run[OF C wf(1,2), of None] by blast
  have len: "length req \<le> UDP_PAYLOAD" "length resp \<le> UDP_PAYLOAD"
    using initiator_request_length[OF C(2) wf(1,3) r(1)] responder_response_length[OF C(2) wf(2,4) r(2)]
    by (simp_all add: UDP_PAYLOAD_def)
  have "\<forall>sends. udp_ok sends \<longrightarrow> handle_one fs C P s (IoOk req) sends = (Done (SaInit (ci_spi_i sar) (ci_spi_r sar)), Some resp,
       s\<lparr>sv_entropy := e2, sv_sessions := (sv_sessions s)((ci_spi_i sar, ci_spi_r sar) \<mapsto> sar)\<rparr>)"
    using r(2,7,8) len(2) by (simp add: handle_one_def handle_sa_init_def lr responder_respond_Ok[THEN iffD2] udp_ok_def)
  moreover have "gcm_keys sar"
    using r(5) by (simp add: gcm_keys_def keys_sized_def suite_key_lengths_def sample_suite_def)
  ultimately show thesis using that r(1,3,4,6) len by blast
qed

text \<open>The second round: over a stored half-open SA that mirrors the client's, both sides accept.\<close>

lemma server_accepts:
  assumes "gcm_correct C" "entropy fs" "matching_configs C P cfg (sv_auth s)" "length ivi = 8"
    and sa: "ci_role sai = Initiator" "gcm_keys sai" "ci_peer_signature_hashes sai = SUPPORTED_SIGNATURE_HASHES"
      "sv_sessions s (ci_spi_i sai, ci_spi_r sai) = Some (sai\<lparr>ci_role := Responder\<rparr>)"
  obtains req resp spi c e' where "initiator_auth_request C P sai cfg child_spi ivi = Ok req"
    "\<forall>sends. udp_ok sends \<longrightarrow> handle_one fs C P s (IoOk req) sends =
      (Done (ServerEstablished (ci_spi_i sai) (ci_spi_r sai) (ac_id cfg)), Some resp,
       s\<lparr>sv_entropy := e', sv_children := (sv_children s)((ci_spi_i sai, ci_spi_r sai) \<mapsto> c)\<rparr>)"
    "initiator_verify_auth C P sai resp cfg = Ok (ac_id (sv_auth s), spi, None)"
    "child_sa_derive C (sk_d (ci_keys sai)) (ci_ni sai) (ci_nr sai) Responder spi child_spi = Ok c"
    "length req \<le> UDP_PAYLOAD" "length resp \<le> UDP_PAYLOAD"
proof -
  let ?sar = "sai\<lparr>ci_role := Responder\<rparr>"
  obtain w e2 where w: "next_u64 fs (sv_entropy s) = (w, e2)" by fastforce
  obtain ivr e3 where ivr: "fs e2 8 = (ivr, e3)" by fastforce
  have len: "length ivr = 8" by (rule entropy.fill_length_eq[OF assms(2) ivr])
  have "sa_pair sai ?sar" "auth_ready C P (ci_peer_signature_hashes sai) cfg"
    "auth_ready C P (ci_peer_signature_hashes ?sar) (sv_auth s)" "mutual_trust C P cfg (sv_auth s)"
    using sa(1,3) assms(3) by (simp_all add: sa_pair_def matching_configs_def)
  from auth_exchange[OF assms(1) this(1) sa(2) this(2-4) assms(4) len, of child_spi "ucast w" None]
  obtain req resp where r: "initiator_auth_request C P sai cfg child_spi ivi = Ok req"
    "responder_process_auth C P ?sar req (sv_auth s) (ucast w) ivr None = Ok (resp, ac_id cfg, child_spi)"
    "initiator_verify_auth C P sai resp cfg = Ok (ac_id (sv_auth s), ucast w, None)"
    "length req \<le> UDP_PAYLOAD" "length resp \<le> UDP_PAYLOAD" by (auto simp: UDP_PAYLOAD_def)
  obtain h where h: "ike_header_parse req = Ok h" "h_exchange_type h = IkeAuth"
    "h_initiator_spi h = ci_spi_i sai" "h_responder_spi h = ci_spi_r sai"
    by (rule auth_request_header[OF r(1)])
  obtain c where c: "child_sa_derive C (sk_d (ci_keys sai)) (ci_ni sai) (ci_nr sai) Responder (ucast w) child_spi = Ok c"
    using child_sa_derive_Ok by blast
  have "\<forall>sends. udp_ok sends \<longrightarrow> handle_one fs C P s (IoOk req) sends =
     (Done (ServerEstablished (ci_spi_i sai) (ci_spi_r sai) (ac_id cfg)), Some resp,
      s\<lparr>sv_entropy := e3, sv_children := (sv_children s)((ci_spi_i sai, ci_spi_r sai) \<mapsto> c)\<rparr>)"
    using r(2,5) h c sa(4) by (simp add: handle_one_def handle_ike_auth_def w ivr udp_ok_def)
  from that[OF r(1) this r(3) c r(4,5)] show thesis .
qed

text \<open>The client over such a network: both rounds, and the whole handshake.\<close>

context answering_net
begin

lemma sa_init_over_net:
  assumes "x25519_correct C" "modpow_correct C" "entropy fc" "entropy fs" "good n"
  obtains sai e1 n1 where "client_sa_init fc C net e n = (Done sai, e1, n1)" "good n1"
    "ci_role sai = Initiator" "gcm_keys sai" "ci_peer_signature_hashes sai = SUPPORTED_SIGNATURE_HASHES" "sv_auth (srv n1) = sv_auth (srv n)"
    "sv_sessions (srv n1) (ci_spi_i sai, ci_spi_r sai) = Some (sai\<lparr>ci_role := Responder\<rparr>)"
    "sv_children (srv n1) = sv_children (srv n)"
proof -
  obtain li e1 where li: "local_secret_generate fc e 32 = (li, e1)" by fastforce
  obtain req resp sar e2 where r: "initiator_request C li default_offer = Ok req"
    "\<forall>sends. udp_ok sends \<longrightarrow> handle_one fs C P (srv n) (IoOk req) sends = (Done (SaInit (ci_spi_i sar) (ci_spi_r sar)), Some resp,
       (srv n)\<lparr>sv_entropy := e2, sv_sessions := (sv_sessions (srv n))((ci_spi_i sar, ci_spi_r sar) \<mapsto> sar)\<rparr>)"
    "initiator_complete C li req resp = Ok (sar\<lparr>ci_role := Initiator\<rparr>)" "ci_role sar = Responder" "gcm_keys sar"
    "ci_peer_signature_hashes sar = SUPPORTED_SIGNATURE_HASHES" "length req \<le> UDP_PAYLOAD" "length resp \<le> UDP_PAYLOAD"
    by (rule server_opens[OF assms(1-4) li, of P "srv n"])
  obtain n1 where n1: "net n req = (IoOk resp, n1)" "good n1"
    "srv n1 = (srv n)\<lparr>sv_entropy := e2, sv_sessions := (sv_sessions (srv n))((ci_spi_i sar, ci_spi_r sar) \<mapsto> sar)\<rparr>"
    using answers[OF assms(5) r(7,8,2)] by blast
  have "client_sa_init fc C net e n = (Done (sar\<lparr>ci_role := Initiator\<rparr>), e1, n1)"
    using r(1,3) n1(1) by (simp add: client_sa_init_def li)
  from that[OF this n1(2)] show thesis using n1(3) r(4-6) by (simp add: gcm_keys_def)
qed

lemma auth_over_net:
  assumes "gcm_correct C" "entropy fc" "entropy fs" "matching_configs C P cfg (sv_auth (srv n))" "good n"
    and sa: "ci_role sai = Initiator" "gcm_keys sai" "ci_peer_signature_hashes sai = SUPPORTED_SIGNATURE_HASHES"
      "sv_sessions (srv n) (ci_spi_i sai, ci_spi_r sai) = Some (sai\<lparr>ci_role := Responder\<rparr>)"
  obtains spi c e1 n1 where "client_authenticate fc C P net sai cfg child_spi e n =
       (Done (ac_id (sv_auth (srv n)), spi, None), e1, n1)" "good n1"
    "child_sa_derive C (sk_d (ci_keys sai)) (ci_ni sai) (ci_nr sai) Responder spi child_spi = Ok c"
    "sv_sessions (srv n1) = sv_sessions (srv n)"
    "sv_children (srv n1) = (sv_children (srv n))((ci_spi_i sai, ci_spi_r sai) \<mapsto> c)"
proof -
  obtain ivi e1 where ivi: "fc e 8 = (ivi, e1)" by fastforce
  obtain req resp spi c e' where r: "initiator_auth_request C P sai cfg child_spi ivi = Ok req"
    "\<forall>sends. udp_ok sends \<longrightarrow> handle_one fs C P (srv n) (IoOk req) sends =
      (Done (ServerEstablished (ci_spi_i sai) (ci_spi_r sai) (ac_id cfg)), Some resp,
       (srv n)\<lparr>sv_entropy := e', sv_children := (sv_children (srv n))((ci_spi_i sai, ci_spi_r sai) \<mapsto> c)\<rparr>)"
    "initiator_verify_auth C P sai resp cfg = Ok (ac_id (sv_auth (srv n)), spi, None)"
    "child_sa_derive C (sk_d (ci_keys sai)) (ci_ni sai) (ci_nr sai) Responder spi child_spi = Ok c"
    "length req \<le> UDP_PAYLOAD" "length resp \<le> UDP_PAYLOAD"
    by (rule server_accepts[OF assms(1,3,4) entropy.fill_length_eq[OF assms(2) ivi] sa])
  obtain n1 where n1: "net n req = (IoOk resp, n1)" "good n1"
    "srv n1 = (srv n)\<lparr>sv_entropy := e', sv_children := (sv_children (srv n))((ci_spi_i sai, ci_spi_r sai) \<mapsto> c)\<rparr>"
    using answers[OF assms(5) r(5,6,2)] by blast
  have "client_authenticate fc C P net sai cfg child_spi e n = (Done (ac_id (sv_auth (srv n)), spi, None), e1, n1)"
    using r(1,3) n1(1) by (simp add: client_authenticate_def ivi)
  from that[OF this n1(2) r(4)] n1(3) show thesis by simp
qed

lemma connect_over_net:
  assumes "x25519_correct C" "modpow_correct C" "gcm_correct C" "entropy fc" "entropy fs"
    and "matching_configs C P cfg (sv_auth (srv n))" "good n"
  obtains sa c c' e' n' where "client_connect fc C P net cfg child_spi e n =
      (Done (sa, ac_id (sv_auth (srv n)), c, None), e', n')" "good n'"
    "session (srv n') (ci_spi_i sa) (ci_spi_r sa) = Some (sa\<lparr>ci_role := Responder\<rparr>)"
    "child (srv n') (ci_spi_i sa) (ci_spi_r sa) = Some c'" "ci_role sa = Initiator" "gcm_keys sa"
    "ch_outbound c = ch_inbound c'" "ch_inbound c = ch_outbound c'" "esp_wf (ch_outbound c)" "esp_wf (ch_inbound c)"
    "es_seq (ch_outbound c) = 0" "es_seq (ch_outbound c') = 0"
    "sv_children (srv n') = (sv_children (srv n))((ci_spi_i sa, ci_spi_r sa) \<mapsto> c')"
proof -
  obtain sai e1 n1 where i: "client_sa_init fc C net e n = (Done sai, e1, n1)" "good n1"
    "ci_role sai = Initiator" "gcm_keys sai" "ci_peer_signature_hashes sai = SUPPORTED_SIGNATURE_HASHES" "sv_auth (srv n1) = sv_auth (srv n)"
    "sv_sessions (srv n1) (ci_spi_i sai, ci_spi_r sai) = Some (sai\<lparr>ci_role := Responder\<rparr>)"
    "sv_children (srv n1) = sv_children (srv n)"
    by (rule sa_init_over_net[OF assms(1,2,4,5,7)])
  obtain spi c' e2 n2 where a: "client_authenticate fc C P net sai cfg child_spi e1 n1 =
       (Done (ac_id (sv_auth (srv n1)), spi, None), e2, n2)" "good n2"
    "child_sa_derive C (sk_d (ci_keys sai)) (ci_ni sai) (ci_nr sai) Responder spi child_spi = Ok c'"
    "sv_sessions (srv n2) = sv_sessions (srv n1)"
    "sv_children (srv n2) = (sv_children (srv n1))((ci_spi_i sai, ci_spi_r sai) \<mapsto> c')"
    by (rule auth_over_net[OF assms(3-5) _ i(2-5,7)]) (use assms(6) i(6) in simp)
  obtain c where c: "child_sa_derive C (sk_d (ci_keys sai)) (ci_ni sai) (ci_nr sai) Initiator child_spi spi = Ok c"
    using child_sa_derive_Ok by blast
  have m: "ch_outbound c = ch_inbound c'" "ch_inbound c = ch_outbound c'" "esp_wf (ch_outbound c)" "esp_wf (ch_inbound c)"
    "es_seq (ch_outbound c) = 0" "es_seq (ch_outbound c') = 0"
    using child_sa_match[OF c, of c'] child_sa_match[OF a(3), of c] a(3) c unfolding peer.simps by metis+
  have "client_connect fc C P net cfg child_spi e n = (Done (sai, ac_id (sv_auth (srv n)), c, None), e2, n2)"
    using i(1,6) a(1) c by (simp add: client_connect_def)
  from that[OF this a(2) _ _ i(3,4) m] i(7,8) a(4,5) show thesis by (simp add: session_def child_def)
qed

end

text \<open>
  An accepted \<open>IKE_AUTH\<close> is accepted again under any SPI and IV: nothing in the verification depends
  on the message having been seen. The keys of a CHILD SA do not depend on its SPIs.
\<close>

lemma responder_reaccepts:
  assumes "gcm_correct C" "gcm_keys sa" "auth_ready C P (ci_peer_signature_hashes sa) cfg" "length iv' = 8"
    and "responder_process_auth C P sa m cfg spi iv assigned = Ok (resp, pid, pspi)"
  shows "\<exists>resp'. responder_process_auth C P sa m cfg spi' iv' assigned = Ok (resp', pid, pspi)"
proof -
  obtain first inner got where g: "open_encrypted_gcm C m (sk_ei (ci_keys sa)) = Ok (first, inner)"
    "parse_auth_inner first inner = Ok got" "identification_parse (ap_id_body got) = Ok pid" "ap_child_spi got = Some pspi"
    "verify_peer_auth C P cfg got (initiator_signed_octets C (ci_init_message sa) (ci_nr sa) (sk_pi (ci_keys sa))
      (ap_id_body got)) = Ok ()"
    using assms(5) by (auto simp: responder_process_auth_def Let_def bindR_Ok_iff ok_or_iff split_beta)
  have r: "auth_fits cfg" "can_sign C P (ci_peer_signature_hashes sa) (ac_local cfg)"
    using assms(3) by (simp_all add: auth_ready_def)
  obtain auth where "build_local_auth C P cfg sa (responder_signed_octets C (ci_resp_message sa) (ci_ni sa) (sk_pr (ci_keys sa))
      (identification_to_bytes (ac_id cfg))) = Ok (auth, cert_chain (local_chain (ac_local cfg)))" "length (au_data auth) \<le> 1000"
    by (rule local_auth_built[OF r(2)])
  from auth_response[OF assms(1,2) r(1) assms(4) this _ g(5,3,4), of m spi' assigned] g(1,2) show ?thesis by auto
qed

lemma child_sa_keys_fixed:
  assumes "child_sa_derive C skd ni nr r l p = Ok a" "child_sa_derive C skd ni nr r l' p' = Ok b"
  shows "es_key (ch_outbound b) = es_key (ch_outbound a) \<and> es_salt (ch_outbound b) = es_salt (ch_outbound a) \<and>
    es_seq (ch_outbound b) = 0"
  using child_sa_derive_ok[of C skd ni nr r l p] child_sa_derive_ok[of C skd ni nr r l' p'] assms
  by (cases r) (auto simp: Let_def)

text \<open>A server with one half-open SA.\<close>

definition sample_responder :: "seed_entropy server" where
  "sample_responder = \<lparr>sv_entropy = seed_entropy_new 2, sv_auth = sample_config [98],
     sv_sessions = [(1, 2) \<mapsto> sample_sa Responder], sv_children = Map.empty\<rparr>"

section \<open>Properties\<close>

text \<open>
  C14. The invariant of the server's tables: after any sequence of datagrams, I/O errors and taken
  CHILD SAs, whatever their bytes, every CHILD SA belongs to a stored IKE SA, and every IKE SA is
  stored under its own SPI pair and is a responder's.
\<close>
theorem server_tables_invariant:
  "server_inv (foldl (server_step fill C P) (server_bind e auth) inputs)"
  by (rule tables.run_inv) (simp add: server_inv_def server_bind_def)

text \<open>
  C12. Clients do not disturb each other: in any interleaving of datagrams, whatever they contain, I/O errors
  and taken CHILD SAs, the IKE SA and the CHILD SA of an SPI pair stay as they are as long as no
  outcome that the server reports is about this pair and its owner does not take its CHILD SA.
\<close>
theorem server_isolation:
  assumes "\<forall>ev \<in> set (server_events fill C P s inputs). \<not> concerns i r ev" "Takes i r \<notin> set inputs"
  shows "session (foldl (server_step fill C P) s inputs) i r = session s i r \<and>
    child (foldl (server_step fill C P) s inputs) i r = child s i r"
  using assms
proof (induction inputs arbitrary: s)
  case (Cons x xs)
  show ?case
  proof (cases x)
    case (Arrives rcv ok)
    obtain ev sent s' where h: "handle_one fill C P s rcv ok = (ev, sent, s')" by (cases "handle_one fill C P s rcv ok")
    then show ?thesis using Cons handle_one_isolated[OF h] by (simp add: Arrives)
  next
    case (Takes j k)
    then show ?thesis using Cons by (auto simp: take_child_def session_def child_def)
  qed
qed simp

theorem server_isolation_witness:
  "session (foldl (server_step seed_entropy_fill toy_primitives toy_pki) sample_responder
     [Arrives (IoOk [1, 2, 3]) (\<lambda>_. True), Takes 7 8, Arrives IoErr (\<lambda>_. True)]) 1 2 = Some (sample_sa Responder)"
proof -
  have "handle_one seed_entropy_fill toy_primitives toy_pki s (IoOk [1, 2, 3]) ok = (IkeFailed (Truncated 28 3), None, s)" for s ok
    by (simp add: handle_one_def ike_header_parse_def HEADER_LEN_def)
  moreover have "handle_one seed_entropy_fill toy_primitives toy_pki s IoErr ok = (IoFailed, None, s)" for s ok
    by (simp add: handle_one_def)
  moreover have "session sample_responder 1 2 = Some (sample_sa Responder)" by (simp add: session_def sample_responder_def)
  ultimately show ?thesis
    using server_isolation[of seed_entropy_fill toy_primitives toy_pki sample_responder
        "[Arrives (IoOk [1, 2, 3]) (\<lambda>_. True), Takes 7 8, Arrives IoErr (\<lambda>_. True)]" 1 2]
    by (simp add: concerns_def)
qed

text \<open>
  C11. Refinement: each datagram moves the server as the abstract responder moves, which only knows
  half-open and established SPI pairs. In particular a pair becomes established only when it was
  half-open, errors and ignored datagrams change nothing, and no datagram makes the server panic.
\<close>
theorem server_refines:
  assumes "modpow_correct C" "entropy fill" "handle_one fill C P s rcv ok = (ev, sent, s')"
  shows "abstract_step (abs_server s) ev (abs_server s')"
  using handle_one_cases[OF assms(3)] handle_one_not_Panicked[OF assms]
  by (elim disjE exE conjE) (auto simp: abs_server_def abstract_init_iff abstract_auth_iff intro: abstract_step.intros)

theorem server_refines_witness:
  "\<exists>req i r sent s'. handle_one seed_entropy_fill toy_primitives toy_pki (server_bind (seed_entropy_new 2) (sample_config [98]))
      (IoOk req) (\<lambda>_. True) = (Done (SaInit i r), sent, s') \<and>
    abstract_step (abs_server (server_bind (seed_entropy_new 2) (sample_config [98]))) (Done (SaInit i r)) (abs_server s')"
proof -
  let ?s = "server_bind (seed_entropy_new 2) (sample_config [98])"
  obtain li e1 where "local_secret_generate seed_entropy_fill (seed_entropy_new 1) 32 = (li, e1)" by fastforce
  from server_opens[OF toy_x25519_correct toy_modpow_correct seed.entropy_axioms seed.entropy_axioms this, where P = toy_pki and s = ?s]
  obtain req i r sent s' where h: "handle_one seed_entropy_fill toy_primitives toy_pki ?s (IoOk req) (\<lambda>_. True) = (Done (SaInit i r), sent, s')"
    by (metis udp_ok_True)
  from server_refines[OF toy_modpow_correct seed.entropy_axioms this] h show ?thesis by blast
qed

text \<open>
  C22. What a replayed \<open>IKE_AUTH\<close> does: once the server accepted a datagram, it accepts the very same
  datagram again, in any later state that still holds the IKE SA, whatever became of the CHILD SA.
  The new CHILD SA has the outbound key and salt of the old one and a send counter of zero, so the
  counters that make the AES-GCM nonces of the outbound direction are used a second time.
\<close>
theorem ike_auth_replay_resets_child:
  assumes "gcm_correct C" "entropy fill" "gcm_keys sa" "auth_ready C P (ci_peer_signature_hashes sa) (sv_auth s)"
    and sa: "sv_sessions s (i, r) = Some sa"
    and "handle_one fill C P s (IoOk data) (\<lambda>_. True) = (Done (ServerEstablished i r ident), sent, s1)"
    and "child s1 i r = Some c"
    and later: "sv_auth s2 = sv_auth s" "sv_sessions s2 (i, r) = Some sa"
  shows "\<exists>sent' s3 c'. handle_one fill C P s2 (IoOk data) (\<lambda>_. True) = (Done (ServerEstablished i r ident), sent', s3) \<and>
    child s3 i r = Some c' \<and> es_key (ch_outbound c') = es_key (ch_outbound c) \<and>
    es_salt (ch_outbound c') = es_salt (ch_outbound c) \<and> es_seq (ch_outbound c') = 0"
proof -
  obtain h where h: "ike_header_parse data = Ok h"
    using assms(6) by (auto simp: handle_one_def split: res.splits)
  have x: "h_exchange_type h = IkeAuth" and "handle_ike_auth fill C P s h data (\<lambda>_. True) = (Done (ServerEstablished i r ident), sent, s1)"
    using assms(6) h
    by (auto simp: handle_one_def handle_sa_init_def Let_def split_beta split: exchange_type.splits res.splits prod.splits)
  from handle_ike_auth_cases[OF this(2)] obtain spi iv resp pspi where
    key: "h_initiator_spi h = i" "h_responder_spi h = r"
    and p: "responder_process_auth C P sa data (sv_auth s) spi iv None = Ok (resp, ident, pspi)"
    and d: "child_sa_derive C (sk_d (ci_keys sa)) (ci_ni sa) (ci_nr sa) Responder spi pspi = Ok c"
    using sa assms(7) by (auto simp: child_def)
  obtain w e2 where w: "next_u64 fill (sv_entropy s2) = (w, e2)" by fastforce
  obtain iv' e3 where iv': "fill e2 8 = (iv', e3)" by fastforce
  obtain resp' where p': "responder_process_auth C P sa data (sv_auth s) (ucast w) iv' None = Ok (resp', ident, pspi)"
    using responder_reaccepts[OF assms(1,3,4) entropy.fill_length_eq[OF assms(2) iv'] p] by blast
  obtain c' where d': "child_sa_derive C (sk_d (ci_keys sa)) (ci_ni sa) (ci_nr sa) Responder (ucast w) pspi = Ok c'"
    using child_sa_derive_Ok by blast
  have "handle_one fill C P s2 (IoOk data) (\<lambda>_. True) = (Done (ServerEstablished i r ident), Some resp',
      s2\<lparr>sv_entropy := e3, sv_children := (sv_children s2)((i, r) \<mapsto> c')\<rparr>)"
    using h x key later p' d' by (simp add: handle_one_def handle_ike_auth_def w iv')
  then show ?thesis using child_sa_keys_fixed[OF d d'] by (simp add: child_def)
qed

theorem ike_auth_replay_resets_child_witness:
  "\<exists>data sent s1 c sent' s3 c'.
    handle_one seed_entropy_fill toy_primitives toy_pki sample_responder (IoOk data) (\<lambda>_. True) =
      (Done (ServerEstablished 1 2 (ac_id (sample_config [97]))), sent, s1) \<and> child s1 1 2 = Some c \<and>
    handle_one seed_entropy_fill toy_primitives toy_pki (snd (take_child s1 1 2)) (IoOk data) (\<lambda>_. True) =
      (Done (ServerEstablished 1 2 (ac_id (sample_config [97]))), sent', s3) \<and>
    child s3 1 2 = Some c' \<and> es_key (ch_outbound c') = es_key (ch_outbound c) \<and>
    es_salt (ch_outbound c') = es_salt (ch_outbound c) \<and> es_seq (ch_outbound c') = 0"
proof -
  have sa: "ci_role (sample_sa Initiator) = Initiator" "gcm_keys (sample_sa Initiator)"
    "ci_spi_i (sample_sa Initiator) = 1" "ci_spi_r (sample_sa Initiator) = 2"
    "(sample_sa Initiator)\<lparr>ci_role := Responder\<rparr> = sample_sa Responder" "gcm_keys (sample_sa Responder)"
    "ci_peer_signature_hashes (sample_sa Initiator) = SUPPORTED_SIGNATURE_HASHES"
    by (simp_all add: sample_sa_def gcm_keys_def SUPPORTED_SIGNATURE_HASHES_def)
  have p: "psk_config (sample_config [97]) [1, 2, 3]" "psk_config (sv_auth sample_responder) [1, 2, 3]"
    by (simp_all add: sample_responder_def)
  obtain data resp c e' where "\<forall>sends. udp_ok sends \<longrightarrow> handle_one seed_entropy_fill toy_primitives toy_pki sample_responder (IoOk data) sends =
      (Done (ServerEstablished 1 2 (ac_id (sample_config [97]))), Some resp,
       sample_responder\<lparr>sv_entropy := e', sv_children := (sv_children sample_responder)((1, 2) \<mapsto> c)\<rparr>)"
    by (rule server_accepts[OF toy_gcm_correct seed.entropy_axioms psk_config_ready(3)[OF p] _ sa(1,2,7),
          of "replicate 8 0" toy_pki 5]) (use sa in \<open>simp_all add: sample_responder_def\<close>)
  then have r: "handle_one seed_entropy_fill toy_primitives toy_pki sample_responder (IoOk data) (\<lambda>_. True) =
      (Done (ServerEstablished 1 2 (ac_id (sample_config [97]))), Some resp,
       sample_responder\<lparr>sv_entropy := e', sv_children := (sv_children sample_responder)((1, 2) \<mapsto> c)\<rparr>)"
    by simp
  define s1 where "s1 = sample_responder\<lparr>sv_entropy := e', sv_children := (sv_children sample_responder)((1, 2) \<mapsto> c)\<rparr>"
  have c: "child s1 1 2 = Some c" by (simp add: s1_def child_def)
  have "sv_sessions sample_responder (1, 2) = Some (sample_sa Responder)" by (simp add: sample_responder_def)
  from ike_auth_replay_resets_child[OF toy_gcm_correct seed.entropy_axioms sa(6) psk_config_ready(1)[OF p(2)] this r[folded s1_def] c,
      of "snd (take_child s1 1 2)"] r c
  show ?thesis by (fastforce simp: s1_def take_child_def sample_responder_def)
qed

end
