(* ===== verification/Isakmp.thy ===== *)
theory Isakmp
  imports Prelude
begin

text \<open>
  The framing of IKEv1, \<open>src/src/ikev1/isakmp.rs\<close>: the 28-byte ISAKMP header and the chain of generic
  payloads. The cookies are arrays of eight bytes in the sources and byte lists here;
  \<open>isakmp_header_wf\<close> says that they have eight bytes.

  The lemmas show that the walk of a chain ends and never panics, that it stays inside the body, and
  that header, chain and message are read back from what was written, whatever padding follows.
\<close>

unbundle bit_operations_syntax

section \<open>Numbers\<close>

definition EX_AGGRESSIVE :: u8 where [simp]: "EX_AGGRESSIVE = 4"
definition EX_QUICK :: u8 where [simp]: "EX_QUICK = 32"

definition FLAG_ENCRYPTION :: u8 where [simp]: "FLAG_ENCRYPTION = 1"

definition P_NONE :: u8 where [simp]: "P_NONE = 0"
definition P_SA :: u8 where [simp]: "P_SA = 1"
definition P_PROPOSAL :: u8 where [simp]: "P_PROPOSAL = 2"
definition P_TRANSFORM :: u8 where [simp]: "P_TRANSFORM = 3"
definition P_KE :: u8 where [simp]: "P_KE = 4"
definition P_ID :: u8 where [simp]: "P_ID = 5"
definition P_HASH :: u8 where [simp]: "P_HASH = 8"
definition P_NONCE :: u8 where [simp]: "P_NONCE = 10"
definition P_VENDOR_ID :: u8 where [simp]: "P_VENDOR_ID = 13"

section \<open>The header\<close>

record isakmp_header =
  ih_init_cookie :: bytes
  ih_resp_cookie :: bytes
  ih_next_payload :: u8
  ih_version :: u8
  ih_exchange_type :: u8
  ih_flags :: u8
  ih_message_id :: u32
  ih_length :: u32

definition ISAKMP_LEN :: nat where "ISAKMP_LEN = 28"
definition VERSION_1_0 :: u8 where [simp]: "VERSION_1_0 = 16"

definition isakmp_header_parse :: "bytes \<Rightarrow> isakmp_header res" where
  "isakmp_header_parse bs =
     (if length bs < ISAKMP_LEN then Err (Truncated ISAKMP_LEN (length bs))
      else bindR (slice bs 0 8) (\<lambda>init.
           bindR (slice bs 8 16) (\<lambda>resp.
           bindR (idx bs 16) (\<lambda>np.
           bindR (idx bs 17) (\<lambda>version.
           bindR (idx bs 18) (\<lambda>ex.
           bindR (idx bs 19) (\<lambda>fl.
           bindR (slice bs 20 24) (\<lambda>mid.
           bindR (slice bs 24 28) (\<lambda>len.
             Ok \<lparr>ih_init_cookie = init, ih_resp_cookie = resp, ih_next_payload = np, ih_version = version,
                 ih_exchange_type = ex, ih_flags = fl, ih_message_id = from_be32 mid,
                 ih_length = from_be32 len\<rparr>)))))))))"

definition isakmp_header_to_bytes :: "isakmp_header \<Rightarrow> bytes" where
  "isakmp_header_to_bytes h =
     ih_init_cookie h @ ih_resp_cookie h @
     [ih_next_payload h, ih_version h, ih_exchange_type h, ih_flags h] @
     to_be32 (ih_message_id h) @ to_be32 (ih_length h)"

definition isakmp_encrypted :: "isakmp_header \<Rightarrow> bool" where
  "isakmp_encrypted h \<longleftrightarrow> ih_flags h AND FLAG_ENCRYPTION \<noteq> 0"

section \<open>The payload chain\<close>

record payload1 =
  p1_type :: u8
  p1_data :: bytes

function parse_payloads_loop :: "u8 \<Rightarrow> bytes \<Rightarrow> nat \<Rightarrow> payload1 list res" where
  "parse_payloads_loop nxt body off =
     (if nxt = P_NONE then Ok []
      else if length body < off + 4 then Err (Truncated (off + 4) (length body))
      else bindR (idx body off) (\<lambda>this_next.
           bindR (u16be body (off + 2)) (\<lambda>l.
             let len = unat l in
             if len < 4 \<or> length body < off + len then Err (BadLength len (length body - off))
             else bindR (slice body (off + 4) (off + len)) (\<lambda>d.
                  bindR (parse_payloads_loop this_next body (off + len)) (\<lambda>ps.
                    Ok (\<lparr>p1_type = nxt, p1_data = d\<rparr> # ps))))))"
  by pat_completeness auto
termination
  by (relation "measure (\<lambda>(_, body, off). length body - off)") auto

declare parse_payloads_loop.simps [simp del]

definition parse_payloads :: "u8 \<Rightarrow> bytes \<Rightarrow> payload1 list res" where
  "parse_payloads first body = parse_payloads_loop first body 0"

type_synonym chain1 = "(u8 \<times> bytes) list"

definition chain_first :: "chain1 \<Rightarrow> u8" where
  "chain_first ps = (case ps of [] \<Rightarrow> P_NONE | p # _ \<Rightarrow> fst p)"

fun encode_payloads_body :: "chain1 \<Rightarrow> bytes" where
  "encode_payloads_body [] = []"
| "encode_payloads_body ((_, d) # ps) =
     [chain_first ps, 0] @ to_be16 (of_nat (4 + length d)) @ d @ encode_payloads_body ps"

definition encode_payloads :: "chain1 \<Rightarrow> u8 \<times> bytes" where
  "encode_payloads ps = (chain_first ps, encode_payloads_body ps)"

definition build_message :: "isakmp_header \<Rightarrow> chain1 \<Rightarrow> bytes" where
  "build_message header ps =
     (let (first, body) = encode_payloads ps
      in isakmp_header_to_bytes (header\<lparr>ih_next_payload := first,
           ih_length := of_nat (ISAKMP_LEN + length body)\<rparr>) @ body)"

section \<open>Reading back\<close>

definition isakmp_header_wf :: "isakmp_header \<Rightarrow> bool" where
  "isakmp_header_wf h \<longleftrightarrow> length (ih_init_cookie h) = 8 \<and> length (ih_resp_cookie h) = 8"

lemma isakmp_header_roundtrip [simp]:
  assumes "isakmp_header_wf h"
  shows "isakmp_header_parse (isakmp_header_to_bytes h @ rest) = Ok h"
    "length (isakmp_header_to_bytes h) = ISAKMP_LEN"
    "drop ISAKMP_LEN (isakmp_header_to_bytes h @ rest) = rest"
proof -
  show l: "length (isakmp_header_to_bytes h) = ISAKMP_LEN"
    using assms by (simp add: isakmp_header_to_bytes_def isakmp_header_wf_def ISAKMP_LEN_def)
  then show "drop ISAKMP_LEN (isakmp_header_to_bytes h @ rest) = rest" by simp
  obtain a b where ab: "ih_init_cookie h = a" "ih_resp_cookie h = b" "length a = 8" "length b = 8"
    using assms by (simp add: isakmp_header_wf_def)
  show "isakmp_header_parse (isakmp_header_to_bytes h @ rest) = Ok h"
    using ab by (cases h) (simp add: isakmp_header_parse_def isakmp_header_to_bytes_def ISAKMP_LEN_def nth_append)
qed

lemma isakmp_header_not_Panic [simp]: "isakmp_header_parse bs \<noteq> Panic"
  by (auto simp: isakmp_header_parse_def ISAKMP_LEN_def res_iff)

lemma isakmp_header_parse_len:
  "isakmp_header_parse bs = Ok h \<Longrightarrow> ISAKMP_LEN \<le> length bs \<and> isakmp_header_wf h"
  by (auto simp: isakmp_header_parse_def isakmp_header_wf_def ISAKMP_LEN_def res_iff split: if_splits)

lemma isakmp_body [simp]: "isakmp_header_parse bs = Ok h \<Longrightarrow> slice_from bs ISAKMP_LEN = Ok (drop ISAKMP_LEN bs)"
  using isakmp_header_parse_len by simp

lemma parse_payloads_not_Panic: "parse_payloads_loop nxt body off \<noteq> Panic"
proof (induction nxt body off rule: parse_payloads_loop.induct)
  case (1 nxt body off)
  then show ?case
    by (subst parse_payloads_loop.simps) (auto simp: res_iff Let_def)
qed

text \<open>The payloads of a chain lie in the body, one after the other, each after a header of four bytes.\<close>

lemma parse_payloads_inside:
  "parse_payloads_loop nxt body off = Ok ps \<Longrightarrow>
     off + (\<Sum>p\<leftarrow>ps. 4 + length (p1_data p)) \<le> length body \<or> ps = []"
proof (induction nxt body off arbitrary: ps rule: parse_payloads_loop.induct)
  case (1 nxt body off)
  show ?case
  proof (cases "nxt = P_NONE")
    case True
    then show ?thesis using "1.prems" by (subst (asm) parse_payloads_loop.simps) simp
  next
    case False
    then have n: "\<not> length body < off + 4" using "1.prems" by (subst (asm) parse_payloads_loop.simps) auto
    obtain x l d qs where st: "idx body off = Ok x" "u16be body (off + 2) = Ok l"
      "\<not> (unat l < 4 \<or> length body < off + unat l)" "slice body (off + 4) (off + unat l) = Ok d"
      "parse_payloads_loop x body (off + unat l) = Ok qs" "ps = \<lparr>p1_type = nxt, p1_data = d\<rparr> # qs"
      using "1.prems" False n
      by (subst (asm) parse_payloads_loop.simps) (auto simp: bindR_Ok_iff Let_def split: if_splits)
    have "off + unat l + (\<Sum>p\<leftarrow>qs. 4 + length (p1_data p)) \<le> length body \<or> qs = []"
      using False n st by (intro "1.IH") auto
    then show ?thesis using st(3,4) by (auto simp: st(6) slice_iff)
  qed
qed

definition chain1_wf :: "chain1 \<Rightarrow> bool" where
  "chain1_wf ps \<longleftrightarrow> (\<forall>(t, d) \<in> set ps. t \<noteq> 0 \<and> length d < 65532)"

abbreviation raw1 :: "u8 \<times> bytes \<Rightarrow> payload1" where
  "raw1 p \<equiv> \<lparr>p1_type = fst p, p1_data = snd p\<rparr>"

lemma parse_encode_loop:
  "chain1_wf ps \<Longrightarrow>
     parse_payloads_loop (chain_first ps) (pre @ encode_payloads_body ps @ rest) (length pre) = Ok (map raw1 ps)"
proof (induction ps arbitrary: pre)
  case Nil
  then show ?case by (simp add: parse_payloads_loop.simps chain_first_def)
next
  case (Cons p ps)
  obtain t d where p: "p = (t, d)" by (cases p)
  have t: "t \<noteq> 0" "length d < 65532" "chain1_wf ps" using Cons.prems by (auto simp: p chain1_wf_def)
  let ?w = "[chain_first ps, 0] @ to_be16 (of_nat (4 + length d)) @ d"
  let ?body = "pre @ encode_payloads_body (p # ps) @ rest"
  have "unat (of_nat (4 + length d) :: u16) = 4 + length d" by (rule unat_of_nat16) (use t in simp)
  then have n: "u16be ?body (length pre + 2) = Ok (of_nat (4 + length d))"
    by (simp add: p to_be16_def nth_append)
  have "parse_payloads_loop (chain_first ps) ((pre @ ?w) @ encode_payloads_body ps @ rest) (length (pre @ ?w)) =
      Ok (map raw1 ps)"
    by (rule Cons.IH[OF t(3)])
  moreover have "(pre @ ?w) @ encode_payloads_body ps @ rest = ?body" "length (pre @ ?w) = length pre + (4 + length d)"
    by (simp_all add: p)
  ultimately have ih: "parse_payloads_loop (chain_first ps) ?body (length pre + (4 + length d)) = Ok (map raw1 ps)"
    by (simp only:)
  have "idx ?body (length pre) = Ok (chain_first ps)" "length pre + (4 + length d) \<le> length ?body"
    "slice ?body (length pre + 4) (length pre + (4 + length d)) = Ok d" "chain_first (p # ps) = t"
    by (simp_all add: p to_be16_def nth_append chain_first_def)
  then show ?case
    using t(1) n \<open>unat _ = _\<close> ih
    by (subst parse_payloads_loop.simps) (simp add: p Let_def del: of_nat_add of_nat_numeral encode_payloads_body.simps)
qed

lemma parse_encode_payloads:
  assumes "chain1_wf ps"
  shows "parse_payloads (chain_first ps) (encode_payloads_body ps @ rest) = Ok (map raw1 ps)"
  using parse_encode_loop[OF assms, of "[]" rest] by (simp add: parse_payloads_def)

lemma chain1_wf_simps [simp]:
  "chain1_wf []" "chain1_wf ((t, d) # ps) \<longleftrightarrow> t \<noteq> 0 \<and> length d < 65532 \<and> chain1_wf ps"
  "chain1_wf (ps @ qs) \<longleftrightarrow> chain1_wf ps \<and> chain1_wf qs"
  by (auto simp: chain1_wf_def)

lemma build_message_parse:
  assumes "isakmp_header_wf h" "chain1_wf ps"
  obtains h' where "isakmp_header_parse (build_message h ps) = Ok h'"
    "h' = h\<lparr>ih_next_payload := chain_first ps, ih_length := of_nat (ISAKMP_LEN + length (encode_payloads_body ps))\<rparr>"
    "slice_from (build_message h ps) ISAKMP_LEN = Ok (encode_payloads_body ps)"
    "parse_payloads (ih_next_payload h') (encode_payloads_body ps) = Ok (map raw1 ps)"
proof -
  let ?h = "h\<lparr>ih_next_payload := chain_first ps, ih_length := of_nat (ISAKMP_LEN + length (encode_payloads_body ps))\<rparr>"
  have wf: "isakmp_header_wf ?h" using assms(1) by (simp add: isakmp_header_wf_def)
  have m: "build_message h ps = isakmp_header_to_bytes ?h @ encode_payloads_body ps"
    by (simp add: build_message_def encode_payloads_def)
  show thesis
    using that[of ?h] parse_encode_payloads[OF assms(2), of "[]"] wf unfolding m by simp
qed

lemma length_encode_payloads_body: "length (encode_payloads_body ps) = (\<Sum>p\<leftarrow>ps. 4 + length (snd p))"
  by (induction ps rule: encode_payloads_body.induct) simp_all

lemma length_build_message:
  assumes "isakmp_header_wf h"
  shows "length (build_message h ps) = ISAKMP_LEN + (\<Sum>p\<leftarrow>ps. 4 + length (snd p))"
proof -
  have "isakmp_header_wf (h\<lparr>ih_next_payload := x, ih_length := y\<rparr>)" for x y using assms by (simp add: isakmp_header_wf_def)
  then show ?thesis
    by (simp add: build_message_def encode_payloads_def length_encode_payloads_body isakmp_header_roundtrip(2))
qed

section \<open>Properties\<close>

text \<open>
  The walk of an IKEv1 payload chain ends on any bytes and never panics; when it succeeds, its
  payloads with their headers fit in the body. A chain of typed bodies that fit the length field is
  read back from its encoding, whatever padding follows it.
\<close>
theorem isakmp_chain:
  "parse_payloads first body \<noteq> Panic \<and>
   (parse_payloads first body = Ok qs \<longrightarrow> (\<Sum>p\<leftarrow>qs. 4 + length (p1_data p)) \<le> length body) \<and>
   (chain1_wf ps \<longrightarrow> (case encode_payloads ps of (t, enc) \<Rightarrow> parse_payloads t (enc @ pad) = Ok (map raw1 ps)))"
  using parse_payloads_inside[of first body 0 qs]
  by (auto simp: parse_payloads_def parse_payloads_not_Panic encode_payloads_def
      parse_encode_payloads[unfolded parse_payloads_def])

theorem isakmp_chain_witness:
  "parse_payloads 10 [0, 0, 0, 6, 7, 8, 0] = Ok [\<lparr>p1_type = 10, p1_data = [7, 8]\<rparr>] \<and>
   (\<Sum>p\<leftarrow>[\<lparr>p1_type = 10, p1_data = [7, 8]\<rparr>]. 4 + length (p1_data p)) \<le> length [0 :: u8, 0, 0, 6, 7, 8, 0] \<and>
   (case encode_payloads [(10, [7, 8])] of (t, enc) \<Rightarrow> parse_payloads t (enc @ [0]) = Ok (map raw1 [(10, [7, 8])]))"
proof -
  have "parse_payloads 10 [0, 0, 0, 6, 7, 8, 0] = Ok [\<lparr>p1_type = 10, p1_data = [7, 8]\<rparr>]"
    by (simp add: parse_payloads_def parse_payloads_loop.simps from_be16_def)
  then show ?thesis
    using isakmp_chain[of 10 "[0, 0, 0, 6, 7, 8, 0]" "[\<lparr>p1_type = 10, p1_data = [7, 8]\<rparr>]" "[(10, [7, 8])]" "[0]"]
    by simp
qed

end
