(* ===== verification/Crypto1.thy ===== *)
theory Crypto1
  imports Primitives Isakmp
begin

text \<open>
  The key schedule and encryption of IKEv1: \<open>src/src/ikev1/crypto1.rs\<close> (the PRF, the SKEYID chain, the
  hashes, the feedback expansions, the CBC IVs and AES-CBC) and \<open>src/src/ikev1/phase2.rs\<close> (the
  encrypted messages of Phase 2).

  The lemmas show that the two expansions are the feedback streams of RFC 2409 cut to the wanted
  length, and that an encrypted message is opened by the same key and IV to the payloads it was built
  from, both sides ending with the same IV for the next message.
\<close>

unbundle bit_operations_syntax

section \<open>The PRF\<close>

definition AES_BLOCK :: nat where [simp]: "AES_BLOCK = 16"

datatype prf1 = Prf_Sha1 | Prf_Sha256

definition output_len :: "prf1 \<Rightarrow> nat" where
  "output_len p = (case p of Prf_Sha1 \<Rightarrow> 20 | Prf_Sha256 \<Rightarrow> 32)"

definition prf1_mac :: "primitives \<Rightarrow> prf1 \<Rightarrow> bytes \<Rightarrow> bytes \<Rightarrow> bytes" where
  "prf1_mac C p key data =
     (case p of Prf_Sha1 \<Rightarrow> be_encode 20 (hmac_sha1 C key data) | Prf_Sha256 \<Rightarrow> be_encode 32 (hmac_sha256 C key data))"

definition prf1_hash :: "primitives \<Rightarrow> prf1 \<Rightarrow> bytes \<Rightarrow> bytes" where
  "prf1_hash C p data =
     (case p of Prf_Sha1 \<Rightarrow> be_encode 20 (sha1 C data) | Prf_Sha256 \<Rightarrow> be_encode 32 (sha256 C data))"

lemma length_prf1 [simp]:
  "length (prf1_mac C p key data) = output_len p" "length (prf1_hash C p data) = output_len p"
  by (simp_all add: prf1_mac_def prf1_hash_def output_len_def split: prf1.split)

lemma output_len_bounds [simp]: "20 \<le> output_len p" "output_len p \<le> 32" "0 < output_len p"
  by (simp_all add: output_len_def split: prf1.split)

section \<open>The SKEYID chain and the hashes\<close>

definition skeyid_psk :: "primitives \<Rightarrow> prf1 \<Rightarrow> bytes \<Rightarrow> bytes \<Rightarrow> bytes \<Rightarrow> bytes" where
  "skeyid_psk C p psk ni nr = prf1_mac C p psk (ni @ nr)"

definition skeyid_d :: "primitives \<Rightarrow> prf1 \<Rightarrow> bytes \<Rightarrow> bytes \<Rightarrow> bytes \<Rightarrow> bytes \<Rightarrow> bytes" where
  "skeyid_d C p skeyid gxy cky_i cky_r = prf1_mac C p skeyid (gxy @ cky_i @ cky_r @ [0])"

definition skeyid_a :: "primitives \<Rightarrow> prf1 \<Rightarrow> bytes \<Rightarrow> bytes \<Rightarrow> bytes \<Rightarrow> bytes \<Rightarrow> bytes \<Rightarrow> bytes" where
  "skeyid_a C p skeyid d gxy cky_i cky_r = prf1_mac C p skeyid (d @ gxy @ cky_i @ cky_r @ [1])"

definition skeyid_e :: "primitives \<Rightarrow> prf1 \<Rightarrow> bytes \<Rightarrow> bytes \<Rightarrow> bytes \<Rightarrow> bytes \<Rightarrow> bytes \<Rightarrow> bytes" where
  "skeyid_e C p skeyid a gxy cky_i cky_r = prf1_mac C p skeyid (a @ gxy @ cky_i @ cky_r @ [2])"

definition hash_i :: "primitives \<Rightarrow> prf1 \<Rightarrow> bytes \<Rightarrow> bytes \<Rightarrow> bytes \<Rightarrow> bytes \<Rightarrow> bytes \<Rightarrow> bytes \<Rightarrow> bytes \<Rightarrow> bytes" where
  "hash_i C p skeyid gx_i gx_r cky_i cky_r sa_b id_b =
     prf1_mac C p skeyid (gx_i @ gx_r @ cky_i @ cky_r @ sa_b @ id_b)"

definition hash_r :: "primitives \<Rightarrow> prf1 \<Rightarrow> bytes \<Rightarrow> bytes \<Rightarrow> bytes \<Rightarrow> bytes \<Rightarrow> bytes \<Rightarrow> bytes \<Rightarrow> bytes \<Rightarrow> bytes" where
  "hash_r C p skeyid gx_r gx_i cky_r cky_i sa_b id_b =
     prf1_mac C p skeyid (gx_r @ gx_i @ cky_r @ cky_i @ sa_b @ id_b)"

section \<open>The expansions\<close>

function cipher_key_loop :: "primitives \<Rightarrow> prf1 \<Rightarrow> bytes \<Rightarrow> nat \<Rightarrow> bytes \<Rightarrow> bytes \<Rightarrow> bytes" where
  "cipher_key_loop C p key key_len ka prev =
     (if length ka < key_len then
        let prev' = prf1_mac C p key prev in cipher_key_loop C p key key_len (ka @ prev') prev'
      else take key_len ka)"
  by pat_completeness auto
termination
  by (relation "measure (\<lambda>(_, _, _, n, ka, _). n - length ka)") (auto simp: output_len_def split: prf1.split)

declare cipher_key_loop.simps [simp del]

definition derive_cipher_key :: "primitives \<Rightarrow> prf1 \<Rightarrow> bytes \<Rightarrow> nat \<Rightarrow> bytes" where
  "derive_cipher_key C p ske key_len =
     (if key_len \<le> length ske then take key_len ske
      else let prev = prf1_mac C p ske [0] in cipher_key_loop C p ske key_len prev prev)"

function keymat_loop :: "primitives \<Rightarrow> prf1 \<Rightarrow> bytes \<Rightarrow> bytes \<Rightarrow> nat \<Rightarrow> bytes \<Rightarrow> bytes \<Rightarrow> bytes" where
  "keymat_loop C p skd seed out_len out prev =
     (if length out < out_len then
        let prev' = prf1_mac C p skd (prev @ seed) in keymat_loop C p skd seed out_len (out @ prev') prev'
      else take out_len out)"
  by pat_completeness auto
termination
  by (relation "measure (\<lambda>(_, _, _, _, n, out, _). n - length out)") (auto simp: output_len_def split: prf1.split)

declare keymat_loop.simps [simp del]

definition keymat :: "primitives \<Rightarrow> prf1 \<Rightarrow> bytes \<Rightarrow> u8 \<Rightarrow> bytes \<Rightarrow> bytes \<Rightarrow> bytes \<Rightarrow> nat \<Rightarrow> bytes" where
  "keymat C p skd proto spi ni nr out_len =
     (let seed = [proto] @ spi @ ni @ nr;
          prev = prf1_mac C p skd seed
      in keymat_loop C p skd seed out_len prev prev)"

text \<open>
  The specification of both: a feedback stream of blocks, each the PRF of what the step makes of the
  block before.
\<close>

primrec feedback_block :: "(bytes \<Rightarrow> bytes) \<Rightarrow> bytes \<Rightarrow> nat \<Rightarrow> bytes" where
  "feedback_block step b0 0 = b0"
| "feedback_block step b0 (Suc n) = step (feedback_block step b0 n)"

definition feedback_stream :: "(bytes \<Rightarrow> bytes) \<Rightarrow> bytes \<Rightarrow> nat \<Rightarrow> bytes" where
  "feedback_stream step b0 n = concat (map (feedback_block step b0) [0..<n])"

text \<open>The loop both functions run, as the interface that their proofs share.\<close>

locale feedback =
  fixes step :: "bytes \<Rightarrow> bytes" and block_len :: nat and loop :: "nat \<Rightarrow> bytes \<Rightarrow> bytes \<Rightarrow> bytes"
  assumes step_length: "length (step b) = block_len"
    and block_pos: "0 < block_len"
    and loop_eq: "loop n out prev =
      (if length out < n then loop n (out @ step prev) (step prev) else take n out)"
begin

lemma length_stream: "length b0 = block_len \<Longrightarrow> length (feedback_stream step b0 k) = k * block_len"
proof (induction k)
  case (Suc k)
  then have "length (feedback_block step b0 k) = block_len" by (cases k) (simp_all add: step_length)
  with Suc show ?case by (simp add: feedback_stream_def)
qed (simp add: feedback_stream_def)

lemma loop_stream:
  assumes "length b0 = block_len" "0 < k" "n \<le> m * block_len"
  shows "loop n (feedback_stream step b0 k) (feedback_block step b0 (k - 1)) = take n (feedback_stream step b0 (max k m))"
  using assms(2)
proof (induction "m - k" arbitrary: k)
  case 0
  have "m * block_len \<le> k * block_len" using 0 by simp
  then have "n \<le> length (feedback_stream step b0 k)"
    unfolding length_stream[OF assms(1)] using assms(3) by (rule le_trans[rotated])
  then show ?case using 0 by (subst loop_eq) (simp add: max_def)
next
  case (Suc d)
  then obtain j where k: "k = Suc j" by (cases k) auto
  have grow: "feedback_stream step b0 k @ step (feedback_block step b0 (k - 1)) = feedback_stream step b0 (Suc k)"
    by (simp add: feedback_stream_def k)
  show ?case
  proof (cases "length (feedback_stream step b0 k) < n")
    case True
    have "loop n (feedback_stream step b0 (Suc k)) (feedback_block step b0 (Suc k - 1)) =
        take n (feedback_stream step b0 (max (Suc k) m))"
      using Suc by (intro Suc.hyps) auto
    moreover have "step (feedback_block step b0 (k - 1)) = feedback_block step b0 (Suc k - 1)" by (simp add: k)
    moreover have "max (Suc k) m = m" "max k m = m" using Suc by simp_all
    ultimately show ?thesis using True grow by (subst loop_eq) simp
  next
    case False
    obtain i where m: "m = k + i" using Suc by (metis less_imp_add_positive zero_less_Suc zero_less_diff)
    have "feedback_stream step b0 m = feedback_stream step b0 k @ concat (map (feedback_block step b0) [k..<m])"
      using upt_add_eq_append[of 0 k i] by (simp add: feedback_stream_def m)
    then show ?thesis using False m by (subst loop_eq) (simp add: max_def)
  qed
qed

lemma loop_expands:
  assumes "length b0 = block_len" "n \<le> m * block_len" "0 < m"
  shows "loop n b0 b0 = take n (feedback_stream step b0 m)"
  using loop_stream[OF assms(1), of 1 n m] assms by (simp add: feedback_stream_def max_def)

lemma loop_length:
  assumes "length b0 = block_len"
  shows "length (loop n b0 b0) = n"
proof -
  have "n \<le> Suc n * block_len" using block_pos by (cases block_len) simp_all
  then show ?thesis using loop_expands[OF assms, of n "Suc n"] length_stream[OF assms, of "Suc n"] by simp
qed

end

interpretation cipher_key: feedback "prf1_mac C p key" "output_len p" "cipher_key_loop C p key" for C p key
  by unfold_locales (simp_all add: cipher_key_loop.simps[of C p key] Let_def)

interpretation keymat: feedback "\<lambda>b. prf1_mac C p key (b @ seed)" "output_len p" "keymat_loop C p key seed"
  for C p key seed
  by unfold_locales (simp_all add: keymat_loop.simps[of C p key seed] Let_def)

lemma length_derive_cipher_key [simp]: "length (derive_cipher_key C p k n) = n"
  by (simp add: derive_cipher_key_def Let_def cipher_key.loop_length)

lemma length_keymat [simp]: "length (keymat C p k proto spi ni nr n) = n"
  by (simp add: keymat_def Let_def keymat.loop_length)

section \<open>IVs, padding and AES-CBC\<close>

definition phase1_iv :: "primitives \<Rightarrow> prf1 \<Rightarrow> bytes \<Rightarrow> bytes \<Rightarrow> nat \<Rightarrow> bytes" where
  "phase1_iv C p gx_i gx_r block = take block (prf1_hash C p (gx_i @ gx_r))"

definition phase2_iv :: "primitives \<Rightarrow> prf1 \<Rightarrow> bytes \<Rightarrow> u32 \<Rightarrow> nat \<Rightarrow> bytes" where
  "phase2_iv C p iv1 message_id block = take block (prf1_hash C p (iv1 @ to_be32 message_id))"

definition pad_to_block :: "bytes \<Rightarrow> nat \<Rightarrow> bytes" where
  "pad_to_block data block =
     (let rem = length data mod block in
      if rem \<noteq> 0 then data @ replicate (block - rem) 0 else data)"

definition aes256_cbc_encrypt :: "primitives \<Rightarrow> bytes \<Rightarrow> bytes \<Rightarrow> bytes \<Rightarrow> bytes res" where
  "aes256_cbc_encrypt C key iv plaintext =
     (if length plaintext mod AES_BLOCK \<noteq> 0 then Err (Crypto ''CBC plaintext not block-aligned'')
      else if \<not> cbc_key_ok C key iv then Err (Crypto ''bad AES-CBC key/iv'')
      else Ok (cbc_encrypt C key iv plaintext))"

definition aes256_cbc_decrypt :: "primitives \<Rightarrow> bytes \<Rightarrow> bytes \<Rightarrow> bytes \<Rightarrow> bytes res" where
  "aes256_cbc_decrypt C key iv ciphertext =
     (if ciphertext = [] \<or> length ciphertext mod AES_BLOCK \<noteq> 0 then Err (Crypto ''CBC ciphertext not block-aligned'')
      else if \<not> cbc_key_ok C key iv then Err (Crypto ''bad AES-CBC key/iv'')
      else ok_or (cbc_decrypt C key iv ciphertext) (Crypto ''AES-CBC decrypt failed''))"

definition next_iv :: "bytes \<Rightarrow> nat \<Rightarrow> bytes" where
  "next_iv ciphertext block = drop (length ciphertext - block) ciphertext"

lemma length_ivs [simp]: "length (phase1_iv C p a b 16) = 16" "length (phase2_iv C p iv m 16) = 16"
  by (simp_all add: phase1_iv_def phase2_iv_def output_len_def split: prf1.split)

lemma cbc_not_Panic [simp]:
  "aes256_cbc_encrypt C k iv m \<noteq> Panic" "aes256_cbc_decrypt C k iv m \<noteq> Panic"
  by (simp_all add: aes256_cbc_encrypt_def aes256_cbc_decrypt_def res_iff)

text \<open>Zero padding gives whole blocks and keeps the data in front.\<close>

lemma pad_to_block_spec:
  assumes "0 < block"
  shows "\<exists>k < block. pad_to_block data block = data @ replicate k 0" "length (pad_to_block data block) mod block = 0"
proof -
  let ?r = "length data mod block"
  show "\<exists>k < block. pad_to_block data block = data @ replicate k 0"
  proof (cases "?r = 0")
    case True
    then show ?thesis using assms by (intro exI[of _ 0]) (simp add: pad_to_block_def)
  qed (use assms in \<open>auto simp: pad_to_block_def Let_def intro!: exI[of _ "block - ?r"]\<close>)
  have "(length data + (block - ?r)) mod block = 0"
    using assms mod_less_divisor[OF assms, of "length data"]
    by (metis add.commute le_add_diff_inverse2 less_imp_le mod_add_right_eq mod_self)
  then show "length (pad_to_block data block) mod block = 0" by (simp add: pad_to_block_def Let_def)
qed

lemma cbc_roundtrip:
  assumes "cbc_correct C" "length key = 32" "length iv = 16" "data \<noteq> []"
  obtains ct pad where "aes256_cbc_encrypt C key iv (pad_to_block data 16) = Ok ct" "ct \<noteq> []"
    "length ct mod 16 = 0" "aes256_cbc_decrypt C key iv ct = Ok (data @ pad)"
    "length ct = length (pad_to_block data 16)"
proof -
  let ?m = "pad_to_block data 16"
  obtain k where k: "?m = data @ replicate k 0" using pad_to_block_spec(1)[of 16 data] by auto
  have al: "length ?m mod 16 = 0" by (rule pad_to_block_spec(2)) simp
  have c: "cbc_key_ok C key iv" "length (cbc_encrypt C key iv ?m) = length ?m"
    "cbc_decrypt C key iv (cbc_encrypt C key iv ?m) = Some ?m"
    using assms(1-3) al by (simp_all add: cbc_correct_def)
  have "cbc_encrypt C key iv ?m \<noteq> []" using c(2) k assms(4) by (metis append_is_Nil_conv length_0_conv)
  then show thesis
    using that[of "cbc_encrypt C key iv ?m" "replicate k 0"] c al k
    by (simp add: aes256_cbc_encrypt_def aes256_cbc_decrypt_def)
qed

section \<open>Encrypted messages\<close>

definition phase2_hash :: "primitives \<Rightarrow> prf1 \<Rightarrow> bytes \<Rightarrow> u32 \<Rightarrow> bytes \<Rightarrow> chain1 \<Rightarrow> bytes" where
  "phase2_hash C p a mid prefix ps =
     (let (_, after_body) = encode_payloads ps in prf1_mac C p a (to_be32 mid @ prefix @ after_body))"

definition encrypt_payloads :: "primitives \<Rightarrow> isakmp_header \<Rightarrow> bytes \<Rightarrow> bytes \<Rightarrow> chain1 \<Rightarrow> (bytes \<times> bytes) res" where
  "encrypt_payloads C header enc_key iv ps =
     (let (first, plaintext) = encode_payloads ps;
          padded = pad_to_block plaintext AES_BLOCK
      in bindR (aes256_cbc_encrypt C enc_key iv padded) (\<lambda>ct.
           let h = header\<lparr>ih_next_payload := first, ih_flags := ih_flags header OR FLAG_ENCRYPTION,
                 ih_length := of_nat (ISAKMP_LEN + length ct)\<rparr>
           in Ok (isakmp_header_to_bytes h @ ct, next_iv ct AES_BLOCK)))"

definition build_encrypted_prefixed ::
    "primitives \<Rightarrow> isakmp_header \<Rightarrow> prf1 \<Rightarrow> bytes \<Rightarrow> bytes \<Rightarrow> bytes \<Rightarrow> bytes \<Rightarrow> chain1 \<Rightarrow> (bytes \<times> bytes) res" where
  "build_encrypted_prefixed C header p a enc_key iv hash_prefix ps =
     (let hash = phase2_hash C p a (ih_message_id header) hash_prefix ps;
          (first, plaintext) = encode_payloads ((P_HASH, hash) # ps);
          padded = pad_to_block plaintext AES_BLOCK
      in bindR (aes256_cbc_encrypt C enc_key iv padded) (\<lambda>ct.
           let h = header\<lparr>ih_next_payload := first, ih_flags := ih_flags header OR FLAG_ENCRYPTION,
                 ih_length := of_nat (ISAKMP_LEN + length ct)\<rparr>
           in Ok (isakmp_header_to_bytes h @ ct, next_iv ct AES_BLOCK)))"

definition build_encrypted ::
    "primitives \<Rightarrow> isakmp_header \<Rightarrow> prf1 \<Rightarrow> bytes \<Rightarrow> bytes \<Rightarrow> bytes \<Rightarrow> chain1 \<Rightarrow> (bytes \<times> bytes) res" where
  "build_encrypted C header p a enc_key iv ps = build_encrypted_prefixed C header p a enc_key iv [] ps"

definition find_payload1 :: "payload1 list \<Rightarrow> u8 \<Rightarrow> payload1 option" where
  "find_payload1 ps t = List.find (\<lambda>p. p1_type p = t) ps"

definition decrypt_payloads ::
    "primitives \<Rightarrow> bytes \<Rightarrow> bytes \<Rightarrow> bytes \<Rightarrow> (isakmp_header \<times> payload1 list \<times> bytes) res" where
  "decrypt_payloads C data enc_key iv =
     bindR (isakmp_header_parse data) (\<lambda>header.
     bindR (slice_from data ISAKMP_LEN) (\<lambda>ct.
     bindR (aes256_cbc_decrypt C enc_key iv ct) (\<lambda>plaintext.
     bindR (parse_payloads (ih_next_payload header) plaintext) (\<lambda>ps.
       Ok (header, ps, next_iv ct AES_BLOCK)))))"

definition after_hash :: "payload1 list \<Rightarrow> chain1" where
  "after_hash ps = map (\<lambda>p. (p1_type p, p1_data p)) (filter (\<lambda>p. p1_type p \<noteq> P_HASH) ps)"

definition parse_encrypted ::
    "primitives \<Rightarrow> bytes \<Rightarrow> prf1 \<Rightarrow> bytes \<Rightarrow> bytes \<Rightarrow> bytes \<Rightarrow> (isakmp_header \<times> payload1 list \<times> bytes) res" where
  "parse_encrypted C data p a enc_key iv =
     bindR (isakmp_header_parse data) (\<lambda>header.
     bindR (slice_from data ISAKMP_LEN) (\<lambda>ct.
     bindR (aes256_cbc_decrypt C enc_key iv ct) (\<lambda>plaintext.
     bindR (parse_payloads (ih_next_payload header) plaintext) (\<lambda>ps.
     bindR (ok_or (find_payload1 ps P_HASH) (MissingPayload ''HASH'')) (\<lambda>hash_p.
       if p1_data hash_p \<noteq> phase2_hash C p a (ih_message_id header) [] (after_hash ps) then Err AuthFailed
       else Ok (header, ps, next_iv ct AES_BLOCK))))))"

section \<open>Opening what was sealed\<close>

lemma encode_nonempty: "ps \<noteq> [] \<Longrightarrow> encode_payloads_body ps \<noteq> []"
  by (cases ps) auto

lemma build_encrypted_is_encrypt:
  "build_encrypted_prefixed C h p a k iv prefix ps =
     encrypt_payloads C h k iv ((P_HASH, phase2_hash C p a (ih_message_id h) prefix ps) # ps)"
  by (simp add: build_encrypted_prefixed_def encrypt_payloads_def)

lemma decrypt_encrypt:
  assumes "cbc_correct C" "length key = 32" "length iv = 16" "isakmp_header_wf h" "chain1_wf ps" "ps \<noteq> []"
  obtains m iv' h' where "encrypt_payloads C h key iv ps = Ok (m, iv')" "length iv' = 16"
    "decrypt_payloads C m key iv = Ok (h', map raw1 ps, iv')" "isakmp_header_parse m = Ok h'"
    "ih_message_id h' = ih_message_id h" "ih_exchange_type h' = ih_exchange_type h" "ih_flags h' = ih_flags h OR 1"
    "ih_init_cookie h' = ih_init_cookie h" "length m < 44 + length (encode_payloads_body ps)"
proof -
  obtain ct pad where ct: "aes256_cbc_encrypt C key iv (pad_to_block (encode_payloads_body ps) 16) = Ok ct" "ct \<noteq> []"
    "length ct mod 16 = 0" "aes256_cbc_decrypt C key iv ct = Ok (encode_payloads_body ps @ pad)"
    "length ct = length (pad_to_block (encode_payloads_body ps) 16)"
    by (rule cbc_roundtrip[OF assms(1-3) encode_nonempty[OF assms(6)]])
  let ?h = "h\<lparr>ih_next_payload := chain_first ps, ih_flags := ih_flags h OR 1, ih_length := of_nat (ISAKMP_LEN + length ct)\<rparr>"
  have wf: "isakmp_header_wf ?h" using assms(4) by (simp add: isakmp_header_wf_def)
  have "16 \<le> length ct" using ct(2,3) by (cases "length ct < 16") auto
  then have "length (next_iv ct 16) = 16" by (simp add: next_iv_def)
  moreover have "encrypt_payloads C h key iv ps = Ok (isakmp_header_to_bytes ?h @ ct, next_iv ct 16)"
    using ct(1) by (simp add: encrypt_payloads_def encode_payloads_def)
  moreover have "decrypt_payloads C (isakmp_header_to_bytes ?h @ ct) key iv = Ok (?h, map raw1 ps, next_iv ct 16)"
    using ct(4) wf parse_encode_payloads[OF assms(5), of pad] by (simp add: decrypt_payloads_def)
  moreover have "ISAKMP_LEN + length ct < 44 + length (encode_payloads_body ps)"
    using ct(5) pad_to_block_spec(1)[of 16 "encode_payloads_body ps"] by (auto simp: ISAKMP_LEN_def)
  ultimately show thesis using that[of _ _ ?h] wf by (simp add: isakmp_header_roundtrip(2))
qed

lemma decrypt_not_Panic [simp]: "decrypt_payloads C m k iv \<noteq> Panic"
  using isakmp_header_parse_len parse_payloads_not_Panic
  by (auto simp: decrypt_payloads_def parse_payloads_def res_iff not_less[symmetric])

lemma parse_encrypted_eq:
  "parse_encrypted C m p a k iv = bindR (decrypt_payloads C m k iv) (\<lambda>(h, ps, iv').
     bindR (ok_or (find_payload1 ps P_HASH) (MissingPayload ''HASH'')) (\<lambda>hash_p.
       if p1_data hash_p \<noteq> phase2_hash C p a (ih_message_id h) [] (after_hash ps) then Err AuthFailed
       else Ok (h, ps, iv')))"
  by (simp add: parse_encrypted_def decrypt_payloads_def bindR_assoc cong: if_cong)

lemma after_hash_built: "P_HASH \<notin> fst ` set ps \<Longrightarrow> after_hash (map raw1 ((P_HASH, x) # ps)) = ps"
  by (induction ps) (auto simp: after_hash_def)

lemma find_hash_built [simp]: "find_payload1 (map raw1 ((P_HASH, x) # ps)) 8 = Some \<lparr>p1_type = 8, p1_data = x\<rparr>"
  by (simp add: find_payload1_def)

lemma length_phase2_hash [simp]: "length (phase2_hash C p a mid prefix ps) = output_len p"
  by (simp add: phase2_hash_def encode_payloads_def)

section \<open>Properties\<close>

text \<open>
  The key expansions of IKEv1: the cipher key is the front of \<open>SKEYID_e\<close>, or, when that is too
  short, of the stream \<open>K1 = prf(SKEYID_e, 0), K(n+1) = prf(SKEYID_e, Kn)\<close>; the keying material is
  the front of \<open>K1 = prf(SKEYID_d, seed), K(n+1) = prf(SKEYID_d, Kn | seed)\<close>. Both have exactly
  the wanted length.
\<close>
theorem ikev1_expansions:
  "length (derive_cipher_key C p ske n) = n \<and> length (keymat C p skd proto spi ni nr n) = n \<and>
   derive_cipher_key C p ske n =
     (if n \<le> length ske then take n ske
      else take n (feedback_stream (prf1_mac C p ske) (prf1_mac C p ske [0]) (Suc n))) \<and>
   keymat C p skd proto spi ni nr n =
     take n (feedback_stream (\<lambda>b. prf1_mac C p skd (b @ [proto] @ spi @ ni @ nr))
       (prf1_mac C p skd ([proto] @ spi @ ni @ nr)) (Suc n))"
proof -
  have n: "n \<le> Suc n * output_len p" using output_len_bounds(3)[of p] by (cases "output_len p") simp_all
  have "length (derive_cipher_key C p ske n) = n" "length (keymat C p skd proto spi ni nr n) = n" by simp_all
  then show ?thesis
    using cipher_key.loop_expands[of "prf1_mac C p ske [0]" p n "Suc n"] n
      keymat.loop_expands[of "prf1_mac C p skd ([proto] @ spi @ ni @ nr)" p n "Suc n"]
    by (simp add: derive_cipher_key_def keymat_def Let_def del: append_Cons append_Nil mult_Suc length_take)
qed

text \<open>
  Encrypted IKEv1 messages: what one side builds, the other side opens under the same key and
  IV. It gets the header with the encryption flag, the HASH payload, which it verifies, and the
  payloads, and both sides go on with the same IV.
\<close>
theorem phase2_roundtrip:
  assumes "cbc_correct C" "length key = 32" "length iv = 16" "isakmp_header_wf h" "chain1_wf ps"
    and "P_HASH \<notin> fst ` set ps"
  shows "\<exists>m iv' h'. build_encrypted C h p a key iv ps = Ok (m, iv') \<and> length iv' = 16 \<and>
    parse_encrypted C m p a key iv = Ok (h', map raw1 ((P_HASH, phase2_hash C p a (ih_message_id h) [] ps) # ps), iv') \<and>
    ih_message_id h' = ih_message_id h \<and> ih_flags h' = ih_flags h OR FLAG_ENCRYPTION"
proof -
  let ?ps = "(P_HASH, phase2_hash C p a (ih_message_id h) [] ps) # ps"
  have "chain1_wf ?ps" using assms(5) by (simp add: output_len_def split: prf1.split)
  from decrypt_encrypt[OF assms(1-4) this] obtain m iv' h' where
    m: "encrypt_payloads C h key iv ?ps = Ok (m, iv')" "length iv' = 16" "decrypt_payloads C m key iv = Ok (h', map raw1 ?ps, iv')"
    and f: "ih_message_id h' = ih_message_id h" "ih_flags h' = ih_flags h OR 1"
    by blast
  then have "parse_encrypted C m p a key iv = Ok (h', map raw1 ?ps, iv')"
    using m(3) after_hash_built[OF assms(6)] by (simp add: parse_encrypted_eq find_payload1_def)
  then show ?thesis using m f by (auto simp: build_encrypted_def build_encrypted_is_encrypt)
qed

definition sample_header1 :: isakmp_header where
  "sample_header1 = \<lparr>ih_init_cookie = replicate 8 1, ih_resp_cookie = replicate 8 2, ih_next_payload = 0,
     ih_version = 16, ih_exchange_type = 32, ih_flags = 0, ih_message_id = 7, ih_length = 0\<rparr>"

theorem phase2_roundtrip_witness:
  "\<exists>m iv' h'. build_encrypted toy_primitives sample_header1 Prf_Sha256 [9] (replicate 32 4) (replicate 16 5) [(10, [7, 8])] = Ok (m, iv') \<and>
    length iv' = 16 \<and>
    parse_encrypted toy_primitives m Prf_Sha256 [9] (replicate 32 4) (replicate 16 5) =
      Ok (h', map raw1 ((P_HASH, phase2_hash toy_primitives Prf_Sha256 [9] (ih_message_id sample_header1) [] [(10, [7, 8])]) # [(10, [7, 8])]), iv') \<and>
    ih_message_id h' = ih_message_id sample_header1 \<and> ih_flags h' = ih_flags sample_header1 OR FLAG_ENCRYPTION"
  by (rule phase2_roundtrip[OF toy_cbc_correct]) (simp_all add: sample_header1_def isakmp_header_wf_def)

end
