(* ===== verification/Payloads1.thy ===== *)
theory Payloads1
  imports Isakmp
begin

text \<open>
  The payload bodies of IKEv1: \<open>src/src/ikev1/payloads.rs\<close> (attributes, transforms, proposals, the SA
  payload and identities) and the configuration payload of \<open>src/src/ikev1/modecfg.rs\<close>, which
  XAUTH and Mode-Config exchange.

  Each body is an instance of the interface \<open>body_codec\<close>, and the attribute with the loop
  \<open>parse_attributes\<close> an instance of \<open>item_loop\<close>: the parsers never panic and read back what the
  writers print.
\<close>

unbundle bit_operations_syntax

section \<open>Numbers\<close>

definition IPSEC_DOI :: u32 where [simp]: "IPSEC_DOI = 1"
definition SIT_IDENTITY_ONLY :: u32 where [simp]: "SIT_IDENTITY_ONLY = 1"

definition A_ENCRYPTION :: u16 where [simp]: "A_ENCRYPTION = 1"
definition A_HASH :: u16 where [simp]: "A_HASH = 2"
definition A_AUTH_METHOD :: u16 where [simp]: "A_AUTH_METHOD = 3"
definition A_GROUP_DESC :: u16 where [simp]: "A_GROUP_DESC = 4"
definition A_LIFE_TYPE :: u16 where [simp]: "A_LIFE_TYPE = 11"
definition A_LIFE_DURATION :: u16 where [simp]: "A_LIFE_DURATION = 12"
definition A_KEY_LENGTH :: u16 where [simp]: "A_KEY_LENGTH = 14"

definition ENC_AES_CBC :: u16 where [simp]: "ENC_AES_CBC = 7"
definition HASH_SHA1 :: u16 where [simp]: "HASH_SHA1 = 2"
definition HASH_SHA2_256 :: u16 where [simp]: "HASH_SHA2_256 = 4"
definition AUTH_PSK :: u16 where [simp]: "AUTH_PSK = 1"
definition XAUTH_INIT_PSK :: u16 where [simp]: "XAUTH_INIT_PSK = 65001"
definition V1_LIFE_SECONDS :: u16 where [simp]: "V1_LIFE_SECONDS = 1"

definition V1_ISAKMP :: u8 where [simp]: "V1_ISAKMP = 1"
definition V1_ESP :: u8 where [simp]: "V1_ESP = 3"
definition V1_IPV4_ADDR :: u8 where [simp]: "V1_IPV4_ADDR = 1"
definition V1_IPV4_ADDR_SUBNET :: u8 where [simp]: "V1_IPV4_ADDR_SUBNET = 4"

section \<open>Attributes\<close>

datatype attr_value = Short u16 | Long bytes

record attribute =
  at_type :: u16
  at_value :: attr_value

definition attribute_short :: "u16 \<Rightarrow> u16 \<Rightarrow> attribute" where
  "attribute_short t v = \<lparr>at_type = t, at_value = Short v\<rparr>"

definition attribute_long_u32 :: "u16 \<Rightarrow> u32 \<Rightarrow> attribute" where
  "attribute_long_u32 t v = \<lparr>at_type = t, at_value = Long (to_be32 v)\<rparr>"

definition attribute_long_bytes :: "u16 \<Rightarrow> bytes \<Rightarrow> attribute" where
  "attribute_long_bytes t v = \<lparr>at_type = t, at_value = Long v\<rparr>"

definition attribute_bytes :: "attribute \<Rightarrow> bytes" where
  "attribute_bytes a = (case at_value a of Short v \<Rightarrow> to_be16 v | Long d \<Rightarrow> d)"

definition attribute_parse :: "bytes \<Rightarrow> (attribute \<times> nat) res" where
  "attribute_parse b =
     (if length b < 4 then Err (Truncated 4 (length b))
      else bindR (u16be b 0) (\<lambda>type_af.
           let attr_type = type_af AND 0x7FFF in
           if type_af AND 0x8000 \<noteq> 0 then
             bindR (u16be b 2) (\<lambda>v. Ok (\<lparr>at_type = attr_type, at_value = Short v\<rparr>, 4))
           else
             bindR (u16be b 2) (\<lambda>l.
               let len = unat l in
               if length b < 4 + len then Err (BadLength (4 + len) (length b))
               else bindR (slice b 4 (4 + len)) (\<lambda>d.
                 Ok (\<lparr>at_type = attr_type, at_value = Long d\<rparr>, 4 + len)))))"

definition attribute_to_bytes :: "attribute \<Rightarrow> bytes" where
  "attribute_to_bytes a =
     (case at_value a of
        Short v \<Rightarrow> to_be16 (at_type a OR 0x8000) @ to_be16 v
      | Long d \<Rightarrow> to_be16 (at_type a) @ to_be16 (of_nat (length d)) @ d)"

definition as_u16 :: "attribute \<Rightarrow> u16 option" where
  "as_u16 a =
     (case at_value a of
        Short v \<Rightarrow> Some v
      | Long d \<Rightarrow> if length d = 2 then Some (from_be16 (d ! 0) (d ! 1)) else None)"

lemma attribute_parse_bounds:
  "attribute_parse b = Ok (a, n) \<Longrightarrow> 0 < n \<and> n \<le> length b"
  by (auto simp: attribute_parse_def Let_def res_iff split: if_splits)

lemma attribute_parse_not_Panic: "attribute_parse b \<noteq> Panic"
  by (auto simp: attribute_parse_def Let_def res_iff)

function parse_attributes :: "bytes \<Rightarrow> attribute list res" where
  "parse_attributes b =
     (if b = [] then Ok []
      else bindR (attribute_parse b) (\<lambda>(a, used).
           bindR (slice_from b used) (\<lambda>rest.
           bindR (parse_attributes rest) (\<lambda>as. Ok (a # as)))))"
  by pat_completeness auto
termination
  by (relation "measure length") (auto simp: res_iff dest: attribute_parse_bounds)

declare parse_attributes.simps [simp del]

section \<open>Transforms and proposals\<close>

record transform1 =
  t1_num :: u8
  t1_transform_id :: u8
  t1_attributes :: "attribute list"

definition transform1_parse :: "bytes \<Rightarrow> transform1 res" where
  "transform1_parse body =
     (if length body < 4 then Err (Truncated 4 (length body))
      else bindR (idx body 0) (\<lambda>num.
           bindR (idx body 1) (\<lambda>tid.
           bindR (slice_from body 4) (\<lambda>rest.
           bindR (parse_attributes rest) (\<lambda>as.
             Ok \<lparr>t1_num = num, t1_transform_id = tid, t1_attributes = as\<rparr>)))))"

definition transform1_to_bytes :: "transform1 \<Rightarrow> bytes" where
  "transform1_to_bytes t =
     [t1_num t, t1_transform_id t, 0, 0] @ concat (map attribute_to_bytes (t1_attributes t))"

definition transform1_attr :: "transform1 \<Rightarrow> u16 \<Rightarrow> u16 option" where
  "transform1_attr t attr_type =
     Option.bind (List.find (\<lambda>a. at_type a = attr_type) (t1_attributes t)) as_u16"

record proposal1 =
  q1_num :: u8
  q1_protocol_id :: u8
  q1_spi :: bytes
  q1_transforms :: "transform1 list"

definition proposal1_parse :: "bytes \<Rightarrow> proposal1 res" where
  "proposal1_parse body =
     (if length body < 4 then Err (Truncated 4 (length body))
      else bindR (idx body 2) (\<lambda>s.
           let spi_size = unat s in
           if length body < 4 + spi_size then Err (BadLength (4 + spi_size) (length body))
           else bindR (slice body 4 (4 + spi_size)) (\<lambda>spi.
                bindR (slice_from body (4 + spi_size)) (\<lambda>rest.
                bindR (parse_payloads P_TRANSFORM rest) (\<lambda>ps.
                bindR (mapR (\<lambda>p. transform1_parse (p1_data p)) ps) (\<lambda>transforms.
                bindR (idx body 0) (\<lambda>num.
                bindR (idx body 1) (\<lambda>proto.
                  Ok \<lparr>q1_num = num, q1_protocol_id = proto, q1_spi = spi, q1_transforms = transforms\<rparr>))))))))"

definition proposal1_to_bytes :: "proposal1 \<Rightarrow> bytes" where
  "proposal1_to_bytes p =
     (let tf_chain = map (\<lambda>t. (P_TRANSFORM, transform1_to_bytes t)) (q1_transforms p);
          (_, tf_body) = encode_payloads tf_chain
      in [q1_num p, q1_protocol_id p, of_nat (length (q1_spi p)), of_nat (length (q1_transforms p))] @
         q1_spi p @ tf_body)"

record sa_payload =
  sp_doi :: u32
  sp_situation :: u32
  sp_proposals :: "proposal1 list"

definition sa_payload_parse :: "bytes \<Rightarrow> sa_payload res" where
  "sa_payload_parse body =
     (if length body < 8 then Err (Truncated 8 (length body))
      else bindR (slice body 0 4) (\<lambda>doi.
           bindR (slice body 4 8) (\<lambda>situation.
           bindR (slice_from body 8) (\<lambda>rest.
           bindR (parse_payloads P_PROPOSAL rest) (\<lambda>ps.
           bindR (mapR (\<lambda>p. proposal1_parse (p1_data p)) ps) (\<lambda>proposals.
             Ok \<lparr>sp_doi = from_be32 doi, sp_situation = from_be32 situation, sp_proposals = proposals\<rparr>))))))"

definition sa_payload_to_bytes :: "sa_payload \<Rightarrow> bytes" where
  "sa_payload_to_bytes sa =
     (let prop_chain = map (\<lambda>p. (P_PROPOSAL, proposal1_to_bytes p)) (sp_proposals sa);
          (_, prop_body) = encode_payloads prop_chain
      in to_be32 (sp_doi sa) @ to_be32 (sp_situation sa) @ prop_body)"

section \<open>Identities\<close>

record id1 =
  i1_id_type :: u8
  i1_protocol :: u8
  i1_port :: u16
  i1_data :: bytes

definition id1_ipv4 :: "bytes \<Rightarrow> id1" where
  "id1_ipv4 addr = \<lparr>i1_id_type = V1_IPV4_ADDR, i1_protocol = 0, i1_port = 0, i1_data = addr\<rparr>"

definition id1_parse :: "bytes \<Rightarrow> id1 res" where
  "id1_parse body =
     (if length body < 4 then Err (Truncated 4 (length body))
      else bindR (idx body 0) (\<lambda>t.
           bindR (idx body 1) (\<lambda>p.
           bindR (u16be body 2) (\<lambda>port.
           bindR (slice_from body 4) (\<lambda>d.
             Ok \<lparr>i1_id_type = t, i1_protocol = p, i1_port = port, i1_data = d\<rparr>)))))"

definition id1_to_bytes :: "id1 \<Rightarrow> bytes" where
  "id1_to_bytes i = [i1_id_type i, i1_protocol i] @ to_be16 (i1_port i) @ i1_data i"

section \<open>The configuration payload\<close>

record config_payload =
  cp_cfg_type :: u8
  cp_identifier :: u16
  cp_attributes :: "attribute list"

definition config_payload_new :: "u8 \<Rightarrow> u16 \<Rightarrow> attribute list \<Rightarrow> config_payload" where
  "config_payload_new t i as = \<lparr>cp_cfg_type = t, cp_identifier = i, cp_attributes = as\<rparr>"

definition config_payload_to_bytes :: "config_payload \<Rightarrow> bytes" where
  "config_payload_to_bytes c =
     [cp_cfg_type c, 0] @ to_be16 (cp_identifier c) @ concat (map attribute_to_bytes (cp_attributes c))"

definition config_payload_parse :: "bytes \<Rightarrow> config_payload res" where
  "config_payload_parse body =
     (if length body < 4 then Err (Truncated 4 (length body))
      else bindR (idx body 0) (\<lambda>t.
           bindR (u16be body 2) (\<lambda>i.
           bindR (slice_from body 4) (\<lambda>rest.
           bindR (parse_attributes rest) (\<lambda>as.
             Ok \<lparr>cp_cfg_type = t, cp_identifier = i, cp_attributes = as\<rparr>)))))"

definition config_payload_attr :: "config_payload \<Rightarrow> u16 \<Rightarrow> attribute option" where
  "config_payload_attr c attr_type = List.find (\<lambda>a. at_type a = attr_type) (cp_attributes c)"

section \<open>Reading back\<close>

definition attribute_wf :: "attribute \<Rightarrow> bool" where
  "attribute_wf a \<longleftrightarrow> at_type a < 0x8000 \<and> (case at_value a of Short _ \<Rightarrow> True | Long d \<Rightarrow> length d < 65536)"

lemma type_af_bits:
  assumes "t < (0x8000 :: u16)"
  shows "t AND 0x7FFF = t" "(t OR 0x8000) AND 0x7FFF = t" "t AND 0x8000 = 0" "(t OR 0x8000) AND 0x8000 \<noteq> 0"
proof -
  have m: "bit (0x7FFF :: u16) n \<longleftrightarrow> n < 15" for n
  proof -
    have "(0x7FFF :: u16) = mask 15" by (simp add: mask_eq_exp_minus_1)
    then show ?thesis by (simp only: bit_mask_iff) auto
  qed
  have h: "bit (0x8000 :: u16) n \<longleftrightarrow> n = 15" for n
    using bit_exp_iff[of 15 n, where 'a = "16 word"] by auto
  have b: "bit t n \<Longrightarrow> n < 15" for n
  proof -
    have "take_bit 15 t = t"
      using assms by (simp add: word_less_nat_alt word_unat_eq_iff unsigned_take_bit_eq take_bit_nat_eq_self)
    then show "bit t n \<Longrightarrow> n < 15" by (metis bit_take_bit_iff)
  qed
  show "t AND 0x7FFF = t" "(t OR 0x8000) AND 0x7FFF = t" "t AND 0x8000 = 0"
    by (rule bit_eqI, simp only: bit_and_iff bit_or_iff bit_0_eq bot_apply m h, use b in fastforce)+
  have "bit ((t OR 0x8000) AND 0x8000) 15" by (simp add: bit_and_iff bit_or_iff h)
  then show "(t OR 0x8000) AND 0x8000 \<noteq> 0" by (metis bit_0_eq bot_apply bot_bool_def)
qed

lemma u16be_to_be16 [simp]:
  "u16be (to_be16 v @ rest) 0 = Ok v" "u16be (to_be16 u @ to_be16 v @ rest) 2 = Ok v"
  by (simp_all add: to_be16_def)

lemma attribute_roundtrip:
  assumes "attribute_wf a"
  shows "attribute_parse (attribute_to_bytes a @ rest) = Ok (a, length (attribute_to_bytes a))"
proof (cases "at_value a")
  case (Short v)
  then show ?thesis
    using assms type_af_bits[of "at_type a"]
    by (cases a) (simp add: attribute_parse_def attribute_to_bytes_def attribute_wf_def)
next
  case (Long d)
  then show ?thesis
    using assms type_af_bits[of "at_type a"]
    by (cases a) (simp add: attribute_parse_def attribute_to_bytes_def attribute_wf_def Let_def)
qed

interpretation attributes: item_loop "\<lambda>_. attribute_to_bytes" attribute_parse attribute_wf
    "\<lambda>body off. parse_attributes (drop off body)"
proof
  fix body :: bytes and off
  show "parse_attributes (drop off body) = (if off < length body then
      bindR (slice_from body off) (\<lambda>s. bindR (attribute_parse s) (\<lambda>(x, n).
        bindR (parse_attributes (drop (off + n) body)) (\<lambda>xs. Ok (x # xs)))) else Ok [])"
  proof (cases "attribute_parse (drop off body)")
    case (Ok x)
    then show ?thesis
      using attribute_parse_bounds[of "drop off body"]
      by (subst parse_attributes.simps) (auto simp: slice_from_def add.commute split: prod.split)
  qed (subst parse_attributes.simps, simp)+
qed (use attribute_roundtrip attribute_parse_bounds attribute_parse_not_Panic in auto)

lemma write_all_concat: "write_all (\<lambda>_. w) xs = concat (map w xs)"
  by (induction xs) simp_all

lemma parse_attributes_roundtrip [simp]:
  "\<forall>a \<in> set as. attribute_wf a \<Longrightarrow> parse_attributes (concat (map attribute_to_bytes as)) = Ok as"
  using attributes.loop_write_all[of as "[]"] by (simp add: write_all_concat)

lemma parse_attributes_not_Panic [simp]: "parse_attributes b \<noteq> Panic"
  using attributes.loop_not_Panic[of 0 b] by simp

definition transform1_wf :: "transform1 \<Rightarrow> bool" where
  "transform1_wf t \<longleftrightarrow> (\<forall>a \<in> set (t1_attributes t). attribute_wf a)"

interpretation transform1: body_codec transform1_to_bytes transform1_parse transform1_wf
  by unfold_locales (auto simp: transform1_to_bytes_def transform1_parse_def transform1_wf_def res_iff)

text \<open>
  The nested chains of substructures, which the SA payload and the proposal have alike: a chain of
  one payload type whose bodies are those of a codec.
\<close>

context body_codec
begin

lemma nested_chain:
  assumes "xs \<noteq> []" "t \<noteq> 0" "\<forall>x \<in> set xs. wf x \<and> length (enc x) < 65532"
  shows "bindR (parse_payloads t (encode_payloads_body (map (\<lambda>x. (t, enc x)) xs)))
    (mapR (\<lambda>p. dec (p1_data p))) = Ok xs"
proof -
  let ?ps = "map (\<lambda>x. (t, enc x)) xs"
  have "chain1_wf ?ps" using assms(2,3) by (auto simp: chain1_wf_def)
  moreover have "chain_first ?ps = t" using assms(1) by (cases xs) (simp_all add: chain_first_def)
  ultimately have "parse_payloads t (encode_payloads_body ?ps) = Ok (map raw1 ?ps)"
    using parse_encode_payloads[of ?ps "[]"] by simp
  moreover have "mapR (\<lambda>p. dec (p1_data p)) (map raw1 ?ps) = Ok (map (\<lambda>x. x) xs)"
    using assms(3) by (induction xs) (auto simp: dec_enc)
  ultimately show ?thesis by simp
qed

lemma nested_not_Panic: "mapR (\<lambda>p. dec (p1_data p)) ps \<noteq> Panic"
  by (intro mapR_not_Panic dec_total)

end

definition proposal1_wf :: "proposal1 \<Rightarrow> bool" where
  "proposal1_wf p \<longleftrightarrow> length (q1_spi p) < 256 \<and> q1_transforms p \<noteq> [] \<and>
     (\<forall>t \<in> set (q1_transforms p). transform1_wf t \<and> length (transform1_to_bytes t) < 65532)"

lemma proposal1_roundtrip:
  assumes "proposal1_wf p"
  shows "proposal1_parse (proposal1_to_bytes p) = Ok p"
proof -
  have "unat (of_nat (length (q1_spi p)) :: u8) = length (q1_spi p)"
    by (rule unat_of_nat8) (use assms in \<open>simp add: proposal1_wf_def\<close>)
  moreover have "bindR (parse_payloads 3 (encode_payloads_body (map (\<lambda>x. (3, transform1_to_bytes x)) (q1_transforms p))))
    (mapR (\<lambda>p. transform1_parse (p1_data p))) = Ok (q1_transforms p)"
    by (rule transform1.nested_chain) (use assms in \<open>auto simp: proposal1_wf_def\<close>)
  ultimately show ?thesis
    by (auto simp: proposal1_parse_def proposal1_to_bytes_def encode_payloads_def Let_def bindR_Ok_iff)
qed

interpretation proposal1: body_codec proposal1_to_bytes proposal1_parse proposal1_wf
proof
  show "proposal1_parse bs \<noteq> Panic" for bs
    using parse_payloads_not_Panic transform1.nested_not_Panic
    by (auto simp: proposal1_parse_def parse_payloads_def Let_def res_iff)
qed (rule proposal1_roundtrip)

definition sa_payload_wf :: "sa_payload \<Rightarrow> bool" where
  "sa_payload_wf sa \<longleftrightarrow> sp_proposals sa \<noteq> [] \<and>
     (\<forall>p \<in> set (sp_proposals sa). proposal1_wf p \<and> length (proposal1_to_bytes p) < 65532)"

interpretation sa1: body_codec sa_payload_to_bytes sa_payload_parse sa_payload_wf
proof
  show "sa_payload_parse bs \<noteq> Panic" for bs
    using parse_payloads_not_Panic proposal1.nested_not_Panic
    by (auto simp: sa_payload_parse_def parse_payloads_def Let_def res_iff)
next
  fix sa assume "sa_payload_wf sa"
  then have "bindR (parse_payloads 2 (encode_payloads_body (map (\<lambda>x. (2, proposal1_to_bytes x)) (sp_proposals sa))))
    (mapR (\<lambda>p. proposal1_parse (p1_data p))) = Ok (sp_proposals sa)"
    by (intro proposal1.nested_chain) (auto simp: sa_payload_wf_def)
  then show "sa_payload_parse (sa_payload_to_bytes sa) = Ok sa"
    by (auto simp: sa_payload_parse_def sa_payload_to_bytes_def encode_payloads_def Let_def bindR_Ok_iff)
qed

interpretation identity1: body_codec id1_to_bytes id1_parse "\<lambda>_. True"
  by unfold_locales (auto simp: id1_to_bytes_def id1_parse_def to_be16_def res_iff)

definition config_payload_wf :: "config_payload \<Rightarrow> bool" where
  "config_payload_wf c \<longleftrightarrow> (\<forall>a \<in> set (cp_attributes c). attribute_wf a)"

interpretation config1: body_codec config_payload_to_bytes config_payload_parse config_payload_wf
  by unfold_locales (auto simp: config_payload_to_bytes_def config_payload_parse_def config_payload_wf_def to_be16_def res_iff)

section \<open>Properties\<close>

text \<open>
  C40. The bodies of IKEv1: no bytes make their parsers panic, and an SA payload with its nested
  proposals, transforms and attributes, an identity and a configuration payload are read back from
  their wire forms. Chains must not be empty and lengths must fit their fields.
\<close>
theorem ikev1_bodies:
  "sa_payload_parse bs \<noteq> Panic \<and> id1_parse bs \<noteq> Panic \<and> config_payload_parse bs \<noteq> Panic \<and>
   (sa_payload_wf sa \<longrightarrow> sa_payload_parse (sa_payload_to_bytes sa) = Ok sa) \<and>
   id1_parse (id1_to_bytes i) = Ok i \<and>
   (config_payload_wf c \<longrightarrow> config_payload_parse (config_payload_to_bytes c) = Ok c)"
  by (simp add: sa1.dec_total identity1.dec_total config1.dec_total sa1.dec_enc identity1.dec_enc config1.dec_enc)

definition sample_sa1 :: sa_payload where
  "sample_sa1 = \<lparr>sp_doi = 1, sp_situation = 1, sp_proposals = [\<lparr>q1_num = 1, q1_protocol_id = 3, q1_spi = [1, 2, 3, 4],
     q1_transforms = [\<lparr>t1_num = 1, t1_transform_id = 20,
       t1_attributes = [attribute_short 4 1, attribute_long_u32 2 3600]\<rparr>]\<rparr>]\<rparr>"

definition sample_cfg1 :: config_payload where
  "sample_cfg1 = config_payload_new 1 7 [attribute_short 16520 0, attribute_long_bytes 16521 [97]]"

theorem ikev1_bodies_witness:
  "sa_payload_parse (sa_payload_to_bytes sample_sa1) = Ok sample_sa1 \<and>
   config_payload_parse (config_payload_to_bytes sample_cfg1) = Ok sample_cfg1"
proof -
  have "sa_payload_wf sample_sa1" "config_payload_wf sample_cfg1"
    by (simp_all add: sample_sa1_def sample_cfg1_def config_payload_new_def sa_payload_wf_def config_payload_wf_def
        proposal1_wf_def transform1_wf_def attribute_wf_def attribute_short_def attribute_long_u32_def
        attribute_long_bytes_def transform1_to_bytes_def attribute_to_bytes_def proposal1_to_bytes_def
        encode_payloads_def)
  then show ?thesis using ikev1_bodies[of "[]" sample_sa1 _ sample_cfg1] by blast
qed

end
