(* ===== verification/Phase1.thy ===== *)
theory Phase1
  imports Crypto Crypto1 Payloads1
begin

text \<open>
  Phase 1 of IKEv1, \<open>src/src/ikev1/phase1.rs\<close>: Aggressive Mode with a pre-shared key, as responder
  (\<open>respond_aggressive\<close>, \<open>verify_hash_i\<close>) and as initiator (\<open>initiate_aggressive\<close>,
  \<open>aggressive_complete\<close>). Arrays of eight bytes are byte lists. A function that draws randomness
  returns the new state of the source; \<open>respond_aggressive\<close> draws only after message 1 has been
  checked, which \<open>aggressive_msg1\<close> does.

  The lemmas show that the two sides of a run hold the same state and accept each other's hashes, that
  each side accepts only a hash under its own secret, and which shape every completed state has.
\<close>

unbundle bit_operations_syntax

section \<open>Configuration and state\<close>

definition XAUTH_VENDOR_ID :: bytes where
  "XAUTH_VENDOR_ID = [0x09, 0x00, 0x26, 0x89, 0xdf, 0xd6, 0xb7, 0x12]"

definition is_xauth_auth :: "u16 \<Rightarrow> bool" where
  "is_xauth_auth m \<longleftrightarrow> 65001 \<le> m \<and> m \<le> 65010"

record phase1_config =
  pc_psk :: bytes
  pc_our_id :: id1

record phase1_state =
  st_prf :: prf1
  st_group :: dh_group
  st_cky_i :: bytes
  st_cky_r :: bytes
  st_skeyid :: bytes
  st_skeyid_d :: bytes
  st_skeyid_a :: bytes
  st_skeyid_e :: bytes
  st_enc_key :: bytes
  st_phase1_iv :: bytes
  st_gxi :: bytes
  st_gxr :: bytes
  st_ni :: bytes
  st_nr :: bytes
  st_sai_b :: bytes
  st_idii_b :: bytes

section \<open>The responder\<close>

definition transform_suite :: "transform1 \<Rightarrow> (transform1 \<times> prf1 \<times> dh_group \<times> nat) option" where
  "transform_suite t =
     (if transform1_attr t A_ENCRYPTION \<noteq> Some ENC_AES_CBC \<or> transform1_attr t A_KEY_LENGTH \<noteq> Some 256 then None
      else Option.bind
        (if transform1_attr t A_HASH = Some HASH_SHA2_256 then Some Prf_Sha256
         else if transform1_attr t A_HASH = Some HASH_SHA1 then Some Prf_Sha1 else None) (\<lambda>p.
      Option.bind
        (if transform1_attr t A_GROUP_DESC = Some 2 then Some Modp1024
         else if transform1_attr t A_GROUP_DESC = Some 14 then Some Modp2048 else None) (\<lambda>g.
        if transform1_attr t A_AUTH_METHOD = Some AUTH_PSK \<or> transform1_attr t A_AUTH_METHOD = Some XAUTH_INIT_PSK
        then Some (t, p, g, 32) else None)))"

definition select_transform :: "sa_payload \<Rightarrow> (transform1 \<times> prf1 \<times> dh_group \<times> nat) option" where
  "select_transform sa = find_map (\<lambda>prop. find_map transform_suite (q1_transforms prop)) (sp_proposals sa)"

record aggressive_request =
  ar_cky_i :: bytes
  ar_sai_b :: bytes
  ar_idii_b :: bytes
  ar_gxi :: bytes
  ar_ni :: bytes
  ar_sa :: sa_payload
  ar_chosen :: transform1
  ar_prf :: prf1
  ar_group :: dh_group
  ar_key_len :: nat

definition aggressive_msg1 :: "bytes \<Rightarrow> aggressive_request res" where
  "aggressive_msg1 msg1 =
     bindR (isakmp_header_parse msg1) (\<lambda>hdr.
     if ih_exchange_type hdr \<noteq> EX_AGGRESSIVE then Err (Crypto ''not an Aggressive Mode message'')
     else
     bindR (slice_from msg1 ISAKMP_LEN) (\<lambda>body.
     bindR (parse_payloads (ih_next_payload hdr) body) (\<lambda>ps.
     bindR (ok_or (find_payload1 ps P_SA) (MissingPayload ''SA'')) (\<lambda>sa_p.
     bindR (ok_or (find_payload1 ps P_KE) (MissingPayload ''KE'')) (\<lambda>ke_p.
     bindR (ok_or (find_payload1 ps P_NONCE) (MissingPayload ''NONCE'')) (\<lambda>nonce_p.
     bindR (ok_or (find_payload1 ps P_ID) (MissingPayload ''ID'')) (\<lambda>id_p.
     let gxi = p1_data ke_p in
     bindR (sa_payload_parse (p1_data sa_p)) (\<lambda>sa.
     bindR (ok_or (select_transform sa) NoProposalChosen) (\<lambda>(chosen, p, g, key_len).
     if length gxi \<noteq> public_len g then Err (BadKeyExchange (dh_group_transform_id g) (length gxi))
     else Ok \<lparr>ar_cky_i = ih_init_cookie hdr, ar_sai_b = p1_data sa_p, ar_idii_b = p1_data id_p, ar_gxi = gxi,
             ar_ni = p1_data nonce_p, ar_sa = sa, ar_chosen = chosen, ar_prf = p, ar_group = g,
             ar_key_len = key_len\<rparr>)))))))))"

definition phase1_keys ::
    "primitives \<Rightarrow> prf1 \<Rightarrow> dh_group \<Rightarrow> nat \<Rightarrow> bytes \<Rightarrow> bytes \<Rightarrow> bytes \<Rightarrow> bytes \<Rightarrow> bytes \<Rightarrow> bytes \<Rightarrow> bytes \<Rightarrow> bytes \<Rightarrow>
     bytes \<Rightarrow> bytes \<Rightarrow> phase1_state" where
  "phase1_keys C p g key_len skeyid gxy cky_i cky_r gxi gxr ni nr sai_b idii_b =
     (let d = skeyid_d C p skeyid gxy cky_i cky_r;
          a = skeyid_a C p skeyid d gxy cky_i cky_r;
          e = skeyid_e C p skeyid a gxy cky_i cky_r
      in \<lparr>st_prf = p, st_group = g, st_cky_i = cky_i, st_cky_r = cky_r, st_skeyid = skeyid,
          st_skeyid_d = d, st_skeyid_a = a, st_skeyid_e = e, st_enc_key = derive_cipher_key C p e key_len,
          st_phase1_iv = phase1_iv C p gxi gxr AES_BLOCK, st_gxi = gxi, st_gxr = gxr, st_ni = ni, st_nr = nr,
          st_sai_b = sai_b, st_idii_b = idii_b\<rparr>)"

definition aggressive_header :: "bytes \<Rightarrow> bytes \<Rightarrow> isakmp_header" where
  "aggressive_header cky_i cky_r =
     \<lparr>ih_init_cookie = cky_i, ih_resp_cookie = cky_r, ih_next_payload = P_NONE, ih_version = VERSION_1_0,
      ih_exchange_type = EX_AGGRESSIVE, ih_flags = 0, ih_message_id = 0, ih_length = 0\<rparr>"

definition aggressive_answer :: "sa_payload \<Rightarrow> transform1 \<Rightarrow> bytes \<Rightarrow> bytes \<Rightarrow> bytes \<Rightarrow> bytes \<Rightarrow> chain1" where
  "aggressive_answer sa chosen gxr nr idir_b h =
     (let chosen_auth = (case transform1_attr chosen A_AUTH_METHOD of None \<Rightarrow> 0 | Some m \<Rightarrow> m);
          sar = \<lparr>sp_doi = sp_doi sa, sp_situation = sp_situation sa,
                 sp_proposals = [\<lparr>q1_num = 1, q1_protocol_id = V1_ISAKMP, q1_spi = [], q1_transforms = [chosen]\<rparr>]\<rparr>
      in [(P_SA, sa_payload_to_bytes sar), (P_KE, gxr), (P_NONCE, nr), (P_ID, idir_b), (P_HASH, h)] @
         (if is_xauth_auth chosen_auth then [(P_VENDOR_ID, XAUTH_VENDOR_ID)] else []))"

definition aggressive_respond_with ::
    "primitives \<Rightarrow> phase1_config \<Rightarrow> aggressive_request \<Rightarrow> bytes \<Rightarrow> bytes \<Rightarrow> bytes \<Rightarrow> (bytes \<times> phase1_state) res" where
  "aggressive_respond_with C cfg r cky_r dh_private nr =
     (let p = ar_prf r; g = ar_group r; cky_i = ar_cky_i r; gxi = ar_gxi r; ni = ar_ni r in
      bindR (dh_public C g dh_private) (\<lambda>gxr.
      bindR (dh_shared C g dh_private gxi) (\<lambda>gxy.
        let skeyid = skeyid_psk C p (pc_psk cfg) ni nr;
            st = phase1_keys C p g (ar_key_len r) skeyid gxy cky_i cky_r gxi gxr ni nr (ar_sai_b r) (ar_idii_b r);
            idir_b = id1_to_bytes (pc_our_id cfg);
            h = hash_r C p skeyid gxr gxi cky_r cky_i (ar_sai_b r) idir_b;
            msg2 = build_message (aggressive_header cky_i cky_r)
              (aggressive_answer (ar_sa r) (ar_chosen r) gxr nr idir_b h)
        in Ok (msg2, st))))"

definition respond_aggressive ::
    "'e filler \<Rightarrow> primitives \<Rightarrow> phase1_config \<Rightarrow> bytes \<Rightarrow> 'e \<Rightarrow> (bytes \<times> phase1_state) res \<times> 'e" where
  "respond_aggressive fill C cfg msg1 e =
     (case aggressive_msg1 msg1 of
        Err x \<Rightarrow> (Err x, e)
      | Panic \<Rightarrow> (Panic, e)
      | Ok r \<Rightarrow>
          (let (cky_r, e1) = fill e 8;
               (dh_private, e2) = next_array32 fill e1;
               (nr, e3) = fill e2 16
           in (aggressive_respond_with C cfg r cky_r dh_private nr, e3)))"

definition phase1_resume ::
    "prf1 \<Rightarrow> dh_group \<Rightarrow> bytes \<Rightarrow> bytes \<Rightarrow> bytes \<Rightarrow> bytes \<Rightarrow> bytes \<Rightarrow> bytes \<Rightarrow> bytes \<Rightarrow> phase1_state" where
  "phase1_resume p g cky_i cky_r a d e enc_key iv =
     \<lparr>st_prf = p, st_group = g, st_cky_i = cky_i, st_cky_r = cky_r, st_skeyid = [], st_skeyid_d = d,
      st_skeyid_a = a, st_skeyid_e = e, st_enc_key = enc_key, st_phase1_iv = iv, st_gxi = [], st_gxr = [],
      st_ni = [], st_nr = [], st_sai_b = [], st_idii_b = []\<rparr>"

definition verify_hash_i :: "primitives \<Rightarrow> phase1_state \<Rightarrow> bytes \<Rightarrow> unit res" where
  "verify_hash_i C st msg3 =
     bindR (isakmp_header_parse msg3) (\<lambda>hdr.
     bindR (slice_from msg3 ISAKMP_LEN) (\<lambda>body.
     bindR (if isakmp_encrypted hdr then aes256_cbc_decrypt C (st_enc_key st) (st_phase1_iv st) body else Ok body)
       (\<lambda>payload_bytes.
     bindR (parse_payloads (ih_next_payload hdr) payload_bytes) (\<lambda>ps.
     bindR (ok_or (find_payload1 ps P_HASH) (MissingPayload ''HASH'')) (\<lambda>hash_p.
       let expected = hash_i C (st_prf st) (st_skeyid st) (st_gxi st) (st_gxr st) (st_cky_i st) (st_cky_r st)
             (st_sai_b st) (st_idii_b st)
       in if p1_data hash_p = expected then Ok () else Err AuthFailed)))))"

section \<open>The initiator\<close>

record initiator_config =
  nc_psk :: bytes
  nc_our_id :: id1
  nc_group :: dh_group
  nc_xauth :: bool
  nc_ts_local :: "bytes \<times> bytes"
  nc_ts_remote :: "bytes \<times> bytes"

definition initiator_sa :: "dh_group \<Rightarrow> bool \<Rightarrow> sa_payload" where
  "initiator_sa g xauth =
     (let auth_method = (if xauth then XAUTH_INIT_PSK else AUTH_PSK) in
      \<lparr>sp_doi = IPSEC_DOI, sp_situation = SIT_IDENTITY_ONLY,
       sp_proposals = [\<lparr>q1_num = 1, q1_protocol_id = V1_ISAKMP, q1_spi = [],
         q1_transforms = [\<lparr>t1_num = 1, t1_transform_id = 1,
           t1_attributes = [
             attribute_short A_ENCRYPTION ENC_AES_CBC,
             attribute_short A_KEY_LENGTH 256,
             attribute_short A_HASH HASH_SHA2_256,
             attribute_short A_GROUP_DESC (dh_group_transform_id g),
             attribute_short A_AUTH_METHOD auth_method,
             attribute_short A_LIFE_TYPE V1_LIFE_SECONDS,
             attribute_long_u32 A_LIFE_DURATION 28800]\<rparr>]\<rparr>]\<rparr>)"

record aggressive_initiator =
  ai_prf :: prf1
  ai_group :: dh_group
  ai_psk :: bytes
  ai_cky_i :: bytes
  ai_dh_private :: bytes
  ai_gxi :: bytes
  ai_ni :: bytes
  ai_idi_b :: bytes
  ai_sai_b :: bytes
  ai_key_len :: nat

definition initiate_aggressive ::
    "'e filler \<Rightarrow> primitives \<Rightarrow> initiator_config \<Rightarrow> 'e \<Rightarrow> (bytes \<times> aggressive_initiator) res \<times> 'e" where
  "initiate_aggressive fill C cfg e =
     (let (cky_i, e1) = fill e 8;
          (dh_private, e2) = next_array32 fill e1;
          (ni, e3) = fill e2 16
      in (bindR (dh_public C (nc_group cfg) dh_private) (\<lambda>gxi.
            let sai_b = sa_payload_to_bytes (initiator_sa (nc_group cfg) (nc_xauth cfg));
                idi_b = id1_to_bytes (nc_our_id cfg);
                msg1 = build_message (aggressive_header cky_i (replicate 8 0))
                  [(P_SA, sai_b), (P_KE, gxi), (P_NONCE, ni), (P_ID, idi_b)]
            in Ok (msg1, \<lparr>ai_prf = Prf_Sha256, ai_group = nc_group cfg, ai_psk = nc_psk cfg, ai_cky_i = cky_i,
                 ai_dh_private = dh_private, ai_gxi = gxi, ai_ni = ni, ai_idi_b = idi_b, ai_sai_b = sai_b,
                 ai_key_len = 32\<rparr>)), e3))"

definition aggressive_complete :: "primitives \<Rightarrow> aggressive_initiator \<Rightarrow> bytes \<Rightarrow> (bytes \<times> phase1_state) res" where
  "aggressive_complete C s msg2 =
     bindR (isakmp_header_parse msg2) (\<lambda>hdr.
     if ih_exchange_type hdr \<noteq> EX_AGGRESSIVE then Err (Crypto ''not an Aggressive Mode message'')
     else
     let cky_r = ih_resp_cookie hdr; p = ai_prf s; g = ai_group s; cky_i = ai_cky_i s; gxi = ai_gxi s; ni = ai_ni s in
     bindR (slice_from msg2 ISAKMP_LEN) (\<lambda>body.
     bindR (parse_payloads (ih_next_payload hdr) body) (\<lambda>ps.
     bindR (ok_or (find_payload1 ps P_KE) (MissingPayload ''KE'')) (\<lambda>ke_p.
     bindR (ok_or (find_payload1 ps P_NONCE) (MissingPayload ''NONCE'')) (\<lambda>nonce_p.
     bindR (ok_or (find_payload1 ps P_HASH) (MissingPayload ''HASH'')) (\<lambda>hash_p.
     bindR (ok_or (find_payload1 ps P_ID) (MissingPayload ''ID'')) (\<lambda>id_p.
     let gxr = p1_data ke_p; nr = p1_data nonce_p in
     if length gxr \<noteq> public_len g then Err (BadKeyExchange (dh_group_transform_id g) (length gxr))
     else
     bindR (dh_shared C g (ai_dh_private s) gxr) (\<lambda>gxy.
     let skeyid = skeyid_psk C p (ai_psk s) ni nr;
         expect_hr = hash_r C p skeyid gxr gxi cky_r cky_i (ai_sai_b s) (p1_data id_p) in
     if p1_data hash_p \<noteq> expect_hr then Err AuthFailed
     else
     let h = hash_i C p skeyid gxi gxr cky_i cky_r (ai_sai_b s) (ai_idi_b s);
         msg3 = build_message (aggressive_header cky_i cky_r) [(P_HASH, h)]
     in Ok (msg3, phase1_keys C p g (ai_key_len s) skeyid gxy cky_i cky_r gxi gxr ni nr (ai_sai_b s) (ai_idi_b s))))))))))"

section \<open>The offer\<close>

definition offered :: "dh_group \<Rightarrow> bool \<Rightarrow> transform1" where
  "offered g xauth = hd (q1_transforms (hd (sp_proposals (initiator_sa g xauth))))"

lemma attribute_helpers [simp]:
  "length (attribute_to_bytes (attribute_short t v)) = 4" "length (attribute_to_bytes (attribute_long_u32 t w)) = 8"
  "attribute_wf (attribute_short t v) \<longleftrightarrow> t < 0x8000" "attribute_wf (attribute_long_u32 t w) \<longleftrightarrow> t < 0x8000"
  "at_type (attribute_short t v) = t" "at_type (attribute_long_u32 t w) = t" "as_u16 (attribute_short t v) = Some v"
  by (simp_all add: attribute_to_bytes_def attribute_short_def attribute_long_u32_def attribute_wf_def as_u16_def)

lemma offered_length: "length (transform1_to_bytes (offered g x)) = 36" "transform1_wf (offered g x)"
  by (simp_all add: offered_def initiator_sa_def Let_def transform1_to_bytes_def transform1_wf_def)

lemma single_proposal_length:
  "length (proposal1_to_bytes \<lparr>q1_num = n, q1_protocol_id = pr, q1_spi = spi, q1_transforms = [t]\<rparr>) =
     8 + length spi + length (transform1_to_bytes t)"
  by (simp add: proposal1_to_bytes_def encode_payloads_def)

lemma single_sa_length:
  "length (sa_payload_to_bytes \<lparr>sp_doi = d, sp_situation = s, sp_proposals = [p]\<rparr>) = 12 + length (proposal1_to_bytes p)"
  by (simp add: sa_payload_to_bytes_def encode_payloads_def)

lemma initiator_sa_eq: "initiator_sa g x = \<lparr>sp_doi = 1, sp_situation = 1, sp_proposals =
    [\<lparr>q1_num = 1, q1_protocol_id = 1, q1_spi = [], q1_transforms = [offered g x]\<rparr>]\<rparr>"
  by (simp add: offered_def initiator_sa_def Let_def)

lemma initiator_sa_wf: "sa_payload_wf (initiator_sa g x)" "length (sa_payload_to_bytes (initiator_sa g x)) = 56"
  by (simp_all add: initiator_sa_eq sa_payload_wf_def proposal1_wf_def offered_length single_proposal_length single_sa_length)

lemma select_offered:
  assumes "g \<noteq> X25519"
  shows "select_transform (initiator_sa g x) = Some (offered g x, Prf_Sha256, g, 32)"
  using assms
  by (cases g) (simp_all add: select_transform_def offered_def initiator_sa_def Let_def transform_suite_def
      transform1_attr_def)

lemma answer_wf:
  assumes "length gxr < 65532" "length nr < 65532" "length idr < 65532" "length h < 65532"
  shows "chain1_wf (aggressive_answer (initiator_sa g x) (offered g x) gxr nr idr h)"
proof -
  have "length (sa_payload_to_bytes \<lparr>sp_doi = sp_doi (initiator_sa g x), sp_situation = sp_situation (initiator_sa g x),
      sp_proposals = [\<lparr>q1_num = 1, q1_protocol_id = 1, q1_spi = [], q1_transforms = [offered g x]\<rparr>]\<rparr>) = 56"
    by (simp add: single_sa_length single_proposal_length offered_length)
  then show ?thesis using assms by (simp add: aggressive_answer_def Let_def XAUTH_VENDOR_ID_def)
qed

section \<open>Both sides of a run\<close>

lemma msg1_parse:
  assumes "g \<noteq> X25519" "length cky = 8" "length gxi = public_len g" "length ni = 16" "length idb < 65532"
  shows "aggressive_msg1 (build_message (aggressive_header cky (replicate 8 0))
      [(P_SA, sa_payload_to_bytes (initiator_sa g x)), (P_KE, gxi), (P_NONCE, ni), (P_ID, idb)]) =
    Ok \<lparr>ar_cky_i = cky, ar_sai_b = sa_payload_to_bytes (initiator_sa g x), ar_idii_b = idb, ar_gxi = gxi, ar_ni = ni,
      ar_sa = initiator_sa g x, ar_chosen = offered g x, ar_prf = Prf_Sha256, ar_group = g, ar_key_len = 32\<rparr>"
    (is "aggressive_msg1 (build_message ?h ?ps) = _")
proof -
  have wf: "isakmp_header_wf ?h" "chain1_wf ?ps"
    using assms public_len_bound[of g] initiator_sa_wf(2)[of g x]
    by (simp_all add: isakmp_header_wf_def aggressive_header_def)
  obtain h' where "isakmp_header_parse (build_message ?h ?ps) = Ok h'"
    "h' = ?h\<lparr>ih_next_payload := chain_first ?ps, ih_length := of_nat (ISAKMP_LEN + length (encode_payloads_body ?ps))\<rparr>"
    "slice_from (build_message ?h ?ps) ISAKMP_LEN = Ok (encode_payloads_body ?ps)"
    "parse_payloads (ih_next_payload h') (encode_payloads_body ?ps) = Ok (map raw1 ?ps)"
    by (rule build_message_parse[OF wf])
  then show ?thesis
    using assms select_offered[OF assms(1), of x] sa1.dec_enc[OF initiator_sa_wf(1), of g x]
    by (simp add: aggressive_msg1_def find_payload1_def aggressive_header_def)
qed

lemma msg2_complete:
  assumes "length cky_i = 8" "length cky_r = 8" "length gxr = public_len g" "length nr = 16" "length idr < 65532"
    and "length h = 32" "ai_group s = g"
  shows "aggressive_complete C s (build_message (aggressive_header cky_i cky_r)
      (aggressive_answer (initiator_sa g x) (offered g x) gxr nr idr h)) =
    bindR (dh_shared C g (ai_dh_private s) gxr) (\<lambda>gxy.
      let skeyid = skeyid_psk C (ai_prf s) (ai_psk s) (ai_ni s) nr in
      if h \<noteq> hash_r C (ai_prf s) skeyid gxr (ai_gxi s) cky_r (ai_cky_i s) (ai_sai_b s) idr then Err AuthFailed
      else Ok (build_message (aggressive_header (ai_cky_i s) cky_r)
          [(P_HASH, hash_i C (ai_prf s) skeyid (ai_gxi s) gxr (ai_cky_i s) cky_r (ai_sai_b s) (ai_idi_b s))],
        phase1_keys C (ai_prf s) g (ai_key_len s) skeyid gxy (ai_cky_i s) cky_r (ai_gxi s) gxr (ai_ni s) nr
          (ai_sai_b s) (ai_idi_b s)))"
    (is "aggressive_complete C s (build_message ?h ?ps) = _")
proof -
  have wf: "isakmp_header_wf ?h" "chain1_wf ?ps"
    using assms public_len_bound[of g] answer_wf[of gxr nr idr h g x]
    by (simp_all add: isakmp_header_wf_def aggressive_header_def)
  obtain h' where "isakmp_header_parse (build_message ?h ?ps) = Ok h'"
    "h' = ?h\<lparr>ih_next_payload := chain_first ?ps, ih_length := of_nat (ISAKMP_LEN + length (encode_payloads_body ?ps))\<rparr>"
    "slice_from (build_message ?h ?ps) ISAKMP_LEN = Ok (encode_payloads_body ?ps)"
    "parse_payloads (ih_next_payload h') (encode_payloads_body ?ps) = Ok (map raw1 ?ps)"
    by (rule build_message_parse[OF wf])
  then show ?thesis
    using assms(3,7)
    by (simp add: aggressive_complete_def find_payload1_def aggressive_header_def aggressive_answer_def Let_def
        cong: if_cong)
qed

text \<open>The initiator's message and state, and the responder's, from the values they draw.\<close>

lemma initiate_aggressiveE:
  assumes "initiate_aggressive fi C cfg e = (Ok (msg1, s), e')" "modpow_correct C" "entropy fi"
  obtains cky dh gxi ni where "length cky = 8" "length dh = 32" "length ni = 16" "length gxi = public_len (nc_group cfg)"
    "dh_public C (nc_group cfg) dh = Ok gxi"
    "msg1 = build_message (aggressive_header cky (replicate 8 0))
      [(P_SA, sa_payload_to_bytes (initiator_sa (nc_group cfg) (nc_xauth cfg))), (P_KE, gxi), (P_NONCE, ni),
       (P_ID, id1_to_bytes (nc_our_id cfg))]"
    "s = \<lparr>ai_prf = Prf_Sha256, ai_group = nc_group cfg, ai_psk = nc_psk cfg, ai_cky_i = cky, ai_dh_private = dh,
      ai_gxi = gxi, ai_ni = ni, ai_idi_b = id1_to_bytes (nc_our_id cfg),
      ai_sai_b = sa_payload_to_bytes (initiator_sa (nc_group cfg) (nc_xauth cfg)), ai_key_len = 32\<rparr>"
proof -
  obtain cky e1 where a: "fi e 8 = (cky, e1)" by fastforce
  obtain dh e2 where b: "next_array32 fi e1 = (dh, e2)" by fastforce
  obtain ni e3 where c: "fi e2 16 = (ni, e3)" by fastforce
  have len: "length cky = 8" "length dh = 32" "length ni = 16"
    using entropy.fill_length_eq[OF assms(3) a] entropy.next_array32_length[OF assms(3) b]
      entropy.fill_length_eq[OF assms(3) c] by simp_all
  obtain gxi where "dh_public C (nc_group cfg) dh = Ok gxi" "length gxi = public_len (nc_group cfg)"
    using dh_public_ok[OF assms(2), of dh] len(2) by fastforce
  then show thesis using that[OF len(1,2,3)] assms(1) by (simp add: initiate_aggressive_def a b c Let_def)
qed

lemma respond_aggressive_eq:
  assumes "aggressive_msg1 msg1 = Ok r" "modpow_correct C" "entropy fr"
  obtains cky_r dh gxr nr where "length cky_r = 8" "length dh = 32" "length nr = 16" "length gxr = public_len (ar_group r)"
    "dh_public C (ar_group r) dh = Ok gxr"
    "fst (respond_aggressive fr C cfg msg1 e) = aggressive_respond_with C cfg r cky_r dh nr"
proof -
  obtain cky_r e1 where a: "fr e 8 = (cky_r, e1)" by fastforce
  obtain dh e2 where b: "next_array32 fr e1 = (dh, e2)" by fastforce
  obtain nr e3 where c: "fr e2 16 = (nr, e3)" by fastforce
  have len: "length cky_r = 8" "length dh = 32" "length nr = 16"
    using entropy.fill_length_eq[OF assms(3) a] entropy.next_array32_length[OF assms(3) b]
      entropy.fill_length_eq[OF assms(3) c] by simp_all
  obtain gxr where g: "dh_public C (ar_group r) dh = Ok gxr" "length gxr = public_len (ar_group r)"
    using dh_public_ok[OF assms(2), of dh] len(2) by fastforce
  show thesis
    by (rule that[OF len g(2,1)])
      (simp add: respond_aggressive_def assms(1) a b c)
qed

lemma verify_built_hash_i:
  assumes "length (st_cky_i st) = 8" "length cky_r = 8"
    and "h = hash_i C (st_prf st) (st_skeyid st) (st_gxi st) (st_gxr st) (st_cky_i st) (st_cky_r st) (st_sai_b st) (st_idii_b st)"
  shows "verify_hash_i C st (build_message (aggressive_header (st_cky_i st) cky_r) [(P_HASH, h)]) = Ok ()"
proof -
  let ?h = "aggressive_header (st_cky_i st) cky_r" and ?ps = "[(P_HASH, h)]"
  have wf: "isakmp_header_wf ?h" "chain1_wf ?ps"
    using assms by (simp_all add: isakmp_header_wf_def aggressive_header_def hash_i_def output_len_def split: prf1.split)
  obtain h' where "isakmp_header_parse (build_message ?h ?ps) = Ok h'"
    "h' = ?h\<lparr>ih_next_payload := chain_first ?ps, ih_length := of_nat (ISAKMP_LEN + length (encode_payloads_body ?ps))\<rparr>"
    "slice_from (build_message ?h ?ps) ISAKMP_LEN = Ok (encode_payloads_body ?ps)"
    "parse_payloads (ih_next_payload h') (encode_payloads_body ?ps) = Ok (map raw1 ?ps)"
    by (rule build_message_parse[OF wf])
  then show ?thesis
    using assms(3)
    by (simp add: verify_hash_i_def find_payload1_def aggressive_header_def isakmp_encrypted_def Let_def)
qed

lemma modp_shared_cases:
  assumes "modpow_correct C" "g \<noteq> X25519" "length y = public_len g"
  shows "\<exists>z. dh_shared C g priv y =
    (if modp_valid y (group_prime g) then Ok z else Err (BadKeyExchange (dh_group_transform_id g) (length y)))"
proof -
  obtain ps where "group_prime g = 255 # ps" using group_prime_head[OF assms(2)] by blast
  then obtain z where "modexp C y priv (group_prime g) = Ok z"
    using modexp_correct[OF assms(1), of "group_prime g" 255 ps y priv] by auto
  then show ?thesis using assms(2,3) by (auto simp: modp_group_simps)
qed

lemma id1_bytes_bound: "length (i1_data i) < 65000 \<Longrightarrow> length (id1_to_bytes i) < 65532"
  by (simp add: id1_to_bytes_def)

text \<open>
  A whole run: the responder answers when the initiator's public value is in range, and the initiator
  completes on the answer, with the responder's state, when the responder's public value is.
\<close>

lemma initiated_msg1:
  assumes "modpow_correct C" "entropy fi" "nc_group cfg \<noteq> X25519" "length (i1_data (nc_our_id cfg)) < 65000"
    and i: "initiate_aggressive fi C cfg ei = (Ok (msg1, s), ei')"
  obtains r where "aggressive_msg1 msg1 = Ok r" "ar_group r = nc_group cfg" "ar_gxi r = ai_gxi s"
proof -
  let ?g = "nc_group cfg"
  obtain cky gxi ni where s: "length cky = 8" "length ni = 16" "length gxi = public_len ?g"
    "msg1 = build_message (aggressive_header cky (replicate 8 0))
      [(P_SA, sa_payload_to_bytes (initiator_sa ?g (nc_xauth cfg))), (P_KE, gxi), (P_NONCE, ni),
       (P_ID, id1_to_bytes (nc_our_id cfg))]" "ai_gxi s = gxi"
    by (rule initiate_aggressiveE[OF i assms(1,2)]) simp
  show thesis
    using that msg1_parse[OF assms(3) s(1,3,2) id1_bytes_bound[OF assms(4)], of "nc_xauth cfg"] s(5) unfolding s(4) by simp
qed

lemma aggressive_responds:
  assumes "modpow_correct C" "entropy fi" "entropy fr" "nc_group cfg \<noteq> X25519" "length (i1_data (nc_our_id cfg)) < 65000"
    and i: "initiate_aggressive fi C cfg ei = (Ok (msg1, s), ei')" and v: "modp_valid (ai_gxi s) (group_prime (nc_group cfg))"
  shows "\<exists>msg2 st. fst (respond_aggressive fr C rcfg msg1 er) = Ok (msg2, st)"
proof -
  obtain r where r: "aggressive_msg1 msg1 = Ok r" "ar_group r = nc_group cfg" "ar_gxi r = ai_gxi s"
    by (rule initiated_msg1[OF assms(1,2,4,5) i])
  have len: "length (ai_gxi s) = public_len (nc_group cfg)"
    by (rule initiate_aggressiveE[OF i assms(1,2)]) simp
  obtain cky_r dh gxr nr where t: "dh_public C (ar_group r) dh = Ok gxr"
    "fst (respond_aggressive fr C rcfg msg1 er) = aggressive_respond_with C rcfg r cky_r dh nr"
    by (rule respond_aggressive_eq[OF r(1) assms(1,3), of rcfg er]) simp
  obtain z where "dh_shared C (nc_group cfg) dh (ai_gxi s) = Ok z" using modp_shared_cases[OF assms(1,4) len, of dh] v by auto
  then show ?thesis using t r(2,3) by (simp add: aggressive_respond_with_def Let_def)
qed

lemma aggressive_lengths:
  assumes "length cky = 8" "length cky_r = 8" "g \<noteq> X25519" "length gxi = public_len g" "length gxr = public_len g"
    and "length ni = 16" "length nr = 16" "length (i1_data idi) < 65000" "length (i1_data idr) < 65000"
  shows "length (build_message (aggressive_header cky (replicate 8 0)) [(P_SA, sa_payload_to_bytes (initiator_sa g x)), (P_KE, gxi),
      (P_NONCE, ni), (P_ID, id1_to_bytes idi)]) \<le> 65500"
    "length h = 32 \<Longrightarrow> length (build_message (aggressive_header cky cky_r)
      (aggressive_answer (initiator_sa g x) (offered g x) gxr nr (id1_to_bytes idr) h)) \<le> 65500"
    "length h = 32 \<Longrightarrow> length (build_message (aggressive_header cky cky_r) [(P_HASH, h)]) \<le> 65500"
proof -
  have g: "public_len g \<le> 256" using assms(3) by (cases g) simp_all
  have wf: "isakmp_header_wf (aggressive_header cky r)" if "length r = 8" for r
    using that assms(1) by (simp add: isakmp_header_wf_def aggressive_header_def)
  show "length (build_message (aggressive_header cky (replicate 8 0)) [(P_SA, sa_payload_to_bytes (initiator_sa g x)), (P_KE, gxi),
      (P_NONCE, ni), (P_ID, id1_to_bytes idi)]) \<le> 65500"
    using assms g by (simp add: length_build_message[OF wf] initiator_sa_wf(2) id1_to_bytes_def ISAKMP_LEN_def)
  show "length (build_message (aggressive_header cky cky_r)
      (aggressive_answer (initiator_sa g x) (offered g x) gxr nr (id1_to_bytes idr) h)) \<le> 65500" if "length h = 32"
    using assms g that
    by (simp add: length_build_message[OF wf] aggressive_answer_def Let_def single_sa_length single_proposal_length
        offered_length id1_to_bytes_def ISAKMP_LEN_def XAUTH_VENDOR_ID_def)
  show "length (build_message (aggressive_header cky cky_r) [(P_HASH, h)]) \<le> 65500" if "length h = 32"
    using assms that by (simp add: length_build_message[OF wf] ISAKMP_LEN_def)
qed

lemma aggressive_run:
  assumes C: "modpow_correct C" and f: "entropy fi" "entropy fr" and g: "nc_group cfg \<noteq> X25519"
    and psk: "pc_psk rcfg = nc_psk cfg"
    and ids: "length (i1_data (nc_our_id cfg)) < 65000" "length (i1_data (pc_our_id rcfg)) < 65000"
    and i: "initiate_aggressive fi C cfg ei = (Ok (msg1, s), ei')"
    and r: "fst (respond_aggressive fr C rcfg msg1 er) = Ok (msg2, st)"
  shows "\<exists>h msg3. length h = 32 \<and> msg3 = build_message (aggressive_header (st_cky_i st) (st_cky_r st)) [(P_HASH, h)] \<and>
    st_cky_i st = ai_cky_i s \<and> verify_hash_i C st msg3 = Ok () \<and> aggressive_complete C s msg2 =
    (if modp_valid (st_gxr st) (group_prime (nc_group cfg)) then Ok (msg3, st)
     else Err (BadKeyExchange (dh_group_transform_id (nc_group cfg)) (length (st_gxr st)))) \<and>
    length msg1 \<le> 65500 \<and> length msg2 \<le> 65500 \<and> length msg3 \<le> 65500"
proof -
  let ?g = "nc_group cfg" and ?x = "nc_xauth cfg" and ?idi = "id1_to_bytes (nc_our_id cfg)" and ?idr = "id1_to_bytes (pc_our_id rcfg)"
  let ?sab = "sa_payload_to_bytes (initiator_sa ?g ?x)"
  obtain cky dhi gxi ni where s: "length cky = 8" "length dhi = 32" "length ni = 16" "length gxi = public_len ?g"
    "dh_public C ?g dhi = Ok gxi" "msg1 = build_message (aggressive_header cky (replicate 8 0))
      [(P_SA, ?sab), (P_KE, gxi), (P_NONCE, ni), (P_ID, ?idi)]"
    "s = \<lparr>ai_prf = Prf_Sha256, ai_group = ?g, ai_psk = nc_psk cfg, ai_cky_i = cky, ai_dh_private = dhi,
      ai_gxi = gxi, ai_ni = ni, ai_idi_b = ?idi, ai_sai_b = ?sab, ai_key_len = 32\<rparr>"
    by (rule initiate_aggressiveE[OF i C f(1)])
  have m: "aggressive_msg1 msg1 = Ok \<lparr>ar_cky_i = cky, ar_sai_b = ?sab, ar_idii_b = ?idi, ar_gxi = gxi, ar_ni = ni,
      ar_sa = initiator_sa ?g ?x, ar_chosen = offered ?g ?x, ar_prf = Prf_Sha256, ar_group = ?g, ar_key_len = 32\<rparr>"
    unfolding s(6) by (rule msg1_parse[OF g s(1,4,3) id1_bytes_bound[OF ids(1)]])
  obtain cky_r dhr gxr nr gxy where t: "length cky_r = 8" "length nr = 16" "length gxr = public_len ?g" "dh_public C ?g dhr = Ok gxr"
    "dh_shared C ?g dhr gxi = Ok gxy"
    "msg2 = build_message (aggressive_header cky cky_r) (aggressive_answer (initiator_sa ?g ?x) (offered ?g ?x) gxr nr ?idr
      (hash_r C Prf_Sha256 (skeyid_psk C Prf_Sha256 (nc_psk cfg) ni nr) gxr gxi cky_r cky ?sab ?idr))"
    "st = phase1_keys C Prf_Sha256 ?g 32 (skeyid_psk C Prf_Sha256 (nc_psk cfg) ni nr) gxy cky cky_r gxi gxr ni nr ?sab ?idi"
  proof -
    obtain cky_r dhr gxr nr where t: "length cky_r = 8" "length nr = 16" "length gxr = public_len ?g" "dh_public C ?g dhr = Ok gxr"
      "aggressive_respond_with C rcfg \<lparr>ar_cky_i = cky, ar_sai_b = ?sab, ar_idii_b = ?idi, ar_gxi = gxi, ar_ni = ni,
        ar_sa = initiator_sa ?g ?x, ar_chosen = offered ?g ?x, ar_prf = Prf_Sha256, ar_group = ?g, ar_key_len = 32\<rparr> cky_r dhr nr = Ok (msg2, st)"
      by (rule respond_aggressive_eq[OF m C f(2), of rcfg er]) (use r in auto)
    then show thesis using that[of cky_r nr gxr dhr] psk by (auto simp: aggressive_respond_with_def Let_def bindR_Ok_iff)
  qed
  define h where "h = hash_i C Prf_Sha256 (skeyid_psk C Prf_Sha256 (nc_psk cfg) ni nr) gxi gxr cky cky_r ?sab ?idi"
  define msg3 where "msg3 = build_message (aggressive_header cky cky_r) [(P_HASH, h)]"
  have cks: "st_cky_i st = cky" "st_cky_r st = cky_r" by (simp_all add: t(7) phase1_keys_def Let_def)
  then have ver: "verify_hash_i C st msg3 = Ok ()"
    using verify_built_hash_i[of st cky_r _ C] s(1) t(1) by (simp add: msg3_def h_def t(7) phase1_keys_def Let_def)
  have gxr: "st_gxr st = gxr" by (simp add: t(7) phase1_keys_def Let_def)
  have fin: "aggressive_complete C s msg2 = bindR (dh_shared C ?g dhi gxr) (\<lambda>gxy'. Ok (msg3,
      phase1_keys C Prf_Sha256 ?g 32 (skeyid_psk C Prf_Sha256 (nc_psk cfg) ni nr) gxy' cky cky_r gxi gxr ni nr ?sab ?idi))"
    using msg2_complete[OF s(1) t(1,3,2) id1_bytes_bound[OF ids(2)], of _ s C ?x] unfolding t(6)
    by (simp add: s(7) msg3_def h_def hash_r_def output_len_def Let_def)
  obtain z where z: "dh_shared C ?g dhi gxr = (if modp_valid gxr (group_prime ?g) then Ok z
      else Err (BadKeyExchange (dh_group_transform_id ?g) (length gxr)))"
    using modp_shared_cases[OF C g t(3)] by blast
  have "z = gxy" if "modp_valid gxr (group_prime ?g)"
    using modp_agreement[OF C g s(5) t(4) _ t(5)] z that by simp
  moreover have h: "length h = 32" "ai_cky_i s = cky" by (simp_all add: h_def hash_i_def output_len_def s(7))
  moreover have "length msg1 \<le> 65500" "length msg2 \<le> 65500" "length msg3 \<le> 65500"
    unfolding s(6) t(6) msg3_def using aggressive_lengths[OF s(1) t(1) g s(4) t(3) s(3) t(2) ids] h(1)
    by (auto simp: hash_r_def output_len_def)
  ultimately show ?thesis using ver fin z gxr cks t(7) by (auto simp: msg3_def)
qed

section \<open>The shape of a state\<close>

definition phase1_typed :: "phase1_state \<Rightarrow> bool" where
  "phase1_typed st \<longleftrightarrow> length (st_enc_key st) = 32 \<and> length (st_phase1_iv st) = 16 \<and>
     length (st_cky_i st) = 8 \<and> length (st_cky_r st) = 8 \<and>
     length (st_skeyid st) = output_len (st_prf st) \<and> length (st_skeyid_d st) = output_len (st_prf st) \<and>
     length (st_skeyid_a st) = output_len (st_prf st) \<and> length (st_skeyid_e st) = output_len (st_prf st) \<and>
     length (st_gxi st) = public_len (st_group st) \<and> length (st_gxr st) = public_len (st_group st)"

lemma phase1_keys_typed:
  assumes "length cky_i = 8" "length cky_r = 8" "length gxi = public_len g" "length gxr = public_len g"
  shows "phase1_typed (phase1_keys C p g 32 (skeyid_psk C p psk ni nr) gxy cky_i cky_r gxi gxr ni nr sab idb)"
  using assms by (simp add: phase1_typed_def phase1_keys_def Let_def skeyid_psk_def skeyid_d_def skeyid_a_def skeyid_e_def)

lemma select_transform_key_len: "select_transform sa = Some (t, p, g, n) \<Longrightarrow> n = 32"
  by (auto simp: select_transform_def find_map_Some transform_suite_def bind_eq_Some_conv split: if_splits)

lemma aggressive_msg1_typed:
  assumes "aggressive_msg1 m = Ok r"
  shows "length (ar_cky_i r) = 8 \<and> length (ar_gxi r) = public_len (ar_group r) \<and> ar_key_len r = 32"
  using assms
  by (auto simp: aggressive_msg1_def Let_def bindR_Ok_iff ok_or_iff isakmp_header_wf_def
      dest!: isakmp_header_parse_len select_transform_key_len split: if_splits)

lemma respond_typed:
  assumes "modpow_correct C" "entropy fr" "respond_aggressive fr C cfg msg1 e = (Ok (msg2, st), e')"
  shows "phase1_typed st"
proof -
  obtain r where r: "aggressive_msg1 msg1 = Ok r"
    using assms(3) by (auto simp: respond_aggressive_def split: res.splits)
  obtain cky_r dh gxr nr where t: "length cky_r = 8" "length gxr = public_len (ar_group r)" "dh_public C (ar_group r) dh = Ok gxr"
    "aggressive_respond_with C cfg r cky_r dh nr = Ok (msg2, st)"
    by (rule respond_aggressive_eq[OF r assms(1,2), of cfg e]) (use assms(3) in auto)
  then show ?thesis
    using aggressive_msg1_typed[OF r] by (auto simp: aggressive_respond_with_def Let_def bindR_Ok_iff intro!: phase1_keys_typed)
qed

lemma complete_typed:
  assumes "length (ai_cky_i s) = 8" "length (ai_gxi s) = public_len (ai_group s)" "ai_key_len s = 32"
    and "aggressive_complete C s msg2 = Ok (msg3, st)"
  shows "phase1_typed st"
  using assms
  by (auto simp: aggressive_complete_def Let_def bindR_Ok_iff ok_or_iff isakmp_header_wf_def
      dest!: isakmp_header_parse_len split: if_splits intro!: phase1_keys_typed)

text \<open>The public value that a side draws in Aggressive Mode is neither of the degenerate ones.\<close>

definition public_in_range :: "'e filler \<Rightarrow> primitives \<Rightarrow> dh_group \<Rightarrow> 'e \<Rightarrow> bool" where
  "public_in_range fill C g e \<longleftrightarrow>
     (case dh_public C g (fst (next_array32 fill (snd (fill e 8)))) of
        Ok v \<Rightarrow> modp_valid v (group_prime g) | _ \<Rightarrow> False)"

lemma initiator_in_range:
  "public_in_range fi C (nc_group cfg) e \<Longrightarrow> initiate_aggressive fi C cfg e = (Ok (msg1, s), e') \<Longrightarrow>
     modp_valid (ai_gxi s) (group_prime (nc_group cfg))"
  by (auto simp: public_in_range_def initiate_aggressive_def split_beta Let_def bindR_Ok_iff)

lemma responder_in_range:
  assumes "public_in_range fr C (ar_group r) e" "aggressive_msg1 msg1 = Ok r"
    and "fst (respond_aggressive fr C cfg msg1 e) = Ok (msg2, st)"
  shows "modp_valid (st_gxr st) (group_prime (ar_group r))"
  using assms
  by (auto simp: public_in_range_def respond_aggressive_def aggressive_respond_with_def phase1_keys_def split_beta
      Let_def bindR_Ok_iff)

text \<open>A run with the private value two on both sides, whose public values are in range.\<close>

definition two_fill :: "unit filler" where
  "two_fill e n = (if n = 0 then [] else replicate (n - 1) 0 @ [2], e)"

interpretation two: entropy two_fill
  by unfold_locales (simp add: two_fill_def)

definition sample_initiator1 :: initiator_config where
  "sample_initiator1 = \<lparr>nc_psk = [1, 2, 3], nc_our_id = id1_ipv4 [10, 0, 0, 1], nc_group = Modp1024, nc_xauth = False,
     nc_ts_local = ([10, 0, 0, 1], [255, 255, 255, 255]), nc_ts_remote = ([0, 0, 0, 0], [0, 0, 0, 0])\<rparr>"

definition sample_responder1 :: phase1_config where
  "sample_responder1 = \<lparr>pc_psk = [1, 2, 3], pc_our_id = id1_ipv4 [10, 0, 0, 2]\<rparr>"

lemma two_in_range: "public_in_range two_fill toy_primitives Modp1024 e"
proof -
  obtain ps where p: "group_prime Modp1024 = 255 # ps" using group_prime_head[of Modp1024] by auto
  let ?d = "fst (next_array32 two_fill (snd (two_fill e 8)))"
  have "?d = replicate 31 0 @ [2]" by (simp add: two_fill_def next_array32_def)
  then have d: "be_nat ?d = 2" using be_nat_zeros[of 31 "[2]"] by (simp add: be_nat_def)
  have n: "be_nat [2] = 2" "4 < be_nat (group_prime Modp1024) - 1"
    by (simp_all add: be_nat_def MODP_1024_PRIME_def)
  obtain v where "modexp toy_primitives [2] ?d (group_prime Modp1024) = Ok v" "be_nat v = 4"
    using modexp_correct[OF toy_modpow_correct p, of "[2]" ?d] n(2) unfolding d n(1) by auto
  then show ?thesis using n(2) by (simp add: public_in_range_def modp_public_def modp_valid_def)
qed

lemma sample_configs:
  "nc_group sample_initiator1 \<noteq> X25519" "nc_group sample_initiator1 = Modp1024"
  "length (i1_data (nc_our_id sample_initiator1)) < 65000" "length (i1_data (pc_our_id sample_responder1)) < 65000"
  "pc_psk sample_responder1 = nc_psk sample_initiator1"
  by (simp_all add: sample_initiator1_def sample_responder1_def id1_ipv4_def)

lemma initiates:
  assumes "modpow_correct C" "entropy fi"
  shows "\<exists>msg1 s e'. initiate_aggressive fi C cfg e = (Ok (msg1, s), e')"
proof -
  let ?d = "fst (next_array32 fi (snd (fi e 8)))"
  have "length ?d = 32" using entropy.next_array32_length[OF assms(2), of "snd (fi e 8)" ?d] by (metis prod.collapse)
  then obtain v where "dh_public C (nc_group cfg) ?d = Ok v" using dh_public_ok[OF assms(1), of ?d] by fastforce
  then show ?thesis by (simp add: initiate_aggressive_def split_beta Let_def)
qed

lemma sample_run:
  obtains msg1 s e' msg2 st er msg3 where "initiate_aggressive two_fill toy_primitives sample_initiator1 () = (Ok (msg1, s), e')"
    "respond_aggressive two_fill toy_primitives sample_responder1 msg1 () = (Ok (msg2, st), er)"
    "aggressive_complete toy_primitives s msg2 = Ok (msg3, st)"
proof -
  note ax = toy_modpow_correct two.entropy_axioms
  obtain msg1 s e' where i: "initiate_aggressive two_fill toy_primitives sample_initiator1 () = (Ok (msg1, s), e')"
    using initiates[OF ax] by blast
  have v: "modp_valid (ai_gxi s) (group_prime (nc_group sample_initiator1))"
    by (rule initiator_in_range[OF _ i]) (simp add: sample_configs(2) two_in_range)
  obtain msg2 st er where r: "respond_aggressive two_fill toy_primitives sample_responder1 msg1 () = (Ok (msg2, st), er)"
    using aggressive_responds[OF ax ax(2) sample_configs(1,3) i v, of sample_responder1 "()"]
    by (cases "respond_aggressive two_fill toy_primitives sample_responder1 msg1 ()") auto
  obtain m where m: "aggressive_msg1 msg1 = Ok m" "ar_group m = Modp1024"
    by (rule initiated_msg1[OF ax sample_configs(1,3) i]) (simp add: sample_configs(2))
  have "modp_valid (st_gxr st) (group_prime (ar_group m))"
    using responder_in_range[of two_fill toy_primitives m "()" msg1 sample_responder1 msg2 st] r m two_in_range by simp
  then show thesis
    using that[OF i r] aggressive_run[OF ax ax(2) sample_configs(1,5,3,4) i, of "()" msg2 st] r m(2)
    by (auto simp: sample_configs(2))
qed

section \<open>Properties\<close>

text \<open>
  C9. Aggressive Mode agrees: when two endpoints share the pre-shared key and the responder answers
  the initiator's first message, the initiator completes with exactly the responder's state (keys,
  IV, cookies, nonces and transcript) and sends a message whose hash the responder accepts, unless the
  responder's public value is degenerate (not between two and the prime minus two), which it
  rejects.
\<close>
theorem aggressive_agreement:
  assumes "modpow_correct C" "entropy fi" "entropy fr" "nc_group cfg \<noteq> X25519" "pc_psk rcfg = nc_psk cfg"
    and "length (i1_data (nc_our_id cfg)) < 65000" "length (i1_data (pc_our_id rcfg)) < 65000"
    and "initiate_aggressive fi C cfg ei = (Ok (msg1, s), ei')"
    and "respond_aggressive fr C rcfg msg1 er = (Ok (msg2, st), er')"
  shows "\<exists>msg3. verify_hash_i C st msg3 = Ok () \<and>
    aggressive_complete C s msg2 =
      (if 1 < be_nat (st_gxr st) \<and> be_nat (st_gxr st) < be_nat (group_prime (nc_group cfg)) - 1 then Ok (msg3, st)
       else Err (BadKeyExchange (dh_group_transform_id (nc_group cfg)) (length (st_gxr st))))"
  using aggressive_run[OF assms(1-8), of er msg2 st] assms(9) by (auto simp: modp_valid_def)

theorem aggressive_agreement_witness:
  "\<exists>msg1 s e' msg2 st er msg3. initiate_aggressive two_fill toy_primitives sample_initiator1 () = (Ok (msg1, s), e') \<and>
    respond_aggressive two_fill toy_primitives sample_responder1 msg1 () = (Ok (msg2, st), er) \<and>
    aggressive_complete toy_primitives s msg2 = Ok (msg3, st) \<and> verify_hash_i toy_primitives st msg3 = Ok ()"
proof -
  obtain msg1 s e' msg2 st er msg3 where r: "initiate_aggressive two_fill toy_primitives sample_initiator1 () = (Ok (msg1, s), e')"
    "respond_aggressive two_fill toy_primitives sample_responder1 msg1 () = (Ok (msg2, st), er)"
    "aggressive_complete toy_primitives s msg2 = Ok (msg3, st)"
    by (rule sample_run)
  from aggressive_agreement[OF toy_modpow_correct two.entropy_axioms two.entropy_axioms sample_configs(1,5,3,4) r(1,2)]
  have "verify_hash_i toy_primitives st msg3 = Ok ()" using r(3) by (auto split: if_splits)
  with r show ?thesis by blast
qed

text \<open>
  C36. The shape of a Phase-1 state: whatever messages arrive, a state that the responder or the
  initiator completes has an AES-256 key, a block-sized IV, cookies and public values of their
  sizes and keys of the PRF's length, so no later step fails on a size.
\<close>
theorem phase1_state_typed:
  assumes "modpow_correct C" "entropy fi" "entropy fr"
    and "respond_aggressive fr C rcfg any1 er = (Ok (msg2, st), er')"
    and "initiate_aggressive fi C cfg ei = (Ok (msg1, s), ei')" "aggressive_complete C s any2 = Ok (msg3, st')"
  shows "phase1_typed st \<and> phase1_typed st'"
proof -
  have "length (ai_cky_i s) = 8 \<and> length (ai_gxi s) = public_len (ai_group s) \<and> ai_key_len s = 32"
    by (rule initiate_aggressiveE[OF assms(5,1,2)]) simp
  then show ?thesis using respond_typed[OF assms(1,3,4)] complete_typed[OF _ _ _ assms(6)] by blast
qed

theorem phase1_state_typed_witness:
  "\<exists>msg1 s e' msg2 st er msg3 st'. initiate_aggressive two_fill toy_primitives sample_initiator1 () = (Ok (msg1, s), e') \<and>
    respond_aggressive two_fill toy_primitives sample_responder1 msg1 () = (Ok (msg2, st), er) \<and>
    aggressive_complete toy_primitives s msg2 = Ok (msg3, st') \<and> phase1_typed st \<and> phase1_typed st'"
proof -
  obtain msg1 s e' msg2 st er msg3 where r: "initiate_aggressive two_fill toy_primitives sample_initiator1 () = (Ok (msg1, s), e')"
    "respond_aggressive two_fill toy_primitives sample_responder1 msg1 () = (Ok (msg2, st), er)"
    "aggressive_complete toy_primitives s msg2 = Ok (msg3, st)"
    by (rule sample_run)
  from phase1_state_typed[OF toy_modpow_correct two.entropy_axioms two.entropy_axioms r(2,1,3)] r
  show ?thesis by blast
qed

end
