(* ===== verification/Quick.thy ===== *)
theory Quick
  imports Phase1 Esp
begin

text \<open>
  Quick Mode of IKEv1, \<open>src/src/ikev1/quick.rs\<close>: the three encrypted messages that negotiate an ESP
  CHILD SA under the keys of Phase 1, as initiator (\<open>initiate_quick\<close>, \<open>quick_initiator_complete\<close>)
  and as responder (\<open>respond_quick\<close>, \<open>quick_responder_complete\<close>).

  The lemmas show that over one Phase-1 state the exchange always completes and gives both sides
  CHILD SAs with mirrored directions, and that each side accepts only a hash under \<open>SKEYID_a\<close>
  that covers both nonces.
\<close>

unbundle bit_operations_syntax

section \<open>Proposals and keys\<close>

definition ESP_KEYMAT_LEN :: nat where [simp]: "ESP_KEYMAT_LEN = 36"
definition ESP_AES_GCM_16 :: u8 where [simp]: "ESP_AES_GCM_16 = 20"
definition EA_LIFE_TYPE :: u16 where [simp]: "EA_LIFE_TYPE = 1"
definition EA_LIFE_DURATION :: u16 where [simp]: "EA_LIFE_DURATION = 2"
definition EA_ENCAP_MODE :: u16 where [simp]: "EA_ENCAP_MODE = 4"
definition EA_KEY_LENGTH :: u16 where [simp]: "EA_KEY_LENGTH = 6"
definition ENCAP_TUNNEL :: u16 where [simp]: "ENCAP_TUNNEL = 1"
definition LIFE_SECONDS :: u16 where [simp]: "LIFE_SECONDS = 1"

definition qm_header :: "bytes \<Rightarrow> bytes \<Rightarrow> u32 \<Rightarrow> isakmp_header" where
  "qm_header cky_i cky_r msgid =
     \<lparr>ih_init_cookie = cky_i, ih_resp_cookie = cky_r, ih_next_payload = P_NONE, ih_version = VERSION_1_0,
      ih_exchange_type = EX_QUICK, ih_flags = 0, ih_message_id = msgid, ih_length = 0\<rparr>"

definition quick_esp_sa :: "u32 \<Rightarrow> sa_payload" where
  "quick_esp_sa spi =
     \<lparr>sp_doi = IPSEC_DOI, sp_situation = SIT_IDENTITY_ONLY,
      sp_proposals = [\<lparr>q1_num = 1, q1_protocol_id = V1_ESP, q1_spi = to_be32 spi,
        q1_transforms = [\<lparr>t1_num = 1, t1_transform_id = ESP_AES_GCM_16,
          t1_attributes = [
            attribute_short EA_ENCAP_MODE ENCAP_TUNNEL,
            attribute_short EA_LIFE_TYPE LIFE_SECONDS,
            attribute_long_u32 EA_LIFE_DURATION 3600,
            attribute_short EA_KEY_LENGTH 256]\<rparr>]\<rparr>]\<rparr>"

definition ts_id :: "bytes \<Rightarrow> bytes \<Rightarrow> bytes" where
  "ts_id addr netmask =
     id1_to_bytes \<lparr>i1_id_type = V1_IPV4_ADDR_SUBNET, i1_protocol = 0, i1_port = 0, i1_data = addr @ netmask\<rparr>"

definition peer_esp_spi :: "payload1 list \<Rightarrow> u32 res" where
  "peer_esp_spi ps =
     bindR (ok_or (find_payload1 ps P_SA) (MissingPayload ''SA'')) (\<lambda>sa_p.
     bindR (sa_payload_parse (p1_data sa_p)) (\<lambda>sa.
     bindR (ok_or (case sp_proposals sa of [] \<Rightarrow> None | p # _ \<Rightarrow> Some p) NoProposalChosen) (\<lambda>prop.
       if length (q1_spi prop) \<noteq> 4 then Err NoProposalChosen else Ok (from_be32 (q1_spi prop)))))"

definition hash3 :: "primitives \<Rightarrow> prf1 \<Rightarrow> bytes \<Rightarrow> u32 \<Rightarrow> bytes \<Rightarrow> bytes \<Rightarrow> bytes" where
  "hash3 C p a msgid ni nr = prf1_mac C p a ([0] @ to_be32 msgid @ ni @ nr)"

definition derive_child :: "primitives \<Rightarrow> prf1 \<Rightarrow> bytes \<Rightarrow> bytes \<Rightarrow> bytes \<Rightarrow> u32 \<Rightarrow> u32 \<Rightarrow> child_sa res" where
  "derive_child C p d ni nr local_spi peer_spi =
     (let km_local = keymat C p d V1_ESP (to_be32 local_spi) ni nr ESP_KEYMAT_LEN;
          km_peer = keymat C p d V1_ESP (to_be32 peer_spi) ni nr ESP_KEYMAT_LEN
      in bindR (esp_sa_new peer_spi km_peer) (\<lambda>out.
         bindR (esp_sa_new local_spi km_local) (\<lambda>inb.
           Ok \<lparr>ch_outbound = out, ch_inbound = inb\<rparr>)))"

section \<open>The initiator\<close>

record quick_initiator =
  qi_prf :: prf1
  qi_skeyid_a :: bytes
  qi_skeyid_d :: bytes
  qi_enc_key :: bytes
  qi_cky_i :: bytes
  qi_cky_r :: bytes
  qi_msgid :: u32
  qi_local_spi :: u32
  qi_ni :: bytes
  qi_iv1 :: bytes

definition initiate_quick ::
    "'e filler \<Rightarrow> primitives \<Rightarrow> phase1_state \<Rightarrow> bytes \<times> bytes \<Rightarrow> bytes \<times> bytes \<Rightarrow> 'e \<Rightarrow>
     (bytes \<times> quick_initiator) res \<times> 'e" where
  "initiate_quick fill C st ts_local ts_remote e =
     (let (spi_b, e1) = fill e 4;
          local_spi = from_be32 spi_b;
          (mid_b, e2) = fill e1 4;
          msgid = from_be32 mid_b OR 1;
          (ni, e3) = fill e2 16;
          iv0 = phase2_iv C (st_prf st) (st_phase1_iv st) msgid AES_BLOCK;
          after = [(P_SA, sa_payload_to_bytes (quick_esp_sa local_spi)), (P_NONCE, ni),
            (P_ID, ts_id (fst ts_local) (snd ts_local)), (P_ID, ts_id (fst ts_remote) (snd ts_remote))]
      in (bindR (build_encrypted C (qm_header (st_cky_i st) (st_cky_r st) msgid) (st_prf st) (st_skeyid_a st)
            (st_enc_key st) iv0 after) (\<lambda>(msg1, iv1).
            Ok (msg1, \<lparr>qi_prf = st_prf st, qi_skeyid_a = st_skeyid_a st, qi_skeyid_d = st_skeyid_d st,
              qi_enc_key = st_enc_key st, qi_cky_i = st_cky_i st, qi_cky_r = st_cky_r st, qi_msgid = msgid,
              qi_local_spi = local_spi, qi_ni = ni, qi_iv1 = iv1\<rparr>)), e3))"

definition quick_initiator_complete :: "primitives \<Rightarrow> quick_initiator \<Rightarrow> bytes \<Rightarrow> (bytes \<times> child_sa) res" where
  "quick_initiator_complete C q msg2 =
     bindR (decrypt_payloads C msg2 (qi_enc_key q) (qi_iv1 q)) (\<lambda>(_, ps, iv2).
     bindR (ok_or (find_payload1 ps P_NONCE) (MissingPayload ''NONCE'')) (\<lambda>nonce_p.
     let nr = p1_data nonce_p in
     bindR (peer_esp_spi ps) (\<lambda>peer_spi.
     bindR (ok_or (find_payload1 ps P_HASH) (MissingPayload ''HASH'')) (\<lambda>hash_p.
     if p1_data hash_p \<noteq> phase2_hash C (qi_prf q) (qi_skeyid_a q) (qi_msgid q) (qi_ni q) (after_hash ps) then Err AuthFailed
     else
     let h3 = hash3 C (qi_prf q) (qi_skeyid_a q) (qi_msgid q) (qi_ni q) nr in
     bindR (encrypt_payloads C (qm_header (qi_cky_i q) (qi_cky_r q) (qi_msgid q)) (qi_enc_key q) iv2 [(P_HASH, h3)]) (\<lambda>(msg3, _).
     bindR (derive_child C (qi_prf q) (qi_skeyid_d q) (qi_ni q) nr (qi_local_spi q) peer_spi) (\<lambda>child.
       Ok (msg3, child)))))))"

section \<open>The responder\<close>

record quick_responder =
  qr_prf :: prf1
  qr_skeyid_a :: bytes
  qr_skeyid_d :: bytes
  qr_enc_key :: bytes
  qr_msgid :: u32
  qr_local_spi :: u32
  qr_peer_spi :: u32
  qr_ni :: bytes
  qr_nr :: bytes
  qr_iv2 :: bytes

definition quick_msg1 :: "primitives \<Rightarrow> phase1_state \<Rightarrow> bytes \<Rightarrow> (u32 \<times> payload1 list \<times> bytes \<times> bytes \<times> u32) res" where
  "quick_msg1 C st msg1 =
     bindR (isakmp_header_parse msg1) (\<lambda>hdr.
     if ih_exchange_type hdr \<noteq> EX_QUICK then Err (Crypto ''not a Quick Mode message'')
     else
     let msgid = ih_message_id hdr;
         iv0 = phase2_iv C (st_prf st) (st_phase1_iv st) msgid AES_BLOCK in
     bindR (parse_encrypted C msg1 (st_prf st) (st_skeyid_a st) (st_enc_key st) iv0) (\<lambda>(_, ps, iv1).
     bindR (ok_or (find_payload1 ps P_NONCE) (MissingPayload ''NONCE'')) (\<lambda>nonce_p.
     bindR (peer_esp_spi ps) (\<lambda>peer_spi.
       Ok (msgid, ps, iv1, p1_data nonce_p, peer_spi)))))"

definition quick_answer :: "u32 \<Rightarrow> bytes \<Rightarrow> payload1 list \<Rightarrow> chain1" where
  "quick_answer local_spi nr ps =
     [(P_SA, sa_payload_to_bytes (quick_esp_sa local_spi)), (P_NONCE, nr)] @
     map (\<lambda>p. (P_ID, p1_data p)) (filter (\<lambda>p. p1_type p = P_ID) ps)"

definition respond_quick ::
    "'e filler \<Rightarrow> primitives \<Rightarrow> phase1_state \<Rightarrow> bytes \<Rightarrow> 'e \<Rightarrow> (bytes \<times> quick_responder) res \<times> 'e" where
  "respond_quick fill C st msg1 e =
     (case quick_msg1 C st msg1 of
        Err x \<Rightarrow> (Err x, e)
      | Panic \<Rightarrow> (Panic, e)
      | Ok (msgid, ps, iv1, ni, peer_spi) \<Rightarrow>
          (let (spi_b, e1) = fill e 4;
               local_spi = from_be32 spi_b;
               (nr, e2) = fill e1 16
           in (bindR (build_encrypted_prefixed C (qm_header (st_cky_i st) (st_cky_r st) msgid) (st_prf st) (st_skeyid_a st)
                 (st_enc_key st) iv1 ni (quick_answer local_spi nr ps)) (\<lambda>(msg2, iv2).
                 Ok (msg2, \<lparr>qr_prf = st_prf st, qr_skeyid_a = st_skeyid_a st, qr_skeyid_d = st_skeyid_d st,
                   qr_enc_key = st_enc_key st, qr_msgid = msgid, qr_local_spi = local_spi, qr_peer_spi = peer_spi,
                   qr_ni = ni, qr_nr = nr, qr_iv2 = iv2\<rparr>)), e2)))"

definition quick_responder_complete :: "primitives \<Rightarrow> quick_responder \<Rightarrow> bytes \<Rightarrow> child_sa res" where
  "quick_responder_complete C q msg3 =
     bindR (decrypt_payloads C msg3 (qr_enc_key q) (qr_iv2 q)) (\<lambda>(_, ps, _).
     bindR (ok_or (find_payload1 ps P_HASH) (MissingPayload ''HASH'')) (\<lambda>hash_p.
     if p1_data hash_p \<noteq> hash3 C (qr_prf q) (qr_skeyid_a q) (qr_msgid q) (qr_ni q) (qr_nr q) then Err AuthFailed
     else derive_child C (qr_prf q) (qr_skeyid_d q) (qr_ni q) (qr_nr q) (qr_local_spi q) (qr_peer_spi q)))"

section \<open>Helper facts\<close>

lemma quick_esp_sa_wf: "sa_payload_wf (quick_esp_sa spi)" "length (sa_payload_to_bytes (quick_esp_sa spi)) = 48"
proof -
  have "length (transform1_to_bytes (hd (q1_transforms (hd (sp_proposals (quick_esp_sa spi)))))) = 24"
    by (simp add: quick_esp_sa_def transform1_to_bytes_def)
  then show "sa_payload_wf (quick_esp_sa spi)" "length (sa_payload_to_bytes (quick_esp_sa spi)) = 48"
    by (simp_all add: quick_esp_sa_def sa_payload_wf_def proposal1_wf_def transform1_wf_def single_proposal_length single_sa_length)
qed

lemma peer_esp_spi_built [simp]:
  "peer_esp_spi (\<lparr>p1_type = 8, p1_data = h\<rparr> # \<lparr>p1_type = 1, p1_data = sa_payload_to_bytes (quick_esp_sa spi)\<rparr> # ps) = Ok spi"
  by (simp add: peer_esp_spi_def find_payload1_def sa1.dec_enc[OF quick_esp_sa_wf(1)]) (simp add: quick_esp_sa_def)

lemma length_ts_id [simp]: "length (ts_id a m) = 4 + length a + length m"
  by (simp add: ts_id_def id1_to_bytes_def)

lemma derive_child_eq:
  "derive_child C p d ni nr l r = Ok
     \<lparr>ch_outbound = \<lparr>es_spi = r, es_key = take 32 (keymat C p d 3 (to_be32 r) ni nr 36),
        es_salt = drop 32 (keymat C p d 3 (to_be32 r) ni nr 36), es_seq = 0\<rparr>,
      ch_inbound = \<lparr>es_spi = l, es_key = take 32 (keymat C p d 3 (to_be32 l) ni nr 36),
        es_salt = drop 32 (keymat C p d 3 (to_be32 l) ni nr 36), es_seq = 0\<rparr>\<rparr>"
  by (simp add: derive_child_def esp_sa_new_ok Let_def)

lemma qm_header_wf: "length a = 8 \<Longrightarrow> length b = 8 \<Longrightarrow> isakmp_header_wf (qm_header a b m)"
  by (simp add: isakmp_header_wf_def qm_header_def)

text \<open>One encrypted message of the exchange, opened with the key and IV it was sealed with.\<close>

lemma quick_message:
  assumes "cbc_correct C" "phase1_typed st" "length iv = 16" "chain1_wf ps" "ps \<noteq> []"
  obtains m iv' h' where "encrypt_payloads C (qm_header (st_cky_i st) (st_cky_r st) mid) (st_enc_key st) iv ps = Ok (m, iv')"
    "length iv' = 16" "decrypt_payloads C m (st_enc_key st) iv = Ok (h', map raw1 ps, iv')" "isakmp_header_parse m = Ok h'"
    "ih_message_id h' = mid" "ih_exchange_type h' = 32" "ih_init_cookie h' = st_cky_i st"
    "length m < 44 + length (encode_payloads_body ps)"
proof -
  have "isakmp_header_wf (qm_header (st_cky_i st) (st_cky_r st) mid)" "length (st_enc_key st) = 32"
    using assms(2) by (simp_all add: phase1_typed_def qm_header_wf)
  from decrypt_encrypt[OF assms(1) this(2) assms(3) this(1) assms(4,5)] that show thesis
    by (auto simp: qm_header_def)
qed

text \<open>The chain the initiator sends, and its opening by the responder.\<close>

definition quick_offer :: "u32 \<Rightarrow> bytes \<Rightarrow> bytes \<times> bytes \<Rightarrow> bytes \<times> bytes \<Rightarrow> chain1" where
  "quick_offer spi ni tsl tsr =
     [(P_SA, sa_payload_to_bytes (quick_esp_sa spi)), (P_NONCE, ni), (P_ID, ts_id (fst tsl) (snd tsl)),
      (P_ID, ts_id (fst tsr) (snd tsr))]"

definition ts_ok :: "bytes \<times> bytes \<Rightarrow> bool" where
  "ts_ok ts \<longleftrightarrow> length (fst ts) = 4 \<and> length (snd ts) = 4"

lemma quick_offer_wf:
  assumes "length ni = 16" "ts_ok tsl" "ts_ok tsr" "length h \<le> 32"
  shows "chain1_wf ((P_HASH, h) # quick_offer spi ni tsl tsr)" "P_HASH \<notin> fst ` set (quick_offer spi ni tsl tsr)"
    "chain1_wf ((P_HASH, h) # quick_answer spi ni (map raw1 ((P_HASH, h') # quick_offer spi' ni' tsl tsr)))"
    "P_HASH \<notin> fst ` set (quick_answer spi ni (map raw1 ((P_HASH, h') # quick_offer spi' ni' tsl tsr)))"
  using assms quick_esp_sa_wf(2)[of spi] by (simp_all add: quick_offer_def quick_answer_def ts_ok_def)

lemma phase2_hash_le: "length (phase2_hash C p a mid prefix ps) \<le> 32"
  by simp

lemma quick_initiates:
  assumes "cbc_correct C" "phase1_typed st" "entropy fi" "ts_ok tsl" "ts_ok tsr"
  obtains msg1 mid spi ni iv1 h' e' where
    "initiate_quick fi C st tsl tsr e = (Ok (msg1, \<lparr>qi_prf = st_prf st, qi_skeyid_a = st_skeyid_a st,
       qi_skeyid_d = st_skeyid_d st, qi_enc_key = st_enc_key st, qi_cky_i = st_cky_i st, qi_cky_r = st_cky_r st,
       qi_msgid = mid, qi_local_spi = spi, qi_ni = ni, qi_iv1 = iv1\<rparr>), e')"
    "length iv1 = 16" "length ni = 16" "isakmp_header_parse msg1 = Ok h'" "ih_init_cookie h' = st_cky_i st" "ih_exchange_type h' = 32"
    "quick_msg1 C st msg1 = Ok (mid, map raw1 ((P_HASH, phase2_hash C (st_prf st) (st_skeyid_a st) mid []
       (quick_offer spi ni tsl tsr)) # quick_offer spi ni tsl tsr), iv1, ni, spi)"
    "length msg1 \<le> 1000"
proof -
  obtain sb e1 where a: "fi e 4 = (sb, e1)" by fastforce
  obtain mb e2 where b: "fi e1 4 = (mb, e2)" by fastforce
  obtain ni e3 where c: "fi e2 16 = (ni, e3)" by fastforce
  define mid where "mid = from_be32 mb OR (1 :: u32)"
  let ?iv = "phase2_iv C (st_prf st) (st_phase1_iv st) mid 16" and ?o = "quick_offer (from_be32 sb) ni tsl tsr"
  let ?ps = "(P_HASH, phase2_hash C (st_prf st) (st_skeyid_a st) mid [] ?o) # ?o"
  have ni: "length ni = 16" by (rule entropy.fill_length_eq[OF assms(3) c])
  note wf = quick_offer_wf[OF ni assms(4,5) phase2_hash_le]
  obtain m iv1 h' where m: "encrypt_payloads C (qm_header (st_cky_i st) (st_cky_r st) mid) (st_enc_key st) ?iv ?ps = Ok (m, iv1)"
    "length iv1 = 16" "decrypt_payloads C m (st_enc_key st) ?iv = Ok (h', map raw1 ?ps, iv1)" "isakmp_header_parse m = Ok h'"
    "ih_message_id h' = mid" "ih_exchange_type h' = 32" "ih_init_cookie h' = st_cky_i st"
    "length m < 44 + length (encode_payloads_body ?ps)"
    by (rule quick_message[OF assms(1,2) length_ivs(2) wf(1)]) simp_all
  have "length m \<le> 1000"
    using m(8) ni assms(4,5) quick_esp_sa_wf(2)
    by (cases "st_prf st") (simp_all add: length_encode_payloads_body quick_offer_def ts_ok_def output_len_def)
  have "parse_encrypted C m (st_prf st) (st_skeyid_a st) (st_enc_key st) ?iv = Ok (h', map raw1 ?ps, iv1)"
    using m(3,5) after_hash_built[OF wf(2)] by (simp add: parse_encrypted_eq find_payload1_def)
  then have q: "quick_msg1 C st m = Ok (mid, map raw1 ?ps, iv1, ni, from_be32 sb)"
    using m(4-6) by (simp add: quick_msg1_def find_payload1_def quick_offer_def)
  have "initiate_quick fi C st tsl tsr e = (Ok (m, \<lparr>qi_prf = st_prf st, qi_skeyid_a = st_skeyid_a st,
       qi_skeyid_d = st_skeyid_d st, qi_enc_key = st_enc_key st, qi_cky_i = st_cky_i st, qi_cky_r = st_cky_r st,
       qi_msgid = mid, qi_local_spi = from_be32 sb, qi_ni = ni, qi_iv1 = iv1\<rparr>), e3)"
    using m(1) by (simp add: initiate_quick_def a b c build_encrypted_def build_encrypted_is_encrypt Let_def
        qm_header_def quick_offer_def mid_def)
  from that[OF this m(2) ni m(4,7,6) q \<open>length m \<le> 1000\<close>] show thesis .
qed

definition quick_header :: "phase1_state \<Rightarrow> bytes \<Rightarrow> bool" where
  "quick_header st m \<longleftrightarrow> (\<exists>h. isakmp_header_parse m = Ok h \<and> ih_init_cookie h = st_cky_i st \<and> ih_exchange_type h = EX_QUICK)"

text \<open>Fresh CHILD SAs whose directions match.\<close>

definition mirrored_children :: "child_sa \<Rightarrow> child_sa \<Rightarrow> bool" where
  "mirrored_children c d \<longleftrightarrow> ch_outbound c = ch_inbound d \<and> ch_inbound c = ch_outbound d \<and>
     esp_wf (ch_outbound c) \<and> esp_wf (ch_inbound c) \<and> es_seq (ch_outbound c) = 0 \<and> es_seq (ch_outbound d) = 0"

lemma quick_completes:
  assumes C: "cbc_correct C" "phase1_typed st" and f: "entropy fi" "entropy fr" and ts: "ts_ok tsl" "ts_ok tsr"
    and i: "initiate_quick fi C st tsl tsr ei = (Ok (msg1, q), ei')"
  obtains msg2 qr er' msg3 ci cr where "respond_quick fr C st msg1 er = (Ok (msg2, qr), er')"
    "quick_initiator_complete C q msg2 = Ok (msg3, ci)" "quick_responder_complete C qr msg3 = Ok cr"
    "quick_header st msg1" "quick_header st msg3" "length msg1 \<le> 1000" "length msg2 \<le> 1000" "length msg3 \<le> 1000"
    "mirrored_children ci cr"
proof -
  obtain mid spi ni iv1 h1 where q: "q = \<lparr>qi_prf = st_prf st, qi_skeyid_a = st_skeyid_a st,
       qi_skeyid_d = st_skeyid_d st, qi_enc_key = st_enc_key st, qi_cky_i = st_cky_i st, qi_cky_r = st_cky_r st,
       qi_msgid = mid, qi_local_spi = spi, qi_ni = ni, qi_iv1 = iv1\<rparr>" "length iv1 = 16"
    "isakmp_header_parse msg1 = Ok h1" "ih_init_cookie h1 = st_cky_i st" "ih_exchange_type h1 = 32"
    and l1: "length msg1 \<le> 1000" and m1: "quick_msg1 C st msg1 = Ok (mid, map raw1 ((P_HASH, phase2_hash C (st_prf st) (st_skeyid_a st) mid []
       (quick_offer spi ni tsl tsr)) # quick_offer spi ni tsl tsr), iv1, ni, spi)" (is "_ = Ok (mid, ?in, iv1, ni, spi)")
    by (rule quick_initiates[OF C f(1) ts, of ei]) (use i in simp)
  obtain sb e1 where a: "fr er 4 = (sb, e1)" by fastforce
  obtain nr e2 where b: "fr e1 16 = (nr, e2)" by fastforce
  let ?r = "from_be32 sb"
  let ?a = "quick_answer ?r nr ?in"
  let ?ps = "(P_HASH, phase2_hash C (st_prf st) (st_skeyid_a st) mid ni ?a) # ?a"
  note wf = quick_offer_wf(3,4)[OF entropy.fill_length_eq[OF f(2) b] ts phase2_hash_le]
  obtain m iv2 h' where m: "encrypt_payloads C (qm_header (st_cky_i st) (st_cky_r st) mid) (st_enc_key st) iv1 ?ps = Ok (m, iv2)"
    "length iv2 = 16" "decrypt_payloads C m (st_enc_key st) iv1 = Ok (h', map raw1 ?ps, iv2)"
    "length m < 44 + length (encode_payloads_body ?ps)"
    by (rule quick_message[OF C q(2) wf(1)]) simp_all
  have l2: "length m \<le> 1000"
    using m(4) entropy.fill_length_eq[OF f(2) b] ts quick_esp_sa_wf(2)
    by (cases "st_prf st") (simp_all add: length_encode_payloads_body quick_answer_def quick_offer_def ts_ok_def output_len_def)
  define qr where "qr = \<lparr>qr_prf = st_prf st, qr_skeyid_a = st_skeyid_a st, qr_skeyid_d = st_skeyid_d st,
    qr_enc_key = st_enc_key st, qr_msgid = mid, qr_local_spi = ?r, qr_peer_spi = spi, qr_ni = ni, qr_nr = nr, qr_iv2 = iv2\<rparr>"
  have resp: "respond_quick fr C st msg1 er = (Ok (m, qr), e2)"
    using m(1) by (simp add: respond_quick_def m1 a b build_encrypted_is_encrypt qr_def qm_header_def)
  define h3 where "h3 = hash3 C (st_prf st) (st_skeyid_a st) mid ni nr"
  have "chain1_wf [(P_HASH, h3)]" by (simp add: h3_def hash3_def output_len_def split: prf1.split)
  from quick_message[OF C m(2) this, of mid] obtain m3 iv3 h3' where
    m3: "encrypt_payloads C (qm_header (st_cky_i st) (st_cky_r st) mid) (st_enc_key st) iv2 [(P_HASH, h3)] = Ok (m3, iv3)"
    "decrypt_payloads C m3 (st_enc_key st) iv2 = Ok (h3', map raw1 [(P_HASH, h3)], iv3)" "isakmp_header_parse m3 = Ok h3'"
    "ih_exchange_type h3' = 32" "ih_init_cookie h3' = st_cky_i st"
    "length m3 < 44 + length (encode_payloads_body [(P_HASH, h3)])" by blast
  have l3: "length m3 \<le> 1000"
    using m3(6) by (simp add: length_encode_payloads_body h3_def hash3_def output_len_def split: prf1.splits)
  define ci where "ci = (case derive_child C (st_prf st) (st_skeyid_d st) ni nr spi ?r of Ok c \<Rightarrow> c)"
  define cr where "cr = (case derive_child C (st_prf st) (st_skeyid_d st) ni nr ?r spi of Ok c \<Rightarrow> c)"
  have "find_payload1 (map raw1 ?ps) 8 = Some \<lparr>p1_type = 8, p1_data = phase2_hash C (st_prf st) (st_skeyid_a st) mid ni ?a\<rparr>"
    "find_payload1 (map raw1 ?ps) 10 = Some \<lparr>p1_type = 10, p1_data = nr\<rparr>" "peer_esp_spi (map raw1 ?ps) = Ok ?r"
    by (simp_all add: find_payload1_def quick_answer_def)
  then have init: "quick_initiator_complete C q m = Ok (m3, ci)"
    using m(3) m3(1) after_hash_built[OF wf(2)]
    by (simp add: quick_initiator_complete_def q(1) derive_child_eq ci_def h3_def Let_def del: list.map)
  have fin: "quick_responder_complete C qr m3 = Ok cr"
    using m3(2) by (simp add: quick_responder_complete_def qr_def find_payload1_def h3_def derive_child_eq cr_def)
  show thesis
    by (rule that[OF resp init fin]) (use m3(3-5) q(3-5) l1 l2 l3 in \<open>simp_all add: ci_def cr_def derive_child_eq quick_header_def esp_wf_def mirrored_children_def\<close>)
qed

section \<open>Properties\<close>

text \<open>
  C10. Quick Mode completes: over one well-shaped Phase-1 state, whatever the randomness of the two
  sides, the initiator's first message is answered, the answer and the third message are accepted,
  and the two CHILD SAs have mirrored directions, SPIs and keys included.
\<close>
theorem quick_agreement:
  assumes "cbc_correct C" "phase1_typed st" "entropy fi" "entropy fr" "ts_ok tsl" "ts_ok tsr"
  shows "\<exists>msg1 q ei' msg2 qr er' msg3 ci cr. initiate_quick fi C st tsl tsr ei = (Ok (msg1, q), ei') \<and>
    respond_quick fr C st msg1 er = (Ok (msg2, qr), er') \<and>
    quick_initiator_complete C q msg2 = Ok (msg3, ci) \<and> quick_responder_complete C qr msg3 = Ok cr \<and>
    ch_outbound ci = ch_inbound cr \<and> ch_inbound ci = ch_outbound cr"
proof -
  obtain msg1 q ei' where i: "initiate_quick fi C st tsl tsr ei = (Ok (msg1, q), ei')"
    by (rule quick_initiates[OF assms(1,2,3,5,6), of ei]) blast
  show ?thesis by (rule quick_completes[OF assms i, of er]) (use i mirrored_children_def in blast)
qed

definition sample_phase1 :: phase1_state where
  "sample_phase1 = phase1_keys toy_primitives Prf_Sha256 Modp1024 32 (skeyid_psk toy_primitives Prf_Sha256 [1] [2] [3]) [4]
     (replicate 8 1) (replicate 8 2) (replicate 128 5) (replicate 128 6) [2] [3] [] []"

lemma sample_phase1_typed: "phase1_typed sample_phase1"
  unfolding sample_phase1_def by (rule phase1_keys_typed) simp_all

theorem quick_agreement_witness:
  "\<exists>msg1 q ei' msg2 qr er' msg3 ci cr.
    initiate_quick seed_entropy_fill toy_primitives sample_phase1 ([10, 0, 0, 1], [255, 255, 255, 255]) ([0, 0, 0, 0], [0, 0, 0, 0])
      (seed_entropy_new 1) = (Ok (msg1, q), ei') \<and>
    respond_quick seed_entropy_fill toy_primitives sample_phase1 msg1 (seed_entropy_new 2) = (Ok (msg2, qr), er') \<and>
    quick_initiator_complete toy_primitives q msg2 = Ok (msg3, ci) \<and> quick_responder_complete toy_primitives qr msg3 = Ok cr \<and>
    ch_outbound ci = ch_inbound cr \<and> ch_inbound ci = ch_outbound cr"
  by (rule quick_agreement[OF toy_cbc_correct sample_phase1_typed seed.entropy_axioms seed.entropy_axioms])
    (simp_all add: ts_ok_def)

end
