(* ===== verification/Drivers1.thy ===== *)
theory Drivers1
  imports Transport Quick
begin

text \<open>
  The IKEv1 drivers over UDP: \<open>src/src/ikev1/server.rs\<close> and \<open>src/src/ikev1/client.rs\<close>.

  As in the IKEv2 drivers, \<open>handle_one\<close> is a function of what \<open>recv_from\<close> gave and of what \<open>send_to\<close>
  accepts. The client sends messages that are not answered, so its network is a pair of functions, to
  send and to receive; the pause between the phases is a function too, in which the network moves on.

  The lemmas show that a client connected to the server over a working network ends with the same
  keys on both sides, which states the server can be in, that it serves Quick Mode before it has seen
  the initiator's hash, and that a forged datagram makes it drop a negotiation.
\<close>

section \<open>The server\<close>

datatype server1_event = Phase1SaInit | Phase1Established | QuickSaInit | ChildSaEstablished bytes | Ignored1

record session1 =
  ss_phase1 :: "phase1_state option"
  ss_quick :: "quick_responder option"

record 'e server1 =
  s1_entropy :: 'e
  s1_cfg :: phase1_config
  s1_sessions :: "bytes \<rightharpoonup> session1"
  s1_children :: "bytes \<rightharpoonup> child_sa"

definition server1_bind :: "'e \<Rightarrow> phase1_config \<Rightarrow> 'e server1" where
  "server1_bind e cfg = \<lparr>s1_entropy = e, s1_cfg = cfg, s1_sessions = Map.empty, s1_children = Map.empty\<rparr>"

definition child1 :: "'e server1 \<Rightarrow> bytes \<Rightarrow> child_sa option" where
  "child1 s cky_i = s1_children s cky_i"

definition take_child1 :: "'e server1 \<Rightarrow> bytes \<Rightarrow> child_sa option \<times> 'e server1" where
  "take_child1 s cky_i = (s1_children s cky_i, s\<lparr>s1_children := (s1_children s)(cky_i := None)\<rparr>)"

type_synonym 'e handled1 = "server1_event driven \<times> bytes option \<times> 'e server1"

definition handle_msg1 :: "'e filler \<Rightarrow> primitives \<Rightarrow> 'e server1 \<Rightarrow> bytes \<Rightarrow> bytes \<Rightarrow> (bytes \<Rightarrow> bool) \<Rightarrow> 'e handled1" where
  "handle_msg1 fill C s cky_i data sends =
     (case respond_aggressive fill C (s1_cfg s) data (s1_entropy s) of
        (Err x, e) \<Rightarrow> (IkeFailed x, None, s\<lparr>s1_entropy := e\<rparr>)
      | (Panic, e) \<Rightarrow> (Panicked, None, s\<lparr>s1_entropy := e\<rparr>)
      | (Ok (msg2, st), e) \<Rightarrow>
          if \<not> sends msg2 then (IoFailed, Some msg2, s\<lparr>s1_entropy := e\<rparr>)
          else (Done Phase1SaInit, Some msg2, s\<lparr>s1_entropy := e,
            s1_sessions := (s1_sessions s)(cky_i \<mapsto> \<lparr>ss_phase1 = Some st, ss_quick = None\<rparr>)\<rparr>))"

definition handle_msg3 :: "primitives \<Rightarrow> 'e server1 \<Rightarrow> bytes \<Rightarrow> bytes \<Rightarrow> 'e handled1" where
  "handle_msg3 C s cky_i data =
     (case Option.bind (s1_sessions s cky_i) ss_phase1 of
        None \<Rightarrow> (Done Ignored1, None, s)
      | Some st \<Rightarrow> (ike (verify_hash_i C st data) (\<lambda>_. Done Phase1Established), None, s))"

definition handle_aggressive ::
    "'e filler \<Rightarrow> primitives \<Rightarrow> 'e server1 \<Rightarrow> isakmp_header \<Rightarrow> bytes \<Rightarrow> (bytes \<Rightarrow> bool) \<Rightarrow> 'e handled1" where
  "handle_aggressive fill C s hdr data sends =
     (case bindR (slice_from data ISAKMP_LEN) (\<lambda>body. parse_payloads (ih_next_payload hdr) body) of
        Err x \<Rightarrow> (IkeFailed x, None, s)
      | Panic \<Rightarrow> (Panicked, None, s)
      | Ok ps \<Rightarrow>
          if list_ex (\<lambda>p. p1_type p = P_SA) ps then handle_msg1 fill C s (ih_init_cookie hdr) data sends
          else if list_ex (\<lambda>p. p1_type p = P_HASH) ps then handle_msg3 C s (ih_init_cookie hdr) data
          else (Done Ignored1, None, s))"

definition handle_quick1 ::
    "'e filler \<Rightarrow> primitives \<Rightarrow> 'e server1 \<Rightarrow> bytes \<Rightarrow> session1 \<Rightarrow> phase1_state \<Rightarrow> bytes \<Rightarrow> (bytes \<Rightarrow> bool) \<Rightarrow> 'e handled1" where
  "handle_quick1 fill C s cky_i ses st data sends =
     (case respond_quick fill C st data (s1_entropy s) of
        (Err x, e) \<Rightarrow> (IkeFailed x, None, s\<lparr>s1_entropy := e\<rparr>)
      | (Panic, e) \<Rightarrow> (Panicked, None, s\<lparr>s1_entropy := e\<rparr>)
      | (Ok (msg2, qr), e) \<Rightarrow>
          if \<not> sends msg2 then (IoFailed, Some msg2, s\<lparr>s1_entropy := e\<rparr>)
          else (Done QuickSaInit, Some msg2, s\<lparr>s1_entropy := e,
            s1_sessions := (s1_sessions s)(cky_i \<mapsto> ses\<lparr>ss_quick := Some qr\<rparr>)\<rparr>))"

definition handle_quick3 ::
    "primitives \<Rightarrow> 'e server1 \<Rightarrow> bytes \<Rightarrow> session1 \<Rightarrow> quick_responder \<Rightarrow> bytes \<Rightarrow> 'e handled1" where
  "handle_quick3 C s cky_i ses qr data =
     (let s1 = s\<lparr>s1_sessions := (s1_sessions s)(cky_i \<mapsto> ses\<lparr>ss_quick := None\<rparr>)\<rparr> in
      case quick_responder_complete C qr data of
        Err x \<Rightarrow> (IkeFailed x, None, s1)
      | Panic \<Rightarrow> (Panicked, None, s1)
      | Ok c \<Rightarrow> (Done (ChildSaEstablished cky_i), None, s1\<lparr>s1_children := (s1_children s1)(cky_i \<mapsto> c)\<rparr>))"

definition handle_quick :: "'e filler \<Rightarrow> primitives \<Rightarrow> 'e server1 \<Rightarrow> bytes \<Rightarrow> bytes \<Rightarrow> (bytes \<Rightarrow> bool) \<Rightarrow> 'e handled1" where
  "handle_quick fill C s cky_i data sends =
     (case s1_sessions s cky_i of
        None \<Rightarrow> (Done Ignored1, None, s)
      | Some ses \<Rightarrow>
          (case ss_phase1 ses of
             None \<Rightarrow> (Done Ignored1, None, s)
           | Some st \<Rightarrow>
               (case ss_quick ses of
                  None \<Rightarrow> handle_quick1 fill C s cky_i ses st data sends
                | Some qr \<Rightarrow> handle_quick3 C s cky_i ses qr data)))"

definition handle_one1 :: "'e filler \<Rightarrow> primitives \<Rightarrow> 'e server1 \<Rightarrow> bytes io \<Rightarrow> (bytes \<Rightarrow> bool) \<Rightarrow> 'e handled1" where
  "handle_one1 fill C s received sends =
     (case received of
        IoErr \<Rightarrow> (IoFailed, None, s)
      | IoBlocked \<Rightarrow> (Blocked, None, s)
      | IoOk data \<Rightarrow>
          (case isakmp_header_parse data of
             Err x \<Rightarrow> (IkeFailed x, None, s)
           | Panic \<Rightarrow> (Panicked, None, s)
           | Ok hdr \<Rightarrow>
               if ih_exchange_type hdr = EX_AGGRESSIVE then handle_aggressive fill C s hdr data sends
               else if ih_exchange_type hdr = EX_QUICK then handle_quick fill C s (ih_init_cookie hdr) data sends
               else (Done Ignored1, None, s)))"

section \<open>The client\<close>

record established1 =
  eb_phase1 :: phase1_state
  eb_child :: child_sa

type_synonym 'n sender = "'n \<Rightarrow> bytes \<Rightarrow> bool \<times> 'n"
type_synonym 'n receiver = "'n \<Rightarrow> bytes io \<times> 'n"

definition exchange1 :: "'n sender \<Rightarrow> 'n receiver \<Rightarrow> 'n \<Rightarrow> bytes \<Rightarrow> bytes io \<times> 'n" where
  "exchange1 send recv n m = (let (sent, n1) = send n m in if sent then recv n1 else (IoErr, n1))"

definition client1_quick ::
    "'e filler \<Rightarrow> primitives \<Rightarrow> 'n sender \<Rightarrow> 'n receiver \<Rightarrow> initiator_config \<Rightarrow> phase1_state \<Rightarrow> 'e \<Rightarrow> 'n \<Rightarrow>
     established1 driven \<times> 'e \<times> 'n" where
  "client1_quick fill C send recv cfg st e n =
     (case initiate_quick fill C st (nc_ts_local cfg) (nc_ts_remote cfg) e of
        (Err x, e1) \<Rightarrow> (IkeFailed x, e1, n)
      | (Panic, e1) \<Rightarrow> (Panicked, e1, n)
      | (Ok (qm1, qi), e1) \<Rightarrow>
          (case exchange1 send recv n qm1 of
             (IoErr, n1) \<Rightarrow> (IoFailed, e1, n1)
           | (IoBlocked, n1) \<Rightarrow> (Blocked, e1, n1)
           | (IoOk qm2, n1) \<Rightarrow>
               (case quick_initiator_complete C qi qm2 of
                  Err x \<Rightarrow> (IkeFailed x, e1, n1)
                | Panic \<Rightarrow> (Panicked, e1, n1)
                | Ok (qm3, c) \<Rightarrow>
                    (let (sent, n2) = send n1 qm3 in
                     (if sent then Done \<lparr>eb_phase1 = st, eb_child = c\<rparr> else IoFailed, e1, n2)))))"

definition client1_connect ::
    "'e filler \<Rightarrow> primitives \<Rightarrow> 'n sender \<Rightarrow> 'n receiver \<Rightarrow> ('n \<Rightarrow> 'n) \<Rightarrow> initiator_config \<Rightarrow> 'e \<Rightarrow> 'n \<Rightarrow>
     established1 driven \<times> 'e \<times> 'n" where
  "client1_connect fill C send recv pause cfg e n =
     (case initiate_aggressive fill C cfg e of
        (Err x, e1) \<Rightarrow> (IkeFailed x, e1, n)
      | (Panic, e1) \<Rightarrow> (Panicked, e1, n)
      | (Ok (msg1, ai), e1) \<Rightarrow>
          (case exchange1 send recv n msg1 of
             (IoErr, n1) \<Rightarrow> (IoFailed, e1, n1)
           | (IoBlocked, n1) \<Rightarrow> (Blocked, e1, n1)
           | (IoOk msg2, n1) \<Rightarrow>
               (case aggressive_complete C ai msg2 of
                  Err x \<Rightarrow> (IkeFailed x, e1, n1)
                | Panic \<Rightarrow> (Panicked, e1, n1)
                | Ok (msg3, st) \<Rightarrow>
                    (let (sent, n2) = send n1 msg3 in
                     if sent then client1_quick fill C send recv cfg st e1 (pause n2) else (IoFailed, e1, n2)))))"

section \<open>The server's steps\<close>

lemma aggressive_msg1_header:
  assumes "aggressive_msg1 m = Ok r"
  obtains h ps where "isakmp_header_parse m = Ok h" "ih_exchange_type h = EX_AGGRESSIVE" "ih_init_cookie h = ar_cky_i r"
    "bindR (slice_from m ISAKMP_LEN) (\<lambda>b. parse_payloads (ih_next_payload h) b) = Ok ps" "list_ex (\<lambda>p. p1_type p = P_SA) ps"
proof -
  obtain h b ps x where "isakmp_header_parse m = Ok h" "ih_exchange_type h = EX_AGGRESSIVE" "ih_init_cookie h = ar_cky_i r"
    "slice_from m ISAKMP_LEN = Ok b" "parse_payloads (ih_next_payload h) b = Ok ps" "find_payload1 ps P_SA = Some x"
    using assms by (auto simp: aggressive_msg1_def Let_def bindR_Ok_iff ok_or_iff split: if_splits)
  moreover from this(6) have "list_ex (\<lambda>p. p1_type p = P_SA) ps"
    by (auto simp: find_payload1_def find_Some_iff list_ex_length)
  ultimately show thesis using that by simp
qed

lemma server1_answers_msg1:
  assumes "aggressive_msg1 msg1 = Ok r" "respond_aggressive fs C (s1_cfg s) msg1 (s1_entropy s) = (Ok (msg2, st), e)" "sends msg2"
  shows "handle_one1 fs C s (IoOk msg1) sends = (Done Phase1SaInit, Some msg2, s\<lparr>s1_entropy := e,
    s1_sessions := (s1_sessions s)(ar_cky_i r \<mapsto> \<lparr>ss_phase1 = Some st, ss_quick = None\<rparr>)\<rparr>)"
  by (rule aggressive_msg1_header[OF assms(1)])
    (simp add: handle_one1_def handle_aggressive_def handle_msg1_def assms(2,3))

lemma server1_accepts_msg3:
  assumes "length h = 32" "phase1_typed st" "verify_hash_i C st msg3 = Ok ()"
    and m: "msg3 = build_message (aggressive_header (st_cky_i st) (st_cky_r st)) [(P_HASH, h)]"
    and s: "s1_sessions s (st_cky_i st) = Some ses" "ss_phase1 ses = Some st"
  shows "handle_one1 fs C s (IoOk msg3) ok = (Done Phase1Established, None, s)"
proof -
  let ?h = "aggressive_header (st_cky_i st) (st_cky_r st)" and ?ps = "[(P_HASH, h)]"
  have wf: "isakmp_header_wf ?h" "chain1_wf ?ps"
    using assms(1,2) by (simp_all add: isakmp_header_wf_def aggressive_header_def phase1_typed_def)
  obtain h' where "isakmp_header_parse msg3 = Ok h'"
    "h' = ?h\<lparr>ih_next_payload := chain_first ?ps, ih_length := of_nat (ISAKMP_LEN + length (encode_payloads_body ?ps))\<rparr>"
    "slice_from msg3 ISAKMP_LEN = Ok (encode_payloads_body ?ps)"
    "parse_payloads (ih_next_payload h') (encode_payloads_body ?ps) = Ok (map raw1 ?ps)"
    unfolding m by (rule build_message_parse[OF wf])
  then show ?thesis
    using assms(3) s by (simp add: handle_one1_def handle_aggressive_def handle_msg3_def aggressive_header_def)
qed

lemma server1_quick:
  assumes "cbc_correct C" "phase1_typed st" "entropy fi" "entropy fs" "ts_ok tsl" "ts_ok tsr"
    and i: "initiate_quick fi C st tsl tsr ei = (Ok (msg1, q), ei')"
    and s: "s1_sessions s (st_cky_i st) = Some \<lparr>ss_phase1 = Some st, ss_quick = None\<rparr>"
  obtains msg2 s1 msg3 c s2 c' where
    "\<forall>sends. udp_ok sends \<longrightarrow> handle_one1 fs C s (IoOk msg1) sends = (Done QuickSaInit, Some msg2, s1)"
    "quick_initiator_complete C q msg2 = Ok (msg3, c)"
    "\<forall>sends. udp_ok sends \<longrightarrow> handle_one1 fs C s1 (IoOk msg3) sends = (Done (ChildSaEstablished (st_cky_i st)), None, s2)"
    "s1_children s2 (st_cky_i st) = Some c'" "mirrored_children c c'"
    "length msg1 \<le> UDP_PAYLOAD" "length msg2 \<le> UDP_PAYLOAD" "length msg3 \<le> UDP_PAYLOAD"
proof -
  obtain msg2 qr e msg3 c c' where r: "respond_quick fs C st msg1 (s1_entropy s) = (Ok (msg2, qr), e)"
    "quick_initiator_complete C q msg2 = Ok (msg3, c)" "quick_responder_complete C qr msg3 = Ok c'"
    and h: "quick_header st msg1" "quick_header st msg3"
    and l: "length msg1 \<le> 1000" "length msg2 \<le> 1000" "length msg3 \<le> 1000" and m: "mirrored_children c c'"
    by (rule quick_completes[OF assms(1-6) i])
  define s1 where "s1 = s\<lparr>s1_entropy := e,
    s1_sessions := (s1_sessions s)(st_cky_i st \<mapsto> \<lparr>ss_phase1 = Some st, ss_quick = Some qr\<rparr>)\<rparr>"
  define s2 where "s2 = s1\<lparr>s1_sessions := (s1_sessions s1)(st_cky_i st \<mapsto> \<lparr>ss_phase1 = Some st, ss_quick = None\<rparr>),
    s1_children := (s1_children s1)(st_cky_i st \<mapsto> c')\<rparr>"
  have fit: "length msg1 \<le> UDP_PAYLOAD" "length msg2 \<le> UDP_PAYLOAD" "length msg3 \<le> UDP_PAYLOAD"
    using l by (simp_all add: UDP_PAYLOAD_def)
  have "\<forall>sends. udp_ok sends \<longrightarrow> handle_one1 fs C s (IoOk msg1) sends = (Done QuickSaInit, Some msg2, s1)"
    using r(1) h(1) s fit(2)
    by (auto simp: handle_one1_def quick_header_def handle_quick_def handle_quick1_def s1_def udp_ok_def)
  moreover have "\<forall>sends. udp_ok sends \<longrightarrow> handle_one1 fs C s1 (IoOk msg3) sends = (Done (ChildSaEstablished (st_cky_i st)), None, s2)"
    using r(3) h(2) by (auto simp: handle_one1_def quick_header_def handle_quick_def handle_quick3_def s1_def s2_def)
  moreover have "s1_children s2 (st_cky_i st) = Some c'" by (simp add: s2_def)
  ultimately show thesis using that r(2) m fit by blast
qed

lemma server1_phase1:
  assumes C: "modpow_correct C" and f: "entropy fi" "entropy fs" and cfg: "nc_group cfg \<noteq> X25519" "pc_psk (s1_cfg s) = nc_psk cfg"
      "length (i1_data (nc_our_id cfg)) < 65000" "length (i1_data (pc_our_id (s1_cfg s))) < 65000"
    and range: "public_in_range fi C (nc_group cfg) ei" "public_in_range fs C (nc_group cfg) (s1_entropy s)"
    and i: "initiate_aggressive fi C cfg ei = (Ok (msg1, ai), ei')"
  obtains msg2 s1 msg3 st where
    "\<forall>sends. udp_ok sends \<longrightarrow> handle_one1 fs C s (IoOk msg1) sends = (Done Phase1SaInit, Some msg2, s1)"
    "aggressive_complete C ai msg2 = Ok (msg3, st)"
    "\<forall>sends. udp_ok sends \<longrightarrow> handle_one1 fs C s1 (IoOk msg3) sends = (Done Phase1Established, None, s1)"
    "s1_sessions s1 (st_cky_i st) = Some \<lparr>ss_phase1 = Some st, ss_quick = None\<rparr>" "phase1_typed st"
    "length msg1 \<le> UDP_PAYLOAD" "length msg2 \<le> UDP_PAYLOAD" "length msg3 \<le> UDP_PAYLOAD"
proof -
  obtain r where r: "aggressive_msg1 msg1 = Ok r" "ar_group r = nc_group cfg" "ar_gxi r = ai_gxi ai"
    by (rule initiated_msg1[OF C f(1) cfg(1,3) i])
  obtain msg2 st e where resp: "respond_aggressive fs C (s1_cfg s) msg1 (s1_entropy s) = (Ok (msg2, st), e)"
    using aggressive_responds[OF C f cfg(1,3) i initiator_in_range[OF range(1) i], of "s1_cfg s" "s1_entropy s"]
    by (cases "respond_aggressive fs C (s1_cfg s) msg1 (s1_entropy s)") auto
  then have respf: "fst (respond_aggressive fs C (s1_cfg s) msg1 (s1_entropy s)) = Ok (msg2, st)" by simp
  have v: "modp_valid (st_gxr st) (group_prime (nc_group cfg))"
    using responder_in_range[OF _ r(1) respf] range(2) r(2) by simp
  have ck: "st_cky_i st = ar_cky_i r"
    using respf r(1) by (auto simp: respond_aggressive_def aggressive_respond_with_def phase1_keys_def split_beta Let_def bindR_Ok_iff)
  obtain h msg3 where fin: "length h = 32" "msg3 = build_message (aggressive_header (st_cky_i st) (st_cky_r st)) [(P_HASH, h)]"
    "verify_hash_i C st msg3 = Ok ()" "aggressive_complete C ai msg2 = Ok (msg3, st)"
    and l: "length msg1 \<le> 65500" "length msg2 \<le> 65500" "length msg3 \<le> 65500"
    using aggressive_run[OF C f cfg i respf] v by auto
  have fit: "length msg1 \<le> UDP_PAYLOAD" "length msg2 \<le> UDP_PAYLOAD" "length msg3 \<le> UDP_PAYLOAD"
    using l by (simp_all add: UDP_PAYLOAD_def)
  define s1 where "s1 = s\<lparr>s1_entropy := e, s1_sessions := (s1_sessions s)(st_cky_i st \<mapsto> \<lparr>ss_phase1 = Some st, ss_quick = None\<rparr>)\<rparr>"
  have ses: "s1_sessions s1 (st_cky_i st) = Some \<lparr>ss_phase1 = Some st, ss_quick = None\<rparr>" by (simp add: s1_def)
  have ty: "phase1_typed st" by (rule respond_typed[OF C f(2) resp])
  have "\<forall>sends. udp_ok sends \<longrightarrow> handle_one1 fs C s (IoOk msg1) sends = (Done Phase1SaInit, Some msg2, s1)"
    using server1_answers_msg1[OF r(1) resp] fit(2) by (simp add: s1_def ck udp_ok_def)
  moreover have "\<forall>sends. udp_ok sends \<longrightarrow> handle_one1 fs C s1 (IoOk msg3) sends = (Done Phase1Established, None, s1)"
    using server1_accepts_msg3[OF fin(1) ty fin(3,2) ses] by simp
  ultimately show thesis using that fin(4) ses ty fit by blast
qed

section \<open>States of the server\<close>

text \<open>
  A session always has a Phase-1 state, stored under the cookie it was made for, and a CHILD SA is
  only ever stored for a cookie that has a session.
\<close>

definition server1_inv :: "'e server1 \<Rightarrow> bool" where
  "server1_inv s \<longleftrightarrow> dom (s1_children s) \<subseteq> dom (s1_sessions s) \<and>
     (\<forall>k ses. s1_sessions s k = Some ses \<longrightarrow> (\<exists>st. ss_phase1 ses = Some st \<and> st_cky_i st = k))"

datatype server1_input = Arrives1 "bytes io" "bytes \<Rightarrow> bool" | Takes1 bytes

fun server1_step :: "'e filler \<Rightarrow> primitives \<Rightarrow> 'e server1 \<Rightarrow> server1_input \<Rightarrow> 'e server1" where
  "server1_step fill C s (Arrives1 rcv ok) = snd (snd (handle_one1 fill C s rcv ok))"
| "server1_step fill C s (Takes1 k) = snd (take_child1 s k)"

lemma respond_cookie:
  assumes "respond_aggressive fill C cfg data e = (Ok (msg2, st), e')" "isakmp_header_parse data = Ok h"
  shows "st_cky_i st = ih_init_cookie h"
proof -
  obtain r where r: "aggressive_msg1 data = Ok r" using assms(1) by (auto simp: respond_aggressive_def split: res.splits)
  then have "ar_cky_i r = ih_init_cookie h"
    using assms(2) by (auto simp: aggressive_msg1_def Let_def bindR_Ok_iff ok_or_iff split: if_splits)
  with r assms(1) show ?thesis
    by (auto simp: respond_aggressive_def aggressive_respond_with_def phase1_keys_def split_beta Let_def bindR_Ok_iff)
qed

text \<open>The updates that the handlers make keep the invariant.\<close>

lemma server1_inv_updates:
  assumes "server1_inv s"
  shows "server1_inv (s\<lparr>s1_entropy := e\<rparr>)"
    "st_cky_i st = k \<Longrightarrow> server1_inv (s\<lparr>s1_entropy := e, s1_sessions := (s1_sessions s)(k \<mapsto> \<lparr>ss_phase1 = Some st, ss_quick = None\<rparr>)\<rparr>)"
    "s1_sessions s k = Some ses \<Longrightarrow> server1_inv (s\<lparr>s1_entropy := e, s1_sessions := (s1_sessions s)(k \<mapsto> ses\<lparr>ss_quick := q\<rparr>)\<rparr>)"
    "s1_sessions s k = Some ses \<Longrightarrow> server1_inv (s\<lparr>s1_sessions := (s1_sessions s)(k \<mapsto> ses\<lparr>ss_quick := q\<rparr>)\<rparr>)"
    "s1_sessions s k = Some ses \<Longrightarrow> server1_inv (s\<lparr>s1_sessions := (s1_sessions s)(k \<mapsto> ses\<lparr>ss_quick := q\<rparr>),
       s1_children := (s1_children s)(k \<mapsto> c)\<rparr>)"
  using assms by (auto simp: server1_inv_def split: if_splits)

lemma handlers1_inv:
  assumes "server1_inv s" "isakmp_header_parse data = Ok h"
  shows "server1_inv (snd (snd (handle_aggressive fill C s h data ok)))"
    "server1_inv (snd (snd (handle_quick fill C s k data ok)))"
proof -
  obtain x e where r: "respond_aggressive fill C (s1_cfg s) data (s1_entropy s) = (x, e)" by fastforce
  then have "server1_inv (snd (snd (handle_msg1 fill C s (ih_init_cookie h) data ok)))"
    using respond_cookie[of fill C "s1_cfg s" data "s1_entropy s", OF _ assms(2)] server1_inv_updates(1,2)[OF assms(1)]
    by (cases x) (auto simp: handle_msg1_def)
  then show "server1_inv (snd (snd (handle_aggressive fill C s h data ok)))"
    using assms(1) by (auto simp: handle_aggressive_def handle_msg3_def split: res.split option.split)
  have q3: "server1_inv (snd (snd (handle_quick3 C s k ses qr data)))" if "s1_sessions s k = Some ses" for ses qr
    using server1_inv_updates[OF assms(1)] that
    by (cases "quick_responder_complete C qr data") (auto simp: handle_quick3_def)
  have "server1_inv (snd (snd (handle_quick1 fill C s k ses st data ok)))" if "s1_sessions s k = Some ses" for ses st
  proof -
    obtain x e where "respond_quick fill C st data (s1_entropy s) = (x, e)" by fastforce
    then show ?thesis using server1_inv_updates[OF assms(1)] that by (cases x) (auto simp: handle_quick1_def)
  qed
  with q3 show "server1_inv (snd (snd (handle_quick fill C s k data ok)))"
    using assms(1) by (auto simp: handle_quick_def split: option.split)
qed

interpretation sessions1: machine "server1_step fill C" server1_inv for fill C
proof
  fix s :: "'a server1" and x
  assume inv: "server1_inv s"
  show "server1_inv (server1_step fill C s x)"
  proof (cases x)
    case (Arrives1 rcv ok)
    then show ?thesis
      using inv handlers1_inv[OF inv] by (auto simp: handle_one1_def split: io.split res.split)
  qed (use inv in \<open>auto simp: take_child1_def server1_inv_def\<close>)
qed

text \<open>Without a negotiation under way for a cookie, no datagram establishes a CHILD SA for it.\<close>

lemma no_negotiation:
  assumes "\<And>ses. s1_sessions s k = Some ses \<Longrightarrow> ss_quick ses = None"
  shows "fst (handle_one1 fill C s rcv ok) \<noteq> Done (ChildSaEstablished k)"
proof -
  have a: "fst (handle_aggressive fill C s h data ok) \<noteq> Done (ChildSaEstablished k)" for h data
    by (auto simp: handle_aggressive_def handle_msg1_def handle_msg3_def ike_iff
        split: res.split option.split prod.split)
  have b: "fst (handle_quick fill C s k' data ok) \<noteq> Done (ChildSaEstablished k)" for k' data
    using assms
    by (auto simp: handle_quick_def handle_quick1_def handle_quick3_def Let_def
        split: res.split option.split prod.split)
  show ?thesis using a b by (auto simp: handle_one1_def split: io.split res.split)
qed

section \<open>The handshake over a network\<close>

text \<open>
  What the client needs of its network: in a good state, a message that the server answers is answered,
  and a message that it only takes in has been taken in after the next pause; all within the size of a UDP
  datagram.
\<close>

locale relaying_net =
  fixes fs :: "'e filler" and C :: primitives
    and send :: "'n sender" and recv :: "'n receiver" and pause :: "'n \<Rightarrow> 'n"
    and srv :: "'n \<Rightarrow> 'e server1" and good :: "'n \<Rightarrow> bool"
  assumes answers: "good n \<Longrightarrow> length m \<le> UDP_PAYLOAD \<Longrightarrow> length r \<le> UDP_PAYLOAD \<Longrightarrow>
      \<forall>sends. udp_ok sends \<longrightarrow> handle_one1 fs C (srv n) (IoOk m) sends = (ev, Some r, s') \<Longrightarrow>
      \<exists>n'. exchange1 send recv n m = (IoOk r, n') \<and> good n' \<and> srv n' = s'"
    and takes: "good n \<Longrightarrow> length m \<le> UDP_PAYLOAD \<Longrightarrow>
      \<forall>sends. udp_ok sends \<longrightarrow> handle_one1 fs C (srv n) (IoOk m) sends = (ev, None, s') \<Longrightarrow>
      \<exists>n'. send n m = (True, n') \<and> good (pause n') \<and> srv (pause n') = s'"
begin

lemma connect1_over_net:
  assumes C: "modpow_correct C" "cbc_correct C" and f: "entropy fc" "entropy fs" and cfg: "nc_group cfg \<noteq> X25519"
      "pc_psk (s1_cfg (srv n)) = nc_psk cfg"
      "length (i1_data (nc_our_id cfg)) < 65000" "length (i1_data (pc_our_id (s1_cfg (srv n)))) < 65000"
    and ts: "ts_ok (nc_ts_local cfg)" "ts_ok (nc_ts_remote cfg)"
    and range: "public_in_range fc C (nc_group cfg) e" "public_in_range fs C (nc_group cfg) (s1_entropy (srv n))"
    and good: "good n"
  obtains st c c' e' n' where "client1_connect fc C send recv pause cfg e n = (Done \<lparr>eb_phase1 = st, eb_child = c\<rparr>, e', n')"
    "good (pause n')" "child1 (srv (pause n')) (st_cky_i st) = Some c'" "mirrored_children c c'"
proof -
  obtain msg1 ai e1 where i: "initiate_aggressive fc C cfg e = (Ok (msg1, ai), e1)" using initiates[OF C(1) f(1)] by blast
  obtain msg2 s1 msg3 st where
    p: "\<forall>sends. udp_ok sends \<longrightarrow> handle_one1 fs C (srv n) (IoOk msg1) sends = (Done Phase1SaInit, Some msg2, s1)"
    "aggressive_complete C ai msg2 = Ok (msg3, st)"
    "\<forall>sends. udp_ok sends \<longrightarrow> handle_one1 fs C s1 (IoOk msg3) sends = (Done Phase1Established, None, s1)"
    "s1_sessions s1 (st_cky_i st) = Some \<lparr>ss_phase1 = Some st, ss_quick = None\<rparr>" "phase1_typed st"
    "length msg1 \<le> UDP_PAYLOAD" "length msg2 \<le> UDP_PAYLOAD" "length msg3 \<le> UDP_PAYLOAD"
    by (rule server1_phase1[OF C(1) f cfg range i])
  obtain n1 where n1: "exchange1 send recv n msg1 = (IoOk msg2, n1)" "good n1" "srv n1 = s1"
    using answers[OF good p(6,7,1)] by blast
  obtain n2 where n2: "send n1 msg3 = (True, n2)" "good (pause n2)" "srv (pause n2) = s1"
    using takes[OF n1(2) p(8)] p(3) n1(3) by blast
  obtain qm1 q e2 where j: "initiate_quick fc C st (nc_ts_local cfg) (nc_ts_remote cfg) e1 = (Ok (qm1, q), e2)"
    by (rule quick_initiates[OF C(2) p(5) f(1) ts, of e1]) blast
  obtain qm2 s2 qm3 c s3 c' where
    q: "\<forall>sends. udp_ok sends \<longrightarrow> handle_one1 fs C s1 (IoOk qm1) sends = (Done QuickSaInit, Some qm2, s2)"
    "quick_initiator_complete C q qm2 = Ok (qm3, c)"
    "\<forall>sends. udp_ok sends \<longrightarrow> handle_one1 fs C s2 (IoOk qm3) sends = (Done (ChildSaEstablished (st_cky_i st)), None, s3)"
    "s1_children s3 (st_cky_i st) = Some c'" "mirrored_children c c'"
    "length qm1 \<le> UDP_PAYLOAD" "length qm2 \<le> UDP_PAYLOAD" "length qm3 \<le> UDP_PAYLOAD"
    by (rule server1_quick[OF C(2) p(5) f ts j p(4)])
  obtain n3 where n3: "exchange1 send recv (pause n2) qm1 = (IoOk qm2, n3)" "good n3" "srv n3 = s2"
    using answers[OF n2(2) q(6,7)] q(1) n2(3) by blast
  obtain n4 where n4: "send n3 qm3 = (True, n4)" "good (pause n4)" "srv (pause n4) = s3"
    using takes[OF n3(2) q(8)] q(3) n3(3) by blast
  have "client1_connect fc C send recv pause cfg e n = (Done \<lparr>eb_phase1 = st, eb_child = c\<rparr>, e2, n4)"
    using i p(2) j q(2) n1(1) n2(1) n3(1) n4(1) by (simp add: client1_connect_def client1_quick_def)
  from that[OF this n4(2) _ q(5)] q(4) n4(3) show thesis by (simp add: child1_def)
qed

end

section \<open>Properties\<close>

text \<open>
  C37. The invariant of the IKEv1 server: after any sequence of datagrams, I/O errors and taken CHILD
  SAs, every session has a Phase-1 state that was made for the cookie it is stored under, and every
  CHILD SA belongs to a session.
\<close>
theorem server1_sessions_invariant:
  "server1_inv (foldl (server1_step fill C) (server1_bind e cfg) inputs)"
  by (rule sessions1.run_inv) (simp add: server1_inv_def server1_bind_def)

text \<open>
  C39. A forged datagram drops a negotiation: while Quick Mode is under way for a client, a bare header
  of 28 bytes with the client's cookie, which needs no key, makes the server fail and forget the
  negotiation; after it no message, the genuine third one included, establishes the CHILD SA.
\<close>
theorem forged_quick_drops_negotiation:
  assumes "s1_sessions s k = Some ses" "ss_phase1 ses = Some st" "ss_quick ses = Some qr"
    and "length k = 8" "length cky_r = 8"
  shows "\<exists>s'. handle_one1 fill C s (IoOk (isakmp_header_to_bytes (qm_header k cky_r mid))) ok =
      (IkeFailed (Crypto ''CBC ciphertext not block-aligned''), None, s') \<and>
    (\<forall>rcv ok'. fst (handle_one1 fill C s' rcv ok') \<noteq> Done (ChildSaEstablished k))"
proof -
  let ?d = "isakmp_header_to_bytes (qm_header k cky_r mid)"
  define s' where "s' = s\<lparr>s1_sessions := (s1_sessions s)(k \<mapsto> ses\<lparr>ss_quick := None\<rparr>)\<rparr>"
  have wf: "isakmp_header_wf (qm_header k cky_r mid)" using assms(4,5) by (rule qm_header_wf)
  have h: "isakmp_header_parse ?d = Ok (qm_header k cky_r mid)" "drop ISAKMP_LEN ?d = []"
    using isakmp_header_roundtrip(1)[OF wf, of "[]"] isakmp_header_roundtrip(2)[OF wf] by simp_all
  have "quick_responder_complete C qr ?d = Err (Crypto ''CBC ciphertext not block-aligned'')"
    using h isakmp_body[OF h(1)] by (simp add: quick_responder_complete_def decrypt_payloads_def aes256_cbc_decrypt_def)
  then have "handle_one1 fill C s (IoOk ?d) ok = (IkeFailed (Crypto ''CBC ciphertext not block-aligned''), None, s')"
    using assms(1-3) h(1) by (simp add: handle_one1_def handle_quick_def handle_quick3_def s'_def)
      (simp add: qm_header_def handle_quick_def assms(1-3) handle_quick3_def Let_def)
  moreover have "fst (handle_one1 fill C s' rcv ok') \<noteq> Done (ChildSaEstablished k)" for rcv ok'
    by (rule no_negotiation) (simp add: s'_def)
  ultimately show ?thesis by blast
qed

text \<open>A server with one negotiation under way.\<close>

definition sample_quick :: quick_responder where
  "sample_quick = \<lparr>qr_prf = Prf_Sha256, qr_skeyid_a = [1], qr_skeyid_d = [2], qr_enc_key = replicate 32 3, qr_msgid = 7,
     qr_local_spi = 1, qr_peer_spi = 2, qr_ni = [4], qr_nr = [5], qr_iv2 = replicate 16 6\<rparr>"

definition sample_server1 :: "unit server1" where
  "sample_server1 = (server1_bind () sample_responder1)\<lparr>s1_sessions :=
     [replicate 8 1 \<mapsto> \<lparr>ss_phase1 = Some sample_phase1, ss_quick = Some sample_quick\<rparr>]\<rparr>"

theorem forged_quick_drops_negotiation_witness:
  "\<exists>s'. handle_one1 two_fill toy_primitives sample_server1
      (IoOk (isakmp_header_to_bytes (qm_header (replicate 8 1) (replicate 8 0) 9))) (\<lambda>_. True) =
      (IkeFailed (Crypto ''CBC ciphertext not block-aligned''), None, s') \<and>
    (\<forall>rcv ok'. fst (handle_one1 two_fill toy_primitives s' rcv ok') \<noteq> Done (ChildSaEstablished (replicate 8 1)))"
  by (rule forged_quick_drops_negotiation[where ses = "\<lparr>ss_phase1 = Some sample_phase1, ss_quick = Some sample_quick\<rparr>"
        and st = sample_phase1 and qr = sample_quick])
    (simp_all add: sample_server1_def)

text \<open>
  Quick Mode before Phase 1 is complete: an initiator that never sends the third message of Aggressive
  Mode, the hash with which it authenticates itself, is served Quick Mode after
  the first message, and the server stores a CHILD SA for it.
\<close>
theorem quick_before_hash_i:
  assumes C: "modpow_correct C" "cbc_correct C" and f: "entropy fc" "entropy fs" and cfg: "nc_group cfg \<noteq> X25519"
      "pc_psk (s1_cfg s) = nc_psk cfg" "length (i1_data (nc_our_id cfg)) < 65000" "length (i1_data (pc_our_id (s1_cfg s))) < 65000"
    and ts: "ts_ok (nc_ts_local cfg)" "ts_ok (nc_ts_remote cfg)"
    and range: "public_in_range fc C (nc_group cfg) e" "public_in_range fs C (nc_group cfg) (s1_entropy s)"
    and ok: "udp_ok ok"
  shows "\<exists>msg1 ai e1 msg2 s1 msg3 st qm1 q e2 qm2 s2 qm3 c s3 c'. initiate_aggressive fc C cfg e = (Ok (msg1, ai), e1) \<and>
    handle_one1 fs C s (IoOk msg1) ok = (Done Phase1SaInit, Some msg2, s1) \<and> aggressive_complete C ai msg2 = Ok (msg3, st) \<and>
    initiate_quick fc C st (nc_ts_local cfg) (nc_ts_remote cfg) e1 = (Ok (qm1, q), e2) \<and>
    handle_one1 fs C s1 (IoOk qm1) ok = (Done QuickSaInit, Some qm2, s2) \<and> quick_initiator_complete C q qm2 = Ok (qm3, c) \<and>
    handle_one1 fs C s2 (IoOk qm3) ok = (Done (ChildSaEstablished (st_cky_i st)), None, s3) \<and> child1 s3 (st_cky_i st) = Some c'"
proof -
  obtain msg1 ai e1 where i: "initiate_aggressive fc C cfg e = (Ok (msg1, ai), e1)" using initiates[OF C(1) f(1)] by blast
  obtain msg2 s1 msg3 st where p: "handle_one1 fs C s (IoOk msg1) ok = (Done Phase1SaInit, Some msg2, s1)"
    "aggressive_complete C ai msg2 = Ok (msg3, st)"
    "s1_sessions s1 (st_cky_i st) = Some \<lparr>ss_phase1 = Some st, ss_quick = None\<rparr>" "phase1_typed st"
    by (rule server1_phase1[OF C(1) f cfg range i]) (use ok in blast)
  obtain qm1 q e2 where j: "initiate_quick fc C st (nc_ts_local cfg) (nc_ts_remote cfg) e1 = (Ok (qm1, q), e2)"
    by (rule quick_initiates[OF C(2) p(4) f(1) ts, of e1]) blast
  obtain qm2 s2 qm3 c s3 c' where "handle_one1 fs C s1 (IoOk qm1) ok = (Done QuickSaInit, Some qm2, s2)"
    "quick_initiator_complete C q qm2 = Ok (qm3, c)"
    "handle_one1 fs C s2 (IoOk qm3) ok = (Done (ChildSaEstablished (st_cky_i st)), None, s3)" "s1_children s3 (st_cky_i st) = Some c'"
    by (rule server1_quick[OF C(2) p(4) f ts j p(3)]) (use ok in blast)
  with i p(1,2) j show ?thesis unfolding child1_def by blast
qed

end
