(* ===== verification/Rekey.thy ===== *)
theory Rekey
  imports Ike_Auth Esp
begin

text \<open>
  Rekeying with \<open>CREATE_CHILD_SA\<close>: of a CHILD SA (\<open>src/src/ikev2/rekey.rs\<close>, both roles) and of the
  IKE SA (\<open>src/src/ikev2/ike_rekey.rs\<close>, the responder). \<open>our_sk_e\<close>, \<open>peer_sk_e\<close> and
  \<open>full_tunnel_ts\<close>, which the source files repeat, are those of \<open>Informational\<close> and \<open>Ike_Auth\<close>.
  The optional trace to standard error, switched on by an environment variable, is left out: it
  does not change the result.

  The lemmas show that both ends derive matching ESP SAs on fresh SPIs and the same new IKE keys,
  and that no message makes either step panic.
\<close>

section \<open>Rekeying a CHILD SA\<close>

definition create_child_header :: "completed_sa_init \<Rightarrow> u32 \<Rightarrow> bool \<Rightarrow> ike_header" where
  "create_child_header sa message_id is_response =
     \<lparr>h_initiator_spi = ci_spi_i sa, h_responder_spi = ci_spi_r sa, h_next_payload = PT_NoNext,
      h_major_version = 2, h_minor_version = 0, h_exchange_type = CreateChildSa,
      h_flags = \<lparr>f_initiator = (ci_role sa = Initiator), f_version = False, f_response = is_response\<rparr>,
      h_message_id = message_id, h_length = 0\<rparr>"

text \<open>\<open>esp_spi_from_sa\<close> of \<open>rekey.rs\<close>, which parses the whole payload.\<close>

definition rekey_spi_from_sa :: "bytes \<Rightarrow> u32 res" where
  "rekey_spi_from_sa sa_bytes =
     bindR (security_association_parse sa_bytes) (\<lambda>sa.
     bindR (ok_or (case sa_proposals sa of [] \<Rightarrow> None | p # _ \<Rightarrow> Some p) NoProposalChosen) (\<lambda>proposal.
       if length (pr_spi proposal) \<noteq> 4 then Err (Crypto ''expected a 4-byte ESP SPI'')
       else bindR (slice_to (pr_spi proposal) 4) (\<lambda>b. Ok (from_be32 b))))"

definition sa_nonce_payload :: "bytes option \<times> bytes option \<Rightarrow> raw_payload \<Rightarrow> (bytes option \<times> bytes option) res" where
  "sa_nonce_payload v p =
     (case v of (sa, nonce) \<Rightarrow>
        (case rp_type p of
           PT_SecurityAssociation \<Rightarrow> Ok (Some (rp_data p), nonce)
         | PT_Nonce \<Rightarrow> Ok (sa, Some (rp_data p))
         | _ \<Rightarrow> Ok (sa, nonce)))"

definition find_sa_and_nonce :: "payload_type \<Rightarrow> bytes \<Rightarrow> (bytes \<times> bytes) res" where
  "find_sa_and_nonce first inner =
     bindR (for_payloads first inner sa_nonce_payload (None, None)) (\<lambda>(sa, nonce).
     bindR (ok_or sa (MissingPayload ''SA'')) (\<lambda>sa.
     bindR (ok_or nonce (MissingPayload ''Nonce'')) (\<lambda>nonce. Ok (sa, nonce))))"

definition build_rekey_request ::
    "primitives \<Rightarrow> completed_sa_init \<Rightarrow> u32 \<Rightarrow> u32 \<Rightarrow> u32 \<Rightarrow> bytes \<Rightarrow> bytes \<Rightarrow> bytes res" where
  "build_rekey_request C sa message_id rekeyed_spi new_spi ni iv =
     (let rekey_notify = \<lparr>nt_protocol_id = PROTO_ESP, nt_spi = to_be32 rekeyed_spi,
            nt_notify_type = REKEY_SA, nt_data = []\<rparr>;
          inner = [(PT_Notify, notify_to_bytes rekey_notify),
            (PT_SecurityAssociation, security_association_to_bytes (esp_offer new_spi)),
            (PT_Nonce, ni),
            (PT_TrafficSelectorInitiator, full_tunnel_ts),
            (PT_TrafficSelectorResponder, full_tunnel_ts)]
      in build_encrypted_gcm C (create_child_header sa message_id False) (first_payload_type inner)
           (encode_payload_chain inner) (our_sk_e sa) iv)"

definition echo_ts_payload :: "bytes option \<times> bytes option \<Rightarrow> raw_payload \<Rightarrow> (bytes option \<times> bytes option) res" where
  "echo_ts_payload v p =
     (case v of (tsi, tsr) \<Rightarrow>
        (case rp_type p of
           PT_TrafficSelectorInitiator \<Rightarrow> Ok (Some (rp_data p), tsr)
         | PT_TrafficSelectorResponder \<Rightarrow> Ok (tsi, Some (rp_data p))
         | _ \<Rightarrow> Ok (tsi, tsr)))"

definition unwrap_or_full :: "bytes option \<Rightarrow> bytes" where
  "unwrap_or_full m = (case m of Some d \<Rightarrow> d | None \<Rightarrow> full_tunnel_ts)"

definition rekey_selectors :: "ipv4 option \<Rightarrow> bytes option \<Rightarrow> bytes option \<Rightarrow> bytes \<times> bytes" where
  "rekey_selectors assigned_ip echo_tsi echo_tsr =
     (case assigned_ip of
        Some ip \<Rightarrow> (traffic_selectors_to_bytes \<lparr>tss_selectors = [ipv4_host ip]\<rparr>, full_tunnel_ts)
      | None \<Rightarrow> (unwrap_or_full echo_tsi, unwrap_or_full echo_tsr))"

definition responder_process_rekey ::
    "primitives \<Rightarrow> completed_sa_init \<Rightarrow> bytes \<Rightarrow> u32 \<Rightarrow> bytes \<Rightarrow> bytes \<Rightarrow> ipv4 option \<Rightarrow> (bytes \<times> child_sa) res" where
  "responder_process_rekey C sa request new_spi nr iv assigned_ip =
     bindR (ike_header_parse request) (\<lambda>h.
     bindR (open_encrypted_gcm C request (peer_sk_e sa)) (\<lambda>(first, inner).
     bindR (find_sa_and_nonce first inner) (\<lambda>(sa_bytes, ni).
     bindR (rekey_spi_from_sa sa_bytes) (\<lambda>peer_spi.
     bindR (for_payloads first inner echo_ts_payload (None, None)) (\<lambda>(echo_tsi, echo_tsr).
     let (tsi, tsr) = rekey_selectors assigned_ip echo_tsi echo_tsr in
     bindR (child_sa_derive C (sk_d (ci_keys sa)) ni nr Responder new_spi peer_spi) (\<lambda>child.
     let inner_out = [(PT_SecurityAssociation, security_association_to_bytes (esp_offer new_spi)),
            (PT_Nonce, nr),
            (PT_TrafficSelectorInitiator, tsi),
            (PT_TrafficSelectorResponder, tsr)] in
     bindR (build_encrypted_gcm C (create_child_header sa (h_message_id h) True) (first_payload_type inner_out)
         (encode_payload_chain inner_out) (our_sk_e sa) iv) (\<lambda>response.
       Ok (response, child))))))))"

definition initiator_complete_rekey ::
    "primitives \<Rightarrow> completed_sa_init \<Rightarrow> bytes \<Rightarrow> u32 \<Rightarrow> bytes \<Rightarrow> child_sa res" where
  "initiator_complete_rekey C sa ni new_spi response =
     bindR (open_encrypted_gcm C response (peer_sk_e sa)) (\<lambda>(first, inner).
     bindR (find_sa_and_nonce first inner) (\<lambda>(sa_bytes, nr).
     bindR (rekey_spi_from_sa sa_bytes) (\<lambda>peer_spi.
       child_sa_derive C (sk_d (ci_keys sa)) ni nr Initiator new_spi peer_spi)))"

section \<open>Rekeying the IKE SA\<close>

definition is_ike_sa_rekey :: "payload_chain \<Rightarrow> bool" where
  "is_ike_sa_rekey inner =
     (let has_ke = list_ex (\<lambda>(t, _). t = PT_KeyExchange) inner;
          has_ts = list_ex (\<lambda>(t, _). t = PT_TrafficSelectorInitiator \<or> t = PT_TrafficSelectorResponder) inner
      in has_ke \<and> \<not> has_ts)"

definition ike_rekey_payload ::
    "bytes option \<times> bytes option \<times> bytes option \<Rightarrow> raw_payload \<Rightarrow> (bytes option \<times> bytes option \<times> bytes option) res" where
  "ike_rekey_payload v p =
     (case v of (sa_bytes, ni, ke_bytes) \<Rightarrow>
        (case rp_type p of
           PT_SecurityAssociation \<Rightarrow> Ok (Some (rp_data p), ni, ke_bytes)
         | PT_Nonce \<Rightarrow> Ok (sa_bytes, Some (rp_data p), ke_bytes)
         | PT_KeyExchange \<Rightarrow> Ok (sa_bytes, ni, Some (rp_data p))
         | _ \<Rightarrow> Ok (sa_bytes, ni, ke_bytes)))"

definition ike_rekey_proposal :: "chosen_suite \<Rightarrow> u64 \<Rightarrow> proposal" where
  "ike_rekey_proposal suite spi = (to_proposal suite)\<lparr>pr_protocol_id := PROTO_IKE, pr_spi := to_be64 spi\<rparr>"

definition responder_process_ike_rekey ::
    "primitives \<Rightarrow> completed_sa_init \<Rightarrow> bytes \<Rightarrow> u64 \<Rightarrow> bytes \<Rightarrow> bytes \<Rightarrow> bytes \<Rightarrow> (bytes \<times> completed_sa_init) res" where
  "responder_process_ike_rekey C old_sa request new_spi_r dh_private nr iv =
     bindR (ike_header_parse request) (\<lambda>h.
     bindR (open_encrypted_gcm C request (peer_sk_e old_sa)) (\<lambda>(first, inner).
     bindR (for_payloads first inner ike_rekey_payload (None, None, None)) (\<lambda>(sa_bytes, ni, ke_bytes).
     bindR (ok_or sa_bytes (MissingPayload ''SA'')) (\<lambda>sa_bytes.
     bindR (ok_or ni (MissingPayload ''Nonce'')) (\<lambda>ni.
     bindR (ok_or ke_bytes (MissingPayload ''KE'')) (\<lambda>ke_bytes.
     bindR (key_exchange_parse ke_bytes) (\<lambda>ke.
     bindR (security_association_parse sa_bytes) (\<lambda>sa.
     bindR (ok_or (case sa_proposals sa of [] \<Rightarrow> None | p # _ \<Rightarrow> Some p) NoProposalChosen) (\<lambda>proposal.
     if length (pr_spi proposal) \<noteq> 8 then Err (Crypto ''expected an 8-byte IKE SPI'')
     else bindR (slice_to (pr_spi proposal) 8) (\<lambda>spi_bytes.
     let spi_i = from_be64 spi_bytes in
     bindR (ok_or (select sa) NoProposalChosen) (\<lambda>suite.
     bindR (ok_or (dh_group_from_transform_id (cs_dh_id suite)) NoProposalChosen) (\<lambda>group.
     if ke_dh_group ke \<noteq> dh_group_transform_id group
     then Err (DhGroupMismatch (dh_group_transform_id group) (ke_dh_group ke))
     else bindR (dh_shared C group dh_private (ke_data ke)) (\<lambda>shared.
     bindR (dh_public C group dh_private) (\<lambda>our_public.
     bindR (derive_rekey_session_keys C (sk_d (ci_keys old_sa)) shared ni nr spi_i new_spi_r
         (suite_key_lengths suite)) (\<lambda>keys.
     let sar = \<lparr>sa_proposals = [ike_rekey_proposal suite new_spi_r]\<rparr>;
         ke_out = \<lparr>ke_dh_group = cs_dh_id suite, ke_data = our_public\<rparr>;
         inner_out = [(PT_SecurityAssociation, security_association_to_bytes sar),
           (PT_Nonce, nr),
           (PT_KeyExchange, key_exchange_to_bytes ke_out)] in
     bindR (build_encrypted_gcm C (create_child_header old_sa (h_message_id h) True) (first_payload_type inner_out)
         (encode_payload_chain inner_out) (our_sk_e old_sa) iv) (\<lambda>response.
       Ok (response, \<lparr>ci_role = Responder, ci_spi_i = spi_i, ci_spi_r = new_spi_r, ci_suite = suite,
         ci_keys = keys, ci_ni = ni, ci_nr = nr, ci_init_message = [], ci_resp_message = [],
         ci_peer_signature_hashes = ci_peer_signature_hashes old_sa\<rparr>)))))))))))))))))"

section \<open>Lemmas\<close>

lemma create_child_header_wf [simp]: "header_wf (create_child_header sa i r)"
  by (simp add: create_child_header_def header_wf_def)

lemma rekey_spi_from_offer [simp]: "rekey_spi_from_sa (security_association_to_bytes (esp_offer spi)) = Ok spi"
proof -
  have "sa_wf (esp_offer spi)" by (simp add: sa_wf_def esp_offer_def proposal_wf_def)
  then have "security_association_parse (security_association_to_bytes (esp_offer spi)) = Ok (esp_offer spi)"
    by (rule sa.dec_enc)
  then show ?thesis by (simp add: rekey_spi_from_sa_def) (simp add: esp_offer_def)
qed

lemma sa_nonce_not_Panic: "sa_nonce_payload v p \<noteq> Panic"
  and echo_ts_not_Panic: "echo_ts_payload v p \<noteq> Panic"
  and ike_rekey_payload_not_Panic: "ike_rekey_payload w p \<noteq> Panic"
  by (auto simp: sa_nonce_payload_def echo_ts_payload_def ike_rekey_payload_def split: prod.splits payload_type.splits)

lemma rekey_parsers_not_Panic [simp]:
  "rekey_spi_from_sa b \<noteq> Panic" "find_sa_and_nonce t inner \<noteq> Panic"
  using for_payloads_not_Panic[of sa_nonce_payload, OF sa_nonce_not_Panic]
  by (auto simp: rekey_spi_from_sa_def find_sa_and_nonce_def res_iff split: list.splits)

text \<open>A \<open>CREATE_CHILD_SA\<close> message built by one end and opened by the other.\<close>

lemma create_child_delivery:
  assumes "gcm_correct C" "sa_pair a b" "gcm_keys a" "chain_wf ps" "length iv = 8"
    and "length (encode_payload_chain ps) < 65507"
  shows "\<exists>m h. build_encrypted_gcm C (create_child_header a mid resp) (first_payload_type ps) (encode_payload_chain ps)
      (our_sk_e a) iv = Ok m \<and>
    open_encrypted_gcm C m (peer_sk_e b) = Ok (first_payload_type ps, encode_payload_chain ps) \<and>
    ike_header_parse m = Ok h \<and> h_message_id h = mid"
proof -
  obtain m where "build_encrypted_gcm C (create_child_header a mid resp) (first_payload_type ps) (encode_payload_chain ps)
      (our_sk_e a) iv = Ok m"
    "open_encrypted_gcm C m (our_sk_e a) = Ok (first_payload_type ps, encode_payload_chain ps)"
    "ike_header_parse m = Ok ((create_child_header a mid resp)\<lparr>h_next_payload := PT_Encrypted,
       h_length := of_nat (HEADER_LEN + (4 + (8 + (length (encode_payload_chain ps) + 1) + 16)))\<rparr>)"
    by (rule open_build_encrypted[OF assms(1) create_child_header_wf canonical_first[OF assms(4)]
        gcm_keys_our[OF assms(3)] assms(5,6)])
  then show ?thesis using sa_pair_keys[OF assms(2)] by (simp add: create_child_header_def)
qed

lemma rekey_messages_not_Panic:
  "responder_process_rekey C sa req spi nr iv ip \<noteq> Panic" "initiator_complete_rekey C sa ni spi resp \<noteq> Panic"
proof -
  have d: "child_sa_derive C skd n1 n2 r l p \<noteq> Panic" for skd n1 n2 r l p
    using toy_child_sa[of C skd n1 n2 r l p] by auto
  show "responder_process_rekey C sa req spi nr iv ip \<noteq> Panic" "initiator_complete_rekey C sa ni spi resp \<noteq> Panic"
    using d for_payloads_not_Panic[of echo_ts_payload, OF echo_ts_not_Panic]
    by (auto simp: responder_process_rekey_def initiator_complete_rekey_def bindR_Panic_iff Let_def split: prod.splits)
qed

lemma select_ike_rekey_proposal:
  "suite_supported s \<Longrightarrow> select \<lparr>sa_proposals = [ike_rekey_proposal s spi]\<rparr> = Some s"
  by (cases s, simp add: suite_supported_def, elim disjE conjE)
    (simp_all add: select_def select_from_proposal_def ike_rekey_proposal_def to_proposal_def has_def)

lemma ike_rekey_proposal_wf: "sa_wf \<lparr>sa_proposals = [ike_rekey_proposal s spi]\<rparr>"
  using to_proposal_wf[of s] by (simp add: sa_wf_def proposal_wf_def ike_rekey_proposal_def)

lemma child_sa_derive_fields:
  assumes "child_sa_derive C skd ni nr r l p = Ok c"
  shows "es_spi (ch_inbound c) = l \<and> es_spi (ch_outbound c) = p \<and> es_seq (ch_outbound c) = 0"
  using child_sa_derive_ok[of C skd ni nr r l p] assms by (cases r) (auto simp: Let_def)

lemma sa_pair_back: "sa_pair a b \<Longrightarrow> gcm_keys a \<Longrightarrow> sa_pair b a \<and> gcm_keys b"
  by (cases "ci_role a") (simp_all add: sa_pair_def gcm_keys_def)

lemma rekey_request_delivery:
  assumes "gcm_correct C" "sa_pair a b" "gcm_keys a" "length iv = 8" "length ni < 60000"
  shows "\<exists>m h t inner. build_rekey_request C a mid old si ni iv = Ok m \<and> ike_header_parse m = Ok h \<and> h_message_id h = mid \<and>
    open_encrypted_gcm C m (peer_sk_e b) = Ok (t, inner) \<and>
    find_sa_and_nonce t inner = Ok (security_association_to_bytes (esp_offer si), ni) \<and>
    for_payloads t inner echo_ts_payload (None, None) = Ok (Some full_tunnel_ts, Some full_tunnel_ts)"
proof -
  define ps where "ps = [(PT_Notify, notify_to_bytes \<lparr>nt_protocol_id = PROTO_ESP, nt_spi = to_be32 old,
      nt_notify_type = REKEY_SA, nt_data = []\<rparr>),
    (PT_SecurityAssociation, security_association_to_bytes (esp_offer si)), (PT_Nonce, ni),
    (PT_TrafficSelectorInitiator, full_tunnel_ts), (PT_TrafficSelectorResponder, full_tunnel_ts)]"
  have wf: "chain_wf ps" "length (encode_payload_chain ps) < 65507"
    using assms(5) by (simp_all add: ps_def length_encode_payload_chain notify_to_bytes_def)
  obtain m h where m: "build_rekey_request C a mid old si ni iv = Ok m"
    "open_encrypted_gcm C m (peer_sk_e b) = Ok (first_payload_type ps, encode_payload_chain ps)"
    "ike_header_parse m = Ok h" "h_message_id h = mid"
    using create_child_delivery[OF assms(1-3) wf(1) assms(4) wf(2), of mid False]
    by (auto simp: build_rekey_request_def ps_def)
  have "find_sa_and_nonce (first_payload_type ps) (encode_payload_chain ps) =
      Ok (security_association_to_bytes (esp_offer si), ni)"
    "for_payloads (first_payload_type ps) (encode_payload_chain ps) echo_ts_payload (None, None) =
      Ok (Some full_tunnel_ts, Some full_tunnel_ts)"
    by (simp_all add: find_sa_and_nonce_def for_payloads_encode[OF wf(1)])
      (simp_all add: ps_def sa_nonce_payload_def echo_ts_payload_def)
  with m show ?thesis by blast
qed

lemma rekey_response_delivery:
  assumes "gcm_correct C" "sa_pair b a" "gcm_keys b" "length iv = 8" "length nr < 60000"
    and "ts = rekey_selectors ip (Some full_tunnel_ts) (Some full_tunnel_ts)"
    and "qs = [(PT_SecurityAssociation, security_association_to_bytes (esp_offer sr)), (PT_Nonce, nr),
      (PT_TrafficSelectorInitiator, fst ts), (PT_TrafficSelectorResponder, snd ts)]"
  shows "\<exists>r t inner. build_encrypted_gcm C (create_child_header b mid True) (first_payload_type qs)
      (encode_payload_chain qs) (our_sk_e b) iv = Ok r \<and>
    open_encrypted_gcm C r (peer_sk_e a) = Ok (t, inner) \<and>
    find_sa_and_nonce t inner = Ok (security_association_to_bytes (esp_offer sr), nr)"
proof -
  have "length (fst ts) = 20" "length (snd ts) = 20"
    by (simp_all add: assms(6) rekey_selectors_def unwrap_or_full_def traffic_selectors_to_bytes_def
        traffic_selector_write_def ipv4_host_def split: option.split)
  then have wf: "chain_wf qs" "length (encode_payload_chain qs) < 65507"
    using assms(5) by (simp_all add: assms(7) length_encode_payload_chain)
  have "find_sa_and_nonce (first_payload_type qs) (encode_payload_chain qs) =
      Ok (security_association_to_bytes (esp_offer sr), nr)"
    by (simp add: find_sa_and_nonce_def for_payloads_encode[OF wf(1)]) (simp add: assms(7) sa_nonce_payload_def)
  then show ?thesis using create_child_delivery[OF assms(1-3) wf(1) assms(4) wf(2), of mid True] by blast
qed

text \<open>The payloads of an IKE SA rekey: of any offer, and of the answer to it, which has one proposal.\<close>

definition ike_rekey_payloads :: "security_association \<Rightarrow> u16 \<Rightarrow> bytes \<Rightarrow> bytes \<Rightarrow> payload_chain" where
  "ike_rekey_payloads sa g n pub =
     [(PT_SecurityAssociation, security_association_to_bytes sa), (PT_Nonce, n),
      (PT_KeyExchange, key_exchange_to_bytes \<lparr>ke_dh_group = g, ke_data = pub\<rparr>)]"

definition ike_rekey_chain :: "chosen_suite \<Rightarrow> u64 \<Rightarrow> bytes \<Rightarrow> bytes \<Rightarrow> payload_chain" where
  "ike_rekey_chain suite spi n pub =
     ike_rekey_payloads \<lparr>sa_proposals = [ike_rekey_proposal suite spi]\<rparr> (cs_dh_id suite) n pub"

lemma ike_rekey_payloads_fit:
  assumes "length (security_association_to_bytes sa) < 2000" "length n < 60000" "length pub < 2000"
  shows "chain_wf (ike_rekey_payloads sa g n pub)" "length (encode_payload_chain (ike_rekey_payloads sa g n pub)) < 65507"
  using assms by (simp_all add: ike_rekey_payloads_def length_encode_payload_chain key_exchange_to_bytes_def)

lemma ike_rekey_proposal_length: "length (security_association_to_bytes \<lparr>sa_proposals = [ike_rekey_proposal suite spi]\<rparr>) < 2000"
  using length_write_transforms[of "pr_transforms (to_proposal suite)"]
  by (simp add: security_association_to_bytes_def ike_rekey_proposal_def proposal_write_def Let_def to_proposal_def
      split: option.splits)

lemma ike_rekey_chain_fits:
  assumes "length n < 60000" "length pub < 2000"
  shows "chain_wf (ike_rekey_chain suite spi n pub)" "length (encode_payload_chain (ike_rekey_chain suite spi n pub)) < 65507"
  unfolding ike_rekey_chain_def by (rule ike_rekey_payloads_fit[OF ike_rekey_proposal_length assms])+

lemma ike_rekey_payloads_parse:
  assumes "chain_wf (ike_rekey_payloads sa g n pub)"
  shows "for_payloads (first_payload_type (ike_rekey_payloads sa g n pub)) (encode_payload_chain (ike_rekey_payloads sa g n pub))
      ike_rekey_payload (None, None, None) =
    Ok (Some (security_association_to_bytes sa), Some n, Some (key_exchange_to_bytes \<lparr>ke_dh_group = g, ke_data = pub\<rparr>))"
  by (simp add: for_payloads_encode[OF assms]) (simp add: ike_rekey_payloads_def ike_rekey_payload_def)

text \<open>The responder takes the suite from the offer, and the peer's SPI from its first proposal.\<close>

lemma ike_rekey_respond:
  assumes "length ni < 60000" "length px < 2000" "sa_wf sa" "length (security_association_to_bytes sa) < 2000"
    and "sa_proposals sa = p # rest" "pr_spi p = to_be64 spi_i"
    and "select sa = Some suite" "cs_dh_id suite = dh_group_transform_id g"
    and "ps = ike_rekey_payloads sa (cs_dh_id suite) ni px" "qs = ike_rekey_chain suite spi_r nr py"
    and "ike_header_parse m = Ok h" "open_encrypted_gcm C m (peer_sk_e b) = Ok (first_payload_type ps, encode_payload_chain ps)"
    and "dh_shared C g y px = Ok z" "dh_public C g y = Ok py"
    and "derive_rekey_session_keys C (sk_d (ci_keys b)) z ni nr spi_i spi_r (suite_key_lengths suite) = Ok k"
    and "build_encrypted_gcm C (create_child_header b (h_message_id h) True) (first_payload_type qs)
      (encode_payload_chain qs) (our_sk_e b) iv = Ok r"
  shows "responder_process_ike_rekey C b m spi_r y nr iv = Ok (r, \<lparr>ci_role = Responder, ci_spi_i = spi_i,
    ci_spi_r = spi_r, ci_suite = suite, ci_keys = k, ci_ni = ni, ci_nr = nr, ci_init_message = [],
    ci_resp_message = [], ci_peer_signature_hashes = ci_peer_signature_hashes b\<rparr>)"
  using assms(5-8,11-16) ike_rekey_payloads_parse[OF ike_rekey_payloads_fit(1)[OF assms(4,1,2)], of "cs_dh_id suite"]
    sa.dec_enc[OF assms(3)]
  by (simp add: responder_process_ike_rekey_def ke.dec_enc Let_def assms(9,10) ike_rekey_chain_def ike_rekey_payloads_def)

text \<open>The whole exchange, for an offer whose selected suite may be of any of its proposals.\<close>

lemma ike_rekey_exchange:
  assumes C: "gcm_correct C" "modpow_correct C" and p: "sa_pair a b" "gcm_keys a"
    and sa: "sa_wf sa" "length (security_association_to_bytes sa) < 2000" "sa_proposals sa = pr # rest" "pr_spi pr = to_be64 spi_i"
    and s: "select sa = Some suite" "cs_dh_id suite = dh_group_transform_id g"
    and priv: "length x = 32" "length y = 32" and pub: "dh_public C g x = Ok px" "dh_shared C g y px = Ok z"
    and len: "length ni < 60000" "length nr < 60000" "length iv = 8" "length iv' = 8"
    and ps: "ps = ike_rekey_payloads sa (cs_dh_id suite) ni px"
  obtains m r k py where "build_encrypted_gcm C (create_child_header a mid False) (first_payload_type ps)
      (encode_payload_chain ps) (our_sk_e a) iv = Ok m"
    "responder_process_ike_rekey C b m spi_r y nr iv' = Ok (r, \<lparr>ci_role = Responder, ci_spi_i = spi_i,
      ci_spi_r = spi_r, ci_suite = suite, ci_keys = k, ci_ni = ni, ci_nr = nr, ci_init_message = [],
      ci_resp_message = [], ci_peer_signature_hashes = ci_peer_signature_hashes b\<rparr>)"
    "dh_public C g y = Ok py" "length py < 2000"
    "open_encrypted_gcm C r (peer_sk_e a) = Ok (first_payload_type (ike_rekey_chain suite spi_r nr py),
      encode_payload_chain (ike_rekey_chain suite spi_r nr py))"
    "derive_rekey_session_keys C (sk_d (ci_keys a)) z ni nr spi_i spi_r (suite_key_lengths suite) = Ok k"
proof -
  obtain py where py: "dh_public C g y = Ok py" using dh_public_ok[OF C(2), of y g] priv by auto
  have plen: "length px < 2000" "length py < 2000"
    using dh_public_ok[OF C(2), of x g] dh_public_ok[OF C(2), of y g] priv pub py by (cases g; auto)+
  let ?qs = "ike_rekey_chain suite spi_r nr py"
  obtain m h where m: "build_encrypted_gcm C (create_child_header a mid False) (first_payload_type ps)
      (encode_payload_chain ps) (our_sk_e a) iv = Ok m" "ike_header_parse m = Ok h" "h_message_id h = mid"
    "open_encrypted_gcm C m (peer_sk_e b) = Ok (first_payload_type ps, encode_payload_chain ps)"
    using create_child_delivery[OF C(1) p, of ps iv mid False] ike_rekey_payloads_fit[OF sa(2) len(1) plen(1)] len ps by blast
  have b: "sa_pair b a" "gcm_keys b" using sa_pair_back[OF p] by simp_all
  obtain r where r: "build_encrypted_gcm C (create_child_header b mid True) (first_payload_type ?qs)
      (encode_payload_chain ?qs) (our_sk_e b) iv' = Ok r"
    "open_encrypted_gcm C r (peer_sk_e a) = Ok (first_payload_type ?qs, encode_payload_chain ?qs)"
    using create_child_delivery[OF C(1) b, of ?qs iv' mid True] ike_rekey_chain_fits[OF len(2) plen(2), of suite spi_r]
      len by blast
  obtain k where k: "derive_rekey_session_keys C (sk_d (ci_keys a)) z ni nr spi_i spi_r (suite_key_lengths suite) = Ok k"
    using derive_session_keys_ok(2) by blast
  moreover have "sk_d (ci_keys b) = sk_d (ci_keys a)" using p by (simp add: sa_pair_def)
  ultimately have "responder_process_ike_rekey C b m spi_r y nr iv' = Ok (r, \<lparr>ci_role = Responder, ci_spi_i = spi_i,
      ci_spi_r = spi_r, ci_suite = suite, ci_keys = k, ci_ni = ni, ci_nr = nr, ci_init_message = [],
      ci_resp_message = [], ci_peer_signature_hashes = ci_peer_signature_hashes b\<rparr>)"
    using ike_rekey_respond[OF len(1) plen(1) sa s ps refl m(2,4) pub(2) py] m(3) r(1) by simp
  from that[OF m(1) this py plen(2) r(2) k] show thesis .
qed

text \<open>The sizes of the messages.\<close>

lemma length_rekey_selectors:
  "length (fst (rekey_selectors ip (Some full_tunnel_ts) (Some full_tunnel_ts))) = 20"
  "length (snd (rekey_selectors ip (Some full_tunnel_ts) (Some full_tunnel_ts))) = 20"
  by (simp_all add: rekey_selectors_def unwrap_or_full_def traffic_selectors_to_bytes_def
      traffic_selector_write_def ipv4_host_def split: option.split)

lemma length_rekey_request:
  assumes "gcm_correct C" "gcm_keys a" "length iv = 8" "length ni < 60000" "build_rekey_request C a mid old si ni iv = Ok m"
  shows "length m = length ni + 157"
proof -
  have "length (our_sk_e a) = 36" using assms(2) by (simp add: gcm_keys_def our_sk_e_def split: role.split)
  from build_encrypted_length[OF assms(1) this assms(3) _ assms(5)[unfolded build_rekey_request_def Let_def]] assms(4)
  show ?thesis by (simp add: length_encode_payload_chain notify_to_bytes_def)
qed

text \<open>The exchange of \<open>CREATE_CHILD_SA\<close> messages between two ends that belong together.\<close>

lemma rekey_exchange_sized:
  assumes "gcm_correct C" "sa_pair a b" "gcm_keys a" "length iv = 8" "length iv' = 8"
    and "length ni < 60000" "length nr < 60000"
  obtains m r c d where "build_rekey_request C a mid old si ni iv = Ok m"
    "responder_process_rekey C b m sr nr iv' ip = Ok (r, d)" "initiator_complete_rekey C a ni si r = Ok c"
    "ch_inbound d = ch_outbound c" "ch_inbound c = ch_outbound d" "esp_wf (ch_outbound c)" "esp_wf (ch_outbound d)"
    "es_spi (ch_inbound c) = si" "es_spi (ch_inbound d) = sr" "es_seq (ch_outbound c) = 0" "es_seq (ch_outbound d) = 0"
    "length m = length ni + 157" "length r = length nr + 145"
proof -
  obtain m h t inner where m: "build_rekey_request C a mid old si ni iv = Ok m" "ike_header_parse m = Ok h"
    "h_message_id h = mid" "open_encrypted_gcm C m (peer_sk_e b) = Ok (t, inner)"
    "find_sa_and_nonce t inner = Ok (security_association_to_bytes (esp_offer si), ni)"
    "for_payloads t inner echo_ts_payload (None, None) = Ok (Some full_tunnel_ts, Some full_tunnel_ts)"
    using rekey_request_delivery[OF assms(1-4,6), of mid old si] by blast
  define ts where "ts = rekey_selectors ip (Some full_tunnel_ts) (Some full_tunnel_ts)"
  define qs where "qs = [(PT_SecurityAssociation, security_association_to_bytes (esp_offer sr)), (PT_Nonce, nr),
    (PT_TrafficSelectorInitiator, fst ts), (PT_TrafficSelectorResponder, snd ts)]"
  have b: "sa_pair b a" "gcm_keys b" using sa_pair_back[OF assms(2,3)] by simp_all
  obtain r u rest where r: "build_encrypted_gcm C (create_child_header b mid True) (first_payload_type qs)
      (encode_payload_chain qs) (our_sk_e b) iv' = Ok r" "open_encrypted_gcm C r (peer_sk_e a) = Ok (u, rest)"
    "find_sa_and_nonce u rest = Ok (security_association_to_bytes (esp_offer sr), nr)"
    using rekey_response_delivery[OF assms(1) b assms(5,7) ts_def qs_def] by blast
  obtain ca cb where c: "child_sa_derive C (sk_d (ci_keys a)) ni nr Initiator si sr = Ok ca"
    "child_sa_derive C (sk_d (ci_keys a)) ni nr (peer Initiator) sr si = Ok cb"
    using toy_child_sa by blast
  have "responder_process_rekey C b m sr nr iv' ip = Ok (r, cb)"
    using m r(1) c assms(2)
    by (simp add: responder_process_rekey_def ts_def[symmetric] qs_def split_beta sa_pair_def)
  moreover have "initiator_complete_rekey C a ni si r = Ok ca"
    using r(2,3) c by (simp add: initiator_complete_rekey_def)
  moreover have "ch_inbound cb = ch_outbound ca" "ch_inbound ca = ch_outbound cb" "esp_wf (ch_outbound ca)"
    "esp_wf (ch_outbound cb)" "es_spi (ch_inbound ca) = si"
    "es_spi (ch_inbound cb) = sr" "es_seq (ch_outbound ca) = 0" "es_seq (ch_outbound cb) = 0"
    using child_sa_match[OF c] child_sa_derive_fields[OF c(1)] child_sa_derive_fields[OF c(2)] by metis+
  moreover have "length m = length ni + 157" by (rule length_rekey_request[OF assms(1,3,4,6) m(1)])
  moreover have "length r = length nr + 145"
  proof -
    have "length (fst ts) = 20" "length (snd ts) = 20" by (simp_all add: ts_def length_rekey_selectors)
    then have "length (encode_payload_chain qs) = length nr + 88" by (simp add: qs_def length_encode_payload_chain)
    moreover have "length (our_sk_e b) = 36" using b(2) by (simp add: gcm_keys_def our_sk_e_def split: role.split)
    ultimately show ?thesis using build_encrypted_length[OF assms(1) _ assms(5) _ r(1)] assms(7) by simp
  qed
  ultimately show thesis using that[OF m(1)] by blast
qed

lemma rekey_exchange:
  assumes "gcm_correct C" "sa_pair a b" "gcm_keys a" "length iv = 8" "length iv' = 8"
    and "length ni < 60000" "length nr < 60000"
  obtains m r c d where "build_rekey_request C a mid old si ni iv = Ok m"
    "responder_process_rekey C b m sr nr iv' ip = Ok (r, d)" "initiator_complete_rekey C a ni si r = Ok c"
    "ch_inbound d = ch_outbound c" "ch_inbound c = ch_outbound d" "esp_wf (ch_outbound c)" "esp_wf (ch_outbound d)"
    "es_spi (ch_inbound c) = si" "es_spi (ch_inbound d) = sr" "es_seq (ch_outbound c) = 0" "es_seq (ch_outbound d) = 0"
  by (rule rekey_exchange_sized[OF assms, of mid old si sr ip]) (rule that)

section \<open>Properties\<close>

text \<open>
  C15. Rekeying a CHILD SA: the request one end of an IKE SA builds is accepted by the other, its
  answer completes the exchange, and the two ends hold matching ESP SAs: each receives what the
  other sends, on the two fresh SPIs, with counters that start at zero. No other bytes make
  either step panic.
\<close>
theorem child_rekey_agreement:
  assumes "gcm_correct C" "sa_pair a b" "gcm_keys a" "length iv = 8" "length iv' = 8"
    and "length ni < 60000" "length nr < 60000"
  shows "\<exists>m r ca cb. build_rekey_request C a mid old si ni iv = Ok m \<and>
    responder_process_rekey C b m sr nr iv' ip = Ok (r, cb) \<and> initiator_complete_rekey C a ni si r = Ok ca \<and>
    ch_inbound cb = ch_outbound ca \<and> ch_inbound ca = ch_outbound cb \<and>
    es_spi (ch_inbound ca) = si \<and> es_spi (ch_inbound cb) = sr \<and>
    es_seq (ch_outbound ca) = 0 \<and> es_seq (ch_outbound cb) = 0 \<and>
    responder_process_rekey C b junk sr nr iv' ip \<noteq> Panic \<and> initiator_complete_rekey C a ni si junk \<noteq> Panic"
  by (rule rekey_exchange[OF assms, of mid old si sr ip]) (use rekey_messages_not_Panic in blast)

theorem child_rekey_agreement_witness:
  "\<exists>m r ca cb. build_rekey_request toy_primitives (sample_sa Initiator) 3 1 5 [1] (replicate 8 0) = Ok m \<and>
     responder_process_rekey toy_primitives (sample_sa (peer Initiator)) m 6 [2] (replicate 8 1) None = Ok (r, cb) \<and>
     initiator_complete_rekey toy_primitives (sample_sa Initiator) [1] 5 r = Ok ca \<and> ch_inbound cb = ch_outbound ca"
  using child_rekey_agreement[OF toy_gcm_correct sample_sa_pair, of "replicate 8 0" "replicate 8 1" "[1]" "[2]"
      Initiator 3 1 5 6 None] by fastforce

text \<open>
  C16. Rekeying the IKE SA: a request of the peer with a new SPI, a supported suite, its nonce and
  public value is answered with the responder's SPI, nonce and public value under the old SA, and
  the responder's new session keys are exactly the ones the peer computes from that answer with
  its own private value, the old \<open>SK_d\<close> and the new SPIs and nonces.
\<close>
theorem ike_rekey_agreement:
  assumes C: "gcm_correct C" "x25519_correct C" "modpow_correct C" and p: "sa_pair a b" "gcm_keys a"
    and s: "suite_supported suite" "cs_dh_id suite = dh_group_transform_id g"
    and priv: "length x = 32" "length y = 32" and pub: "dh_public C g x = Ok px" "dh_shared C g y px = Ok z"
    and len: "length ni < 60000" "length nr < 60000" "length iv = 8" "length iv' = 8"
    and ps: "ps = ike_rekey_chain suite spi_i ni px"
  shows "\<exists>m r sb py t inner. build_encrypted_gcm C (create_child_header a mid False) (first_payload_type ps)
      (encode_payload_chain ps) (our_sk_e a) iv = Ok m \<and> is_ike_sa_rekey ps \<and>
    responder_process_ike_rekey C b m spi_r y nr iv' = Ok (r, sb) \<and> ci_spi_i sb = spi_i \<and> ci_spi_r sb = spi_r \<and>
    dh_public C g y = Ok py \<and> open_encrypted_gcm C r (peer_sk_e a) = Ok (t, inner) \<and>
    for_payloads t inner ike_rekey_payload (None, None, None) =
      Ok (Some (security_association_to_bytes \<lparr>sa_proposals = [ike_rekey_proposal suite spi_r]\<rparr>), Some nr,
        Some (key_exchange_to_bytes \<lparr>ke_dh_group = cs_dh_id suite, ke_data = py\<rparr>)) \<and>
    (\<forall>z'. dh_shared C g x py = Ok z' \<longrightarrow>
      derive_rekey_session_keys C (sk_d (ci_keys a)) z' ni nr spi_i spi_r (suite_key_lengths suite) = Ok (ci_keys sb))"
proof -
  have spi: "pr_spi (ike_rekey_proposal suite spi_i) = to_be64 spi_i" by (simp add: ike_rekey_proposal_def)
  obtain m r k py where m: "build_encrypted_gcm C (create_child_header a mid False) (first_payload_type ps)
      (encode_payload_chain ps) (our_sk_e a) iv = Ok m"
    and r: "responder_process_ike_rekey C b m spi_r y nr iv' = Ok (r, \<lparr>ci_role = Responder, ci_spi_i = spi_i,
      ci_spi_r = spi_r, ci_suite = suite, ci_keys = k, ci_ni = ni, ci_nr = nr, ci_init_message = [],
      ci_resp_message = [], ci_peer_signature_hashes = ci_peer_signature_hashes b\<rparr>)"
    and py: "dh_public C g y = Ok py" "length py < 2000"
    and o: "open_encrypted_gcm C r (peer_sk_e a) = Ok (first_payload_type (ike_rekey_chain suite spi_r nr py),
      encode_payload_chain (ike_rekey_chain suite spi_r nr py))"
    and k: "derive_rekey_session_keys C (sk_d (ci_keys a)) z ni nr spi_i spi_r (suite_key_lengths suite) = Ok k"
    by (rule ike_rekey_exchange[OF C(1,3) p ike_rekey_proposal_wf ike_rekey_proposal_length _ spi
        select_ike_rekey_proposal[OF s(1)] s(2) priv pub len ps[unfolded ike_rekey_chain_def]]) simp
  have "for_payloads (first_payload_type (ike_rekey_chain suite spi_r nr py)) (encode_payload_chain (ike_rekey_chain suite spi_r nr py))
      ike_rekey_payload (None, None, None) =
    Ok (Some (security_association_to_bytes \<lparr>sa_proposals = [ike_rekey_proposal suite spi_r]\<rparr>), Some nr,
      Some (key_exchange_to_bytes \<lparr>ke_dh_group = cs_dh_id suite, ke_data = py\<rparr>))"
    using ike_rekey_payloads_parse[OF ike_rekey_chain_fits(1)[OF len(2) py(2), of suite spi_r, unfolded ike_rekey_chain_def]]
    by (simp add: ike_rekey_chain_def)
  moreover have "z' = z" if "dh_shared C g x py = Ok z'" for z'
    using dh_agreement[OF C(2,3) priv pub(1) py(1) that pub(2)] .
  moreover have "is_ike_sa_rekey ps" by (simp add: ps ike_rekey_chain_def ike_rekey_payloads_def is_ike_sa_rekey_def)
  ultimately show ?thesis using m r py(1) o k by (intro exI conjI) auto
qed

theorem ike_rekey_agreement_witness:
  "\<exists>m r sb. responder_process_ike_rekey toy_primitives (sample_sa (peer Initiator)) m 12 (replicate 32 5) [2] (replicate 8 1) =
     Ok (r, sb) \<and> ci_spi_i sb = 11 \<and> ci_spi_r sb = 12"
proof -
  let ?x = "replicate 32 (3 :: u8)" and ?y = "replicate 32 (5 :: u8)"
  have s: "suite_supported sample_suite" "cs_dh_id sample_suite = dh_group_transform_id X25519"
    by (simp_all add: sample_suite_def suite_supported_def)
  have px: "dh_public toy_primitives X25519 ?x = Ok (x25519_public toy_primitives ?x)" by simp
  have z: "\<exists>z. dh_shared toy_primitives X25519 ?y (x25519_public toy_primitives ?x) = Ok z"
    by (simp add: x25519_shared_ok x25519_public_def)
  then obtain z where z: "dh_shared toy_primitives X25519 ?y (x25519_public toy_primitives ?x) = Ok z" by blast
  show ?thesis
    using ike_rekey_agreement[OF toy_gcm_correct toy_x25519_correct toy_modpow_correct sample_sa_pair s _ _ px z,
        of "[1]" "[2]" "replicate 8 0" "replicate 8 1" _ 11 Initiator 1 12] by fastforce
qed

text \<open>
  The SPI of the wrong proposal: when the first proposal of an IKE SA rekey is not acceptable and the
  second is, the responder selects the suite of the second but takes the peer's new SPI from the first,
  so the new SA has an SPI that was not offered with the suite.
\<close>
theorem ike_rekey_takes_first_spi:
  assumes C: "gcm_correct C" "modpow_correct C" and p: "sa_pair a b" "gcm_keys a"
    and bad: "proposal_wf q" "pr_spi q = to_be64 spi1" "select_from_proposal q = None"
    and sa: "sa = \<lparr>sa_proposals = [q, ike_rekey_proposal suite spi2]\<rparr>" "length (security_association_to_bytes sa) < 2000"
    and s: "suite_supported suite" "cs_dh_id suite = dh_group_transform_id g"
    and priv: "length x = 32" "length y = 32" and pub: "dh_public C g x = Ok px" "dh_shared C g y px = Ok z"
    and len: "length ni < 60000" "length nr < 60000" "length iv = 8" "length iv' = 8"
    and ps: "ps = ike_rekey_payloads sa (cs_dh_id suite) ni px"
  shows "\<exists>m r sb. build_encrypted_gcm C (create_child_header a mid False) (first_payload_type ps)
      (encode_payload_chain ps) (our_sk_e a) iv = Ok m \<and>
    responder_process_ike_rekey C b m spi_r y nr iv' = Ok (r, sb) \<and> ci_suite sb = suite \<and> ci_spi_i sb = spi1"
proof -
  have sel: "select sa = Some suite" using select_ike_rekey_proposal[OF s(1), of spi2] bad(3) by (simp add: sa(1) select_def)
  have wf: "sa_wf sa" using bad(1) ike_rekey_proposal_wf[of suite spi2] by (simp add: sa(1) sa_wf_def)
  have "sa_proposals sa = q # [ike_rekey_proposal suite spi2]" by (simp add: sa(1))
  from ike_rekey_exchange[OF C p wf sa(2) this bad(2) sel s(2) priv pub len ps, of mid spi_r] show ?thesis by fastforce
qed

end
