(* ===== verification/Session.thy ===== *)
theory Session
  imports Rekey
begin

text \<open>
  The life of an established session: the two ends of an IKE SA with their CHILD SAs, seen as one
  state machine. A step is one use of the library by one end or by both: a packet sent through the
  tunnel (\<open>src/src/tunnel.rs\<close>, \<open>esp.rs\<close>), or a rekeying of the CHILD SA that either end starts
  (\<open>src/src/ikev2/rekey.rs\<close>). Each step is the composition of the functions the other theories
  translate; nothing of the code is modelled here anew.

  The log of an end holds the packets it has sealed since the last rekeying. The network may lose,
  repeat and reorder them: the theorem says that every packet of the log can be received, at any
  time and as often as it arrives.
\<close>

section \<open>Two ends of a session\<close>

record endpoint =
  ep_ike :: completed_sa_init
  ep_child :: child_sa

record link =
  ln_end :: "role \<Rightarrow> endpoint"
  ln_sent :: "role \<Rightarrow> sealed list"

abbreviation ike_of :: "link \<Rightarrow> role \<Rightarrow> completed_sa_init" where
  "ike_of l x \<equiv> ep_ike (ln_end l x)"

abbreviation child_of :: "link \<Rightarrow> role \<Rightarrow> child_sa" where
  "child_of l x \<equiv> ep_child (ln_end l x)"

definition with_sent :: "link \<Rightarrow> role \<Rightarrow> child_sa \<Rightarrow> sealed \<Rightarrow> link" where
  "with_sent l x c p = l\<lparr>ln_end := (ln_end l)(x := (ln_end l x)\<lparr>ep_child := c\<rparr>),
     ln_sent := (ln_sent l)(x := ln_sent l x @ [p])\<rparr>"

definition with_children :: "link \<Rightarrow> role \<Rightarrow> child_sa \<Rightarrow> child_sa \<Rightarrow> link" where
  "with_children l x c d = l\<lparr>ln_end := (\<lambda>y. (ln_end l y)\<lparr>ep_child := if y = x then c else d\<rparr>), ln_sent := (\<lambda>_. [])\<rparr>"

inductive link_step :: "primitives \<Rightarrow> link \<Rightarrow> link \<Rightarrow> bool" for C where
  Send: "tunnel_send C (tunnel_new (child_of l x)) inner nh = (Ok pkt, t) \<Longrightarrow> length inner \<le> 2 ^ 36 - 8 \<Longrightarrow>
    link_step C l (with_sent l x (tu_sa t) (pkt, inner, nh))"
| Rekeyed: "build_rekey_request C (ike_of l x) mid old si ni iv = Ok m \<Longrightarrow>
    responder_process_rekey C (ike_of l (peer x)) m sr nr iv' ip = Ok (r, d) \<Longrightarrow>
    initiator_complete_rekey C (ike_of l x) ni si r = Ok c \<Longrightarrow>
    length ni < 60000 \<Longrightarrow> length nr < 60000 \<Longrightarrow> length iv = 8 \<Longrightarrow> length iv' = 8 \<Longrightarrow>
    link_step C l (with_children l x c d)"

text \<open>Two SAs that differ in the counter only: the counter of the receiving direction is not used.\<close>

definition same_sa :: "esp_sa \<Rightarrow> esp_sa \<Rightarrow> bool" where
  "same_sa a b \<longleftrightarrow> es_spi b = es_spi a \<and> es_key b = es_key a \<and> es_salt b = es_salt a"

text \<open>One direction: what the end \<open>a\<close> has sent, \<open>ps\<close>, and sends next, the end \<open>b\<close> receives.\<close>

definition half_ok :: "primitives \<Rightarrow> endpoint \<Rightarrow> endpoint \<Rightarrow> sealed list \<Rightarrow> bool" where
  "half_ok C a b ps \<longleftrightarrow> sa_pair (ep_ike a) (ep_ike b) \<and> gcm_keys (ep_ike a) \<and>
     same_sa (ch_outbound (ep_child a)) (ch_inbound (ep_child b)) \<and> esp_wf (ch_outbound (ep_child a)) \<and>
     esp_inv C (ch_outbound (ep_child a), ps) \<and>
     (\<forall>(pkt, inner, nh) \<in> set ps. tunnel_recv C (tunnel_new (ep_child b)) pkt = Ok (inner, nh))"

definition link_ok :: "primitives \<Rightarrow> link \<Rightarrow> bool" where
  "link_ok C l \<longleftrightarrow> (\<forall>x. half_ok C (ln_end l x) (ln_end l (peer x)) (ln_sent l x))"

definition link_start :: "completed_sa_init \<Rightarrow> child_sa \<Rightarrow> completed_sa_init \<Rightarrow> child_sa \<Rightarrow> link" where
  "link_start sai ci sar cr = \<lparr>ln_end = (\<lambda>x. case x of Initiator \<Rightarrow> \<lparr>ep_ike = sai, ep_child = ci\<rparr>
     | Responder \<Rightarrow> \<lparr>ep_ike = sar, ep_child = cr\<rparr>), ln_sent = (\<lambda>_. [])\<rparr>"

section \<open>Steps keep the ends together\<close>

lemma peer_peer [simp]: "peer (peer x) = x"
  by (cases x) simp_all

lemma peer_neq [simp]: "peer x \<noteq> x" "x \<noteq> peer x"
  by (cases x; simp)+

lemma role_peer: "y = x \<or> y = peer x"
  by (cases x; cases y) simp_all

lemma tunnel_recv_inbound:
  "ch_inbound c = ch_inbound d \<Longrightarrow> tunnel_recv C (tunnel_new c) = tunnel_recv C (tunnel_new d)"
  by (simp add: tunnel_recv_def tunnel_new_def fun_eq_iff)

lemma mirrored_send:
  assumes "gcm_correct C" "length inner \<le> 2 ^ 36 - 8" "same_sa (ch_outbound a) (ch_inbound b)"
    "esp_wf (ch_outbound a)" "es_seq (ch_outbound a) \<noteq> 0xFFFFFFFF"
  shows "\<exists>pkt t. tunnel_send C (tunnel_new a) inner nh = (Ok pkt, t) \<and> tunnel_recv C (tunnel_new b) pkt = Ok (inner, nh)"
proof -
  let ?a = "a\<lparr>ch_outbound := ch_inbound b\<rparr>" and ?n = "es_seq (ch_outbound a)"
  have "?a\<lparr>ch_outbound := (ch_outbound ?a)\<lparr>es_seq := ?n\<rparr>\<rparr> = a"
    using assms(3) by (cases a) (auto simp: same_sa_def)
  moreover have "esp_wf (ch_outbound ?a)" using assms(3,4) by (simp add: esp_wf_def same_sa_def)
  ultimately show ?thesis using mirrored_delivery[OF assms(1,2), of b ?a ?n nh] assms(5) by simp
qed

lemma tunnel_send_state:
  assumes "tunnel_send C (tunnel_new a) inner nh = (Ok pkt, t)"
  shows "ch_inbound (tu_sa t) = ch_inbound a" "same_sa (ch_outbound (tu_sa t)) (ch_outbound a)"
    "es_seq (ch_outbound a) \<noteq> 0xFFFFFFFF"
    "esp_inv C (ch_outbound a, ps) \<Longrightarrow> esp_inv C (ch_outbound (tu_sa t), ps @ [(pkt, inner, nh)])"
proof -
  have s: "esp_seal C (ch_outbound a) inner nh = (Ok pkt, ch_outbound (tu_sa t))" "ch_inbound (tu_sa t) = ch_inbound a"
    using assms by (auto simp: tunnel_send_def tunnel_new_def split: prod.splits)
  show "ch_inbound (tu_sa t) = ch_inbound a" by fact
  show "es_seq (ch_outbound a) \<noteq> 0xFFFFFFFF" "same_sa (ch_outbound (tu_sa t)) (ch_outbound a)"
    using s(1) esp_seal_cases[of C "ch_outbound a" inner nh] by (auto simp: same_sa_def)
  show "esp_inv C (ch_outbound (tu_sa t), ps @ [(pkt, inner, nh)])" if "esp_inv C (ch_outbound a, ps)"
    using esp_run.step_inv[OF that, of "(inner, nh)"] s(1) by (simp add: esp_step_def)
qed

lemma half_send_own:
  assumes ok: "half_ok C a b ps" and C: "gcm_correct C" "length inner \<le> 2 ^ 36 - 8"
    and send: "tunnel_send C (tunnel_new (ep_child a)) inner nh = (Ok pkt, t)"
  shows "half_ok C (a\<lparr>ep_child := tu_sa t\<rparr>) b (ps @ [(pkt, inner, nh)])"
proof -
  note t = tunnel_send_state[OF send]
  have "tunnel_recv C (tunnel_new (ep_child b)) pkt = Ok (inner, nh)"
    using mirrored_send[OF C _ _ t(3), of "ep_child b" nh] send ok by (simp add: half_ok_def)
  then show ?thesis using ok t(2) t(4)[of ps] by (auto simp: half_ok_def same_sa_def esp_wf_def)
qed

lemma half_send_peer:
  assumes "half_ok C b a qs" "tunnel_send C (tunnel_new (ep_child a)) inner nh = (Ok pkt, t)"
  shows "half_ok C b (a\<lparr>ep_child := tu_sa t\<rparr>) qs"
  using assms(1) tunnel_send_state(1)[OF assms(2)] tunnel_recv_inbound[OF tunnel_send_state(1)[OF assms(2)], of C]
  by (simp add: half_ok_def)

lemma half_rekeyed:
  assumes "half_ok C a b ps" "ch_inbound d = ch_outbound c" "esp_wf (ch_outbound c)"
  shows "half_ok C (a\<lparr>ep_child := c\<rparr>) (b\<lparr>ep_child := d\<rparr>) []"
  using assms by (simp add: half_ok_def same_sa_def)

lemma link_step_ok:
  assumes "link_step C l l'" "link_ok C l" "gcm_correct C"
  shows "link_ok C l'"
  using assms
proof (induction rule: link_step.induct)
  case (Send l x inner nh pkt t)
  have "half_ok C (ln_end l x) (ln_end l (peer x)) (ln_sent l x)"
    "half_ok C (ln_end l (peer x)) (ln_end l x) (ln_sent l (peer x))"
    using Send.prems(1) by (auto simp: link_ok_def dest: spec[of _ "peer x"])
  then have "half_ok C (ln_end l' y) (ln_end l' (peer y)) (ln_sent l' y)"
    if "l' = with_sent l x (tu_sa t) (pkt, inner, nh)" for y l'
    using role_peer[of y x] half_send_own[OF _ Send.prems(2) Send.hyps(2,1)] half_send_peer[OF _ Send.hyps(1)] that
    by (auto simp: with_sent_def)
  then show ?case by (simp add: link_ok_def)
next
  case (Rekeyed l x mid old si ni iv m sr nr iv' ip r d c)
  have h: "half_ok C (ln_end l x) (ln_end l (peer x)) (ln_sent l x)"
    "half_ok C (ln_end l (peer x)) (ln_end l x) (ln_sent l (peer x))"
    using Rekeyed.prems(1) by (auto simp: link_ok_def dest: spec[of _ "peer x"])
  have p: "sa_pair (ike_of l x) (ike_of l (peer x))" "gcm_keys (ike_of l x)" using h(1) by (simp_all add: half_ok_def)
  have cd: "ch_inbound d = ch_outbound c" "ch_inbound c = ch_outbound d" "esp_wf (ch_outbound c)" "esp_wf (ch_outbound d)"
    using rekey_exchange[OF Rekeyed.prems(2) p Rekeyed.hyps(6,7,4,5), of mid old si sr ip] Rekeyed.hyps(1-3) by (metis res.inject(1) prod.inject)+
  have "half_ok C (ln_end l' y) (ln_end l' (peer y)) (ln_sent l' y)"
    if "l' = with_children l x c d" for y l'
    using role_peer[of y x] half_rekeyed[OF h(1) cd(1,3)] half_rekeyed[OF h(2) cd(2,4)] that
    by (auto simp: with_children_def)
  then show ?case by (simp add: link_ok_def)
qed

lemma link_reachable_ok: "(link_step C)\<^sup>*\<^sup>* l l' \<Longrightarrow> link_ok C l \<Longrightarrow> gcm_correct C \<Longrightarrow> link_ok C l'"
  by (induction rule: rtranclp_induct) (auto intro: link_step_ok)

lemma link_start_ok:
  assumes "sa_pair sai sar" "gcm_keys sai" "ch_outbound ci = ch_inbound cr" "ch_inbound ci = ch_outbound cr"
    "esp_wf (ch_outbound ci)" "esp_wf (ch_inbound ci)"
  shows "link_ok C (link_start sai ci sar cr)"
  using assms sa_pair_back[OF assms(1,2)]
  by (simp add: link_ok_def link_start_def half_ok_def same_sa_def split: role.split)

section \<open>What the ends can do in a state that keeps the invariant\<close>

lemma link_can_send:
  assumes "link_ok C l" "gcm_correct C" "length inner \<le> 2 ^ 36 - 8" "es_seq (ch_outbound (child_of l x)) \<noteq> 0xFFFFFFFF"
  shows "\<exists>c pkt. link_step C l (with_sent l x c (pkt, inner, nh))"
proof -
  have "half_ok C (ln_end l x) (ln_end l (peer x)) (ln_sent l x)" using assms(1) by (simp add: link_ok_def)
  then obtain pkt t where "tunnel_send C (tunnel_new (child_of l x)) inner nh = (Ok pkt, t)"
    using mirrored_send[OF assms(2,3) _ _ assms(4), of "child_of l (peer x)" nh] by (auto simp: half_ok_def)
  from link_step.Send[OF this assms(3)] show ?thesis by blast
qed

lemma link_can_probe:
  assumes "link_ok C l" "gcm_correct C" "length iv = 8"
  shows "\<exists>m. dpd_request C (ike_of l x) mid iv = Ok m \<and> open_informational C (ike_of l (peer x)) m = Ok []"
proof -
  have "sa_pair (ike_of l x) (ike_of l (peer x))" "gcm_keys (ike_of l x)"
    using assms(1) by (simp_all add: link_ok_def half_ok_def)
  from informational_delivery[OF assms(2) this _ assms(3), of "[]"] show ?thesis by (simp add: dpd_request_def)
qed

lemma link_can_rekey:
  assumes "link_ok C l" "gcm_correct C" "length iv = 8" "length iv' = 8" "length ni < 60000" "length nr < 60000"
  shows "\<exists>m r c d. build_rekey_request C (ike_of l x) mid old si ni iv = Ok m \<and>
    responder_process_rekey C (ike_of l (peer x)) m sr nr iv' ip = Ok (r, d) \<and>
    initiator_complete_rekey C (ike_of l x) ni si r = Ok c \<and> link_step C l (with_children l x c d) \<and>
    es_spi (ch_inbound c) = si \<and> es_spi (ch_inbound d) = sr \<and> es_seq (ch_outbound c) = 0 \<and> es_seq (ch_outbound d) = 0"
proof -
  have p: "sa_pair (ike_of l x) (ike_of l (peer x))" "gcm_keys (ike_of l x)"
    using assms(1) by (simp_all add: link_ok_def half_ok_def)
  show ?thesis
    by (rule rekey_exchange[OF assms(2) p assms(3-6), of mid old si sr ip])
      (use link_step.Rekeyed[OF _ _ _ assms(5,6,3,4)] in blast)
qed

text \<open>
  What a session promises: each packet sealed since the last rekeying is opened by the other end to what
  was sent; the AEAD nonces they were encrypted under, with the key of the SA in use, are distinct; while its
  counter is not exhausted an end can send another packet; a liveness probe is delivered; and either
  end can rekey on any SPIs, which starts the counters again at zero.
\<close>

definition link_works :: "primitives \<Rightarrow> link \<Rightarrow> bool" where
  "link_works C l \<longleftrightarrow> (\<forall>x.
     (\<forall>(pkt, inner, nh) \<in> set (ln_sent l x). tunnel_recv C (tunnel_new (child_of l (peer x))) pkt = Ok (inner, nh)) \<and>
     distinct (map (\<lambda>y. esp_nonce (ch_outbound (child_of l x)) (packet_iv (fst y))) (ln_sent l x)) \<and>
     (\<forall>(pkt, inner, nh) \<in> set (ln_sent l x).
       gcm_encrypt C (es_key (ch_outbound (child_of l x))) (esp_nonce (ch_outbound (child_of l x)) (packet_iv pkt)) (take 8 pkt)
         (esp_plaintext inner nh) = Some (drop 16 pkt)) \<and>
     (\<forall>inner nh. length inner \<le> 2 ^ 36 - 8 \<and> es_seq (ch_outbound (child_of l x)) \<noteq> 0xFFFFFFFF \<longrightarrow>
       (\<exists>c pkt. link_step C l (with_sent l x c (pkt, inner, nh)))) \<and>
     (\<forall>mid iv. length iv = 8 \<longrightarrow>
       (\<exists>m. dpd_request C (ike_of l x) mid iv = Ok m \<and> open_informational C (ike_of l (peer x)) m = Ok [])) \<and>
     (\<forall>mid old si sr ni nr iv iv' ip. length iv = 8 \<and> length iv' = 8 \<and> length ni < 60000 \<and> length nr < 60000 \<longrightarrow>
       (\<exists>m r c d. build_rekey_request C (ike_of l x) mid old si ni iv = Ok m \<and>
         responder_process_rekey C (ike_of l (peer x)) m sr nr iv' ip = Ok (r, d) \<and>
         initiator_complete_rekey C (ike_of l x) ni si r = Ok c \<and> link_step C l (with_children l x c d) \<and>
         es_spi (ch_inbound c) = si \<and> es_spi (ch_inbound d) = sr \<and>
         es_seq (ch_outbound c) = 0 \<and> es_seq (ch_outbound d) = 0)))"

lemma link_ok_works:
  assumes ok: "link_ok C l" and C: "gcm_correct C"
  shows "link_works C l"
proof -
  have h: "half_ok C (ln_end l x) (ln_end l (peer x)) (ln_sent l x)" for x using ok by (simp add: link_ok_def)
  then have "distinct (map (nonce_of (ch_outbound (child_of l x))) (ln_sent l x)) \<and>
      (\<forall>y \<in> set (ln_sent l x). encrypted C (ch_outbound (child_of l x)) (nonce_of (ch_outbound (child_of l x)) y) y)" for x
    using esp_inv_distinct[of C "(ch_outbound (child_of l x), ln_sent l x)"] by (simp add: half_ok_def)
  then have "distinct (map (\<lambda>y. esp_nonce (ch_outbound (child_of l x)) (packet_iv (fst y))) (ln_sent l x))"
    "\<forall>(pkt, inner, nh) \<in> set (ln_sent l x).
       gcm_encrypt C (es_key (ch_outbound (child_of l x))) (esp_nonce (ch_outbound (child_of l x)) (packet_iv pkt)) (take 8 pkt)
         (esp_plaintext inner nh) = Some (drop 16 pkt)" for x
    unfolding nonce_of_def[abs_def] encrypted_def by fastforce+
  then show ?thesis
    unfolding link_works_def
    using h link_can_send[OF ok C] link_can_probe[OF ok C] link_can_rekey[OF ok C]
    by (intro allI conjI impI) (simp_all add: half_ok_def)
qed

section \<open>Properties\<close>

text \<open>
  C6. The life of a session: the two ends of an IKE SA start with CHILD SAs derived from the same keys
  and then send packets and rekey in any order, as often as they like and started by either end. In
  every state they reach, each packet that an end has sealed since the last rekeying is opened by
  the other end to what was sent, so that the network may lose, repeat and reorder packets; each of them
  was encrypted under the key of the SA in use, and no two of them under the same AEAD nonce; while its counter is not exhausted an end can send another packet; a
  liveness probe is delivered; and the CHILD SA can be rekeyed on any SPIs, after which
  the counters start again at zero.
\<close>
theorem session_lifecycle:
  assumes C: "gcm_correct C" and ike: "sa_pair sai sar" "gcm_keys sai"
    and child: "child_sa_derive C skd ni nr Initiator si sr = Ok ci" "child_sa_derive C skd ni nr Responder sr si = Ok cr"
    and run: "(link_step C)\<^sup>*\<^sup>* (link_start sai ci sar cr) l"
  shows "link_works C l"
proof -
  have m: "ch_outbound ci = ch_inbound cr" "ch_inbound ci = ch_outbound cr" "esp_wf (ch_outbound ci)" "esp_wf (ch_inbound ci)"
    using child_sa_match[OF child(1), of cr] child(2) unfolding peer.simps by metis+
  show ?thesis by (rule link_ok_works[OF link_reachable_ok[OF run link_start_ok[OF ike m] C] C])
qed

theorem session_lifecycle_witness:
  "\<exists>ci cr c pkt. child_sa_derive toy_primitives [1] [2] [3] Initiator 5 6 = Ok ci \<and>
     child_sa_derive toy_primitives [1] [2] [3] Responder 6 5 = Ok cr \<and>
     link_step toy_primitives (link_start (sample_sa Initiator) ci (sample_sa Responder) cr)
       (with_sent (link_start (sample_sa Initiator) ci (sample_sa Responder) cr) Initiator c (pkt, [69, 0], 4)) \<and>
     link_works toy_primitives (with_sent (link_start (sample_sa Initiator) ci (sample_sa Responder) cr) Initiator c (pkt, [69, 0], 4))"
proof -
  obtain ci where ci: "child_sa_derive toy_primitives [1] [2] [3] Initiator 5 6 = Ok ci" using toy_child_sa by blast
  obtain cr where cr: "child_sa_derive toy_primitives [1] [2] [3] Responder 6 5 = Ok cr" using toy_child_sa by blast
  have pair: "sa_pair (sample_sa Initiator) (sample_sa Responder)" using sample_sa_pair(1)[of Initiator] by simp
  let ?l = "link_start (sample_sa Initiator) ci (sample_sa Responder) cr"
  note works = session_lifecycle[OF toy_gcm_correct pair sample_sa_pair(2) ci cr]
  have z: "es_seq (ch_outbound ci) = 0" using child_sa_match[OF ci, of cr] cr unfolding peer.simps by blast
  have "es_seq (ch_outbound (child_of ?l Initiator)) = 0" by (simp add: link_start_def z)
  then obtain c pkt where "link_step toy_primitives ?l (with_sent ?l Initiator c (pkt, [69, 0], 4))"
    using works[OF rtranclp.rtrancl_refl] unfolding link_works_def by fastforce
  then show ?thesis using ci cr works[OF r_into_rtranclp] by blast
qed

end
