(* ===== verification/Udp.thy ===== *)
theory Udp
  imports Drivers Drivers1 Session
begin

text \<open>
  The drivers with their sockets: \<open>Client\<close> and \<open>Server\<close> of \<open>src/src/ikev2/client.rs\<close>, \<open>ikev2/server.rs\<close>,
  \<open>ikev1/client.rs\<close> and \<open>ikev1/server.rs\<close>, and \<open>Tunnel\<close> of \<open>src/src/tunnel.rs\<close>, as records that hold a
  \<open>UdpTransport\<close>, over the network state of \<open>Transport\<close>.

  A client that waits for an answer lets the rest of the world move on: the world is the network
  state with whatever else runs, and its progress is a function that the client's operations take.

  The lemmas show that a server consumes one datagram of its own queue and answers only to where
  that came from, and that the UDP network with a server that takes its turns is a network
  in the sense of \<open>answering_net\<close> (IKEv2) and \<open>relaying_net\<close> (IKEv1), so that the handshake theorems hold over it,
  also through a NAT.
\<close>

section \<open>A handler on a socket\<close>

text \<open>\<open>handle_one\<close> of both servers: receive, handle, answer to the sender.\<close>

type_synonym ('s, 'v) handler = "'s \<Rightarrow> bytes io \<Rightarrow> (bytes \<Rightarrow> bool) \<Rightarrow> 'v driven \<times> bytes option \<times> 's"

definition reply_ok :: "ip_layer \<Rightarrow> (bytes \<times> socket_addr) io \<Rightarrow> bytes \<Rightarrow> bool" where
  "reply_ok IP rcv d = (case rcv of IoOk (_, from) \<Rightarrow> il_sends IP d from | _ \<Rightarrow> False)"

definition reply :: "ip_layer \<Rightarrow> udp_transport \<Rightarrow> (bytes \<times> socket_addr) io \<Rightarrow> bytes option \<Rightarrow> udp_net \<Rightarrow> udp_net" where
  "reply IP tp rcv sent net =
     (case (rcv, sent) of (IoOk (_, from), Some d) \<Rightarrow> snd (transport_send_to IP tp d from net) | _ \<Rightarrow> net)"

definition over_udp ::
    "ip_layer \<Rightarrow> ('s, 'v) handler \<Rightarrow> udp_transport \<Rightarrow> 's \<Rightarrow> udp_net \<Rightarrow> 'v driven \<times> 's \<times> udp_net" where
  "over_udp IP handle tp s net =
     (case transport_recv_from tp net of (rcv, net1) \<Rightarrow>
        (case handle s (map_io fst rcv) (reply_ok IP rcv) of (ev, sent, s') \<Rightarrow>
           (ev, s', reply IP tp rcv sent net1)))"

section \<open>The IKEv2 server\<close>

record 'e udp_server =
  us_transport :: udp_transport
  us_server :: "'e server"

definition udp_server_bind ::
    "ip_layer \<Rightarrow> socket_addr list \<Rightarrow> 'e \<Rightarrow> auth_config \<Rightarrow> udp_net \<Rightarrow> 'e udp_server io \<times> udp_net" where
  "udp_server_bind IP addrs e auth net =
     (case transport_bind IP addrs net of
        (IoOk tp, net') \<Rightarrow> (IoOk \<lparr>us_transport = tp, us_server = server_bind e auth\<rparr>, net')
      | (IoErr, net') \<Rightarrow> (IoErr, net')
      | (IoBlocked, net') \<Rightarrow> (IoBlocked, net'))"

definition udp_server_local_addr :: "'e udp_server \<Rightarrow> socket_addr io" where
  "udp_server_local_addr us = transport_local_addr (us_transport us)"

definition udp_server_set_read_timeout :: "'e udp_server \<Rightarrow> nat option \<Rightarrow> unit io \<times> 'e udp_server" where
  "udp_server_set_read_timeout us dur =
     (case transport_set_read_timeout (us_transport us) dur of (r, tp) \<Rightarrow> (r, us\<lparr>us_transport := tp\<rparr>))"

definition udp_handle_one ::
    "'e filler \<Rightarrow> primitives \<Rightarrow> pki \<Rightarrow> ip_layer \<Rightarrow> 'e udp_server \<Rightarrow> udp_net \<Rightarrow>
     server_event driven \<times> 'e udp_server \<times> udp_net" where
  "udp_handle_one fill C P IP us net =
     (case over_udp IP (handle_one fill C P) (us_transport us) (us_server us) net of
        (ev, s', net') \<Rightarrow> (ev, us\<lparr>us_server := s'\<rparr>, net'))"

section \<open>The IKEv2 client\<close>

record 'e udp_client =
  uc_transport :: udp_transport
  uc_entropy :: 'e

definition udp_client_bind :: "ip_layer \<Rightarrow> socket_addr list \<Rightarrow> 'e \<Rightarrow> udp_net \<Rightarrow> 'e udp_client io \<times> udp_net" where
  "udp_client_bind IP addrs e net =
     (case transport_bind IP addrs net of
        (IoOk tp, net') \<Rightarrow> (IoOk \<lparr>uc_transport = tp, uc_entropy = e\<rparr>, net')
      | (IoErr, net') \<Rightarrow> (IoErr, net')
      | (IoBlocked, net') \<Rightarrow> (IoBlocked, net'))"

definition udp_client_local_addr :: "'e udp_client \<Rightarrow> socket_addr io" where
  "udp_client_local_addr cl = transport_local_addr (uc_transport cl)"

definition udp_client_set_read_timeout :: "'e udp_client \<Rightarrow> nat option \<Rightarrow> unit io \<times> 'e udp_client" where
  "udp_client_set_read_timeout cl dur =
     (case transport_set_read_timeout (uc_transport cl) dur of (r, tp) \<Rightarrow> (r, cl\<lparr>uc_transport := tp\<rparr>))"

text \<open>A \<open>send_to\<close> followed by a \<open>recv_from\<close>; in between the world moves on.\<close>

definition udp_exchange ::
    "ip_layer \<Rightarrow> (udp_net \<times> 'w \<Rightarrow> udp_net \<times> 'w) \<Rightarrow> udp_transport \<Rightarrow> socket_addr \<Rightarrow> (udp_net \<times> 'w) network" where
  "udp_exchange IP env tp to w request =
     (case transport_send_to IP tp request to (fst w) of
        (IoOk _, net1) \<Rightarrow>
          (case env (net1, snd w) of (net2, x) \<Rightarrow>
             (case transport_recv_from tp net2 of (rcv, net3) \<Rightarrow> (map_io fst rcv, (net3, x))))
      | (IoErr, net1) \<Rightarrow> (IoErr, (net1, snd w))
      | (IoBlocked, net1) \<Rightarrow> (IoBlocked, (net1, snd w)))"

definition udp_client_connect ::
    "'e filler \<Rightarrow> primitives \<Rightarrow> pki \<Rightarrow> ip_layer \<Rightarrow> (udp_net \<times> 'w \<Rightarrow> udp_net \<times> 'w) \<Rightarrow> 'e udp_client \<Rightarrow> socket_addr \<Rightarrow>
     auth_config \<Rightarrow> u32 \<Rightarrow> udp_net \<times> 'w \<Rightarrow>
     (completed_sa_init \<times> identification \<times> child_sa \<times> ipv4 option) driven \<times> 'e udp_client \<times> udp_net \<times> 'w" where
  "udp_client_connect fill C P IP env cl server cfg child_spi w =
     (case client_connect fill C P (udp_exchange IP env (uc_transport cl) server) cfg child_spi (uc_entropy cl) w of
        (r, e', w') \<Rightarrow> (r, cl\<lparr>uc_entropy := e'\<rparr>, w'))"

section \<open>The IKEv1 drivers\<close>

record 'e udp_server1 =
  u1_transport :: udp_transport
  u1_server :: "'e server1"

definition udp_server1_bind ::
    "ip_layer \<Rightarrow> socket_addr list \<Rightarrow> 'e \<Rightarrow> phase1_config \<Rightarrow> udp_net \<Rightarrow> 'e udp_server1 io \<times> udp_net" where
  "udp_server1_bind IP addrs e cfg net =
     (case transport_bind IP addrs net of
        (IoOk tp, net') \<Rightarrow> (IoOk \<lparr>u1_transport = tp, u1_server = server1_bind e cfg\<rparr>, net')
      | (IoErr, net') \<Rightarrow> (IoErr, net')
      | (IoBlocked, net') \<Rightarrow> (IoBlocked, net'))"

definition udp_server1_local_addr :: "'e udp_server1 \<Rightarrow> socket_addr io" where
  "udp_server1_local_addr us = transport_local_addr (u1_transport us)"

definition udp_server1_set_read_timeout :: "'e udp_server1 \<Rightarrow> nat option \<Rightarrow> unit io \<times> 'e udp_server1" where
  "udp_server1_set_read_timeout us dur =
     (case transport_set_read_timeout (u1_transport us) dur of (r, tp) \<Rightarrow> (r, us\<lparr>u1_transport := tp\<rparr>))"

definition udp_handle_one1 ::
    "'e filler \<Rightarrow> primitives \<Rightarrow> ip_layer \<Rightarrow> 'e udp_server1 \<Rightarrow> udp_net \<Rightarrow> server1_event driven \<times> 'e udp_server1 \<times> udp_net" where
  "udp_handle_one1 fill C IP us net =
     (case over_udp IP (handle_one1 fill C) (u1_transport us) (u1_server us) net of
        (ev, s', net') \<Rightarrow> (ev, us\<lparr>u1_server := s'\<rparr>, net'))"

record 'e udp_client1 =
  v1_transport :: udp_transport
  v1_entropy :: 'e

definition udp_client1_bind :: "ip_layer \<Rightarrow> socket_addr list \<Rightarrow> 'e \<Rightarrow> udp_net \<Rightarrow> 'e udp_client1 io \<times> udp_net" where
  "udp_client1_bind IP addrs e net =
     (case transport_bind IP addrs net of
        (IoOk tp, net') \<Rightarrow> (IoOk \<lparr>v1_transport = tp, v1_entropy = e\<rparr>, net')
      | (IoErr, net') \<Rightarrow> (IoErr, net')
      | (IoBlocked, net') \<Rightarrow> (IoBlocked, net'))"

definition udp_client1_local_addr :: "'e udp_client1 \<Rightarrow> socket_addr io" where
  "udp_client1_local_addr cl = transport_local_addr (v1_transport cl)"

definition udp_client1_set_read_timeout :: "'e udp_client1 \<Rightarrow> nat option \<Rightarrow> unit io \<times> 'e udp_client1" where
  "udp_client1_set_read_timeout cl dur =
     (case transport_set_read_timeout (v1_transport cl) dur of (r, tp) \<Rightarrow> (r, cl\<lparr>v1_transport := tp\<rparr>))"

definition udp_send1 :: "ip_layer \<Rightarrow> udp_transport \<Rightarrow> socket_addr \<Rightarrow> (udp_net \<times> 'w) sender" where
  "udp_send1 IP tp to w m =
     (case transport_send_to IP tp m to (fst w) of
        (IoOk _, net1) \<Rightarrow> (True, (net1, snd w))
      | (_, net1) \<Rightarrow> (False, (net1, snd w)))"

definition udp_recv1 :: "(udp_net \<times> 'w \<Rightarrow> udp_net \<times> 'w) \<Rightarrow> udp_transport \<Rightarrow> (udp_net \<times> 'w) receiver" where
  "udp_recv1 env tp w =
     (case env w of (net2, x) \<Rightarrow> (case transport_recv_from tp net2 of (rcv, net3) \<Rightarrow> (map_io fst rcv, (net3, x))))"

definition udp_client1_connect ::
    "'e filler \<Rightarrow> primitives \<Rightarrow> ip_layer \<Rightarrow> (udp_net \<times> 'w \<Rightarrow> udp_net \<times> 'w) \<Rightarrow> 'e udp_client1 \<Rightarrow> socket_addr \<Rightarrow>
     initiator_config \<Rightarrow> udp_net \<times> 'w \<Rightarrow> established1 driven \<times> 'e udp_client1 \<times> udp_net \<times> 'w" where
  "udp_client1_connect fill C IP env cl server cfg w =
     (case client1_connect fill C (udp_send1 IP (v1_transport cl) server) (udp_recv1 env (v1_transport cl)) env cfg
         (v1_entropy cl) w of
        (r, e', w') \<Rightarrow> (r, cl\<lparr>v1_entropy := e'\<rparr>, w'))"

section \<open>The tunnel\<close>

record udp_tunnel =
  tn_sa :: child_sa
  tn_transport :: udp_transport
  tn_peer :: socket_addr

definition udp_tunnel_new :: "child_sa \<Rightarrow> udp_transport \<Rightarrow> socket_addr \<Rightarrow> udp_tunnel" where
  "udp_tunnel_new sa tp to = \<lparr>tn_sa = sa, tn_transport = tp, tn_peer = to\<rparr>"

definition udp_tunnel_local_addr :: "udp_tunnel \<Rightarrow> socket_addr io" where
  "udp_tunnel_local_addr t = transport_local_addr (tn_transport t)"

definition udp_tunnel_set_read_timeout :: "udp_tunnel \<Rightarrow> nat option \<Rightarrow> unit io \<times> udp_tunnel" where
  "udp_tunnel_set_read_timeout t dur =
     (case transport_set_read_timeout (tn_transport t) dur of (r, tp) \<Rightarrow> (r, t\<lparr>tn_transport := tp\<rparr>))"

definition udp_tunnel_send ::
    "ip_layer \<Rightarrow> primitives \<Rightarrow> udp_tunnel \<Rightarrow> bytes \<Rightarrow> u8 \<Rightarrow> udp_net \<Rightarrow> unit driven \<times> udp_tunnel \<times> udp_net" where
  "udp_tunnel_send IP C t inner next_header net =
     (case esp_seal C (ch_outbound (tn_sa t)) inner next_header of (r, sa') \<Rightarrow>
        (let t' = t\<lparr>tn_sa := (tn_sa t)\<lparr>ch_outbound := sa'\<rparr>\<rparr> in
         case r of
           Err x \<Rightarrow> (IkeFailed x, t', net)
         | Panic \<Rightarrow> (Panicked, t', net)
         | Ok packet \<Rightarrow>
             (case transport_send_to IP (tn_transport t) packet (tn_peer t) net of
                (IoOk _, net') \<Rightarrow> (Done (), t', net')
              | (IoErr, net') \<Rightarrow> (IoFailed, t', net')
              | (IoBlocked, net') \<Rightarrow> (Blocked, t', net'))))"

definition udp_tunnel_recv :: "primitives \<Rightarrow> udp_tunnel \<Rightarrow> udp_net \<Rightarrow> (bytes \<times> u8) driven \<times> udp_net" where
  "udp_tunnel_recv C t net =
     (case transport_recv_from (tn_transport t) net of
        (IoOk (packet, _), net') \<Rightarrow> (ike (esp_open C (ch_inbound (tn_sa t)) packet) Done, net')
      | (IoErr, net') \<Rightarrow> (IoFailed, net')
      | (IoBlocked, net') \<Rightarrow> (Blocked, net'))"

section \<open>What a handler does to the network\<close>

locale datagram_handler =
  fixes handle :: "('s, 'v) handler"
  assumes no_datagram: "handle s IoErr sends = (IoFailed, None, s)" "handle s IoBlocked sends = (Blocked, None, s)"
begin

lemma over_udp_empty:
  assumes "un_inbox net (ut_addr tp) = []"
  shows "over_udp IP handle tp s net = (if ut_timeout tp = None then Blocked else IoFailed, s, net)"
  by (simp add: over_udp_def transport_recv_Nil[OF assms] no_datagram reply_def)

lemma over_udp_datagram:
  assumes "un_inbox net (ut_addr tp) = (d, from) # rest" "over_udp IP handle tp s net = (ev, s', net')"
  obtains sent where "handle s (IoOk (take MAX_DATAGRAM d)) (\<lambda>r. il_sends IP r from) = (ev, sent, s')"
    "net' = net\<lparr>un_inbox := (un_inbox net)(ut_addr tp := rest), un_flight := un_flight net @
       (case sent of Some r \<Rightarrow> if il_sends IP r from then [(from, r, il_source IP (ut_addr tp) from)] else [] | None \<Rightarrow> [])\<rparr>"
proof -
  obtain ev1 sent s1 where h: "handle s (IoOk (take MAX_DATAGRAM d)) (\<lambda>r. il_sends IP r from) = (ev1, sent, s1)"
    by (cases "handle s (IoOk (take MAX_DATAGRAM d)) (\<lambda>r. il_sends IP r from)")
  have "reply_ok IP (IoOk (take MAX_DATAGRAM d, from)) = (\<lambda>r. il_sends IP r from)"
    by (simp add: reply_ok_def fun_eq_iff)
  with h assms show thesis
    by (cases sent) (auto simp: over_udp_def transport_recv_Cons[OF assms(1)] reply_def transport_send_to_def intro: that)
qed

text \<open>A request over connected sockets: the handler gets it, and its answer, if there is one, comes back.\<close>

lemma over_udp_request:
  assumes c: "connected IP tp to st net" and m: "length m \<le> UDP_PAYLOAD"
    and h: "\<forall>sends. udp_ok sends \<longrightarrow> handle s (IoOk m) sends = (ev, sent, s')"
  obtains net1 where "transport_send_to IP tp m to net = (IoOk (length m), net1)"
    "over_udp IP handle st s (deliver_all IP net1) = (ev, s', reply IP st (IoOk (m, il_source IP (ut_addr tp) to)) sent net)"
proof -
  let ?src = "il_source IP (ut_addr tp) to"
  have k: "carries IP to st net" "carries IP ?src tp net" using c by (auto simp: connected_def)
  obtain net1 where net1: "transport_send_to IP tp m to net = (IoOk (length m), net1)"
    "transport_recv_from st (deliver_all IP net1) = (IoOk (m, ?src), net)"
    by (rule send_deliver_recv[OF k(1) m])
  have "reply_ok IP (IoOk (m, ?src)) = (\<lambda>r. il_sends IP r ?src)" by (simp add: reply_ok_def fun_eq_iff)
  moreover have "udp_ok (\<lambda>r. il_sends IP r ?src)" using k by (simp add: carries_def sends_udp_def udp_ok_def)
  ultimately have "over_udp IP handle st s (deliver_all IP net1) = (ev, s', reply IP st (IoOk (m, ?src)) sent net)"
    using h net1(2) by (simp add: over_udp_def)
  from that[OF net1(1) this] show thesis .
qed

lemma over_udp_answered:
  assumes c: "connected IP tp to st net" and m: "length m \<le> UDP_PAYLOAD" "length r \<le> UDP_PAYLOAD"
    and h: "\<forall>sends. udp_ok sends \<longrightarrow> handle s (IoOk m) sends = (ev, Some r, s')"
  obtains net1 net2 src where "transport_send_to IP tp m to net = (IoOk (length m), net1)"
    "over_udp IP handle st s (deliver_all IP net1) = (ev, s', net2)" "transport_recv_from tp (deliver_all IP net2) = (IoOk (r, src), net)"
proof -
  have k: "carries IP (il_source IP (ut_addr tp) to) tp net" using c by (simp add: connected_def)
  obtain net2 src where "transport_send_to IP st r (il_source IP (ut_addr tp) to) net = (IoOk (length r), net2)"
    "transport_recv_from tp (deliver_all IP net2) = (IoOk (r, src), net)"
    using send_deliver_recv[OF k m(2), of st] by blast
  then show thesis using over_udp_request[OF c m(1) h] that by (auto simp: reply_def)
qed

lemma over_udp_taken:
  assumes "connected IP tp to st net" "length m \<le> UDP_PAYLOAD"
    and "\<forall>sends. udp_ok sends \<longrightarrow> handle s (IoOk m) sends = (ev, None, s')"
  obtains net1 where "transport_send_to IP tp m to net = (IoOk (length m), net1)"
    "over_udp IP handle st s (deliver_all IP net1) = (ev, s', net)"
  using over_udp_request[OF assms] that by (auto simp: reply_def)

end

interpretation v2: datagram_handler "handle_one fill C P" for fill C P
  by unfold_locales (simp_all add: handle_one_def)

interpretation v1: datagram_handler "handle_one1 fill C" for fill C
  by unfold_locales (simp_all add: handle_one1_def)

text \<open>The server answers exactly when it reports progress.\<close>

definition progress :: "server_event driven \<Rightarrow> bool" where
  "progress ev \<longleftrightarrow> (\<exists>i r. ev = Done (SaInit i r)) \<or> (\<exists>i r ident. ev = Done (ServerEstablished i r ident))"

lemma handle_one_answers:
  assumes "handle_one fill C P s (IoOk d) sends = (ev, sent, s')"
  shows "progress ev \<longleftrightarrow> (\<exists>r. sent = Some r \<and> sends r)"
proof -
  have a: "progress ev \<longleftrightarrow> (\<exists>r. sent = Some r \<and> sends r)" if "handle_sa_init fill C s d sends = (ev, sent, s')"
    using that by (auto simp: handle_sa_init_def progress_def Let_def split: prod.splits res.splits if_splits)
  have "progress ev \<longleftrightarrow> (\<exists>r. sent = Some r \<and> sends r)" if h: "handle_ike_auth fill C P s h d sends = (ev, sent, s')" for h
  proof (cases "sv_sessions s (h_initiator_spi h, h_responder_spi h)")
    case (Some sa)
    obtain w e1 where w: "next_u64 fill (sv_entropy s) = (w, e1)" by fastforce
    obtain iv e2 where iv: "fill e1 8 = (iv, e2)" by fastforce
    show ?thesis
    proof (cases "responder_process_auth C P sa d (sv_auth s) (ucast w) iv None")
      case (Ok x)
      obtain resp ident pspi where x: "x = (resp, ident, pspi)" by (cases x)
      obtain c where "child_sa_derive C (sk_d (ci_keys sa)) (ci_ni sa) (ci_nr sa) Responder (ucast w) pspi = Ok c"
        using child_sa_derive_Ok by blast
      then show ?thesis
        using h Some w iv Ok x by (cases "sends resp") (auto simp: handle_ike_auth_def progress_def)
    qed (use h Some w iv in \<open>auto simp: handle_ike_auth_def progress_def\<close>)
  qed (use h in \<open>auto simp: handle_ike_auth_def progress_def\<close>)
  with a show ?thesis
    using assms by (auto simp: handle_one_def progress_def split: res.splits exchange_type.splits)
qed

section \<open>The UDP network answers\<close>

text \<open>While the client waits, what it sent arrives, the server takes one turn, and the answer arrives.\<close>

definition serve_turn :: "'e filler \<Rightarrow> primitives \<Rightarrow> pki \<Rightarrow> ip_layer \<Rightarrow> udp_net \<times> 'e udp_server \<Rightarrow> udp_net \<times> 'e udp_server" where
  "serve_turn fill C P IP w =
     (case udp_handle_one fill C P IP (snd w) (deliver_all IP (fst w)) of (_, us', net') \<Rightarrow> (deliver_all IP net', us'))"

interpretation udp: answering_net fs C P "udp_exchange IP (serve_turn fs C P IP) tp to" "\<lambda>w. us_server (snd w)"
  "\<lambda>w. connected IP tp to (us_transport (snd w)) (fst w) \<and> us_transport (snd w) = st \<and> fst w = start" for fs C P IP tp to st start
proof
  fix n :: "udp_net \<times> 'a udp_server" and req resp :: bytes and ev s'
  assume g: "connected IP tp to (us_transport (snd n)) (fst n) \<and> us_transport (snd n) = st \<and> fst n = start"
    and len: "length req \<le> UDP_PAYLOAD" "length resp \<le> UDP_PAYLOAD"
    and h: "\<forall>sends. udp_ok sends \<longrightarrow> handle_one fs C P (us_server (snd n)) (IoOk req) sends = (ev, Some resp, s')"
  obtain net us where n: "n = (net, us)" by (cases n)
  have c: "connected IP tp to (us_transport us) net" using g n by auto
  obtain net1 net2 src where "transport_send_to IP tp req to net = (IoOk (length req), net1)"
    "over_udp IP (handle_one fs C P) (us_transport us) (us_server us) (deliver_all IP net1) = (ev, s', net2)"
    "transport_recv_from tp (deliver_all IP net2) = (IoOk (resp, src), net)"
    by (rule v2.over_udp_answered[OF c len]) (use h n in auto)
  then have "udp_exchange IP (serve_turn fs C P IP) tp to n req = (IoOk resp, (net, us\<lparr>us_server := s'\<rparr>))"
    by (simp add: udp_exchange_def serve_turn_def udp_handle_one_def n)
  then show "\<exists>n'. udp_exchange IP (serve_turn fs C P IP) tp to n req = (IoOk resp, n') \<and>
      (connected IP tp to (us_transport (snd n')) (fst n') \<and> us_transport (snd n') = st \<and> fst n' = start) \<and> us_server (snd n') = s'"
    using g n by auto
qed

text \<open>The same for IKEv1, where the server also takes its turn while the client pauses.\<close>

definition serve_turn1 :: "'e filler \<Rightarrow> primitives \<Rightarrow> ip_layer \<Rightarrow> udp_net \<times> 'e udp_server1 \<Rightarrow> udp_net \<times> 'e udp_server1" where
  "serve_turn1 fill C IP w =
     (case udp_handle_one1 fill C IP (snd w) (deliver_all IP (fst w)) of (_, us', net') \<Rightarrow> (deliver_all IP net', us'))"

lemma deliver_all_idle: "un_flight net = [] \<Longrightarrow> deliver_all IP net = net"
  by (simp add: deliver_all_def)

interpretation udp1: relaying_net fs C "udp_send1 IP tp to" "udp_recv1 (serve_turn1 fs C IP) tp" "serve_turn1 fs C IP"
  "\<lambda>w. u1_server (snd w)"
  "\<lambda>w. connected IP tp to (u1_transport (snd w)) (fst w) \<and> u1_transport (snd w) = st \<and> fst w = start" for fs C IP tp to st start
proof
  fix n :: "udp_net \<times> 'a udp_server1" and m r :: bytes and ev s'
  assume g: "connected IP tp to (u1_transport (snd n)) (fst n) \<and> u1_transport (snd n) = st \<and> fst n = start"
    and len: "length m \<le> UDP_PAYLOAD"
  obtain net us where n: "n = (net, us)" by (cases n)
  have c: "connected IP tp to (u1_transport us) net" using g n by auto
  show "\<exists>n'. exchange1 (udp_send1 IP tp to) (udp_recv1 (serve_turn1 fs C IP) tp) n m = (IoOk r, n') \<and>
      (connected IP tp to (u1_transport (snd n')) (fst n') \<and> u1_transport (snd n') = st \<and> fst n' = start) \<and> u1_server (snd n') = s'"
    if l: "length r \<le> UDP_PAYLOAD" and h: "\<forall>sends. udp_ok sends \<longrightarrow> handle_one1 fs C (u1_server (snd n)) (IoOk m) sends = (ev, Some r, s')"
  proof -
    obtain net1 net2 src where "transport_send_to IP tp m to net = (IoOk (length m), net1)"
      "over_udp IP (handle_one1 fs C) (u1_transport us) (u1_server us) (deliver_all IP net1) = (ev, s', net2)"
      "transport_recv_from tp (deliver_all IP net2) = (IoOk (r, src), net)"
      by (rule v1.over_udp_answered[OF c len l]) (use h n in auto)
    then have "exchange1 (udp_send1 IP tp to) (udp_recv1 (serve_turn1 fs C IP) tp) n m = (IoOk r, (net, us\<lparr>u1_server := s'\<rparr>))"
      by (simp add: exchange1_def udp_send1_def udp_recv1_def serve_turn1_def udp_handle_one1_def n)
    then show ?thesis using g n by auto
  qed
  show "\<exists>n'. udp_send1 IP tp to n m = (True, n') \<and>
      (connected IP tp to (u1_transport (snd (serve_turn1 fs C IP n'))) (fst (serve_turn1 fs C IP n')) \<and>
        u1_transport (snd (serve_turn1 fs C IP n')) = st \<and> fst (serve_turn1 fs C IP n') = start) \<and>
      u1_server (snd (serve_turn1 fs C IP n')) = s'"
    if h: "\<forall>sends. udp_ok sends \<longrightarrow> handle_one1 fs C (u1_server (snd n)) (IoOk m) sends = (ev, None, s')"
  proof -
    obtain net1 where "transport_send_to IP tp m to net = (IoOk (length m), net1)"
      "over_udp IP (handle_one1 fs C) (u1_transport us) (u1_server us) (deliver_all IP net1) = (ev, s', net)"
      by (rule v1.over_udp_taken[OF c len]) (use h n in auto)
    moreover have "deliver_all IP net = net" using c by (simp add: deliver_all_idle connected_def carries_def)
    ultimately have "udp_send1 IP tp to n m = (True, (net1, us))" "serve_turn1 fs C IP (net1, us) = (net, us\<lparr>u1_server := s'\<rparr>)"
      by (simp_all add: udp_send1_def serve_turn1_def udp_handle_one1_def n)
    then show ?thesis using g n by auto
  qed
qed

section \<open>Packets over UDP\<close>

lemma esp_seal_length:
  assumes "gcm_correct C" "esp_wf sa" "length inner \<le> 2 ^ 36 - 8" "esp_seal C sa inner nh = (Ok p, sa')"
  shows "length p \<le> length inner + 37"
proof -
  let ?seq = "es_seq sa + 1"
  obtain ct where ct: "gcm_encrypt C (es_key sa) (es_salt sa @ to_be64 (ucast ?seq)) (to_be32 (es_spi sa) @ to_be32 ?seq)
      (esp_plaintext inner nh) = Some ct" "length ct = length (esp_plaintext inner nh) + 16"
    by (rule gcm_correctE[OF assms(1), of "es_key sa" "es_salt sa @ to_be64 (ucast ?seq)" "to_be32 (es_spi sa) @ to_be32 ?seq"
          "esp_plaintext inner nh"]) (use assms(2,3) esp_plaintext_trailer[of inner nh] in \<open>auto simp: esp_wf_def\<close>)
  then have "length p = length ct + 16"
    using assms(4) by (auto simp: esp_seal_def checked_add1_def Let_def esp_nonce_def res_iff split: if_splits)
  then show ?thesis using ct(2) esp_plaintext_trailer[of inner nh] by auto
qed

lemma mirrored_esp:
  fixes a b :: child_sa
  assumes "gcm_correct C" "same_sa (ch_outbound a) (ch_inbound b)" "esp_wf (ch_outbound a)"
    and "es_seq (ch_outbound a) \<noteq> 0xFFFFFFFF" "length inner \<le> 65000"
  obtains pkt sa' where "esp_seal C (ch_outbound a) inner nh = (Ok pkt, sa')" "esp_open C (ch_inbound b) pkt = Ok (inner, nh)"
    "length pkt \<le> length inner + 37"
proof -
  have len: "length inner \<le> 2 ^ 36 - 8" using assms(5) by simp
  obtain pkt t where t: "tunnel_send C (tunnel_new a) inner nh = (Ok pkt, t)" "tunnel_recv C (tunnel_new b) pkt = Ok (inner, nh)"
    using mirrored_send[OF assms(1) len assms(2,3,4)] by blast
  then obtain sa' where seal: "esp_seal C (ch_outbound a) inner nh = (Ok pkt, sa')"
    by (auto simp: tunnel_send_def tunnel_new_def split: prod.splits)
  from that[OF seal _ esp_seal_length[OF assms(1,3) len seal]] t(2) show thesis
    by (simp add: tunnel_recv_def tunnel_new_def)
qed

lemma udp_tunnel_delivers:
  assumes "gcm_correct C" "same_sa (ch_outbound (tn_sa a)) (ch_inbound (tn_sa b))" "esp_wf (ch_outbound (tn_sa a))"
    and "es_seq (ch_outbound (tn_sa a)) \<noteq> 0xFFFFFFFF" "length inner \<le> 65000"
    and "carries IP (tn_peer a) (tn_transport b) net"
  shows "\<exists>a' net1. udp_tunnel_send IP C a inner nh net = (Done (), a', net1) \<and>
    udp_tunnel_recv C b (deliver_all IP net1) = (Done (inner, nh), net)"
proof -
  obtain pkt sa' where p: "esp_seal C (ch_outbound (tn_sa a)) inner nh = (Ok pkt, sa')"
    "esp_open C (ch_inbound (tn_sa b)) pkt = Ok (inner, nh)" "length pkt \<le> length inner + 37"
    by (rule mirrored_esp[OF assms(1-5)])
  have "length pkt \<le> UDP_PAYLOAD" using p(3) assms(5) by (simp add: UDP_PAYLOAD_def)
  from send_deliver_recv[OF assms(6) this, of "tn_transport a"] p(1,2) show ?thesis
    by (fastforce simp: udp_tunnel_send_def udp_tunnel_recv_def)
qed

text \<open>Whatever is sent through one tunnel now arrives at the other.\<close>

definition udp_delivers :: "ip_layer \<Rightarrow> primitives \<Rightarrow> udp_net \<Rightarrow> udp_tunnel \<Rightarrow> udp_tunnel \<Rightarrow> bool" where
  "udp_delivers IP C net a b \<longleftrightarrow> (\<forall>inner nh. length inner \<le> 65000 \<longrightarrow>
     (\<exists>a' net1. udp_tunnel_send IP C a inner nh net = (Done (), a', net1) \<and>
       udp_tunnel_recv C b (deliver_all IP net1) = (Done (inner, nh), net)))"

section \<open>Properties\<close>

text \<open>
  C13. A server talks only to whoever talks to it: one call of \<open>handle_one\<close> on a socket with an empty
  queue changes nothing. Otherwise it takes the oldest datagram of its own queue, leaves
  every other queue alone, and sends at most one datagram, to the address that the datagram came
  from; it sends one exactly when it reports that an exchange has advanced.
\<close>
theorem udp_server_answers_sender:
  assumes "udp_handle_one fill C P IP us net = (ev, us', net')" "a = ut_addr (us_transport us)"
  shows "us_transport us' = us_transport us \<and>
    (case un_inbox net a of
       [] \<Rightarrow> us' = us \<and> net' = net \<and> ev = (if ut_timeout (us_transport us) = None then Blocked else IoFailed)
     | (d, src) # rest \<Rightarrow> un_bound net' = un_bound net \<and> un_inbox net' = (un_inbox net)(a := rest) \<and>
         (if progress ev then \<exists>r. un_flight net' = un_flight net @ [(src, r, il_source IP a src)]
          else un_flight net' = un_flight net))"
proof -
  obtain s' where o: "over_udp IP (handle_one fill C P) (us_transport us) (us_server us) net = (ev, s', net')"
    "us' = us\<lparr>us_server := s'\<rparr>"
    using assms(1) by (auto simp: udp_handle_one_def split: prod.splits)
  show ?thesis
  proof (cases "un_inbox net a")
    case Nil
    then show ?thesis using o assms(2) v2.over_udp_empty[of net "us_transport us" IP fill C P "us_server us"] by simp
  next
    case (Cons x rest)
    obtain d src where x: "x = (d, src)" by (cases x)
    have i: "un_inbox net (ut_addr (us_transport us)) = (d, src) # rest" using Cons x assms(2) by simp
    obtain sent where h: "handle_one fill C P (us_server us) (IoOk (take MAX_DATAGRAM d)) (\<lambda>r. il_sends IP r src) = (ev, sent, s')"
      "net' = net\<lparr>un_inbox := (un_inbox net)(ut_addr (us_transport us) := rest), un_flight := un_flight net @
        (case sent of Some r \<Rightarrow> if il_sends IP r src then [(src, r, il_source IP (ut_addr (us_transport us)) src)] else [] | None \<Rightarrow> [])\<rparr>"
      by (rule v2.over_udp_datagram[OF i o(1)])
    from handle_one_answers[OF h(1)] h(2) o(2) Cons x assms(2) show ?thesis
      by (auto split: option.splits)
  qed
qed

text \<open>Two hosts, one of them behind a NAT, and a network between them.\<close>

definition sample_home :: socket_addr where "sample_home = \<lparr>sock_ip = V4 (Ipv4 192 168 0 2), sock_port = 4500\<rparr>"
definition sample_nat :: socket_addr where "sample_nat = \<lparr>sock_ip = V4 (Ipv4 203 0 113 1), sock_port = 61000\<rparr>"
definition sample_gateway :: socket_addr where "sample_gateway = \<lparr>sock_ip = V4 (Ipv4 198 51 100 7), sock_port = 500\<rparr>"

definition sample_ip :: ip_layer where
  "sample_ip = \<lparr>il_port = (\<lambda>_ _. Some 40000), il_sends = (\<lambda>d _. length d \<le> UDP_PAYLOAD),
     il_source = (\<lambda>a _. if a = sample_home then sample_nat else a),
     il_owner = (\<lambda>a. if a = sample_nat then Some sample_home else Some a)\<rparr>"

definition sample_net :: udp_net where
  "sample_net = \<lparr>un_bound = [sample_home, sample_gateway], un_flight = [], un_inbox = (\<lambda>_. [])\<rparr>"

definition sample_socket :: "socket_addr \<Rightarrow> udp_transport" where
  "sample_socket a = \<lparr>ut_addr = a, ut_timeout = Some 5000000000\<rparr>"

lemma sample_connected: "connected sample_ip (sample_socket sample_home) sample_gateway (sample_socket sample_gateway) sample_net"
  by (simp add: connected_def carries_def sends_udp_def sample_ip_def sample_net_def sample_socket_def
      sample_home_def sample_nat_def sample_gateway_def)

theorem udp_server_answers_sender_witness:
  "\<exists>ev us' net'. udp_handle_one seed_entropy_fill toy_primitives toy_pki sample_ip
      \<lparr>us_transport = sample_socket sample_gateway, us_server = sample_responder\<rparr>
      (sample_net\<lparr>un_inbox := (\<lambda>_. [])(sample_gateway := [([1, 2, 3], sample_nat)])\<rparr>) = (ev, us', net') \<and>
    un_inbox net' = (\<lambda>_. []) \<and> (un_flight net' = [] \<or> (\<exists>r. un_flight net' = [(sample_nat, r, sample_gateway)]))"
proof -
  let ?us = "\<lparr>us_transport = sample_socket sample_gateway, us_server = sample_responder\<rparr>"
  let ?net = "sample_net\<lparr>un_inbox := (\<lambda>_. [])(sample_gateway := [([1, 2, 3], sample_nat)])\<rparr>"
  obtain ev us' net' where h: "udp_handle_one seed_entropy_fill toy_primitives toy_pki sample_ip ?us ?net = (ev, us', net')"
    by (cases "udp_handle_one seed_entropy_fill toy_primitives toy_pki sample_ip ?us ?net")
  have a: "sample_gateway = ut_addr (us_transport ?us)" by (simp add: sample_socket_def)
  have "un_inbox net' = (\<lambda>_. [])" "un_flight net' = [] \<or> (\<exists>r. un_flight net' = [(sample_nat, r, sample_gateway)])"
    using udp_server_answers_sender[OF h a]
    by (auto simp: sample_net_def sample_ip_def sample_gateway_def sample_home_def fun_eq_iff split: if_splits)
  with h show ?thesis by blast
qed

text \<open>
  C7. Packets through UDP tunnels: the two ends of a CHILD SA derived from the same key, nonces and SPIs,
  on sockets of which one reaches the other over the network. While the send counter is not
  exhausted, a packet of up to 65000 bytes that one tunnel sends is received by the other as the
  same inner packet and next header, and the network is as it was before.
\<close>
theorem udp_tunnel_delivery:
  assumes "gcm_correct C" "child_sa_derive C skd ni nr r l p = Ok c" "child_sa_derive C skd ni nr (peer r) p l = Ok d"
    and "tn_sa a = c\<lparr>ch_outbound := (ch_outbound c)\<lparr>es_seq := n\<rparr>\<rparr>" "tn_sa b = d" "n \<noteq> 0xFFFFFFFF"
    and "length inner \<le> 65000" "carries IP (tn_peer a) (tn_transport b) net"
  shows "\<exists>a' net1. udp_tunnel_send IP C a inner nh net = (Done (), a', net1) \<and>
    udp_tunnel_recv C b (deliver_all IP net1) = (Done (inner, nh), net)"
  using child_sa_match[OF assms(2,3)] assms(4-6)
  by (intro udp_tunnel_delivers[OF assms(1) _ _ _ assms(7,8)]) (auto simp: same_sa_def esp_wf_def)

theorem udp_tunnel_delivery_witness:
  "\<exists>c d a' net1. child_sa_derive toy_primitives [1] [2] [3] Initiator 5 6 = Ok c \<and>
    child_sa_derive toy_primitives [1] [2] [3] Responder 6 5 = Ok d \<and>
    udp_tunnel_send sample_ip toy_primitives (udp_tunnel_new c (sample_socket sample_home) sample_gateway) [69, 0] 4 sample_net =
      (Done (), a', net1) \<and>
    udp_tunnel_recv toy_primitives (udp_tunnel_new d (sample_socket sample_gateway) sample_nat) (deliver_all sample_ip net1) =
      (Done ([69, 0], 4), sample_net)"
proof -
  obtain c where c: "child_sa_derive toy_primitives [1] [2] [3] Initiator 5 6 = Ok c" using toy_child_sa by blast
  obtain d where d: "child_sa_derive toy_primitives [1] [2] [3] (peer Initiator) 6 5 = Ok d" using toy_child_sa by blast
  have "tn_sa (udp_tunnel_new c (sample_socket sample_home) sample_gateway) = c\<lparr>ch_outbound := (ch_outbound c)\<lparr>es_seq := 0\<rparr>\<rparr>"
    using child_sa_match[OF c d] by (cases c) (auto simp: udp_tunnel_new_def)
  from udp_tunnel_delivery[OF toy_gcm_correct c d this, of "udp_tunnel_new d (sample_socket sample_gateway) sample_nat" "[69, 0]"
      sample_ip sample_net 4] c d sample_connected show ?thesis by (simp add: udp_tunnel_new_def connected_def)
qed

end
