(* ===== verification/Echo.thy ===== *)
theory Echo
  imports Udp
begin

text \<open>
  The packets and checks of the example clients: \<open>checksum\<close> and \<open>ping\<close> of \<open>src/examples/rekey_e2e.rs\<close>,
  \<open>icmp_echo\<close> of \<open>ike_client.rs\<close>, which takes the identifier that the other examples fix (\<open>0x1234\<close> in
  \<open>rekey_e2e.rs\<close>, zero in \<open>ike_client_natt.rs\<close>), and \<open>has_nat_detection\<close> of \<open>ike_client_natt.rs\<close>. The command lines, the
  output and the host names of the examples are not modelled.

  The lemmas show that the packets carry valid Internet checksums, that a ping through
  tunnels whose other end echoes succeeds, and that a client sees the NAT detection notifies exactly
  when the responder was asked to send them.
\<close>

section \<open>The Internet checksum\<close>

text \<open>The first loop with the odd byte at the end, and the loop that folds the carries.\<close>

fun checksum_sum :: "u32 \<Rightarrow> bytes \<Rightarrow> u32" where
  "checksum_sum s (a # b # ds) = checksum_sum (s + ucast (from_be16 a b)) ds"
| "checksum_sum s [a] = s + push_bit 8 (ucast a)"
| "checksum_sum s [] = s"

lemma unat_bound: "unat (w :: 'a::len word) < 2 ^ LENGTH('a)"
  by (rule unsigned_less)

lemma low_high:
  "unat (s AND 0xffff :: u32) = unat s mod 65536" "unat (drop_bit 16 s :: u32) = unat s div 65536"
proof -
  have "(0xffff :: u32) = mask 16" by (simp add: mask_eq_exp_minus_1)
  then have "s AND 0xffff = take_bit 16 s" by (simp only: take_bit_eq_mask)
  then have "unat (s AND 0xffff) = take_bit 16 (unat s)" by (simp only: unsigned_take_bit_eq)
  then show "unat (s AND 0xffff :: u32) = unat s mod 65536" by (simp only: take_bit_eq_mod) simp
  show "unat (drop_bit 16 s :: u32) = unat s div 65536" by (simp add: drop_bit_eq_div unat_div_distrib)
qed

lemma fold_carry: "unat ((s AND 0xffff) + drop_bit 16 s :: u32) = unat s mod 65536 + unat s div 65536"
proof -
  have "unat s div 65536 < 65536" "unat s mod 65536 < 65536" using unat_bound[of s] by simp_all
  then show ?thesis by (simp add: unat_plus_if' low_high)
qed

function checksum_fold :: "u32 \<Rightarrow> u32" where
  "checksum_fold s = (if drop_bit 16 s = 0 then s else checksum_fold ((s AND 0xffff) + drop_bit 16 s))"
  by pat_completeness auto
termination
proof (relation "measure unat")
  fix s :: u32 assume "drop_bit 16 s \<noteq> 0"
  then have "unat s div 65536 \<noteq> 0" by (metis low_high(2) unat_eq_0)
  then show "((s AND 0xffff) + drop_bit 16 s, s) \<in> measure unat"
    using mult_div_mod_eq[of 65536 "unat s"] unfolding in_measure fold_carry by arith
qed simp

declare checksum_fold.simps [simp del]

definition checksum :: "bytes \<Rightarrow> u16" where
  "checksum data = NOT (ucast (checksum_fold (checksum_sum 0 data)))"

text \<open>The folded sum in ones' complement arithmetic: the same residue, and zero only for zero.\<close>

lemma checksum_fold_mod:
  "unat (checksum_fold s) < 65536 \<and> unat (checksum_fold s) mod 65535 = unat s mod 65535 \<and>
     (unat (checksum_fold s) = 0 \<longleftrightarrow> unat s = 0)"
proof (induction s rule: checksum_fold.induct)
  case (1 s)
  show ?case
  proof (cases "drop_bit 16 s = 0")
    case True
    then have "unat s div 65536 = 0" by (metis low_high(2) unat_0)
    then show ?thesis using True by (simp add: checksum_fold.simps)
  next
    case False
    have "(unat s mod 65536 + unat s div 65536) mod 65535 = unat s mod 65535"
    proof -
      have "unat s = unat s mod 65536 + unat s div 65536 + 65535 * (unat s div 65536)"
        using mult_div_mod_eq[of 65536 "unat s"] by linarith
      then show ?thesis by (metis mod_mult_self2)
    qed
    moreover have "unat s mod 65536 + unat s div 65536 = 0 \<longleftrightarrow> unat s = 0"
      by (metis add_is_0 div_0 mod_0 mult_div_mod_eq mult_is_0)
    ultimately show ?thesis
      using 1[OF False] unfolding fold_carry checksum_fold.simps[of s] by (simp only: False if_False)
  qed
qed

text \<open>The sum without wrap-around, for data of at most 65535 bytes.\<close>

fun word_sum :: "bytes \<Rightarrow> nat" where
  "word_sum (a # b # ds) = unat (from_be16 a b) + word_sum ds"
| "word_sum [a] = 256 * unat a"
| "word_sum [] = 0"

lemma word_sum_bound: "word_sum ds \<le> 65535 * length ds"
proof (induction ds rule: word_sum.induct)
  case (1 a b ds)
  then show ?case using unat_bound[of "from_be16 a b"] by simp
next
  case (2 a)
  then show ?case using unat_bound[of a] by simp
qed simp

lemma checksum_sum_word: "unat s + word_sum ds < 2 ^ 32 \<Longrightarrow> unat (checksum_sum s ds) = unat s + word_sum ds"
proof (induction s ds rule: checksum_sum.induct)
  case (1 s a b ds)
  have w: "unat (ucast (from_be16 a b) :: u32) = unat (from_be16 a b)"
    using unat_bound[of "from_be16 a b"] by (simp add: unsigned_ucast_eq take_bit_nat_eq_self)
  have "unat (s + ucast (from_be16 a b)) = unat s + unat (from_be16 a b)"
    using 1(2) by (simp add: unat_plus_if' w)
  then show ?case using 1 by simp
next
  case (2 s a)
  have w: "unat (push_bit 8 (ucast a) :: u32) = 256 * unat a"
  proof -
    have "unat (ucast a :: u32) = unat a" using unat_bound[of a] by (simp add: unsigned_ucast_eq take_bit_nat_eq_self)
    then show ?thesis using unat_bound[of a] by (simp add: push_bit_eq_mult unat_word_ariths mult.commute)
  qed
  then show ?case using 2 by (simp add: unat_plus_if')
qed simp

lemma word_sum_append: "even (length xs) \<Longrightarrow> word_sum (xs @ ys) = word_sum xs + word_sum ys"
  by (induction xs rule: word_sum.induct) simp_all

lemma unat_not16: "unat (NOT w :: u16) = 65535 - unat w"
proof -
  have "NOT w = 0xFFFF - w" by (simp add: not_eq_complement)
  moreover have "w \<le> 0xFFFF" using unat_bound[of w] by (simp add: word_le_nat_alt)
  ultimately show ?thesis by (simp add: unat_sub)
qed

lemma checksum_nat:
  assumes "length ds \<le> 65535"
  obtains f where "unat (checksum ds) = 65535 - f" "f < 65536" "f mod 65535 = word_sum ds mod 65535"
    "f = 0 \<longleftrightarrow> word_sum ds = 0"
proof -
  let ?f = "checksum_fold (checksum_sum 0 ds)"
  have "word_sum ds \<le> 65535 * 65535" using word_sum_bound[of ds] assms by (meson le_trans mult_le_mono2)
  then have s: "unat (checksum_sum 0 ds) = word_sum ds" using checksum_sum_word[of 0 ds] by simp
  have f: "unat ?f < 65536" "unat ?f mod 65535 = word_sum ds mod 65535" "unat ?f = 0 \<longleftrightarrow> word_sum ds = 0"
    using checksum_fold_mod[of "checksum_sum 0 ds"] s by simp_all
  have "unat (ucast ?f :: u16) = unat ?f" using f(1) by (simp add: unsigned_ucast_eq take_bit_nat_eq_self)
  then have "unat (checksum ds) = 65535 - unat ?f"
    by (simp add: checksum_def unat_not16)
  from that[OF this f] show thesis .
qed

lemma checksum_inserted:
  assumes "even (length xs)" "length (xs @ [0, 0] @ ys) \<le> 65535" "0 < word_sum (xs @ [0, 0] @ ys)"
  shows "checksum (xs @ to_be16 (checksum (xs @ [0, 0] @ ys)) @ ys) = 0"
proof -
  let ?d = "xs @ [0, 0] @ ys"
  let ?e = "xs @ to_be16 (checksum ?d) @ ys"
  obtain f where f: "unat (checksum ?d) = 65535 - f" "f < 65536" "f mod 65535 = word_sum ?d mod 65535" "f = 0 \<longleftrightarrow> word_sum ?d = 0"
    by (rule checksum_nat[OF assms(2)])
  have "word_sum (to_be16 v @ ys) = unat v + word_sum ys" for v by (simp add: to_be16_def)
  then have e: "word_sum ?e = word_sum ?d + (65535 - f)"
    using f(1) assms(1) by (simp add: word_sum_append from_be16_def)
  have "length ?e \<le> 65535" using assms(2) by (simp add: to_be16_def)
  then obtain g where g: "unat (checksum ?e) = 65535 - g" "g < 65536" "g mod 65535 = word_sum ?e mod 65535"
    "g = 0 \<longleftrightarrow> word_sum ?e = 0"
    by (rule checksum_nat)
  have "word_sum ?e mod 65535 = (f + (65535 - f)) mod 65535"
    unfolding e using f(3) by (metis mod_add_left_eq)
  also have "\<dots> = 0" using f(2) by simp
  finally have "g mod 65535 = 0" using g(3) by simp
  moreover have "0 < g" using g(4) e assms(3) by simp
  ultimately have "g = 65535" using g(2) by (auto elim!: dvdE simp: mod_eq_0_iff_dvd)
  then show ?thesis using g(1) by (simp add: unat_eq_0)
qed

section \<open>Echo packets\<close>

text \<open>\<open>copy_from_slice\<close> into a range of the same length.\<close>

definition write_at :: "bytes \<Rightarrow> nat \<Rightarrow> bytes \<Rightarrow> bytes" where
  "write_at p i bs = take i p @ bs @ drop (i + length bs) p"

text \<open>The two headers before and after their checksums.\<close>

definition echo_headers :: "ipv4 \<Rightarrow> ipv4 \<Rightarrow> bytes" where
  "echo_headers src dst =
     (let p = replicate 28 0;
          p = p[0 := 0x45];
          p = write_at p 2 (to_be16 28);
          p = p[8 := 64];
          p = p[9 := 1];
          p = write_at p 12 (octets src)
      in write_at p 16 (octets dst))"

definition icmp_echo :: "ipv4 \<Rightarrow> ipv4 \<Rightarrow> u16 \<Rightarrow> u16 \<Rightarrow> bytes" where
  "icmp_echo src dst ident seq =
     (let p = echo_headers src dst;
          ck = checksum (take 20 p);
          p = write_at p 10 (to_be16 ck);
          p = p[20 := 8];
          p = write_at p 24 (to_be16 ident);
          p = write_at p 26 (to_be16 seq);
          ick = checksum (drop 20 p)
      in write_at p 22 (to_be16 ick))"

definition is_echo_reply :: "bytes \<Rightarrow> bool" where
  "is_echo_reply inner \<longleftrightarrow> 28 \<le> length inner \<and> inner ! 9 = 1 \<and> inner ! 20 = 0"

lemma to_be16_28: "to_be16 28 = [0, 28]"
  by (simp add: to_be16_def)

lemma to_be16_pair: obtains a b where "to_be16 v = [a, b]"
  by (simp add: to_be16_def)

lemma echo_headers_eq:
  "echo_headers src dst = [0x45, 0, 0, 28, 0, 0, 0, 0, 64, 1] @ [0, 0] @ octets src @ octets dst @ [0, 0, 0, 0, 0, 0, 0, 0]"
  by (cases src; cases dst) (simp add: echo_headers_def write_at_def Let_def to_be16_28 numeral_eq_Suc)

lemma icmp_echo_layout:
  "icmp_echo src dst ident seq =
     ([0x45, 0, 0, 28, 0, 0, 0, 0, 64, 1] @
       to_be16 (checksum ([0x45, 0, 0, 28, 0, 0, 0, 0, 64, 1] @ [0, 0] @ octets src @ octets dst)) @ octets src @ octets dst) @
     ([8, 0] @ to_be16 (checksum ([8, 0] @ [0, 0] @ to_be16 ident @ to_be16 seq)) @ to_be16 ident @ to_be16 seq)"
proof -
  obtain i1 i2 where i: "to_be16 ident = [i1, i2]" by (rule to_be16_pair)
  obtain s1 s2 where q: "to_be16 seq = [s1, s2]" by (rule to_be16_pair)
  obtain a b c d where src: "src = Ipv4 a b c d" by (cases src)
  obtain e f g h where dst: "dst = Ipv4 e f g h" by (cases dst)
  obtain c1 c2 where c: "to_be16 (checksum [0x45, 0, 0, 28, 0, 0, 0, 0, 64, 1, 0, 0, a, b, c, d, e, f, g, h]) = [c1, c2]"
    by (rule to_be16_pair)
  obtain k1 k2 where k: "to_be16 (checksum [8, 0, 0, 0, i1, i2, s1, s2]) = [k1, k2]" by (rule to_be16_pair)
  show ?thesis
    by (simp add: icmp_echo_def echo_headers_eq write_at_def Let_def src dst i q c k)
qed

section \<open>A ping through the tunnel\<close>

text \<open>
  One pass over the sequence numbers, to a destination that \<open>ping\<close> fixes and \<open>main\<close> of \<open>ike_client.rs\<close>
  takes as an argument; \<open>unwrap\<close> on a failure is a panic.
\<close>

fun ping_loop ::
    "ip_layer \<Rightarrow> primitives \<Rightarrow> (udp_net \<times> 'w \<Rightarrow> udp_net \<times> 'w) \<Rightarrow> udp_transport \<Rightarrow> socket_addr \<Rightarrow> ipv4 \<Rightarrow> ipv4 \<Rightarrow>
     u16 list \<Rightarrow> child_sa \<Rightarrow> udp_net \<times> 'w \<Rightarrow> bool driven \<times> child_sa \<times> udp_net \<times> 'w" where
  "ping_loop IP C env esp esp_addr src dst [] csa w = (Done False, csa, w)"
| "ping_loop IP C env esp esp_addr src dst (seq # seqs) csa w =
     (case esp_seal C (ch_outbound csa) (icmp_echo src dst 0x1234 seq) 4 of
        (Ok sealed, sa') \<Rightarrow>
          (let csa' = csa\<lparr>ch_outbound := sa'\<rparr> in
           case transport_send_to IP esp sealed esp_addr (fst w) of
             (IoOk _, net1) \<Rightarrow>
               (case env (net1, snd w) of (net2, x) \<Rightarrow>
                  (case socket_recv_from esp (replicate 2000 0) net2 of
                     (IoOk (buf, n, _), net3) \<Rightarrow>
                       (case esp_open C (ch_inbound csa') (take n buf) of
                          Ok (inner, _) \<Rightarrow>
                            if is_echo_reply inner then (Done True, csa', (net3, x))
                            else ping_loop IP C env esp esp_addr src dst seqs csa' (net3, x)
                        | Err _ \<Rightarrow> ping_loop IP C env esp esp_addr src dst seqs csa' (net3, x)
                        | Panic \<Rightarrow> (Panicked, csa', (net3, x)))
                   | (IoErr, net3) \<Rightarrow> ping_loop IP C env esp esp_addr src dst seqs csa' (net3, x)
                   | (IoBlocked, net3) \<Rightarrow> (Blocked, csa', (net3, x))))
           | (_, net1) \<Rightarrow> (Panicked, csa', (net1, snd w)))
      | (_, sa') \<Rightarrow> (Panicked, csa\<lparr>ch_outbound := sa'\<rparr>, w))"

definition ping ::
    "ip_layer \<Rightarrow> primitives \<Rightarrow> (udp_net \<times> 'w \<Rightarrow> udp_net \<times> 'w) \<Rightarrow> udp_transport \<Rightarrow> socket_addr \<Rightarrow> child_sa \<Rightarrow> ipv4 \<Rightarrow>
     udp_net \<times> 'w \<Rightarrow> bool driven \<times> child_sa \<times> udp_net \<times> 'w" where
  "ping IP C env esp esp_addr csa src w = ping_loop IP C env esp esp_addr src (Ipv4 1 1 1 1) [1, 2, 3, 4, 5] csa w"

text \<open>The other end of the tunnel while the client waits: it receives a packet and answers it.\<close>

definition echo_turn ::
    "ip_layer \<Rightarrow> primitives \<Rightarrow> (bytes \<Rightarrow> bytes) \<Rightarrow> udp_net \<times> udp_tunnel \<Rightarrow> udp_net \<times> udp_tunnel" where
  "echo_turn IP C answer w =
     (case udp_tunnel_recv C (snd w) (deliver_all IP (fst w)) of
        (Done (inner, nh), net1) \<Rightarrow>
          (case udp_tunnel_send IP C (snd w) (answer inner) nh net1 of (_, t, net2) \<Rightarrow> (deliver_all IP net2, t))
      | (_, net1) \<Rightarrow> (net1, snd w))"

text \<open>The host behind the other end answers an echo request with a reply of at most 1900 bytes.\<close>

definition echoes :: "(bytes \<Rightarrow> bytes) \<Rightarrow> bool" where
  "echoes answer \<longleftrightarrow> (\<forall>src dst ident seq. is_echo_reply (answer (icmp_echo src dst ident seq)) \<and>
     length (answer (icmp_echo src dst ident seq)) \<le> 1900)"

section \<open>NAT detection\<close>

text \<open>The loop over the payloads, which ends at the first error, and the two flags.\<close>

fun nat_scan :: "item list \<Rightarrow> bool \<times> bool \<Rightarrow> bool \<times> bool" where
  "nat_scan [] v = v"
| "nat_scan (Inl _ # _) v = v"
| "nat_scan (Inr p # ps) v =
     nat_scan ps
       (if rp_type p = PT_Notify then
          (case notify_parse (rp_data p) of
             Ok n \<Rightarrow> (fst v \<or> nt_notify_type n = NAT_DETECTION_SOURCE_IP,
                     snd v \<or> nt_notify_type n = NAT_DETECTION_DESTINATION_IP)
           | _ \<Rightarrow> v)
        else v)"

definition has_nat_detection :: "bytes \<Rightarrow> bool res" where
  "has_nat_detection response =
     (case ike_header_parse response of
        Ok hdr \<Rightarrow>
          bindR (slice_from response HEADER_LEN) (\<lambda>body.
          bindR (iter_items (payloads (h_next_payload hdr) body)) (\<lambda>ps.
            let (src, dst) = nat_scan ps (False, False) in Ok (src \<and> dst)))
      | Err _ \<Rightarrow> Ok False
      | Panic \<Rightarrow> Panic)"

section \<open>Lemmas\<close>

lemma ping_replied:
  fixes csa :: child_sa
  assumes C: "gcm_correct C"
    and out: "same_sa (ch_outbound csa) (ch_inbound (tn_sa t))" "esp_wf (ch_outbound csa)" "es_seq (ch_outbound csa) \<noteq> 0xFFFFFFFF"
    and ret: "same_sa (ch_outbound (tn_sa t)) (ch_inbound csa)" "esp_wf (ch_outbound (tn_sa t))"
      "es_seq (ch_outbound (tn_sa t)) \<noteq> 0xFFFFFFFF"
    and net: "connected IP esp to (tn_transport t) net" "tn_peer t = il_source IP (ut_addr esp) to"
    and answer: "echoes answer"
  shows "\<exists>csa' t'. ping IP C (echo_turn IP C answer) esp to csa src (net, t) = (Done True, csa', (net, t'))"
proof -
  let ?i = "icmp_echo src (Ipv4 1 1 1 1) 0x1234 1"
  let ?r = "answer ?i"
  have r: "is_echo_reply ?r" "length ?r \<le> 1900" using answer by (simp_all add: echoes_def)
  have len: "length ?i = 28" by (cases src) (simp add: icmp_echo_layout to_be16_def)
  have c: "carries IP to (tn_transport t) net" "carries IP (tn_peer t) esp net" using net by (simp_all add: connected_def)
  obtain pkt sa' where p: "esp_seal C (ch_outbound csa) ?i 4 = (Ok pkt, sa')"
    "esp_open C (ch_inbound (tn_sa t)) pkt = Ok (?i, 4)" "length pkt \<le> length ?i + 37"
    by (rule mirrored_esp[OF C out, of ?i]) (simp add: len)
  obtain rep sb' where q: "esp_seal C (ch_outbound (tn_sa t)) ?r 4 = (Ok rep, sb')"
    "esp_open C (ch_inbound csa) rep = Ok (?r, 4)" "length rep \<le> length ?r + 37"
    by (rule mirrored_esp[OF C ret, of ?r]) (use r in simp)
  have fit: "length pkt \<le> UDP_PAYLOAD" "length rep \<le> UDP_PAYLOAD" "length rep \<le> 2000"
    using p(3) q(3) len r(2) by (simp_all add: UDP_PAYLOAD_def)
  obtain net1 where net1: "transport_send_to IP esp pkt to net = (IoOk (length pkt), net1)"
    "transport_recv_from (tn_transport t) (deliver_all IP net1) = (IoOk (pkt, tn_peer t), net)"
    using send_deliver_recv[OF c(1) fit(1), of esp] net(2) by metis
  obtain net2 sender where net2: "transport_send_to IP (tn_transport t) rep (tn_peer t) net = (IoOk (length rep), net2)"
    "socket_recv_from esp (replicate 2000 0) (deliver_all IP net2) = (IoOk (rep @ replicate (2000 - length rep) 0, length rep, sender), net)"
    using send_deliver_recv[OF c(2) fit(2), of "tn_transport t"] fit(3) by metis
  have "echo_turn IP C answer (net1, t) = (deliver_all IP net2, t\<lparr>tn_sa := (tn_sa t)\<lparr>ch_outbound := sb'\<rparr>\<rparr>)"
    using net1(2) net2(1) p(2) q(1) by (simp add: echo_turn_def udp_tunnel_recv_def udp_tunnel_send_def)
  then show ?thesis using p(1) net1(1) net2(2) q(2) r(1) by (simp add: ping_def)
qed

lemma nat_scan_notifies:
  "\<forall>m \<in> set ns. notify_wf m \<Longrightarrow>
     nat_scan (map (\<lambda>n. Inr (raw (PT_Notify, notify_to_bytes n))) ns @ rest) v =
       nat_scan rest (fst v \<or> NAT_DETECTION_SOURCE_IP \<in> nt_notify_type ` set ns,
         snd v \<or> NAT_DETECTION_DESTINATION_IP \<in> nt_notify_type ` set ns)"
  by (induction ns arbitrary: v) auto

lemma natt_notify_types:
  "nt_notify_type ` set (natt_notifies C i r natt) =
     (if natt = None then {} else {NAT_DETECTION_SOURCE_IP, NAT_DETECTION_DESTINATION_IP})"
  by (cases natt) (simp_all add: natt_notifies_def source_ip_notify_def destination_ip_notify_def notify_status_def split_beta)

lemma has_nat_detection_built:
  assumes "sa_init_fits sa pub n" "\<forall>m \<in> set ex. notify_fits m"
  shows "has_nat_detection (build_sa_init (base_header i r fl) sa g pub n ex) =
    Ok (NAT_DETECTION_SOURCE_IP \<in> nt_notify_type ` set ex \<and> NAT_DETECTION_DESTINATION_IP \<in> nt_notify_type ` set ex)"
proof -
  let ?ps = "sa_init_chain sa g pub n ex"
  have wf: "chain_wf ?ps" using assms by (rule sa_init_chain_wf)
  have "\<forall>m \<in> set (sighash_notify # ex). notify_wf m" using assms(2) sighash_notify_fits by (simp add: notify_fits_def)
  note scan = nat_scan_notifies[OF this, of "[]" "(False, False)", simplified]
  have "ike_header_parse (build_sa_init (base_header i r fl) sa g pub n ex) = Ok ((base_header i r fl)\<lparr>
      h_next_payload := first_payload_type ?ps, h_length := of_nat (HEADER_LEN + length (encode_payload_chain ?ps))\<rparr>)"
    unfolding build_sa_init_eq by (rule message_builder_parse[OF base_header_wf wf])
  moreover have "slice_from (build_sa_init (base_header i r fl) sa g pub n ex) HEADER_LEN = Ok (encode_payload_chain ?ps)"
    unfolding build_sa_init_eq by (rule message_builder_body)
  moreover have "nat_scan (map (\<lambda>p. Inr (raw p)) ?ps) (False, False) =
      (NAT_DETECTION_SOURCE_IP \<in> nt_notify_type ` set ex, NAT_DETECTION_DESTINATION_IP \<in> nt_notify_type ` set ex)"
    using scan by (simp add: sa_init_chain_def comp_def sighash_notify_def notify_status_def)
  ultimately show ?thesis
    using iter_items_encode[OF wf, of "[]"] by (simp add: has_nat_detection_def)
qed

section \<open>Properties\<close>

lemma echo_checksums:
  "checksum (take 20 (icmp_echo src dst ident seq)) = 0" "checksum (drop 20 (icmp_echo src dst ident seq)) = 0"
proof -
  let ?x = "[0x45, 0, 0, 28, 0, 0, 0, 0, 64, 1] :: bytes" and ?y = "octets src @ octets dst"
  let ?z = "to_be16 ident @ to_be16 seq"
  have len: "length (octets a) = 4" for a by (cases a) simp
  have ten: "even (length ?x)" by simp
  have n: "length (?x @ [0, 0] @ ?y) \<le> 65535" "length ([8, 0] @ [0, 0] @ ?z) \<le> 65535" by (simp_all add: len)
  have p: "0 < word_sum (?x @ [0, 0] @ ?y)" "0 < word_sum ([8, 0] @ [0, 0] @ ?z)"
    by (simp_all add: from_be16_def be_decode_def)
  have t: "take 20 (icmp_echo src dst ident seq) = ?x @ to_be16 (checksum (?x @ [0, 0] @ ?y)) @ ?y"
    "drop 20 (icmp_echo src dst ident seq) = [8, 0] @ to_be16 (checksum ([8, 0] @ [0, 0] @ ?z)) @ ?z"
    by (simp_all add: icmp_echo_layout len)
  show "checksum (take 20 (icmp_echo src dst ident seq)) = 0"
    unfolding t(1) by (rule checksum_inserted[OF ten n(1) p(1)])
  show "checksum (drop 20 (icmp_echo src dst ident seq)) = 0"
    unfolding t(2) by (rule checksum_inserted[OF _ n(2) p(2)]) simp
qed

text \<open>
  The echo requests of the example clients are valid: 28 bytes, an IPv4 header of that total length with
  the given addresses and protocol ICMP, an echo request with the given identifier and sequence
  number, and both checksums verify, so a receiver that checks them accepts the packet.
\<close>
theorem icmp_echo_valid:
  "let p = icmp_echo src dst ident seq in
     length p = 28 \<and> take 4 p = 0x45 # 0 # to_be16 28 \<and> p ! 9 = 1 \<and> take 4 (drop 12 p) = octets src \<and>
     take 4 (drop 16 p) = octets dst \<and> take 2 (drop 20 p) = [8, 0] \<and> drop 24 p = to_be16 ident @ to_be16 seq \<and>
     checksum (take 20 p) = 0 \<and> checksum (drop 20 p) = 0 \<and> \<not> is_echo_reply p"
proof -
  have len: "length (octets a) = 4" for a by (cases a) simp
  show ?thesis
    unfolding Let_def using echo_checksums[of src dst ident seq]
    by (simp add: icmp_echo_layout len is_echo_reply_def nth_append to_be16_28)
qed

text \<open>
  C17. The data plane survives a rekey, as the example \<open>rekey_e2e\<close> expects: a client that holds one end of a
  CHILD SA pings through a socket that is connected with the other end, behind which a host answers
  echo requests, and gets the reply. After a rekey of the CHILD SA over the IKE SA of the two ends, the same ping on the
  new SAs, with the new SPIs, gets the reply as well.
\<close>
theorem ping_survives_rekey:
  assumes C: "gcm_correct C" and ike: "sa_pair a b" "gcm_keys a" "length iv = 8" "length iv' = 8"
    and nonces: "length ni < 60000" "length nr < 60000"
    and sas: "child_sa_derive C skd n1 n2 Initiator l p = Ok c" "child_sa_derive C skd n1 n2 Responder p l = Ok d"
    and net: "connected IP esp to st net" "from_addr = il_source IP (ut_addr esp) to" and answer: "echoes answer"
  shows "(\<exists>x w. ping IP C (echo_turn IP C answer) esp to c src (net, udp_tunnel_new d st from_addr) = (Done True, x, w)) \<and>
    (\<exists>m r c' d' x w. build_rekey_request C a mid old si ni iv = Ok m \<and> responder_process_rekey C b m sr nr iv' ip = Ok (r, d') \<and>
      initiator_complete_rekey C a ni si r = Ok c' \<and> es_spi (ch_inbound c') = si \<and> es_spi (ch_inbound d') = sr \<and>
      ping IP C (echo_turn IP C answer) esp to c' src (net, udp_tunnel_new d' st from_addr) = (Done True, x, w))"
proof -
  have pings: "\<exists>x w. ping IP C (echo_turn IP C answer) esp to c src (net, udp_tunnel_new d st from_addr) = (Done True, x, w)"
    if "ch_inbound d = ch_outbound c" "ch_inbound c = ch_outbound d" "esp_wf (ch_outbound c)" "esp_wf (ch_outbound d)"
      "es_seq (ch_outbound c) = 0" "es_seq (ch_outbound d) = 0" for c d :: child_sa
    using ping_replied[OF C, of c "udp_tunnel_new d st from_addr" IP esp to net answer src] that net answer
    by (fastforce simp: udp_tunnel_new_def same_sa_def)
  have "child_sa_derive C skd n1 n2 (peer Initiator) p l = Ok d" using sas(2) by simp
  from child_sa_match[OF sas(1) this] child_sa_derive_fields[OF sas(1)] child_sa_derive_fields[OF sas(2)]
  have "\<exists>x w. ping IP C (echo_turn IP C answer) esp to c src (net, udp_tunnel_new d st from_addr) = (Done True, x, w)"
    by (intro pings) metis+
  moreover obtain m r c' d' where "build_rekey_request C a mid old si ni iv = Ok m"
    "responder_process_rekey C b m sr nr iv' ip = Ok (r, d')" "initiator_complete_rekey C a ni si r = Ok c'"
    "ch_inbound d' = ch_outbound c'" "ch_inbound c' = ch_outbound d'" "esp_wf (ch_outbound c')" "esp_wf (ch_outbound d')"
    "es_spi (ch_inbound c') = si" "es_spi (ch_inbound d') = sr" "es_seq (ch_outbound c') = 0" "es_seq (ch_outbound d') = 0"
    by (rule rekey_exchange[OF C ike nonces])
  moreover note pings[OF calculation(5-8,11,12)]
  ultimately show ?thesis by blast
qed

text \<open>
  A client learns from the answer whether the responder does NAT detection: the check of the example client
  never panics, and on the answer of a responder that established it finds both
  notifies exactly when the responder was given the addresses to send them.
\<close>
theorem nat_detection_visible:
  assumes "modpow_correct C" "local_wf loc" "responder_respond_inner C request loc natt cookie = Ok (Established resp sa)"
  shows "has_nat_detection resp = Ok (natt \<noteq> None) \<and> has_nat_detection other \<noteq> Panic"
proof -
  obtain h body ps where h: "ike_header_parse request = Ok h" "slice_from request HEADER_LEN = Ok body" "parse_sa_init h body = Ok ps"
    using assms(3) by (auto simp: responder_respond_inner_def bindR_Ok_iff)
  obtain suite g pub where g: "dh_public C g (ls_dh_private loc) = Ok pub"
    "resp = build_sa_init (base_header (h_initiator_spi h) (ls_spi loc) response_flags) \<lparr>sa_proposals = [to_proposal suite]\<rparr>
      (cs_dh_id suite) pub (ls_nonce loc) (natt_notifies C (h_initiator_spi h) (ls_spi loc) natt)"
    by (rule responder_establishedE[OF assms(3) h]) blast
  have "sa_init_fits \<lparr>sa_proposals = [to_proposal suite]\<rparr> pub (ls_nonce loc)"
    using response_fits assms(1,2) g(1) by blast
  then have "has_nat_detection resp = Ok (natt \<noteq> None)"
    unfolding g(2) using has_nat_detection_built[OF _ natt_notifies_fit] by (simp add: natt_notify_types)
  moreover have "has_nat_detection other \<noteq> Panic"
    by (auto simp: has_nat_detection_def header_then_body res_iff split: res.splits prod.splits)
  ultimately show ?thesis by simp
qed

text \<open>Witnesses: a host that swaps the addresses of an echo request and marks it as a reply, and a sample run.\<close>

definition sample_answer :: "bytes \<Rightarrow> bytes" where
  "sample_answer p = (write_at (write_at p 12 (take 4 (drop 16 p))) 16 (take 4 (drop 12 p)))[20 := 0]"

lemma sample_echoes: "echoes sample_answer"
proof -
  have "length (octets a) = 4" for a by (cases a) simp
  then show ?thesis
    by (simp add: echoes_def sample_answer_def is_echo_reply_def write_at_def icmp_echo_layout to_be16_def nth_append)
qed

theorem ping_survives_rekey_witness:
  "\<exists>c d x w m r c' d' y v. child_sa_derive toy_primitives [1] [2] [3] Initiator 5 6 = Ok c \<and>
    child_sa_derive toy_primitives [1] [2] [3] Responder 6 5 = Ok d \<and>
    ping sample_ip toy_primitives (echo_turn sample_ip toy_primitives sample_answer) (sample_socket sample_home) sample_gateway c
      (Ipv4 10 0 0 2) (sample_net, udp_tunnel_new d (sample_socket sample_gateway) sample_nat) = (Done True, x, w) \<and>
    build_rekey_request toy_primitives (sample_sa Initiator) 2 6 7 [1] (replicate 8 0) = Ok m \<and>
    responder_process_rekey toy_primitives (sample_sa Responder) m 8 [1] (replicate 8 0) None = Ok (r, d') \<and>
    initiator_complete_rekey toy_primitives (sample_sa Initiator) [1] 7 r = Ok c' \<and>
    ping sample_ip toy_primitives (echo_turn sample_ip toy_primitives sample_answer) (sample_socket sample_home) sample_gateway c'
      (Ipv4 10 0 0 2) (sample_net, udp_tunnel_new d' (sample_socket sample_gateway) sample_nat) = (Done True, y, v)"
proof -
  obtain c where c: "child_sa_derive toy_primitives [1] [2] [3] Initiator 5 6 = Ok c" using toy_child_sa by blast
  obtain d where d: "child_sa_derive toy_primitives [1] [2] [3] Responder 6 5 = Ok d" using toy_child_sa by blast
  have n: "sample_nat = il_source sample_ip (ut_addr (sample_socket sample_home)) sample_gateway"
    by (simp add: sample_ip_def sample_socket_def)
  have k: "length (replicate 8 (0 :: u8)) = 8" "length ([1] :: bytes) < 60000" by simp_all
  have pair: "sa_pair (sample_sa Initiator) (sample_sa Responder)" using sample_sa_pair(1)[of Initiator] by simp
  from ping_survives_rekey[OF toy_gcm_correct pair sample_sa_pair(2) k(1,1,2,2) c d sample_connected n sample_echoes,
      of "Ipv4 10 0 0 2" 2 6 7 8 None] c d
  show ?thesis by blast
qed

theorem nat_detection_visible_witness:
  "\<exists>req resp sar. initiator_request toy_primitives (sample_local 3 7) default_offer = Ok req \<and>
     responder_respond_inner toy_primitives req (sample_local 5 9) (Some (sample_gateway, sample_nat)) None =
       Ok (Established resp sar) \<and> has_nat_detection resp = Ok True"
proof -
  obtain req resp sar where r: "initiator_request toy_primitives (sample_local 3 7) default_offer = Ok req"
    "responder_respond_inner toy_primitives req (sample_local 5 9) (Some (sample_gateway, sample_nat)) None = Ok (Established resp sar)"
    using default_run[OF toy_x25519_correct toy_modpow_correct sample_local_wf sample_local_wf] by blast
  with nat_detection_visible[OF toy_modpow_correct sample_local_wf r(2)] show ?thesis by simp
qed

end
