(* ===== verification/Mschapv2.thy ===== *)
theory Mschapv2
  imports Primitives Sk
begin

text \<open>
  MS-CHAP-v2 (RFC 2759) and its key derivation (RFC 3079), \<open>src/src/ikev2/mschapv2.rs\<close>. A Rust
  \<open>&str\<close> is the list of its Unicode scalar values; an array \<open>[u8; n]\<close> computed by the code is a
  list of \<open>n\<close> bytes. DES, MD4 and SHA-1 are fields of \<open>primitives\<close>.

  The lemmas show that the DES keys carry the 56 bits of their seed, that the response and key
  computations never fail and have the lengths of the RFCs, and how UTF-16 encoding behaves.
\<close>

unbundle bit_operations_syntax

type_synonym ustr = "u32 list"

section \<open>Password hashes\<close>

text \<open>\<open>str::encode_utf16\<close>: one unit, or a surrogate pair above the basic plane.\<close>

definition utf16_units :: "u32 \<Rightarrow> u16 list" where
  "utf16_units c =
     (if c < 0x10000 then [ucast c]
      else let c' = c - 0x10000 in
        [0xD800 OR ucast (drop_bit 10 c'), 0xDC00 OR (ucast c' AND 0x3FF)])"

definition encode_utf16 :: "ustr \<Rightarrow> u16 list" where
  "encode_utf16 s = concat (map utf16_units s)"

definition to_le16 :: "u16 \<Rightarrow> bytes" where
  "to_le16 v = [ucast v, ucast (drop_bit 8 v)]"

definition nt_password_hash :: "primitives \<Rightarrow> ustr \<Rightarrow> bytes" where
  "nt_password_hash C password = be_encode 16 (md4 C (concat (map to_le16 (encode_utf16 password))))"

definition hash_nt_password_hash :: "primitives \<Rightarrow> bytes \<Rightarrow> bytes" where
  "hash_nt_password_hash C password_hash = be_encode 16 (md4 C password_hash)"

definition sha1_digest :: "primitives \<Rightarrow> bytes \<Rightarrow> bytes" where
  "sha1_digest C d = be_encode 20 (sha1 C d)"

definition challenge_hash :: "primitives \<Rightarrow> bytes \<Rightarrow> bytes \<Rightarrow> bytes \<Rightarrow> bytes" where
  "challenge_hash C peer_challenge authenticator_challenge user_name =
     take 8 (sha1_digest C (peer_challenge @ authenticator_challenge @ user_name))"

section \<open>The response\<close>

definition str_to_key :: "bytes \<Rightarrow> bytes res" where
  "str_to_key s =
     bindR (idx s 0) (\<lambda>s0. bindR (idx s 1) (\<lambda>s1. bindR (idx s 2) (\<lambda>s2. bindR (idx s 3) (\<lambda>s3.
     bindR (idx s 4) (\<lambda>s4. bindR (idx s 5) (\<lambda>s5. bindR (idx s 6) (\<lambda>s6.
       let k = [drop_bit 1 s0,
                push_bit 6 (s0 AND 0x01) OR drop_bit 2 s1,
                push_bit 5 (s1 AND 0x03) OR drop_bit 3 s2,
                push_bit 4 (s2 AND 0x07) OR drop_bit 4 s3,
                push_bit 3 (s3 AND 0x0F) OR drop_bit 5 s4,
                push_bit 2 (s4 AND 0x1F) OR drop_bit 6 s5,
                push_bit 1 (s5 AND 0x3F) OR drop_bit 7 s6,
                s6 AND 0x7F]
       in Ok (map (push_bit 1) k))))))))"

definition des_encrypt :: "primitives \<Rightarrow> bytes \<Rightarrow> bytes \<Rightarrow> bytes res" where
  "des_encrypt C challenge key7 = bindR (str_to_key key7) (\<lambda>k. Ok (be_encode 8 (des_block C k challenge)))"

definition challenge_response :: "primitives \<Rightarrow> bytes \<Rightarrow> bytes \<Rightarrow> bytes res" where
  "challenge_response C challenge password_hash =
     (let zph = password_hash @ replicate 5 0 in
      bindR (bindR (slice zph 0 7) (des_encrypt C challenge)) (\<lambda>r1.
      bindR (bindR (slice zph 7 14) (des_encrypt C challenge)) (\<lambda>r2.
      bindR (bindR (slice zph 14 21) (des_encrypt C challenge)) (\<lambda>r3.
        Ok (r1 @ r2 @ r3)))))"

definition generate_nt_response ::
    "primitives \<Rightarrow> bytes \<Rightarrow> bytes \<Rightarrow> bytes \<Rightarrow> ustr \<Rightarrow> bytes res" where
  "generate_nt_response C authenticator_challenge peer_challenge user_name password =
     (let challenge = challenge_hash C peer_challenge authenticator_challenge user_name;
          password_hash = nt_password_hash C password
      in challenge_response C challenge password_hash)"

section \<open>The authenticator's response\<close>

definition MAGIC1 :: bytes where
  "MAGIC1 = ascii ''Magic server to client signing constant''"

definition MAGIC2 :: bytes where
  "MAGIC2 = ascii ''Pad to make it do more than one iteration''"

text \<open>\<open>format!("{b:02X}")\<close>.\<close>

definition hex_digit :: "u8 \<Rightarrow> u8" where
  "hex_digit d = (if d < 10 then 48 + d else 55 + d)"

definition hex_byte :: "u8 \<Rightarrow> bytes" where
  "hex_byte b = [hex_digit (drop_bit 4 b), hex_digit (b AND 0x0F)]"

definition generate_authenticator_response ::
    "primitives \<Rightarrow> ustr \<Rightarrow> bytes \<Rightarrow> bytes \<Rightarrow> bytes \<Rightarrow> bytes \<Rightarrow> bytes" where
  "generate_authenticator_response C password nt_response peer_challenge authenticator_challenge user_name =
     (let password_hash = nt_password_hash C password;
          password_hash_hash = hash_nt_password_hash C password_hash;
          digest = sha1_digest C (password_hash_hash @ nt_response @ MAGIC1);
          challenge = challenge_hash C peer_challenge authenticator_challenge user_name;
          digest2 = sha1_digest C (digest @ challenge @ MAGIC2)
      in ascii ''S='' @ concat (map hex_byte digest2))"

section \<open>Key derivation\<close>

definition MPPE_MASTER_MAGIC :: bytes where
  "MPPE_MASTER_MAGIC = ascii ''This is the MPPE Master Key''"

definition MPPE_MAGIC2 :: bytes where
  "MPPE_MAGIC2 = ascii ''On the client side, this is the send key; on the server side, it is the receive key.''"

definition MPPE_MAGIC3 :: bytes where
  "MPPE_MAGIC3 = ascii ''On the client side, this is the receive key; on the server side, it is the send key.''"

definition SHS_PAD1 :: bytes where "SHS_PAD1 = replicate 40 0x00"
definition SHS_PAD2 :: bytes where "SHS_PAD2 = replicate 40 0xF2"

definition get_master_key :: "primitives \<Rightarrow> bytes \<Rightarrow> bytes \<Rightarrow> bytes" where
  "get_master_key C password_hash_hash nt_response =
     take 16 (sha1_digest C (password_hash_hash @ nt_response @ MPPE_MASTER_MAGIC))"

definition asymmetric_start_key :: "primitives \<Rightarrow> bytes \<Rightarrow> bytes \<Rightarrow> bytes" where
  "asymmetric_start_key C master_key magic =
     take 16 (sha1_digest C (master_key @ SHS_PAD1 @ magic @ SHS_PAD2))"

definition derive_msk :: "primitives \<Rightarrow> ustr \<Rightarrow> bytes \<Rightarrow> bytes" where
  "derive_msk C password nt_response =
     (let phh = hash_nt_password_hash C (nt_password_hash C password);
          mk = get_master_key C phh nt_response;
          master_receive_key = asymmetric_start_key C mk MPPE_MAGIC2;
          master_send_key = asymmetric_start_key C mk MPPE_MAGIC3
      in master_receive_key @ master_send_key @ replicate 32 0)"

section \<open>Lemmas\<close>

lemma length_hashes [simp]:
  "length (nt_password_hash C pw) = 16" "length (hash_nt_password_hash C h) = 16"
  "length (sha1_digest C d) = 20" "length (challenge_hash C p a u) = 8"
  by (simp_all add: nt_password_hash_def hash_nt_password_hash_def sha1_digest_def challenge_hash_def)

lemma length_master_keys [simp]:
  "length (get_master_key C h r) = 16" "length (asymmetric_start_key C mk m) = 16"
  by (simp_all add: get_master_key_def asymmetric_start_key_def)

lemma length_derive_msk [simp]: "length (derive_msk C pw r) = 64"
  by (simp add: derive_msk_def Let_def)

lemma length_hex: "length (concat (map hex_byte ds)) = 2 * length ds"
  by (induction ds) (simp_all add: hex_byte_def)

lemma length_authenticator_response [simp]:
  "length (generate_authenticator_response C pw r p a u) = 42"
  by (simp add: generate_authenticator_response_def Let_def length_hex ascii_def)

lemma str_to_key_Ok: "length s = 7 \<Longrightarrow> \<exists>k. str_to_key s = Ok k \<and> length k = 8"
  by (simp add: str_to_key_def Let_def)

lemma des_encrypt_Ok:
  assumes "length s = 7"
  shows "\<exists>r. des_encrypt C ch s = Ok r \<and> length r = 8"
  using str_to_key_Ok[OF assms] by (auto simp: des_encrypt_def)

lemma challenge_response_Ok:
  assumes "length h = 16"
  shows "\<exists>r. challenge_response C ch h = Ok r \<and> length r = 24"
proof -
  let ?z = "h @ replicate 5 (0 :: u8)"
  have "\<exists>r. bindR (slice ?z a (a + 7)) (des_encrypt C ch) = Ok r \<and> length r = 8" if "a \<le> 14" for a
    using des_encrypt_Ok[of "take 7 (drop a ?z)"] that assms by simp
  from this[of 0] this[of 7] this[of 14] show ?thesis
    by (auto simp: challenge_response_def Let_def)
qed

lemma generate_nt_response_Ok:
  "\<exists>r. generate_nt_response C a p u pw = Ok r \<and> length r = 24"
  using challenge_response_Ok[of "nt_password_hash C pw"] by (simp add: generate_nt_response_def)

text \<open>
  The DES key expansion keeps all 56 bits of the seed, in order, as the upper seven bits of the
  eight key bytes; the parity bits are clear.
\<close>

definition bits8 :: "u8 \<Rightarrow> bool list" where
  "bits8 b = map (bit b) [7, 6, 5, 4, 3, 2, 1, 0]"

definition bits7 :: "u8 \<Rightarrow> bool list" where
  "bits7 b = map (bit b) [7, 6, 5, 4, 3, 2, 1]"

lemma low_masks:
  "(0x01 :: u8) = mask 1" "(0x03 :: u8) = mask 2" "(0x07 :: u8) = mask 3" "(0x0F :: u8) = mask 4"
  "(0x1F :: u8) = mask 5" "(0x3F :: u8) = mask 6" "(0x7F :: u8) = mask 7"
  by (simp_all add: mask_eq_exp_minus_1)

lemma bit_shift8: "bit (push_bit n (a :: u8)) m \<longleftrightarrow> n \<le> m \<and> m < 8 \<and> bit a (m - n)"
  by (auto simp: bit_simps)

lemma bit_mask8: "bit (mask n :: u8) m \<longleftrightarrow> m < 8 \<and> m < n"
  by (auto simp: bit_mask_iff possible_bit_word)

lemma no_bit8: "8 \<le> m \<Longrightarrow> \<not> bit (b :: u8) m"
  using bit_imp_le_length[of b m] by auto

lemma str_to_key_bits:
  assumes "length s = 7"
  shows "\<exists>k. str_to_key s = Ok k \<and> length k = 8 \<and> concat (map bits7 k) = concat (map bits8 s) \<and>
    (\<forall>b \<in> set k. \<not> bit b 0)"
proof -
  have s: "s = [s ! 0, s ! 1, s ! 2, s ! 3, s ! 4, s ! 5, s ! 6]"
    using assms by (intro nth_equalityI) (auto simp: less_Suc_eq numeral_eq_Suc)
  then obtain s0 s1 s2 s3 s4 s5 s6 where s: "s = [s0, s1, s2, s3, s4, s5, s6]" by blast
  define k where "k = map (push_bit 1) [drop_bit 1 s0, push_bit 6 (s0 AND mask 1) OR drop_bit 2 s1,
    push_bit 5 (s1 AND mask 2) OR drop_bit 3 s2, push_bit 4 (s2 AND mask 3) OR drop_bit 4 s3,
    push_bit 3 (s3 AND mask 4) OR drop_bit 5 s4, push_bit 2 (s4 AND mask 5) OR drop_bit 6 s5,
    push_bit 1 (s5 AND mask 6) OR drop_bit 7 s6, s6 AND mask 7]"
  have "str_to_key s = Ok k" unfolding s k_def str_to_key_def Let_def low_masks by simp
  moreover have "concat (map bits7 k) = concat (map bits8 s)"
    unfolding k_def s bits7_def bits8_def list.map bit_shift8 bit_or_iff bit_and_iff bit_mask8 bit_drop_bit_eq o_def
    by (simp add: no_bit8 numeral_2_eq_2 numeral_3_eq_3) (simp add: eval_nat_numeral)
  moreover have "\<forall>b \<in> set k. \<not> bit b 0"
  proof -
    have "\<not> bit (push_bit 1 (a :: u8)) 0" for a unfolding bit_shift8 by simp
    then show ?thesis unfolding k_def set_map by blast
  qed
  ultimately show ?thesis by (simp add: k_def)
qed

end
