(* ===== verification/Eap.thy ===== *)
theory Eap
  imports Mschapv2 Payload
begin

text \<open>
  EAP packets (RFC 3748) and the EAP-MSCHAPv2 messages inside them, \<open>src/src/ikev2/eap.rs\<close>.

  The lemmas show that packets, challenges and responses are read back, that no parser panics,
  and that the server accepts a response exactly when it carries the NT response of the stored
  password to the server's challenge.
\<close>

section \<open>Constants\<close>

definition CODE_REQUEST :: u8 where "CODE_REQUEST = 1"
definition CODE_RESPONSE :: u8 where "CODE_RESPONSE = 2"
definition CODE_SUCCESS :: u8 where "CODE_SUCCESS = 3"
definition CODE_FAILURE :: u8 where "CODE_FAILURE = 4"

definition EAP_IDENTITY :: u8 where "EAP_IDENTITY = 1"
definition EAP_NAK :: u8 where "EAP_NAK = 3"
definition EAP_MSCHAPV2 :: u8 where "EAP_MSCHAPV2 = 26"

definition OP_CHALLENGE :: u8 where "OP_CHALLENGE = 1"
definition OP_RESPONSE :: u8 where "OP_RESPONSE = 2"
definition OP_SUCCESS :: u8 where "OP_SUCCESS = 3"
definition OP_FAILURE :: u8 where "OP_FAILURE = 4"

lemmas eap_consts = CODE_REQUEST_def CODE_RESPONSE_def CODE_SUCCESS_def CODE_FAILURE_def
  EAP_IDENTITY_def EAP_NAK_def EAP_MSCHAPV2_def OP_CHALLENGE_def OP_RESPONSE_def OP_SUCCESS_def OP_FAILURE_def

section \<open>Packets\<close>

record eap_packet =
  ep_code :: u8
  ep_identifier :: u8
  ep_data :: bytes

definition eap_packet_parse :: "bytes \<Rightarrow> eap_packet res" where
  "eap_packet_parse body =
     (if length body < 4 then Err (Truncated 4 (length body)) else
      bindR (u16be body 2) (\<lambda>l. let len = unat l in
      if len < 4 \<or> length body < len then Err (BadLength len (length body)) else
      bindR (idx body 0) (\<lambda>code. bindR (idx body 1) (\<lambda>identifier.
      bindR (slice body 4 len) (\<lambda>data.
        Ok \<lparr>ep_code = code, ep_identifier = identifier, ep_data = data\<rparr>)))))"

definition eap_packet_to_bytes :: "eap_packet \<Rightarrow> bytes" where
  "eap_packet_to_bytes p =
     (let len = 4 + length (ep_data p) in
      [ep_code p, ep_identifier p] @ to_be16 (of_nat len) @ ep_data p)"

definition eap_type :: "eap_packet \<Rightarrow> u8 option" where
  "eap_type p = (case ep_data p of [] \<Rightarrow> None | t # _ \<Rightarrow> Some t)"

section \<open>EAP-MSCHAPv2 messages\<close>

definition build_challenge :: "u8 \<Rightarrow> bytes \<Rightarrow> bytes \<Rightarrow> bytes" where
  "build_challenge mschap_id challenge name =
     (let ms_len = 4 + 1 + 16 + length name in
      [EAP_MSCHAPV2, OP_CHALLENGE, mschap_id] @ to_be16 (of_nat ms_len) @ [16] @ challenge @ name)"

definition parse_challenge :: "bytes \<Rightarrow> (u8 \<times> bytes \<times> bytes) res" where
  "parse_challenge data =
     (if length data < 22 \<or> data ! 0 \<noteq> EAP_MSCHAPV2 \<or> data ! 1 \<noteq> OP_CHALLENGE
      then Err (Crypto ''not an EAP-MSCHAPv2 Challenge'')
      else bindR (slice data 6 22) (\<lambda>challenge. bindR (idx data 2) (\<lambda>mid. bindR (slice_from data 22) (\<lambda>name.
        Ok (mid, challenge, name)))))"

definition build_response :: "primitives \<Rightarrow> u8 \<Rightarrow> bytes \<Rightarrow> bytes \<Rightarrow> bytes \<Rightarrow> ustr \<Rightarrow> bytes res" where
  "build_response C mschap_id authenticator_challenge peer_challenge user password =
     bindR (generate_nt_response C authenticator_challenge peer_challenge user password) (\<lambda>nt.
       let ms_len = 4 + 1 + 49 + length user in
       Ok ([EAP_MSCHAPV2, OP_RESPONSE, mschap_id] @ to_be16 (of_nat ms_len) @ [49] @ peer_challenge @
           replicate 8 0 @ nt @ [0] @ user))"

record response =
  rs_mschap_id :: u8
  rs_peer_challenge :: bytes
  rs_nt_response :: bytes
  rs_name :: bytes

definition parse_response :: "bytes \<Rightarrow> response res" where
  "parse_response data =
     (if length data < 55 \<or> data ! 0 \<noteq> EAP_MSCHAPV2 \<or> data ! 1 \<noteq> OP_RESPONSE
      then Err (Crypto ''not an EAP-MSCHAPv2 Response'')
      else bindR (idx data 2) (\<lambda>mid. bindR (slice data 6 22) (\<lambda>pc. bindR (slice data 30 54) (\<lambda>nt.
        bindR (slice_from data 55) (\<lambda>name.
          Ok \<lparr>rs_mschap_id = mid, rs_peer_challenge = pc, rs_nt_response = nt, rs_name = name\<rparr>)))))"

definition verify_response :: "primitives \<Rightarrow> bytes \<Rightarrow> bytes \<Rightarrow> ustr \<Rightarrow> bytes res" where
  "verify_response C authenticator_challenge response_data password =
     bindR (parse_response response_data) (\<lambda>resp.
     bindR (generate_nt_response C authenticator_challenge (rs_peer_challenge resp) (rs_name resp) password) (\<lambda>expected.
       if expected \<noteq> rs_nt_response resp then Err AuthFailed
       else Ok (generate_authenticator_response C password (rs_nt_response resp) (rs_peer_challenge resp)
              authenticator_challenge (rs_name resp))))"

definition build_success :: "u8 \<Rightarrow> bytes \<Rightarrow> bytes" where
  "build_success mschap_id auth_response =
     (let ms_len = 4 + length auth_response in
      [EAP_MSCHAPV2, OP_SUCCESS, mschap_id] @ to_be16 (of_nat ms_len) @ auth_response)"

section \<open>Lemmas\<close>

definition eap_packet_wf :: "eap_packet \<Rightarrow> bool" where
  "eap_packet_wf p \<longleftrightarrow> length (ep_data p) < 65532"

lemma unat_add4: "n < 65532 \<Longrightarrow> unat (4 + of_nat n :: u16) = 4 + n"
  using unat_of_nat16[of "4 + n"] by (simp add: unat_of_nat take_bit_nat_eq_self del: unat_of_nat16)

interpretation eap: body_codec eap_packet_to_bytes eap_packet_parse eap_packet_wf
proof
  show "eap_packet_parse (eap_packet_to_bytes p) = Ok p" if "eap_packet_wf p" for p
    using that unat_add4[of "length (ep_data p)"]
    by (simp add: eap_packet_parse_def eap_packet_to_bytes_def eap_packet_wf_def to_be16_def Let_def)
  show "eap_packet_parse bs \<noteq> Panic" for bs
    by (auto simp: eap_packet_parse_def Let_def res_iff)
qed

lemma generate_nt_response_not_Panic [simp]:
  "generate_nt_response C a p u pw \<noteq> Panic" "generate_nt_response C a p u pw \<noteq> Err e"
  using generate_nt_response_Ok[of C a p u pw] by auto

lemma eap_parsers_not_Panic [simp]:
  "parse_challenge d \<noteq> Panic" "parse_response d \<noteq> Panic" "verify_response C a d pw \<noteq> Panic"
  "build_response C i a p u pw \<noteq> Panic" "build_response C i a p u pw \<noteq> Err e"
proof -
  show pr: "parse_challenge d \<noteq> Panic" "parse_response d \<noteq> Panic" for d
    by (auto simp: parse_challenge_def parse_response_def res_iff)
  show "verify_response C a d pw \<noteq> Panic" using pr by (auto simp: verify_response_def res_iff)
  show "build_response C i a p u pw \<noteq> Panic" "build_response C i a p u pw \<noteq> Err e"
    by (auto simp: build_response_def res_iff Let_def)
qed

lemma parse_build_challenge:
  assumes "length ch = 16"
  shows "parse_challenge (build_challenge i ch name) = Ok (i, ch, name)"
  using assms by (simp add: parse_challenge_def build_challenge_def to_be16_def Let_def eap_consts)

lemma parse_build_response:
  assumes "length pc = 16" and "generate_nt_response C a pc user pw = Ok nt"
  shows "\<exists>d. build_response C i a pc user pw = Ok d \<and> length d = 55 + length user \<and>
     take 2 d = [EAP_MSCHAPV2, OP_RESPONSE] \<and>
     parse_response d = Ok \<lparr>rs_mschap_id = i, rs_peer_challenge = pc, rs_nt_response = nt, rs_name = user\<rparr>"
proof -
  have "length nt = 24" using assms(2) generate_nt_response_Ok[of C a pc user pw] by auto
  with assms show ?thesis
    by (simp add: build_response_def parse_response_def to_be16_def Let_def eap_consts)
qed

text \<open>
  The EAP-MSCHAPv2 messages carry the authentication: a challenge is read back by the peer; the
  response to it fits an EAP packet, is read back from that packet, and is accepted under the
  password it was computed with, the server answering with its own proof. Under any other password
  with another NT response it is refused with \<open>AuthFailed\<close>.
\<close>
theorem mschap_response_verified:
  assumes "length ch = 16" "length pc = 16" "length user < 65000"
  shows "parse_challenge (build_challenge i ch name) = Ok (i, ch, name) \<and>
    (\<exists>nt d. generate_nt_response C ch pc user pw = Ok nt \<and> length nt = 24 \<and>
       build_response C i ch pc user pw = Ok d \<and>
       eap_packet_parse (eap_packet_to_bytes \<lparr>ep_code = CODE_RESPONSE, ep_identifier = j, ep_data = d\<rparr>) =
         Ok \<lparr>ep_code = CODE_RESPONSE, ep_identifier = j, ep_data = d\<rparr> \<and>
       verify_response C ch d pw = Ok (generate_authenticator_response C pw nt pc ch user) \<and>
       (\<forall>pw'. generate_nt_response C ch pc user pw' \<noteq> Ok nt \<longrightarrow> verify_response C ch d pw' = Err AuthFailed))"
proof (intro conjI)
  show "parse_challenge (build_challenge i ch name) = Ok (i, ch, name)"
    by (rule parse_build_challenge) (rule assms(1))
  obtain nt where nt: "generate_nt_response C ch pc user pw = Ok nt" "length nt = 24"
    using generate_nt_response_Ok[of C ch pc user pw] by auto
  obtain d where d: "build_response C i ch pc user pw = Ok d" "length d = 55 + length user"
    "parse_response d = Ok \<lparr>rs_mschap_id = i, rs_peer_challenge = pc, rs_nt_response = nt, rs_name = user\<rparr>"
    using parse_build_response[OF assms(2) nt(1)] by blast
  have "verify_response C ch d pw' = Err AuthFailed" if "generate_nt_response C ch pc user pw' \<noteq> Ok nt" for pw'
    using generate_nt_response_Ok[of C ch pc user pw'] that d(3) by (auto simp: verify_response_def)
  moreover have "eap_packet_parse (eap_packet_to_bytes \<lparr>ep_code = CODE_RESPONSE, ep_identifier = j, ep_data = d\<rparr>) =
      Ok \<lparr>ep_code = CODE_RESPONSE, ep_identifier = j, ep_data = d\<rparr>"
    using assms(3) d(2) by (intro eap.dec_enc) (simp add: eap_packet_wf_def)
  moreover have "verify_response C ch d pw = Ok (generate_authenticator_response C pw nt pc ch user)"
    using d(3) nt by (simp add: verify_response_def)
  ultimately show "\<exists>nt d. generate_nt_response C ch pc user pw = Ok nt \<and> length nt = 24 \<and>
       build_response C i ch pc user pw = Ok d \<and>
       eap_packet_parse (eap_packet_to_bytes \<lparr>ep_code = CODE_RESPONSE, ep_identifier = j, ep_data = d\<rparr>) =
         Ok \<lparr>ep_code = CODE_RESPONSE, ep_identifier = j, ep_data = d\<rparr> \<and>
       verify_response C ch d pw = Ok (generate_authenticator_response C pw nt pc ch user) \<and>
       (\<forall>pw'. generate_nt_response C ch pc user pw' \<noteq> Ok nt \<longrightarrow> verify_response C ch d pw' = Err AuthFailed)"
    using nt d(1) by blast
qed

theorem mschap_response_verified_witness:
  "\<exists>d. build_response toy_primitives 1 (replicate 16 7) (replicate 16 9) [117] [112, 119] = Ok d \<and>
     verify_response toy_primitives (replicate 16 7) d [112, 119] \<noteq> Err AuthFailed"
proof -
  have "length (replicate 16 (7 :: u8)) = 16" "length (replicate 16 (9 :: u8)) = 16" "length [117 :: u8] < 65000" by simp_all
  from mschap_response_verified[OF this, of 1 "[]" toy_primitives "[112, 119]" 0] show ?thesis by fastforce
qed

end
