(* ===== verification/Eap_Auth.thy ===== *)
theory Eap_Auth
  imports Ike_Auth Eap
begin

text \<open>
  EAP-MSCHAPv2 inside \<open>IKE_AUTH\<close>, \<open>src/src/ikev2/eap_auth.rs\<close>: the client \<open>EapInitiator\<close> and the
  server \<open>EapResponder\<close>. Each is a record and \<open>handle\<close> a function from the state, a message and
  the randomness to the result, the new state and the new randomness; the state is returned on
  errors too, because the code has already changed it through \<open>&mut self\<close>. The hash map of
  accepted users is a map. \<open>our_sk_e\<close>, \<open>peer_sk_e\<close> and \<open>full_tunnel_ts\<close>, which the source file
  repeats, are those of \<open>Informational\<close> and \<open>Ike_Auth\<close>. \<open>msg_id + 1\<close> is the checked addition:
  on overflow it panics.

  The lemmas show that the client sends nothing before an authenticated server has been seen, that
  the whole conversation with the right password ends established on both sides, that a wrong
  password ends it, and what the server's last step accepts.
\<close>

section \<open>Configuration and events\<close>

datatype server_auth = ServerPsk bytes | ServerCert signing_key "bytes list"

datatype server_verify = Insecure | TrustedCas "bytes list" bytes u64

datatype eap_event = Reply bytes | EapEstablished "bytes option" | Failed

section \<open>Messages\<close>

definition build_sk ::
    "primitives \<Rightarrow> completed_sa_init \<Rightarrow> u32 \<Rightarrow> bool \<Rightarrow> payload_chain \<Rightarrow> bytes \<Rightarrow> bytes res" where
  "build_sk C sa msg_id is_response inner iv =
     (let header = \<lparr>h_initiator_spi = ci_spi_i sa, h_responder_spi = ci_spi_r sa, h_next_payload = PT_NoNext,
        h_major_version = 2, h_minor_version = 0, h_exchange_type = IkeAuth,
        h_flags = \<lparr>f_initiator = (ci_role sa = Initiator), f_version = False, f_response = is_response\<rparr>,
        h_message_id = msg_id, h_length = 0\<rparr>
      in build_encrypted_gcm C header (first_payload_type inner) (encode_payload_chain inner) (our_sk_e sa) iv)"

definition eap_decrypt :: "primitives \<Rightarrow> completed_sa_init \<Rightarrow> bytes \<Rightarrow> (u32 \<times> payload_chain) res" where
  "eap_decrypt C sa message =
     bindR (ike_header_parse message) (\<lambda>h.
     bindR (open_encrypted_gcm C message (peer_sk_e sa)) (\<lambda>(first, inner).
     bindR (for_payloads first inner (\<lambda>out p. Ok (out @ [(rp_type p, rp_data p)])) []) (\<lambda>out.
       Ok (h_message_id h, out))))"

definition find_payload :: "payload_chain \<Rightarrow> payload_type \<Rightarrow> bytes option" where
  "find_payload ps want = map_option snd (find (\<lambda>(t, _). t = want) ps)"

definition unwrap_or_empty :: "bytes option \<Rightarrow> bytes" where
  "unwrap_or_empty m = (case m of Some d \<Rightarrow> d | None \<Rightarrow> [])"

definition fresh_iv :: "'e filler \<Rightarrow> 'e \<Rightarrow> bytes \<times> 'e" where
  "fresh_iv fill e = fill e 8"

text \<open>\<open>Ok(Reply(build_sk(..)?))\<close> with a fresh IV.\<close>

definition send_sk ::
    "'e filler \<Rightarrow> primitives \<Rightarrow> completed_sa_init \<Rightarrow> u32 \<Rightarrow> bool \<Rightarrow> payload_chain \<Rightarrow>
     (bytes \<Rightarrow> eap_event) \<Rightarrow> 'e \<Rightarrow> eap_event res \<times> 'e" where
  "send_sk fill C sa msg_id is_response inner ev e =
     (let (iv, e') = fresh_iv fill e in
      (bindR (build_sk C sa msg_id is_response inner iv) (\<lambda>m. Ok (ev m)), e'))"

section \<open>The client\<close>

record eap_initiator =
  ei_sa :: completed_sa_init
  ei_id :: identification
  ei_user :: bytes
  ei_password :: ustr
  ei_child_spi :: u32
  ei_nt_response :: bytes
  ei_verify :: server_verify
  ei_server_verified :: bool
  ei_send_certreq :: bool

definition eap_initiator_new ::
    "completed_sa_init \<Rightarrow> identification \<Rightarrow> bytes \<Rightarrow> ustr \<Rightarrow> u32 \<Rightarrow> server_verify \<Rightarrow> eap_initiator" where
  "eap_initiator_new sa ident user password child_spi verify =
     \<lparr>ei_sa = sa, ei_id = ident, ei_user = user, ei_password = password, ei_child_spi = child_spi,
      ei_nt_response = replicate 24 0, ei_verify = verify, ei_server_verified = False,
      ei_send_certreq = False\<rparr>"

definition set_send_certreq :: "eap_initiator \<Rightarrow> bool \<Rightarrow> eap_initiator" where
  "set_send_certreq s on = s\<lparr>ei_send_certreq := on\<rparr>"

definition cert_payloads_of :: "payload_chain \<Rightarrow> bytes list" where
  "cert_payloads_of ps = concat (map (\<lambda>(t, d).
     if t = PT_Certificate then (case certificate_parse d of Ok c \<Rightarrow> [ce_data c] | _ \<Rightarrow> []) else []) ps)"

definition verify_server :: "primitives \<Rightarrow> pki \<Rightarrow> eap_initiator \<Rightarrow> payload_chain \<Rightarrow> bool" where
  "verify_server C P s ps =
     (case ei_verify s of
        Insecure \<Rightarrow> True
      | TrustedCas cas expected_dns now \<Rightarrow>
          (case (find_payload ps PT_IdResponder, find_payload ps PT_Authentication) of
             (Some idr, Some auth_bytes) \<Rightarrow>
               (case cert_payloads_of ps of
                  [] \<Rightarrow> False
                | leaf # intermediates \<Rightarrow>
                    (case authentication_parse auth_bytes of
                       Ok auth \<Rightarrow>
                         if au_method auth \<noteq> DIGITAL_SIGNATURE then False
                         else
                           (let octs = responder_signed_octets C (ci_resp_message (ei_sa s)) (ci_ni (ei_sa s))
                                  (sk_pr (ci_keys (ei_sa s))) idr
                            in verify_cert_auth C P leaf intermediates cas (Some expected_dns) now (au_data auth) octs
                               = Ok ())
                     | _ \<Rightarrow> False))
           | _ \<Rightarrow> False))"

definition eap_start ::
    "'e filler \<Rightarrow> primitives \<Rightarrow> eap_initiator \<Rightarrow> 'e \<Rightarrow> bytes res \<times> 'e" where
  "eap_start fill C s e =
     (let (iv, e') = fresh_iv fill e in
      if ei_send_certreq s then
        (initiator_eap_request_with_certreq C (ei_sa s) (ei_id s) (ei_child_spi s) [replicate 20 0] iv, e')
      else (initiator_eap_request C (ei_sa s) (ei_id s) (ei_child_spi s) iv, e'))"

text \<open>The check of the server's first response: \<open>None\<close> is the early return of \<open>Failed\<close>.\<close>

definition check_server :: "primitives \<Rightarrow> pki \<Rightarrow> eap_initiator \<Rightarrow> payload_chain \<Rightarrow> eap_initiator option" where
  "check_server C P s ps =
     (if \<not> ei_server_verified s \<and> find_payload ps PT_IdResponder \<noteq> None \<and>
         find_payload ps PT_Authentication \<noteq> None
      then if \<not> verify_server C P s ps then None else Some (s\<lparr>ei_server_verified := True\<rparr>)
      else Some s)"

text \<open>The responder's final message: no EAP payload.\<close>

definition initiator_final :: "primitives \<Rightarrow> eap_initiator \<Rightarrow> payload_chain \<Rightarrow> eap_event res" where
  "initiator_final C s ps =
     (case (find_payload ps PT_Authentication, find_payload ps PT_SecurityAssociation) of
        (Some auth_bytes, Some _) \<Rightarrow>
          (let idr = unwrap_or_empty (find_payload ps PT_IdResponder);
               msk = derive_msk C (ei_password s) (ei_nt_response s);
               expect = psk_auth C msk (responder_signed_octets C (ci_resp_message (ei_sa s)) (ci_ni (ei_sa s))
                 (sk_pr (ci_keys (ei_sa s))) idr)
           in bindR (authentication_parse auth_bytes) (\<lambda>got.
                Ok (if au_method got = SHARED_KEY \<and> au_data got = expect then EapEstablished None else Failed)))
      | _ \<Rightarrow> Ok Failed)"

text \<open>The answer to an EAP request by its method: \<open>Ok None\<close> is the \<open>Failed\<close> of the last arm.\<close>

definition initiator_method ::
    "'e filler \<Rightarrow> primitives \<Rightarrow> eap_initiator \<Rightarrow> eap_packet \<Rightarrow> 'e \<Rightarrow>
     eap_packet option res \<times> eap_initiator \<times> 'e" where
  "initiator_method fill C s eap e =
     (let answer = (\<lambda>d. \<lparr>ep_code = CODE_RESPONSE, ep_identifier = ep_identifier eap, ep_data = d\<rparr>);
          op = (if 1 < length (ep_data eap) then Some (ep_data eap ! 1) else None)
      in if eap_type eap = Some EAP_IDENTITY then (Ok (Some (answer (EAP_IDENTITY # ei_user s))), s, e)
      else if eap_type eap = Some EAP_MSCHAPV2 \<and> op = Some OP_CHALLENGE then
        (case parse_challenge (ep_data eap) of
           Err x \<Rightarrow> (Err x, s, e)
         | Panic \<Rightarrow> (Panic, s, e)
         | Ok (mschap_id, auth_challenge, _) \<Rightarrow>
             (let (peer_challenge, e') = fill e 16 in
              case generate_nt_response C auth_challenge peer_challenge (ei_user s) (ei_password s) of
                Err x \<Rightarrow> (Err x, s, e')
              | Panic \<Rightarrow> (Panic, s, e')
              | Ok nt \<Rightarrow>
                  (bindR (build_response C mschap_id auth_challenge peer_challenge (ei_user s) (ei_password s)) (\<lambda>d.
                     Ok (Some (answer d))), s\<lparr>ei_nt_response := nt\<rparr>, e')))
      else if eap_type eap = Some EAP_MSCHAPV2 \<and> op = Some OP_SUCCESS then
        (Ok (Some (answer [EAP_MSCHAPV2, OP_SUCCESS])), s, e)
      else (Ok None, s, e))"

definition initiator_eap ::
    "'e filler \<Rightarrow> primitives \<Rightarrow> eap_initiator \<Rightarrow> u32 \<Rightarrow> bytes \<Rightarrow> 'e \<Rightarrow>
     eap_event res \<times> eap_initiator \<times> 'e" where
  "initiator_eap fill C s next_id eap_bytes e =
     (case eap_packet_parse eap_bytes of
        Err x \<Rightarrow> (Err x, s, e)
      | Panic \<Rightarrow> (Panic, s, e)
      | Ok eap \<Rightarrow>
          if ep_code eap = CODE_FAILURE then (Ok Failed, s, e)
          else if ep_code eap = CODE_SUCCESS then
            (let msk = derive_msk C (ei_password s) (ei_nt_response s);
                 idi = identification_to_bytes (ei_id s);
                 octs = initiator_signed_octets C (ci_init_message (ei_sa s)) (ci_nr (ei_sa s))
                   (sk_pi (ci_keys (ei_sa s))) idi;
                 auth = \<lparr>au_method = SHARED_KEY, au_data = psk_auth C msk octs\<rparr>;
                 (r, e') = send_sk fill C (ei_sa s) next_id False
                   [(PT_Authentication, authentication_to_bytes auth)] Reply e
             in (r, s, e'))
          else
            (case initiator_method fill C s eap e of
               (Err x, s', e') \<Rightarrow> (Err x, s', e')
             | (Panic, s', e') \<Rightarrow> (Panic, s', e')
             | (Ok None, s', e') \<Rightarrow> (Ok Failed, s', e')
             | (Ok (Some resp), s', e') \<Rightarrow>
                 (let (r, e'') = send_sk fill C (ei_sa s') next_id False
                    [(PT_Eap, eap_packet_to_bytes resp)] Reply e'
                  in (r, s', e''))))"

definition initiator_handle ::
    "'e filler \<Rightarrow> primitives \<Rightarrow> pki \<Rightarrow> eap_initiator \<Rightarrow> bytes \<Rightarrow> 'e \<Rightarrow>
     eap_event res \<times> eap_initiator \<times> 'e" where
  "initiator_handle fill C P s message e =
     (case eap_decrypt C (ei_sa s) message of
        Err x \<Rightarrow> (Err x, s, e)
      | Panic \<Rightarrow> (Panic, s, e)
      | Ok (msg_id, ps) \<Rightarrow>
          if msg_id = 0xFFFFFFFF then (Panic, s, e)
          else
            (let next_id = msg_id + 1 in
             case check_server C P s ps of
               None \<Rightarrow> (Ok Failed, s, e)
             | Some s' \<Rightarrow>
                 if ei_verify s' \<noteq> Insecure \<and> \<not> ei_server_verified s' then (Ok Failed, s', e)
                 else case find_payload ps PT_Eap of
                   None \<Rightarrow> (initiator_final C s' ps, s', e)
                 | Some eap_bytes \<Rightarrow> initiator_eap fill C s' next_id eap_bytes e))"

section \<open>The server\<close>

record eap_responder =
  er_sa :: completed_sa_init
  er_id :: identification
  er_auth :: server_auth
  er_user :: bytes
  er_password :: ustr
  er_users :: "bytes \<rightharpoonup> ustr"
  er_child_spi :: u32
  er_eap_id :: u8
  er_auth_challenge :: bytes
  er_nt_response :: bytes
  er_peer_idi :: bytes
  er_peer_child_spi :: "u32 option"
  er_assigned :: "assigned_config option"

definition eap_responder_new_multi ::
    "completed_sa_init \<Rightarrow> identification \<Rightarrow> server_auth \<Rightarrow> (bytes \<rightharpoonup> ustr) \<Rightarrow> u32 \<Rightarrow> eap_responder" where
  "eap_responder_new_multi sa ident auth users child_spi =
     \<lparr>er_sa = sa, er_id = ident, er_auth = auth, er_user = [], er_password = [], er_users = users,
      er_child_spi = child_spi, er_eap_id = 1, er_auth_challenge = replicate 16 0,
      er_nt_response = replicate 24 0, er_peer_idi = [], er_peer_child_spi = None, er_assigned = None\<rparr>"

definition eap_responder_new ::
    "completed_sa_init \<Rightarrow> identification \<Rightarrow> server_auth \<Rightarrow> bytes \<Rightarrow> ustr \<Rightarrow> u32 \<Rightarrow> eap_responder" where
  "eap_responder_new sa ident auth user password child_spi =
     eap_responder_new_multi sa ident auth [user \<mapsto> password] child_spi"

definition set_assigned :: "eap_responder \<Rightarrow> assigned_config option \<Rightarrow> eap_responder" where
  "set_assigned s assigned = s\<lparr>er_assigned := assigned\<rparr>"

definition server_auth_payloads ::
    "primitives \<Rightarrow> pki \<Rightarrow> eap_responder \<Rightarrow> bytes \<Rightarrow> payload_chain res" where
  "server_auth_payloads C P s octs =
     (case er_auth s of
        ServerPsk psk \<Rightarrow>
          Ok [(PT_Authentication, authentication_to_bytes \<lparr>au_method = SHARED_KEY, au_data = psk_auth C psk octs\<rparr>)]
      | ServerCert key chain \<Rightarrow>
          bindR (cert_auth_payload C P key (ci_peer_signature_hashes (er_sa s)) octs) (\<lambda>auth.
            Ok (map (\<lambda>cert. (PT_Certificate, certificate_to_bytes (certificate_x509 cert))) chain @
                [(PT_Authentication, authentication_to_bytes auth)])))"

text \<open>The first message: SA but neither AUTH nor EAP.\<close>

definition responder_first ::
    "'e filler \<Rightarrow> primitives \<Rightarrow> pki \<Rightarrow> eap_responder \<Rightarrow> u32 \<Rightarrow> payload_chain \<Rightarrow> 'e \<Rightarrow>
     eap_event res \<times> eap_responder \<times> 'e" where
  "responder_first fill C P s msg_id ps e =
     (case find_payload ps PT_SecurityAssociation of
        None \<Rightarrow> (Ok Failed, s, e)
      | Some sai2 \<Rightarrow>
          (let s1 = s\<lparr>er_peer_child_spi := esp_spi_from_sa sai2,
                      er_peer_idi := unwrap_or_empty (find_payload ps PT_IdInitiator)\<rparr>;
               idr = identification_to_bytes (er_id s1);
               octs = responder_signed_octets C (ci_resp_message (er_sa s1)) (ci_ni (er_sa s1))
                 (sk_pr (ci_keys (er_sa s1))) idr
           in case server_auth_payloads C P s1 octs of
                Err x \<Rightarrow> (Err x, s1, e)
              | Panic \<Rightarrow> (Panic, s1, e)
              | Ok auths \<Rightarrow>
                  (let eap = \<lparr>ep_code = CODE_REQUEST, ep_identifier = er_eap_id s1, ep_data = [EAP_IDENTITY]\<rparr>;
                       inner = [(PT_IdResponder, idr)] @ auths @ [(PT_Eap, eap_packet_to_bytes eap)];
                       (r, e') = send_sk fill C (er_sa s1) msg_id True inner Reply e
                   in (r, s1, e'))))"

text \<open>The last message: AUTH without EAP.\<close>

definition responder_final ::
    "'e filler \<Rightarrow> primitives \<Rightarrow> eap_responder \<Rightarrow> u32 \<Rightarrow> bytes \<Rightarrow> 'e \<Rightarrow>
     eap_event res \<times> eap_responder \<times> 'e" where
  "responder_final fill C s msg_id auth_bytes e =
     (let msk = derive_msk C (er_password s) (er_nt_response s);
          expect = psk_auth C msk (initiator_signed_octets C (ci_init_message (er_sa s)) (ci_nr (er_sa s))
            (sk_pi (ci_keys (er_sa s))) (er_peer_idi s))
      in case authentication_parse auth_bytes of
           Err x \<Rightarrow> (Err x, s, e)
         | Panic \<Rightarrow> (Panic, s, e)
         | Ok got \<Rightarrow>
             if au_data got \<noteq> expect then (Ok Failed, s, e)
             else
               (let idr = identification_to_bytes (er_id s);
                    our_auth = \<lparr>au_method = SHARED_KEY, au_data = psk_auth C msk
                      (responder_signed_octets C (ci_resp_message (er_sa s)) (ci_ni (er_sa s))
                        (sk_pr (ci_keys (er_sa s))) idr)\<rparr>;
                    (cp, tsi) = config_payloads (er_assigned s);
                    inner = [(PT_IdResponder, idr), (PT_Authentication, authentication_to_bytes our_auth)] @ cp @
                      [(PT_SecurityAssociation, security_association_to_bytes (esp_offer (er_child_spi s))),
                       (PT_TrafficSelectorInitiator, tsi),
                       (PT_TrafficSelectorResponder, full_tunnel_ts),
                       (PT_Notify, notify_to_bytes mobike_supported)];
                    (r, e') = send_sk fill C (er_sa s) msg_id True inner (\<lambda>m. EapEstablished (Some m)) e
                in (r, s, e')))"

definition responder_eap ::
    "'e filler \<Rightarrow> primitives \<Rightarrow> eap_responder \<Rightarrow> u32 \<Rightarrow> eap_packet \<Rightarrow> 'e \<Rightarrow>
     eap_event res \<times> eap_responder \<times> 'e" where
  "responder_eap fill C s0 msg_id eap e =
     (let s = s0\<lparr>er_eap_id := er_eap_id s0 + 1\<rparr>;
          request = (\<lambda>s out e. let (r, e') = send_sk fill C (er_sa s) msg_id True
            [(PT_Eap, eap_packet_to_bytes \<lparr>ep_code = CODE_REQUEST, ep_identifier = er_eap_id s, ep_data = out\<rparr>)] Reply e
            in (r, s, e'));
          op = (if 1 < length (ep_data eap) then Some (ep_data eap ! 1) else None)
      in if eap_type eap = Some EAP_IDENTITY then
        (let claimed = drop 1 (ep_data eap) in
         case er_users s claimed of
           None \<Rightarrow> (Ok Failed, s, e)
         | Some pw \<Rightarrow>
             (let (challenge, e') = fill e 16;
                  s' = s\<lparr>er_user := claimed, er_password := pw, er_auth_challenge := challenge\<rparr>
              in request s' (build_challenge 1 challenge (ascii ''ryke'')) e'))
      else if eap_type eap = Some EAP_MSCHAPV2 \<and> op = Some OP_RESPONSE then
        (case parse_response (ep_data eap) of
           Err x \<Rightarrow> (Err x, s, e)
         | Panic \<Rightarrow> (Panic, s, e)
         | Ok resp \<Rightarrow>
             (case generate_nt_response C (er_auth_challenge s) (rs_peer_challenge resp) (er_user s) (er_password s) of
                Err x \<Rightarrow> (Err x, s, e)
              | Panic \<Rightarrow> (Panic, s, e)
              | Ok nt \<Rightarrow>
                  (let s' = s\<lparr>er_nt_response := nt\<rparr> in
                   if nt \<noteq> rs_nt_response resp then (Ok Failed, s', e)
                   else request s' (build_success 1 (generate_authenticator_response C (er_password s') nt
                     (rs_peer_challenge resp) (er_auth_challenge s') (er_user s'))) e)))
      else if eap_type eap = Some EAP_MSCHAPV2 \<and> op = Some OP_SUCCESS then
        (let (r, e') = send_sk fill C (er_sa s) msg_id True
           [(PT_Eap, eap_packet_to_bytes \<lparr>ep_code = CODE_SUCCESS, ep_identifier = ep_identifier eap, ep_data = []\<rparr>)]
           Reply e
         in (r, s, e'))
      else (Ok Failed, s, e))"

definition responder_handle ::
    "'e filler \<Rightarrow> primitives \<Rightarrow> pki \<Rightarrow> eap_responder \<Rightarrow> bytes \<Rightarrow> 'e \<Rightarrow>
     eap_event res \<times> eap_responder \<times> 'e" where
  "responder_handle fill C P s message e =
     (case eap_decrypt C (er_sa s) message of
        Err x \<Rightarrow> (Err x, s, e)
      | Panic \<Rightarrow> (Panic, s, e)
      | Ok (msg_id, ps) \<Rightarrow>
          (case (find_payload ps PT_Eap, find_payload ps PT_Authentication) of
             (None, None) \<Rightarrow> responder_first fill C P s msg_id ps e
           | (None, Some auth_bytes) \<Rightarrow> responder_final fill C s msg_id auth_bytes e
           | (Some eap_bytes, _) \<Rightarrow>
               (case eap_packet_parse eap_bytes of
                  Err x \<Rightarrow> (Err x, s, e)
                | Panic \<Rightarrow> (Panic, s, e)
                | Ok eap \<Rightarrow> responder_eap fill C s msg_id eap e)))"

section \<open>Delivery of messages\<close>

lemma sa_pair_sym: "sa_pair a b \<Longrightarrow> sa_pair b a"
  by (cases "ci_role a") (simp_all add: sa_pair_def)

lemma sa_pair_gcm: "sa_pair a b \<Longrightarrow> gcm_keys a \<Longrightarrow> gcm_keys b"
  by (simp add: sa_pair_def gcm_keys_def)

lemma chain_delivery:
  assumes "gcm_correct C" "sa_pair a b" "gcm_keys a" "header_wf h" "chain_wf ps" "length iv = 8"
    and "length (encode_payload_chain ps) < 65507"
  shows "\<exists>m. build_encrypted_gcm C h (first_payload_type ps) (encode_payload_chain ps) (our_sk_e a) iv = Ok m \<and>
    eap_decrypt C b m = Ok (h_message_id h, ps)"
proof -
  obtain m where m: "build_encrypted_gcm C h (first_payload_type ps) (encode_payload_chain ps) (our_sk_e a) iv = Ok m"
    "open_encrypted_gcm C m (our_sk_e a) = Ok (first_payload_type ps, encode_payload_chain ps)"
    "ike_header_parse m = Ok (h\<lparr>h_next_payload := PT_Encrypted,
       h_length := of_nat (HEADER_LEN + (4 + (8 + (length (encode_payload_chain ps) + 1) + 16)))\<rparr>)"
    by (rule open_build_encrypted[OF assms(1,4) canonical_first[OF assms(5)] gcm_keys_our[OF assms(3)] assms(6,7)])
  then show ?thesis
    using sa_pair_keys[OF assms(2)] collect_payloads[of "[]" ps] assms(5) by (simp add: eap_decrypt_def)
qed

text \<open>The two ends of one IKE SA, with a working AEAD and a source of randomness.\<close>

definition eap_link ::
    "'e filler \<Rightarrow> primitives \<Rightarrow> completed_sa_init \<Rightarrow> completed_sa_init \<Rightarrow> bool" where
  "eap_link fill C a b \<longleftrightarrow> gcm_correct C \<and> entropy fill \<and> sa_pair a b \<and> gcm_keys a"

lemma eap_link_sym: "eap_link fill C a b \<Longrightarrow> eap_link fill C b a"
  by (auto simp: eap_link_def intro: sa_pair_sym sa_pair_gcm)

lemma send_delivery:
  assumes "eap_link fill C a b" "chain_wf ps" "length (encode_payload_chain ps) < 65507"
  shows "\<exists>m. send_sk fill C a mid resp ps ev e = (Ok (ev m), snd (fill e 8)) \<and> eap_decrypt C b m = Ok (mid, ps)"
proof -
  let ?h = "\<lparr>h_initiator_spi = ci_spi_i a, h_responder_spi = ci_spi_r a, h_next_payload = PT_NoNext,
    h_major_version = 2, h_minor_version = 0, h_exchange_type = IkeAuth,
    h_flags = \<lparr>f_initiator = (ci_role a = Initiator), f_version = False, f_response = resp\<rparr>,
    h_message_id = mid, h_length = 0\<rparr>"
  have l: "gcm_correct C" "sa_pair a b" "gcm_keys a" "length (fst (fill e 8)) = 8"
    using assms(1) by (simp_all add: eap_link_def entropy.fill_length)
  have "header_wf ?h" by (simp add: header_wf_def)
  then obtain m where "build_encrypted_gcm C ?h (first_payload_type ps) (encode_payload_chain ps) (our_sk_e a) (fst (fill e 8)) = Ok m"
    and d: "eap_decrypt C b m = Ok (mid, ps)"
    using chain_delivery[OF l(1-3) _ assms(2) l(4) assms(3)] by fastforce
  then have "send_sk fill C a mid resp ps ev e = (Ok (ev m), snd (fill e 8))"
    by (simp add: send_sk_def fresh_iv_def build_sk_def split_beta)
  with d show ?thesis by blast
qed

text \<open>A message with one EAP packet.\<close>

abbreviation eap_chain :: "eap_packet \<Rightarrow> payload_chain" where
  "eap_chain p \<equiv> [(PT_Eap, eap_packet_to_bytes p)]"

lemma length_eap_packet [simp]: "length (eap_packet_to_bytes p) = 4 + length (ep_data p)"
  by (simp add: eap_packet_to_bytes_def Let_def)

lemma send_eap:
  assumes "eap_link fill C a b" "length (ep_data p) < 65000"
  shows "\<exists>m. send_sk fill C a mid resp (eap_chain p) ev e = (Ok (ev m), snd (fill e 8)) \<and>
    eap_decrypt C b m = Ok (mid, eap_chain p)"
  using assms(2) by (intro send_delivery[OF assms(1)]) (simp_all add: length_encode_payload_chain)

lemma eap_packet_roundtrip: "length (ep_data p) < 65000 \<Longrightarrow> eap_packet_parse (eap_packet_to_bytes p) = Ok p"
  by (rule eap.dec_enc) (simp add: eap_packet_wf_def)

lemma find_payload_simps [simp]:
  "find_payload [] t = None"
  "find_payload ((t', d) # ps) t = (if t' = t then Some d else find_payload ps t)"
  by (simp_all add: find_payload_def)

lemma find_payload_append [simp]:
  "find_payload (ps @ qs) t = (case find_payload ps t of Some d \<Rightarrow> Some d | None \<Rightarrow> find_payload qs t)"
  by (induction ps) auto

lemma find_payload_None: "t \<notin> fst ` set ps \<Longrightarrow> find_payload ps t = None"
  by (induction ps) auto

lemma initiator_handle_eap:
  assumes "eap_decrypt C (ei_sa s) m = Ok (mid, eap_chain p)" "mid \<noteq> 0xFFFFFFFF" "ei_server_verified s"
  shows "initiator_handle fill C P s m e = initiator_eap fill C s (mid + 1) (eap_packet_to_bytes p) e"
  using assms by (simp add: initiator_handle_def check_server_def)

lemma responder_handle_eap:
  assumes "eap_decrypt C (er_sa s) m = Ok (mid, eap_chain p)" "length (ep_data p) < 65000"
  shows "responder_handle fill C P s m e = responder_eap fill C s mid p e"
  using assms by (simp add: responder_handle_def eap_packet_roundtrip)

section \<open>The steps of a conversation\<close>

lemma client_identity:
  assumes l: "eap_link fill C (ei_sa s) b" and v: "ei_server_verified s" and u: "length (ei_user s) < 64000"
    and t: "eap_type p = Some EAP_IDENTITY" "ep_code p = CODE_REQUEST" "length (ep_data p) < 65000"
  shows "\<exists>m. initiator_eap fill C s mid (eap_packet_to_bytes p) e = (Ok (Reply m), s, snd (fill e 8)) \<and>
    eap_decrypt C b m = Ok (mid, eap_chain \<lparr>ep_code = CODE_RESPONSE, ep_identifier = ep_identifier p,
      ep_data = EAP_IDENTITY # ei_user s\<rparr>)"
proof -
  let ?p = "\<lparr>ep_code = CODE_RESPONSE, ep_identifier = ep_identifier p, ep_data = EAP_IDENTITY # ei_user s\<rparr>"
  obtain m where "send_sk fill C (ei_sa s) mid False (eap_chain ?p) Reply e = (Ok (Reply m), snd (fill e 8))"
    "eap_decrypt C b m = Ok (mid, eap_chain ?p)"
    using send_eap[OF l, of ?p mid False Reply e] u by auto
  then show ?thesis
    using t by (simp add: initiator_eap_def eap_packet_roundtrip initiator_method_def Let_def eap_consts)
qed

lemma server_identity:
  assumes l: "eap_link fill C (er_sa s) b" and u: "er_users s user = Some pw"
    and p: "ep_data p = EAP_IDENTITY # user"
  shows "\<exists>r e' ch. responder_eap fill C s mid p e = (Ok (Reply r),
      s\<lparr>er_eap_id := er_eap_id s + 1, er_user := user, er_password := pw, er_auth_challenge := ch\<rparr>, e') \<and>
    length ch = 16 \<and>
    eap_decrypt C b r = Ok (mid, eap_chain \<lparr>ep_code = CODE_REQUEST, ep_identifier = er_eap_id s + 1,
      ep_data = build_challenge 1 ch (ascii ''ryke'')\<rparr>)"
proof -
  obtain ch e1 where ch: "fill e 16 = (ch, e1)" by fastforce
  then have len: "length ch = 16" using l entropy.fill_length_eq[of fill e 16] by (auto simp: eap_link_def)
  let ?p = "\<lparr>ep_code = CODE_REQUEST, ep_identifier = er_eap_id s + 1, ep_data = build_challenge 1 ch (ascii ''ryke'')\<rparr>"
  obtain r where "send_sk fill C (er_sa s) mid True (eap_chain ?p) Reply e1 = (Ok (Reply r), snd (fill e1 8))"
    and d: "eap_decrypt C b r = Ok (mid, eap_chain ?p)"
    using send_eap[OF l, of ?p mid True Reply e1] len by (auto simp: build_challenge_def ascii_def)
  then have "responder_eap fill C s mid p e = (Ok (Reply r),
      s\<lparr>er_eap_id := er_eap_id s + 1, er_user := user, er_password := pw, er_auth_challenge := ch\<rparr>, snd (fill e1 8))"
    using u p ch by (simp add: responder_eap_def eap_type_def Let_def)
  with d len show ?thesis by blast
qed

lemma client_challenge:
  assumes l: "eap_link fill C (ei_sa s) b" and u: "length (ei_user s) < 64000"
    and ch: "length ch = 16" "length name < 1000"
    and p: "ep_data p = build_challenge i ch name" "ep_code p = CODE_REQUEST"
  shows "\<exists>m e' pc nt d. initiator_eap fill C s mid (eap_packet_to_bytes p) e =
      (Ok (Reply m), s\<lparr>ei_nt_response := nt\<rparr>, e') \<and> length d < 65000 \<and> take 2 d = [EAP_MSCHAPV2, OP_RESPONSE] \<and>
    generate_nt_response C ch pc (ei_user s) (ei_password s) = Ok nt \<and>
    parse_response d = Ok \<lparr>rs_mschap_id = i, rs_peer_challenge = pc, rs_nt_response = nt, rs_name = ei_user s\<rparr> \<and>
    eap_decrypt C b m = Ok (mid, eap_chain \<lparr>ep_code = CODE_RESPONSE, ep_identifier = ep_identifier p, ep_data = d\<rparr>)"
proof -
  obtain pc e1 where pc: "fill e 16 = (pc, e1)" by fastforce
  then have len: "length pc = 16" using l entropy.fill_length_eq[of fill e 16] by (auto simp: eap_link_def)
  obtain nt where nt: "generate_nt_response C ch pc (ei_user s) (ei_password s) = Ok nt"
    using generate_nt_response_Ok by blast
  obtain d where d: "build_response C i ch pc (ei_user s) (ei_password s) = Ok d" "length d = 55 + length (ei_user s)"
      "take 2 d = [EAP_MSCHAPV2, OP_RESPONSE]"
      "parse_response d = Ok \<lparr>rs_mschap_id = i, rs_peer_challenge = pc, rs_nt_response = nt, rs_name = ei_user s\<rparr>"
    using parse_build_response[OF len nt] by blast
  let ?p = "\<lparr>ep_code = CODE_RESPONSE, ep_identifier = ep_identifier p, ep_data = d\<rparr>"
  obtain m where m: "send_sk fill C (ei_sa s) mid False (eap_chain ?p) Reply e1 = (Ok (Reply m), snd (fill e1 8))"
    "eap_decrypt C b m = Ok (mid, eap_chain ?p)"
    using send_eap[OF l, of ?p mid False Reply e1] u d(2) by auto
  have t: "eap_type p = Some EAP_MSCHAPV2" "1 < length (ep_data p)" "ep_data p ! 1 = OP_CHALLENGE"
    "length (ep_data p) < 65000"
    using p ch by (simp_all add: eap_type_def build_challenge_def Let_def)
  have "initiator_method fill C s p e = (Ok (Some ?p), s\<lparr>ei_nt_response := nt\<rparr>, e1)"
    unfolding initiator_method_def Let_def p(1)[symmetric]
    using t pc nt d(1) parse_build_challenge[OF ch(1), of i name]
    by (simp add: p(1)[symmetric] eap_consts)
  then have "initiator_eap fill C s mid (eap_packet_to_bytes p) e =
      (Ok (Reply m), s\<lparr>ei_nt_response := nt\<rparr>, snd (fill e1 8))"
    using m p(2) t(4) by (simp add: initiator_eap_def eap_packet_roundtrip eap_consts)
  moreover have "length d < 65000" using d(2) u by simp
  ultimately show ?thesis using m(2) d(3,4) nt by blast
qed

lemma data_op:
  assumes "take 2 d = [a, b]"
  shows "1 < length d" "d ! 1 = b" "eap_type \<lparr>ep_code = c, ep_identifier = i, ep_data = d\<rparr> = Some a"
proof -
  from assms obtain r where "d = a # b # r"
    by (cases d; cases "tl d") auto
  then show "1 < length d" "d ! 1 = b" "eap_type \<lparr>ep_code = c, ep_identifier = i, ep_data = d\<rparr> = Some a"
    by (simp_all add: eap_type_def)
qed

lemma server_response:
  assumes l: "eap_link fill C (er_sa s) b"
    and nt: "generate_nt_response C (er_auth_challenge s) pc (er_user s) (er_password s) = Ok nt"
    and d: "take 2 d = [EAP_MSCHAPV2, OP_RESPONSE]"
      "parse_response d = Ok \<lparr>rs_mschap_id = i, rs_peer_challenge = pc, rs_nt_response = nt, rs_name = name\<rparr>"
  shows "\<exists>r e' sig. responder_eap fill C s mid \<lparr>ep_code = c, ep_identifier = j, ep_data = d\<rparr> e =
      (Ok (Reply r), s\<lparr>er_eap_id := er_eap_id s + 1, er_nt_response := nt\<rparr>, e') \<and> length sig = 42 \<and>
    eap_decrypt C b r = Ok (mid, eap_chain \<lparr>ep_code = CODE_REQUEST, ep_identifier = er_eap_id s + 1,
      ep_data = build_success 1 sig\<rparr>)"
proof -
  let ?proof = "generate_authenticator_response C (er_password s) nt pc (er_auth_challenge s) (er_user s)"
  let ?p = "\<lparr>ep_code = CODE_REQUEST, ep_identifier = er_eap_id s + 1, ep_data = build_success 1 ?proof\<rparr>"
  obtain r where r: "send_sk fill C (er_sa s) mid True (eap_chain ?p) Reply e = (Ok (Reply r), snd (fill e 8))"
    and dec: "eap_decrypt C b r = Ok (mid, eap_chain ?p)"
    using send_eap[OF l, of ?p mid True Reply e] by (auto simp: build_success_def)
  have "responder_eap fill C s mid \<lparr>ep_code = c, ep_identifier = j, ep_data = d\<rparr> e =
      (Ok (Reply r), s\<lparr>er_eap_id := er_eap_id s + 1, er_nt_response := nt\<rparr>, snd (fill e 8))"
    using data_op(1,2)[OF d(1)] data_op(3)[OF d(1), of c j] d(2) nt r by (simp add: responder_eap_def Let_def eap_consts)
  with dec show ?thesis using length_authenticator_response by blast
qed

lemma client_success:
  assumes l: "eap_link fill C (ei_sa s) b"
    and p: "ep_data p = build_success i sig" "ep_code p = CODE_REQUEST" "length sig < 1000"
  shows "\<exists>m. initiator_eap fill C s mid (eap_packet_to_bytes p) e = (Ok (Reply m), s, snd (fill e 8)) \<and>
    eap_decrypt C b m = Ok (mid, eap_chain \<lparr>ep_code = CODE_RESPONSE, ep_identifier = ep_identifier p,
      ep_data = [EAP_MSCHAPV2, OP_SUCCESS]\<rparr>)"
proof -
  let ?p = "\<lparr>ep_code = CODE_RESPONSE, ep_identifier = ep_identifier p, ep_data = [EAP_MSCHAPV2, OP_SUCCESS]\<rparr>"
  obtain m where m: "send_sk fill C (ei_sa s) mid False (eap_chain ?p) Reply e = (Ok (Reply m), snd (fill e 8))"
    "eap_decrypt C b m = Ok (mid, eap_chain ?p)"
    using send_eap[OF l, of ?p mid False Reply e] by auto
  have t: "eap_type p = Some EAP_MSCHAPV2" "1 < length (ep_data p)" "ep_data p ! 1 = OP_SUCCESS"
    "length (ep_data p) < 65000"
    using p by (simp_all add: eap_type_def build_success_def Let_def)
  have "initiator_method fill C s p e = (Ok (Some ?p), s, e)"
    using t by (simp add: initiator_method_def Let_def eap_consts)
  then show ?thesis using m p(2) t(4) by (simp add: initiator_eap_def eap_packet_roundtrip eap_consts)
qed

lemma server_success:
  assumes l: "eap_link fill C (er_sa s) b"
  shows "\<exists>r. responder_eap fill C s mid \<lparr>ep_code = c, ep_identifier = j, ep_data = [EAP_MSCHAPV2, OP_SUCCESS]\<rparr> e =
      (Ok (Reply r), s\<lparr>er_eap_id := er_eap_id s + 1\<rparr>, snd (fill e 8)) \<and>
    eap_decrypt C b r = Ok (mid, eap_chain \<lparr>ep_code = CODE_SUCCESS, ep_identifier = j, ep_data = []\<rparr>)"
proof -
  let ?p = "\<lparr>ep_code = CODE_SUCCESS, ep_identifier = j, ep_data = []\<rparr>"
  obtain r where "send_sk fill C (er_sa s) mid True (eap_chain ?p) Reply e = (Ok (Reply r), snd (fill e 8))"
    "eap_decrypt C b r = Ok (mid, eap_chain ?p)"
    using send_eap[OF l, of ?p mid True Reply e] by auto
  then show ?thesis by (simp add: responder_eap_def Let_def eap_type_def eap_consts)
qed

text \<open>The AUTH payloads under the key of EAP.\<close>

definition msk_auth_i :: "primitives \<Rightarrow> completed_sa_init \<Rightarrow> ustr \<Rightarrow> bytes \<Rightarrow> bytes \<Rightarrow> authentication" where
  "msk_auth_i C sa pw nt idi = \<lparr>au_method = SHARED_KEY, au_data = psk_auth C (derive_msk C pw nt)
     (initiator_signed_octets C (ci_init_message sa) (ci_nr sa) (sk_pi (ci_keys sa)) idi)\<rparr>"

definition msk_auth_r :: "primitives \<Rightarrow> completed_sa_init \<Rightarrow> ustr \<Rightarrow> bytes \<Rightarrow> bytes \<Rightarrow> authentication" where
  "msk_auth_r C sa pw nt idr = \<lparr>au_method = SHARED_KEY, au_data = psk_auth C (derive_msk C pw nt)
     (responder_signed_octets C (ci_resp_message sa) (ci_ni sa) (sk_pr (ci_keys sa)) idr)\<rparr>"

lemma authentication_roundtrip [simp]: "authentication_parse (authentication_to_bytes a) = Ok a"
  by (rule auth.dec_enc) simp

lemma length_msk_auth [simp]:
  "length (authentication_to_bytes (msk_auth_i C sa pw nt idi)) = 36"
  "length (authentication_to_bytes (msk_auth_r C sa pw nt idr)) = 36"
  by (simp_all add: msk_auth_i_def msk_auth_r_def authentication_to_bytes_def psk_auth_def)

lemma client_auth:
  assumes l: "eap_link fill C (ei_sa s) b" and p: "p = \<lparr>ep_code = CODE_SUCCESS, ep_identifier = j, ep_data = []\<rparr>"
  shows "\<exists>m. initiator_eap fill C s mid (eap_packet_to_bytes p) e = (Ok (Reply m), s, snd (fill e 8)) \<and>
    eap_decrypt C b m = Ok (mid, [(PT_Authentication, authentication_to_bytes
      (msk_auth_i C (ei_sa s) (ei_password s) (ei_nt_response s) (identification_to_bytes (ei_id s))))])"
proof -
  let ?a = "msk_auth_i C (ei_sa s) (ei_password s) (ei_nt_response s) (identification_to_bytes (ei_id s))"
  obtain m where "send_sk fill C (ei_sa s) mid False [(PT_Authentication, authentication_to_bytes ?a)] Reply e =
      (Ok (Reply m), snd (fill e 8))" "eap_decrypt C b m = Ok (mid, [(PT_Authentication, authentication_to_bytes ?a)])"
    using send_delivery[OF l, of "[(PT_Authentication, authentication_to_bytes ?a)]" mid False Reply e]
    by (auto simp: length_encode_payload_chain)
  then show ?thesis
    using p by (simp add: initiator_eap_def eap_packet_roundtrip msk_auth_i_def Let_def eap_consts)
qed

text \<open>The last message of the server.\<close>

definition final_chain :: "primitives \<Rightarrow> eap_responder \<Rightarrow> payload_chain" where
  "final_chain C s = auth_chain PT_IdResponder (identification_to_bytes (er_id s)) []
     (msk_auth_r C (er_sa s) (er_password s) (er_nt_response s) (identification_to_bytes (er_id s)))
     (fst (config_payloads (er_assigned s))) (er_child_spi s) (snd (config_payloads (er_assigned s)))
     [(PT_Notify, notify_to_bytes mobike_supported)]"

lemma server_final:
  assumes l: "eap_link fill C (er_sa s) b" and i: "length (id_data (er_id s)) < 59000"
    and m: "eap_decrypt C (er_sa s) m = Ok (mid, [(PT_Authentication, authentication_to_bytes a)])"
    and a: "au_data a = au_data (msk_auth_i C (er_sa s) (er_password s) (er_nt_response s) (er_peer_idi s))"
  shows "\<exists>r. responder_handle fill C P s m e = (Ok (EapEstablished (Some r)), s, snd (fill e 8)) \<and>
    eap_decrypt C b r = Ok (mid, final_chain C s)"
proof -
  let ?au = "msk_auth_r C (er_sa s) (er_password s) (er_nt_response s) (identification_to_bytes (er_id s))"
  have "auth_message_ok PT_IdResponder (identification_to_bytes (er_id s)) [] ?au"
    using i by (simp add: auth_message_ok_def identification_to_bytes_def msk_auth_r_def psk_auth_def)
  then have fits: "chain_wf (final_chain C s)" "length (encode_payload_chain (final_chain C s)) < 65400"
    using auth_chain_fits[OF _ _ final_chain_def] by (simp_all add: auth_tail_def)
  then have "length (encode_payload_chain (final_chain C s)) < 65507" by simp
  with fits(1) obtain r where r: "send_sk fill C (er_sa s) mid True (final_chain C s) (\<lambda>m. EapEstablished (Some m)) e =
      (Ok (EapEstablished (Some r)), snd (fill e 8))" and dec: "eap_decrypt C b r = Ok (mid, final_chain C s)"
    using send_delivery[OF l, of "final_chain C s" mid True "\<lambda>m. EapEstablished (Some m)" e] by blast
  have "responder_handle fill C P s m e = responder_final fill C s mid (authentication_to_bytes a) e"
    using m by (simp add: responder_handle_def)
  also have "\<dots> = (Ok (EapEstablished (Some r)), s, snd (fill e 8))"
    using r a by (simp add: responder_final_def final_chain_def auth_chain_def msk_auth_r_def msk_auth_i_def Let_def
        split_beta)
  finally show ?thesis using dec by blast
qed

lemma config_no_payload:
  assumes "t \<noteq> PT_Configuration"
  shows "find_payload (fst (config_payloads a)) t = None"
  using assms by (cases a) (simp_all add: config_payloads_eq)

lemma client_final:
  assumes v: "ei_server_verified s" and mid: "mid \<noteq> 0xFFFFFFFF" and p: "sa_pair (ei_sa s) (er_sa r)"
    and k: "er_password r = ei_password s" "er_nt_response r = ei_nt_response s"
    and m: "eap_decrypt C (ei_sa s) m = Ok (mid, final_chain C r)"
  shows "initiator_handle fill C P s m e = (Ok (EapEstablished None), s, e)"
proof -
  have f: "find_payload (final_chain C r) PT_Eap = None"
    "find_payload (final_chain C r) PT_SecurityAssociation \<noteq> None"
    "find_payload (final_chain C r) PT_IdResponder = Some (identification_to_bytes (er_id r))"
    "find_payload (final_chain C r) PT_Authentication = Some (authentication_to_bytes
       (msk_auth_r C (er_sa r) (er_password r) (er_nt_response r) (identification_to_bytes (er_id r))))"
    by (simp_all add: final_chain_def auth_chain_def config_no_payload)
  have "initiator_final C s (final_chain C r) = Ok (EapEstablished None)"
    using f p k by (auto simp: initiator_final_def unwrap_or_empty_def msk_auth_r_def sa_pair_def Let_def)
  then show ?thesis
    using v mid m f by (simp add: initiator_handle_def check_server_def)
qed

lemma find_payload_map [simp]: "t' \<noteq> t \<Longrightarrow> find_payload (map (\<lambda>c. (t', f c)) cs) t = None"
  by (intro find_payload_None) auto

lemma server_auth_types:
  assumes "server_auth_payloads C P s octs = Ok auths"
  shows "t \<noteq> PT_Certificate \<Longrightarrow> t \<noteq> PT_Authentication \<Longrightarrow> find_payload auths t = None"
    and "find_payload auths PT_Authentication \<noteq> None"
  using assms by (auto simp: server_auth_payloads_def bindR_Ok_iff split: server_auth.splits)

text \<open>The server can authenticate itself, in a message that fits, to this client's satisfaction.\<close>

definition server_octets :: "primitives \<Rightarrow> eap_responder \<Rightarrow> bytes" where
  "server_octets C s = responder_signed_octets C (ci_resp_message (er_sa s)) (ci_ni (er_sa s))
     (sk_pr (ci_keys (er_sa s))) (identification_to_bytes (er_id s))"

definition server_trusted :: "primitives \<Rightarrow> pki \<Rightarrow> eap_initiator \<Rightarrow> eap_responder \<Rightarrow> bool" where
  "server_trusted C P c s \<longleftrightarrow>
     (\<exists>auths. server_auth_payloads C P s (server_octets C s) = Ok auths \<and> chain_wf auths \<and>
        length (id_data (er_id s)) + length (encode_payload_chain auths) < 59000 \<and>
        (\<forall>eap. verify_server C P c ([(PT_IdResponder, identification_to_bytes (er_id s))] @ auths @ [(PT_Eap, eap)])))"

lemma server_first:
  assumes l: "eap_link fill C (er_sa s) b" and t: "server_trusted C P c s"
    and m: "eap_decrypt C (er_sa s) m = Ok (mid, eap_request_payloads ident spi @ rest)"
      "rest = [] \<or> (\<exists>d. rest = [(PT_CertRequest, d)])"
  shows "\<exists>r auths. responder_handle fill C P s m e = (Ok (Reply r),
      s\<lparr>er_peer_child_spi := Some spi, er_peer_idi := identification_to_bytes ident\<rparr>, snd (fill e 8)) \<and>
    server_auth_payloads C P s (server_octets C s) = Ok auths \<and>
    eap_decrypt C b r = Ok (mid, [(PT_IdResponder, identification_to_bytes (er_id s))] @ auths @
      eap_chain \<lparr>ep_code = CODE_REQUEST, ep_identifier = er_eap_id s, ep_data = [EAP_IDENTITY]\<rparr>)"
proof -
  let ?s = "s\<lparr>er_peer_child_spi := Some spi, er_peer_idi := identification_to_bytes ident\<rparr>"
  obtain auths where auths: "server_auth_payloads C P s (server_octets C s) = Ok auths" "chain_wf auths"
    "length (id_data (er_id s)) + length (encode_payload_chain auths) < 59000"
    using t by (auto simp: server_trusted_def)
  let ?ps = "[(PT_IdResponder, identification_to_bytes (er_id s))] @ auths @
      eap_chain \<lparr>ep_code = CODE_REQUEST, ep_identifier = er_eap_id s, ep_data = [EAP_IDENTITY]\<rparr>"
  obtain r where r: "send_sk fill C (er_sa s) mid True ?ps Reply e = (Ok (Reply r), snd (fill e 8))"
    and dec: "eap_decrypt C b r = Ok (mid, ?ps)"
    using send_delivery[OF l, of ?ps mid True Reply e] auths(2,3)
    by (auto simp: length_encode_payload_chain identification_to_bytes_def)
  have "server_auth_payloads C P ?s octs = server_auth_payloads C P s octs" for octs
    by (cases "er_auth s") (simp_all add: server_auth_payloads_def)
  then have "responder_first fill C P s mid (eap_request_payloads ident spi @ rest) e = (Ok (Reply r), ?s, snd (fill e 8))"
    using auths(1) r by (simp add: responder_first_def eap_request_payloads_def unwrap_or_empty_def server_octets_def)
  moreover have "responder_handle fill C P s m e = responder_first fill C P s mid (eap_request_payloads ident spi @ rest) e"
    using m by (auto simp: responder_handle_def eap_request_payloads_def)
  ultimately show ?thesis using dec auths(1) by auto
qed

lemma client_hello:
  assumes l: "eap_link fill C (ei_sa c) b" and t: "server_trusted C P c s"
    and fresh: "\<not> ei_server_verified c" and u: "length (ei_user c) < 64000" and mid: "mid \<noteq> 0xFFFFFFFF"
    and a: "server_auth_payloads C P s (server_octets C s) = Ok auths"
    and m: "eap_decrypt C (ei_sa c) m = Ok (mid, [(PT_IdResponder, identification_to_bytes (er_id s))] @ auths @
      eap_chain \<lparr>ep_code = CODE_REQUEST, ep_identifier = i, ep_data = [EAP_IDENTITY]\<rparr>)"
  shows "\<exists>m'. initiator_handle fill C P c m e = (Ok (Reply m'), c\<lparr>ei_server_verified := True\<rparr>, snd (fill e 8)) \<and>
    eap_decrypt C b m' = Ok (mid + 1, eap_chain \<lparr>ep_code = CODE_RESPONSE, ep_identifier = i,
      ep_data = EAP_IDENTITY # ei_user c\<rparr>)"
proof -
  let ?p = "\<lparr>ep_code = CODE_REQUEST, ep_identifier = i, ep_data = [EAP_IDENTITY]\<rparr>"
  let ?ps = "[(PT_IdResponder, identification_to_bytes (er_id s))] @ auths @ eap_chain ?p"
  let ?c = "c\<lparr>ei_server_verified := True\<rparr>"
  have "verify_server C P c ?ps" using t a by (auto simp: server_trusted_def)
  moreover have f: "find_payload ?ps PT_Eap = Some (eap_packet_to_bytes ?p)"
    "find_payload ?ps PT_IdResponder \<noteq> None" "find_payload ?ps PT_Authentication \<noteq> None"
    using server_auth_types[OF a] by auto
  ultimately have "check_server C P c ?ps = Some ?c" using fresh by (simp add: check_server_def)
  then have "initiator_handle fill C P c m e = initiator_eap fill C ?c (mid + 1) (eap_packet_to_bytes ?p) e"
    using f(1) m mid unfolding initiator_handle_def by simp
  then show ?thesis
    using client_identity[of fill C ?c b ?p "mid + 1" e] l u by (simp add: eap_type_def)
qed

lemma client_start:
  assumes l: "eap_link fill C (ei_sa c) b" and r: "ci_role (ei_sa c) = Initiator"
    and i: "length (id_data (ei_id c)) < 59000"
  shows "\<exists>m rest. eap_start fill C c e = (Ok m, snd (fill e 8)) \<and>
    (rest = [] \<or> (\<exists>d. rest = [(PT_CertRequest, d)])) \<and>
    eap_decrypt C b m = Ok (1, eap_request_payloads (ei_id c) (ei_child_spi c) @ rest)"
proof -
  let ?rest = "if ei_send_certreq c then [(PT_CertRequest, cert_request_to_bytes (cert_request_x509 [replicate 20 0]))] else []"
  let ?ps = "eap_request_payloads (ei_id c) (ei_child_spi c) @ ?rest"
  have h: "gcm_correct C" "sa_pair (ei_sa c) b" "gcm_keys (ei_sa c)" "length (fst (fill e 8)) = 8"
    using l by (simp_all add: eap_link_def entropy.fill_length)
  have "chain_wf ?ps" "length (encode_payload_chain ?ps) < 65507"
    using i by (simp_all add: eap_request_payloads_def length_encode_payload_chain identification_to_bytes_def
        cert_request_to_bytes_def cert_request_x509_def)
  then obtain m where m: "build_encrypted_gcm C (ike_auth_header (ei_sa c) False) (first_payload_type ?ps)
      (encode_payload_chain ?ps) (our_sk_e (ei_sa c)) (fst (fill e 8)) = Ok m"
    "eap_decrypt C b m = Ok (1, ?ps)"
    using chain_delivery[OF h(1-3) ike_auth_header_wf[of "ei_sa c" False] _ h(4)] by (fastforce simp: ike_auth_header_def)
  have "our_sk_e (ei_sa c) = sk_ei (ci_keys (ei_sa c))" using r by (simp add: our_sk_e_def)
  then have "eap_start fill C c e = (Ok m, snd (fill e 8))"
    using m(1) by (auto simp: eap_start_def fresh_iv_def split_beta Let_def initiator_eap_request_def
        initiator_eap_request_with_certreq_def split: if_splits)
  then show ?thesis using m(2) by (intro exI[of _ m] exI[of _ ?rest]) simp
qed

text \<open>
  The conversation: each message of the client goes to the server and each answer back, for at
  most the given number of round trips, until the server and then the client are established.
\<close>

primrec eap_run ::
    "nat \<Rightarrow> 'e filler \<Rightarrow> primitives \<Rightarrow> pki \<Rightarrow> eap_initiator \<Rightarrow> eap_responder \<Rightarrow> bytes \<Rightarrow> 'e \<Rightarrow> 'e \<Rightarrow>
     (eap_initiator \<times> eap_responder) option" where
  "eap_run 0 fill C P c s m e1 e2 = None"
| "eap_run (Suc n) fill C P c s m e1 e2 =
     (case responder_handle fill C P s m e2 of
        (Ok (Reply r), s', e2') \<Rightarrow>
          (case initiator_handle fill C P c r e1 of
             (Ok (Reply m'), c', e1') \<Rightarrow> eap_run n fill C P c' s' m' e1' e2'
           | _ \<Rightarrow> None)
      | (Ok (EapEstablished (Some r)), s', e2') \<Rightarrow>
          (case initiator_handle fill C P c r e1 of
             (Ok (EapEstablished None), c', e1') \<Rightarrow> Some (c', s')
           | _ \<Rightarrow> None)
      | _ \<Rightarrow> None)"

declare eap_run.simps(2) [simp del]

text \<open>One lemma per round trip; the message ids grow by one.\<close>

lemma round_password:
  assumes l: "eap_link fill C (ei_sa c) (er_sa s)" and v: "ei_server_verified c" and mid: "mid \<noteq> 0xFFFFFFFF"
    and u: "er_users s (ei_user c) = Some (ei_password c)" "length (ei_user c) < 64000"
    and m: "eap_decrypt C (er_sa s) m = Ok (mid, eap_chain \<lparr>ep_code = CODE_RESPONSE, ep_identifier = j,
      ep_data = EAP_IDENTITY # ei_user c\<rparr>)"
  shows "\<exists>ch pc nt d m' e1' e2'. (\<forall>n. eap_run (Suc n) fill C P c s m e1 e2 =
      eap_run n fill C P (c\<lparr>ei_nt_response := nt\<rparr>) (s\<lparr>er_eap_id := er_eap_id s + 1, er_user := ei_user c,
        er_password := ei_password c, er_auth_challenge := ch\<rparr>) m' e1' e2') \<and>
    length d < 65000 \<and> take 2 d = [EAP_MSCHAPV2, OP_RESPONSE] \<and>
    generate_nt_response C ch pc (ei_user c) (ei_password c) = Ok nt \<and>
    parse_response d = Ok \<lparr>rs_mschap_id = 1, rs_peer_challenge = pc, rs_nt_response = nt, rs_name = ei_user c\<rparr> \<and>
    eap_decrypt C (er_sa s) m' = Ok (mid + 1, eap_chain \<lparr>ep_code = CODE_RESPONSE,
      ep_identifier = er_eap_id s + 1, ep_data = d\<rparr>)"
proof -
  obtain r e2a ch where r: "responder_handle fill C P s m e2 = (Ok (Reply r), s\<lparr>er_eap_id := er_eap_id s + 1,
        er_user := ei_user c, er_password := ei_password c, er_auth_challenge := ch\<rparr>, e2a)" "length ch = 16"
      "eap_decrypt C (ei_sa c) r = Ok (mid, eap_chain \<lparr>ep_code = CODE_REQUEST, ep_identifier = er_eap_id s + 1,
        ep_data = build_challenge 1 ch (ascii ''ryke'')\<rparr>)"
    using server_identity[OF eap_link_sym[OF l] u(1), of "\<lparr>ep_code = CODE_RESPONSE, ep_identifier = j,
        ep_data = EAP_IDENTITY # ei_user c\<rparr>" mid e2] responder_handle_eap[OF m, of fill P e2] u(2) by auto
  show ?thesis
    using client_challenge[OF l u(2) r(2), of "ascii ''ryke''" "\<lparr>ep_code = CODE_REQUEST, ep_identifier = er_eap_id s + 1,
        ep_data = build_challenge 1 ch (ascii ''ryke'')\<rparr>" 1 "mid + 1" e1] initiator_handle_eap[OF r(3) mid v, of fill P e1] r(1)
    by (fastforce simp: ascii_def eap_run.simps(2))
qed

lemma round_proof:
  assumes l: "eap_link fill C (ei_sa c) (er_sa s)" and v: "ei_server_verified c" and mid: "mid \<noteq> 0xFFFFFFFF"
    and d: "length d < 65000" "take 2 d = [EAP_MSCHAPV2, OP_RESPONSE]"
      "parse_response d = Ok \<lparr>rs_mschap_id = i, rs_peer_challenge = pc, rs_nt_response = nt, rs_name = name\<rparr>"
    and nt: "generate_nt_response C (er_auth_challenge s) pc (er_user s) (er_password s) = Ok nt"
    and m: "eap_decrypt C (er_sa s) m = Ok (mid, eap_chain \<lparr>ep_code = k, ep_identifier = j, ep_data = d\<rparr>)"
  shows "\<exists>m' e1' e2'. (\<forall>n. eap_run (Suc n) fill C P c s m e1 e2 =
      eap_run n fill C P c (s\<lparr>er_eap_id := er_eap_id s + 1, er_nt_response := nt\<rparr>) m' e1' e2') \<and>
    eap_decrypt C (er_sa s) m' = Ok (mid + 1, eap_chain \<lparr>ep_code = CODE_RESPONSE,
      ep_identifier = er_eap_id s + 1, ep_data = [EAP_MSCHAPV2, OP_SUCCESS]\<rparr>)"
proof -
  obtain r e2a sig where r: "responder_handle fill C P s m e2 = (Ok (Reply r),
        s\<lparr>er_eap_id := er_eap_id s + 1, er_nt_response := nt\<rparr>, e2a)" "length sig = 42"
      "eap_decrypt C (ei_sa c) r = Ok (mid, eap_chain \<lparr>ep_code = CODE_REQUEST, ep_identifier = er_eap_id s + 1,
        ep_data = build_success 1 sig\<rparr>)"
    using server_response[OF eap_link_sym[OF l] nt d(2,3), of mid k j e2] responder_handle_eap[OF m, of fill P e2] d(1) by auto
  show ?thesis
    using client_success[OF l, of "\<lparr>ep_code = CODE_REQUEST, ep_identifier = er_eap_id s + 1,
        ep_data = build_success 1 sig\<rparr>" 1 sig "mid + 1" e1] initiator_handle_eap[OF r(3) mid v, of fill P e1] r(1,2)
    by (fastforce simp: eap_run.simps(2))
qed

lemma round_success:
  assumes l: "eap_link fill C (ei_sa c) (er_sa s)" and v: "ei_server_verified c" and mid: "mid \<noteq> 0xFFFFFFFF"
    and m: "eap_decrypt C (er_sa s) m = Ok (mid, eap_chain \<lparr>ep_code = k, ep_identifier = j,
      ep_data = [EAP_MSCHAPV2, OP_SUCCESS]\<rparr>)"
  shows "\<exists>m' e1' e2'. (\<forall>n. eap_run (Suc n) fill C P c s m e1 e2 =
      eap_run n fill C P c (s\<lparr>er_eap_id := er_eap_id s + 1\<rparr>) m' e1' e2') \<and>
    eap_decrypt C (er_sa s) m' = Ok (mid + 1, [(PT_Authentication, authentication_to_bytes
      (msk_auth_i C (ei_sa c) (ei_password c) (ei_nt_response c) (identification_to_bytes (ei_id c))))])"
proof -
  obtain r where r: "responder_handle fill C P s m e2 = (Ok (Reply r), s\<lparr>er_eap_id := er_eap_id s + 1\<rparr>, snd (fill e2 8))"
      "eap_decrypt C (ei_sa c) r = Ok (mid, eap_chain \<lparr>ep_code = CODE_SUCCESS, ep_identifier = j, ep_data = []\<rparr>)"
    using server_success[OF eap_link_sym[OF l], of mid k j e2] responder_handle_eap[OF m, of fill P e2] by auto
  show ?thesis
    using client_auth[OF l refl, of "mid + 1" j e1] initiator_handle_eap[OF r(2) mid v, of fill P e1] r(1)
    by (fastforce simp: eap_run.simps(2))
qed

lemma round_final:
  assumes l: "eap_link fill C (ei_sa c) (er_sa s)" and v: "ei_server_verified c" and mid: "mid \<noteq> 0xFFFFFFFF"
    and i: "length (id_data (er_id s)) < 59000" "er_peer_idi s = identification_to_bytes (ei_id c)"
    and k: "er_password s = ei_password c" "er_nt_response s = ei_nt_response c"
    and m: "eap_decrypt C (er_sa s) m = Ok (mid, [(PT_Authentication, authentication_to_bytes
      (msk_auth_i C (ei_sa c) (ei_password c) (ei_nt_response c) (identification_to_bytes (ei_id c))))])"
  shows "eap_run (Suc n) fill C P c s m e1 e2 = Some (c, s)"
proof -
  have pair: "sa_pair (ei_sa c) (er_sa s)" using l by (simp add: eap_link_def)
  have "au_data (msk_auth_i C (ei_sa c) (ei_password c) (ei_nt_response c) (identification_to_bytes (ei_id c))) =
      au_data (msk_auth_i C (er_sa s) (er_password s) (er_nt_response s) (er_peer_idi s))"
    using pair i(2) k by (simp add: msk_auth_i_def sa_pair_def)
  then obtain r where r: "responder_handle fill C P s m e2 = (Ok (EapEstablished (Some r)), s, snd (fill e2 8))"
      "eap_decrypt C (ei_sa c) r = Ok (mid, final_chain C s)"
    using server_final[OF eap_link_sym[OF l] i(1) m] by blast
  have "initiator_handle fill C P c r e1 = (Ok (EapEstablished None), c, e1)"
    by (rule client_final[OF v mid pair k r(2)])
  with r(1) show ?thesis by (simp add: eap_run.simps(2))
qed

lemma eap_rounds:
  assumes l: "eap_link fill C (ei_sa c) (er_sa s)" and v: "ei_server_verified c"
    and u: "er_users s (ei_user c) = Some (ei_password c)" "length (ei_user c) < 64000"
    and i: "length (id_data (er_id s)) < 59000" "er_peer_idi s = identification_to_bytes (ei_id c)"
    and m: "eap_decrypt C (er_sa s) m = Ok (2, eap_chain \<lparr>ep_code = CODE_RESPONSE, ep_identifier = j,
      ep_data = EAP_IDENTITY # ei_user c\<rparr>)"
  shows "\<exists>c' s'. eap_run 4 fill C P c s m e1 e2 = Some (c', s') \<and> er_user s' = ei_user c \<and>
    er_password s' = ei_password c \<and> er_peer_child_spi s' = er_peer_child_spi s \<and>
    er_nt_response s' = ei_nt_response c' \<and> ei_server_verified c'"
proof -
  obtain ch pc nt d m2 a2 b2 where r1: "\<forall>n. eap_run (Suc n) fill C P c s m e1 e2 =
      eap_run n fill C P (c\<lparr>ei_nt_response := nt\<rparr>) (s\<lparr>er_eap_id := er_eap_id s + 1, er_user := ei_user c,
        er_password := ei_password c, er_auth_challenge := ch\<rparr>) m2 a2 b2"
    and d: "length d < 65000" "take 2 d = [EAP_MSCHAPV2, OP_RESPONSE]"
      "generate_nt_response C ch pc (ei_user c) (ei_password c) = Ok nt"
      "parse_response d = Ok \<lparr>rs_mschap_id = 1, rs_peer_challenge = pc, rs_nt_response = nt, rs_name = ei_user c\<rparr>"
      "eap_decrypt C (er_sa s) m2 = Ok (2 + 1, eap_chain \<lparr>ep_code = CODE_RESPONSE, ep_identifier = er_eap_id s + 1, ep_data = d\<rparr>)"
    using round_password[OF l v _ u m, where P = P and ?e1.0 = e1 and ?e2.0 = e2] by fastforce
  define c1 where "c1 = c\<lparr>ei_nt_response := nt\<rparr>"
  define s1 where "s1 = s\<lparr>er_eap_id := er_eap_id s + 1, er_user := ei_user c, er_password := ei_password c, er_auth_challenge := ch\<rparr>"
  have l1: "eap_link fill C (ei_sa c1) (er_sa s1)" and v1: "ei_server_verified c1" using l v by (simp_all add: c1_def s1_def)
  obtain m3 a3 b3 where r2: "\<forall>n. eap_run (Suc n) fill C P c1 s1 m2 a2 b2 =
      eap_run n fill C P c1 (s1\<lparr>er_eap_id := er_eap_id s1 + 1, er_nt_response := nt\<rparr>) m3 a3 b3"
    and m3: "eap_decrypt C (er_sa s1) m3 = Ok (2 + 1 + 1, eap_chain \<lparr>ep_code = CODE_RESPONSE,
      ep_identifier = er_eap_id s1 + 1, ep_data = [EAP_MSCHAPV2, OP_SUCCESS]\<rparr>)"
    using round_proof[OF l1 v1 _ d(1,2,4), of "2 + 1" m2 CODE_RESPONSE "er_eap_id s + 1" P a2 b2] d(3,5)
    by (auto simp: s1_def)
  define s2 where "s2 = s1\<lparr>er_eap_id := er_eap_id s1 + 1, er_nt_response := nt\<rparr>"
  have s2: "er_sa s2 = er_sa s1" by (simp add: s2_def)
  obtain m4 a4 b4 where r3: "\<forall>n. eap_run (Suc n) fill C P c1 s2 m3 a3 b3 =
      eap_run n fill C P c1 (s2\<lparr>er_eap_id := er_eap_id s2 + 1\<rparr>) m4 a4 b4"
    and m4: "eap_decrypt C (er_sa s2) m4 = Ok (2 + 1 + 1 + 1, [(PT_Authentication, authentication_to_bytes
      (msk_auth_i C (ei_sa c1) (ei_password c1) (ei_nt_response c1) (identification_to_bytes (ei_id c1))))])"
    using round_success[OF _ v1, of fill C s2 "2 + 1 + 1" m3] l1 m3 unfolding s2 by fastforce
  define s3 where "s3 = s2\<lparr>er_eap_id := er_eap_id s2 + 1\<rparr>"
  have "eap_run (Suc 0) fill C P c1 s3 m4 a4 b4 = Some (c1, s3)"
    using round_final[OF _ v1, of fill C s3 "2 + 1 + 1 + 1" m4] l1 m4 i
    by (simp add: s3_def s2_def s1_def c1_def)
  then have "eap_run 4 fill C P c s m e1 e2 = Some (c1, s3)"
    using r1 r2 r3 by (simp add: numeral_eq_Suc c1_def[symmetric] s1_def[symmetric] s2_def[symmetric] s3_def[symmetric])
  then show ?thesis using v1 by (simp add: s3_def s2_def s1_def c1_def)
qed

section \<open>The credential firewall\<close>

text \<open>A message that authenticates the server to this client.\<close>

definition server_proof :: "primitives \<Rightarrow> pki \<Rightarrow> eap_initiator \<Rightarrow> bytes \<Rightarrow> bool" where
  "server_proof C P s m \<longleftrightarrow> (\<exists>mid ps. eap_decrypt C (ei_sa s) m = Ok (mid, ps) \<and> verify_server C P s ps)"

definition initiator_step ::
    "'e filler \<Rightarrow> primitives \<Rightarrow> pki \<Rightarrow> eap_initiator \<times> 'e \<times> bytes list \<Rightarrow> bytes \<Rightarrow> eap_initiator \<times> 'e \<times> bytes list" where
  "initiator_step fill C P st m =
     (case st of (s, e, seen) \<Rightarrow> case initiator_handle fill C P s m e of (_, s', e') \<Rightarrow> (s', e', seen @ [m]))"

definition firewall_inv ::
    "primitives \<Rightarrow> pki \<Rightarrow> eap_initiator \<Rightarrow> eap_initiator \<times> 'e \<times> bytes list \<Rightarrow> bool" where
  "firewall_inv C P s0 st \<longleftrightarrow> (case st of (s, e, seen) \<Rightarrow>
     ei_sa s = ei_sa s0 \<and> ei_verify s = ei_verify s0 \<and>
     (ei_server_verified s \<longrightarrow> (\<exists>m \<in> set seen. server_proof C P s0 m)))"

lemma verify_server_cong:
  assumes "ei_sa s = ei_sa s0" "ei_verify s = ei_verify s0"
  shows "verify_server C P s ps = verify_server C P s0 ps"
  unfolding verify_server_def assms ..

lemma initiator_method_frame:
  assumes "initiator_method fill C s eap e = (r, s', e')"
  shows "ei_sa s' = ei_sa s \<and> ei_verify s' = ei_verify s \<and> ei_server_verified s' = ei_server_verified s"
  using assms by (auto simp: initiator_method_def Let_def split_beta split: if_splits res.splits prod.splits)

lemma initiator_eap_frame:
  assumes "initiator_eap fill C s mid b e = (r, s', e')"
  shows "ei_sa s' = ei_sa s \<and> ei_verify s' = ei_verify s \<and> ei_server_verified s' = ei_server_verified s"
  using assms
  by (auto simp: initiator_eap_def Let_def split: if_splits res.splits prod.splits option.splits
      dest: initiator_method_frame)

lemma check_server_frame:
  assumes "check_server C P s ps = Some s'"
  shows "ei_sa s' = ei_sa s \<and> ei_verify s' = ei_verify s \<and>
    (ei_server_verified s' \<longrightarrow> ei_server_verified s \<or> verify_server C P s ps)"
  using assms by (auto simp: check_server_def split: if_splits)

lemma initiator_handle_frame:
  assumes h: "initiator_handle fill C P s m e = (r, s', e')"
  shows "ei_sa s' = ei_sa s \<and> ei_verify s' = ei_verify s \<and>
    (ei_server_verified s' \<longrightarrow> ei_server_verified s \<or> server_proof C P s m) \<and>
    (ei_verify s \<noteq> Insecure \<longrightarrow> (\<exists>ev. r = Ok ev \<and> ev \<noteq> Failed) \<longrightarrow> ei_server_verified s')"
proof (cases "eap_decrypt C (ei_sa s) m")
  case (Ok x)
  then obtain mid ps where d: "eap_decrypt C (ei_sa s) m = Ok (mid, ps)" by (cases x) auto
  show ?thesis
  proof (cases "check_server C P s ps")
    case None
    then show ?thesis using h d by (auto simp: initiator_handle_def split: if_splits)
  next
    case (Some t)
    note f = check_server_frame[OF Some]
    have p: "ei_server_verified t \<longrightarrow> ei_server_verified s \<or> server_proof C P s m"
      using f d by (auto simp: server_proof_def)
    show ?thesis
      using h d Some f p initiator_eap_frame[of fill C t "mid + 1" _ e r s' e']
      by (cases "find_payload ps PT_Eap") (auto simp: initiator_handle_def split: if_splits)
  qed
qed (use h in \<open>auto simp: initiator_handle_def\<close>)

interpretation firewall: machine "initiator_step fill C P" "firewall_inv C P s0" for fill C P s0
proof
  fix st :: "eap_initiator \<times> 'a \<times> bytes list" and m
  assume inv: "firewall_inv C P s0 st"
  obtain s e seen where st: "st = (s, e, seen)" by (cases st)
  obtain r s' e' where h: "initiator_handle fill C P s m e = (r, s', e')" by (cases "initiator_handle fill C P s m e")
  have "server_proof C P s m = server_proof C P s0 m"
    using inv verify_server_cong[of s s0] by (simp add: server_proof_def firewall_inv_def st)
  then show "firewall_inv C P s0 (initiator_step fill C P st m)"
    using initiator_handle_frame[OF h] inv by (auto simp: initiator_step_def firewall_inv_def st h)
qed

lemma verify_server_trusted:
  assumes "verify_server C P s ps" "ei_verify s = TrustedCas cas dns now"
  shows "\<exists>idr ab auth leaf chain. find_payload ps PT_IdResponder = Some idr \<and>
    find_payload ps PT_Authentication = Some ab \<and> authentication_parse ab = Ok auth \<and>
    cert_payloads_of ps = leaf # chain \<and> au_method auth = DIGITAL_SIGNATURE \<and>
    verify_cert_auth C P leaf chain cas (Some dns) now (au_data auth)
      (responder_signed_octets C (ci_resp_message (ei_sa s)) (ci_ni (ei_sa s)) (sk_pr (ci_keys (ei_sa s))) idr) = Ok ()"
  using assms by (auto simp: verify_server_def Let_def split: option.splits list.splits res.splits if_splits)

lemma initiator_step_seen:
  "snd (snd (foldl (initiator_step fill C P) (s, e, seen) ms)) = seen @ ms"
  by (induction ms arbitrary: s e seen) (simp_all add: initiator_step_def split_beta)

section \<open>Samples\<close>

definition san_pki :: pki where
  "san_pki = toy_pki\<lparr>x509_from_der := (\<lambda>c. Some \<lparr>xc_spki_der = Some c, xc_spki_oid = OID_RSA_ENCRYPTION,
     xc_tbs_der = Some c, xc_signature = Some c, xc_signature_oid = OID_SHA256_WITH_RSA, xc_subject_der = Some [],
     xc_issuer_der = Some [], xc_not_before = 0, xc_not_after = 100, xc_extensions = Some [(''2.5.29.17'', [0])]\<rparr>),
     san_from_der := (\<lambda>_. Some [DnsName [118]])\<rparr>"

definition sample_id :: identification where
  "sample_id = identification_fqdn [118]"

definition sample_client :: eap_initiator where
  "sample_client = eap_initiator_new (sample_sa Initiator) sample_id [117] [112] 7 (TrustedCas [[7]] [118] 50)"

definition sample_server :: eap_responder where
  "sample_server = eap_responder_new (sample_sa Responder) sample_id (ServerCert (RsaSha256 [7]) [[7]]) [117] [112] 8"

lemma sample_link: "eap_link seed_entropy_fill toy_primitives (ei_sa sample_client) (er_sa sample_server)"
  using sample_sa_pair[of Initiator] seed.entropy_axioms
  by (simp add: eap_link_def sample_client_def sample_server_def eap_initiator_new_def eap_responder_new_def
      eap_responder_new_multi_def toy_gcm_correct)

lemma sample_trusted: "server_trusted toy_primitives san_pki sample_client sample_server"
proof -
  let ?C = toy_primitives
  define octs where "octs = server_octets ?C sample_server"
  define d where "d = wrap_auth_data RSA_SHA256 ([7] @ sha256_digest ?C octs)"
  let ?certs = "[(PT_Certificate, certificate_to_bytes (certificate_x509 [7]))]"
  let ?a = "\<lparr>au_method = DIGITAL_SIGNATURE, au_data = d\<rparr>"
  have sign: "sign_auth_data ?C san_pki (RsaSha256 [7]) octs = Ok d"
    by (simp add: sign_auth_data_def san_pki_def toy_pki_def d_def)
  have pay: "server_auth_payloads ?C san_pki sample_server octs = Ok (?certs @ [(PT_Authentication, authentication_to_bytes ?a)])"
    using sign by (simp add: server_auth_payloads_def sample_server_def eap_responder_new_def
        eap_responder_new_multi_def cert_auth_payload_def sample_sa_def)
  have o: "octs = responder_signed_octets ?C (ci_resp_message (ei_sa sample_client)) (ci_ni (ei_sa sample_client))
      (sk_pr (ci_keys (ei_sa sample_client))) (identification_to_bytes (er_id sample_server))"
    by (simp add: octs_def server_octets_def sample_server_def sample_client_def eap_responder_new_def
        eap_responder_new_multi_def eap_initiator_new_def sample_sa_def)
  have key: "key_pair san_pki (RsaSha256 [7]) (VK_Rsa [7])" by (simp add: san_pki_def toy_pki_def)
  have "verify_cert_auth ?C san_pki [7] [] [[7]] (Some [118]) 50 d octs = Ok ()"
    using sign_verify[OF key sign]
    by (simp add: verify_cert_auth_def from_cert_der_def decode_cert_def san_pki_def from_spki_der_def toy_pki_def
        within_validity_def cert_validity_def cert_has_dns_name_def is_dns_name_def eq_ignore_ascii_case_def)
  then have "verify_server ?C san_pki sample_client
      ([(PT_IdResponder, identification_to_bytes (er_id sample_server))] @
        (?certs @ [(PT_Authentication, authentication_to_bytes ?a)]) @ [(PT_Eap, eap)])" for eap
    unfolding o by (simp add: verify_server_def cert_payloads_of_def sample_client_def eap_initiator_new_def
        certificate_x509_def certificate_to_bytes_def certificate_parse_def)
  moreover have "length d < 100"
    by (simp add: d_def wrap_auth_data_def RSA_SHA256_def sha256_digest_def)
  ultimately show ?thesis
    unfolding server_trusted_def octs_def[symmetric] using pay
    by (intro exI[of _ "?certs @ [(PT_Authentication, authentication_to_bytes ?a)]"])
      (simp add: authentication_to_bytes_def certificate_to_bytes_def certificate_x509_def sample_server_def
        eap_responder_new_def eap_responder_new_multi_def sample_id_def identification_fqdn_def length_encode_payload_chain)
qed

section \<open>Properties\<close>

text \<open>
  C28. The EAP handshake completes: over a completed \<open>IKE_SA_INIT\<close> with an AEAD suite, when the server
  knows the user's password and can authenticate itself to the client, the client's first message
  is built and five round trips end with both sides established. The server has then selected the
  client's user, both hold the same NT response (so the same MSK), the server knows the client's
  ESP SPI, and the client has verified the server.
\<close>
theorem eap_handshake_completes:
  assumes "c = eap_initiator_new sa_i ident user pw spi v" "s = eap_responder_new_multi sa_r idr auth users spi'"
    and "eap_link fill C sa_i sa_r" "ci_role sa_i = Initiator" "users user = Some pw" "length user < 64000"
    and "length (id_data ident) < 59000" "server_trusted C P c s"
  shows "\<exists>m e1' c' s'. eap_start fill C c e1 = (Ok m, e1') \<and> eap_run 5 fill C P c s m e1' e2 = Some (c', s') \<and>
    er_user s' = user \<and> er_password s' = pw \<and> er_nt_response s' = ei_nt_response c' \<and>
    er_peer_child_spi s' = Some spi \<and> ei_server_verified c'"
proof -
  have c: "ei_sa c = sa_i" "ei_id c = ident" "ei_user c = user" "ei_password c = pw" "ei_child_spi c = spi" "\<not> ei_server_verified c"
    and s: "er_sa s = sa_r" "er_users s = users"
    by (simp_all add: assms(1,2) eap_initiator_new_def eap_responder_new_multi_def)
  have l: "eap_link fill C (ei_sa c) (er_sa s)" using assms(3) c s by simp
  obtain m rest where m: "eap_start fill C c e1 = (Ok m, snd (fill e1 8))"
    "rest = [] \<or> (\<exists>d. rest = [(PT_CertRequest, d)])"
    "eap_decrypt C (er_sa s) m = Ok (1, eap_request_payloads ident spi @ rest)"
    using client_start[OF l, of e1] assms(4,7) c by auto
  let ?s = "s\<lparr>er_peer_child_spi := Some spi, er_peer_idi := identification_to_bytes ident\<rparr>"
  let ?c = "c\<lparr>ei_server_verified := True\<rparr>"
  obtain r auths where r: "responder_handle fill C P s m e2 = (Ok (Reply r), ?s, snd (fill e2 8))"
    "server_auth_payloads C P s (server_octets C s) = Ok auths"
    "eap_decrypt C (ei_sa c) r = Ok (1, [(PT_IdResponder, identification_to_bytes (er_id s))] @ auths @
      eap_chain \<lparr>ep_code = CODE_REQUEST, ep_identifier = er_eap_id s, ep_data = [EAP_IDENTITY]\<rparr>)"
    using server_first[OF eap_link_sym[OF l] assms(8) m(3,2), of e2] by blast
  obtain m' where m': "initiator_handle fill C P c r (snd (fill e1 8)) = (Ok (Reply m'), ?c, snd (fill (snd (fill e1 8)) 8))"
    "eap_decrypt C (er_sa s) m' = Ok (2, eap_chain \<lparr>ep_code = CODE_RESPONSE, ep_identifier = er_eap_id s,
      ep_data = EAP_IDENTITY # user\<rparr>)"
    using client_hello[OF l assms(8) c(6) _ _ r(2,3), of "snd (fill e1 8)"] assms(6) c by auto
  have "length (id_data (er_id s)) < 59000" using assms(8) by (auto simp: server_trusted_def)
  then obtain c' s' where f: "eap_run 4 fill C P ?c ?s m' (snd (fill (snd (fill e1 8)) 8)) (snd (fill e2 8)) = Some (c', s')"
    "er_user s' = user" "er_password s' = pw" "er_peer_child_spi s' = Some spi" "er_nt_response s' = ei_nt_response c'"
    "ei_server_verified c'"
    using eap_rounds[of fill C ?c ?s m' "er_eap_id s" P "snd (fill (snd (fill e1 8)) 8)" "snd (fill e2 8)"]
      l assms(5,6) c s m'(2) by auto
  then have "eap_run 5 fill C P c s m (snd (fill e1 8)) e2 = Some (c', s')"
    using r(1) m'(1) by (simp add: numeral_eq_Suc eap_run.simps(2))
  with m(1) f show ?thesis by blast
qed

theorem eap_handshake_completes_witness:
  "\<exists>m e1' c' s'. eap_start seed_entropy_fill toy_primitives sample_client (seed_entropy_new 1) = (Ok m, e1') \<and>
     eap_run 5 seed_entropy_fill toy_primitives san_pki sample_client sample_server m e1' (seed_entropy_new 2) = Some (c', s') \<and>
     er_user s' = [117] \<and> er_peer_child_spi s' = Some 7"
  using eap_handshake_completes[OF sample_client_def, of sample_server "sample_sa Responder" sample_id
      "ServerCert (RsaSha256 [7]) [[7]]" "[[117] \<mapsto> [112]]" 8 seed_entropy_fill toy_primitives san_pki
      "seed_entropy_new 1" "seed_entropy_new 2"] sample_link sample_trusted
  by (auto simp: sample_server_def eap_responder_new_def sample_client_def eap_initiator_new_def
      eap_responder_new_multi_def sample_sa_def sample_id_def identification_fqdn_def)

text \<open>
  C27. The credential firewall: a client that requires a certificate of the server sends a reply or
  ends established, after any sequence of messages from anyone, only if one of the messages it
  received carried an IDr, a certificate chain to a trusted CA naming the expected host, and a
  signature over this exchange's octets that verifies. An unauthenticated peer gets nothing.
\<close>
theorem eap_credential_firewall:
  assumes "foldl (initiator_step fill C P)
      (eap_initiator_new sa ident user pw spi (TrustedCas cas dns now), e, []) ms = (s, e', seen)"
    and "initiator_handle fill C P s m e' = (Ok ev, s', e'')" and "ev \<noteq> Failed"
  shows "\<exists>m' \<in> set (ms @ [m]). \<exists>mid ps idr ab auth leaf chain. eap_decrypt C sa m' = Ok (mid, ps) \<and>
    find_payload ps PT_IdResponder = Some idr \<and> find_payload ps PT_Authentication = Some ab \<and>
    authentication_parse ab = Ok auth \<and> cert_payloads_of ps = leaf # chain \<and>
    verify_cert_auth C P leaf chain cas (Some dns) now (au_data auth)
      (responder_signed_octets C (ci_resp_message sa) (ci_ni sa) (sk_pr (ci_keys sa)) idr) = Ok ()"
proof -
  define s0 where "s0 = eap_initiator_new sa ident user pw spi (TrustedCas cas dns now)"
  have s0: "ei_sa s0 = sa" "ei_verify s0 = TrustedCas cas dns now" "\<not> ei_server_verified s0"
    by (simp_all add: s0_def eap_initiator_new_def)
  have run: "foldl (initiator_step fill C P) (s0, e, []) ms = (s, e', ms)"
    using initiator_step_seen[of fill C P s0 e "[]" ms] assms(1) by (simp add: s0_def)
  have "firewall_inv C P s0 (foldl (initiator_step fill C P) (s0, e, []) ms)"
    by (rule firewall.run_inv) (simp add: firewall_inv_def s0)
  then have inv: "ei_sa s = ei_sa s0" "ei_verify s = ei_verify s0"
    "ei_server_verified s \<longrightarrow> (\<exists>m \<in> set ms. server_proof C P s0 m)"
    by (simp_all add: run firewall_inv_def)
  have "server_proof C P s m = server_proof C P s0 m"
    using inv(1,2) verify_server_cong[of s s0] by (simp add: server_proof_def)
  then obtain m' where m': "m' \<in> set (ms @ [m])" "server_proof C P s0 m'"
    using initiator_handle_frame[OF assms(2)] assms(3) inv s0(2) by auto
  then obtain mid ps where d: "eap_decrypt C sa m' = Ok (mid, ps)" "verify_server C P s0 ps"
    by (auto simp: server_proof_def s0)
  show ?thesis
    using verify_server_trusted[OF d(2) s0(2)] d(1) unfolding s0(1) by (intro bexI[OF _ m'(1)]) blast
qed

lemma sample_hello:
  "\<exists>r ev s' e'. initiator_handle seed_entropy_fill toy_primitives san_pki sample_client r (seed_entropy_new 1) =
     (Ok ev, s', e') \<and> ev \<noteq> Failed"
proof -
  let ?f = "seed_entropy_fill :: seed_entropy filler"
  have c: "ci_role (ei_sa sample_client) = Initiator" "length (id_data (ei_id sample_client)) < 59000"
    "\<not> ei_server_verified sample_client" "length (ei_user sample_client) < 64000"
    by (simp_all add: sample_client_def eap_initiator_new_def sample_sa_def sample_id_def identification_fqdn_def)
  obtain m rest where m: "rest = [] \<or> (\<exists>d. rest = [(PT_CertRequest, d)])"
    "eap_decrypt toy_primitives (er_sa sample_server) m =
       Ok (1, eap_request_payloads (ei_id sample_client) (ei_child_spi sample_client) @ rest)"
    using client_start[OF sample_link c(1,2), of "seed_entropy_new 1"] by blast
  obtain r auths where r: "server_auth_payloads toy_primitives san_pki sample_server (server_octets toy_primitives sample_server) = Ok auths"
    "eap_decrypt toy_primitives (ei_sa sample_client) r = Ok (1, [(PT_IdResponder, identification_to_bytes (er_id sample_server))] @ auths @
      eap_chain \<lparr>ep_code = CODE_REQUEST, ep_identifier = er_eap_id sample_server, ep_data = [EAP_IDENTITY]\<rparr>)"
    using server_first[OF eap_link_sym[OF sample_link] sample_trusted m(2,1), of "seed_entropy_new 2"] by blast
  have "(1 :: u32) \<noteq> 0xFFFFFFFF" by simp
  from client_hello[OF sample_link sample_trusted c(3,4) this r, of "seed_entropy_new 1"] show ?thesis by blast
qed

theorem eap_credential_firewall_witness:
  "\<exists>m mid ps idr ab auth leaf chain. eap_decrypt toy_primitives (sample_sa Initiator) m = Ok (mid, ps) \<and>
     find_payload ps PT_IdResponder = Some idr \<and> find_payload ps PT_Authentication = Some ab \<and>
     authentication_parse ab = Ok auth \<and> cert_payloads_of ps = leaf # chain"
proof -
  obtain r ev s' e' where h: "initiator_handle seed_entropy_fill toy_primitives san_pki sample_client r (seed_entropy_new 1) =
     (Ok ev, s', e')" "ev \<noteq> Failed" using sample_hello by blast
  have "foldl (initiator_step seed_entropy_fill toy_primitives san_pki) (sample_client, seed_entropy_new 1, []) [] =
      (sample_client, seed_entropy_new 1, [])" by simp
  from eap_credential_firewall[OF this[unfolded sample_client_def] h[unfolded sample_client_def]] show ?thesis by fastforce
qed

text \<open>
  C35. The server's last step trusts the key it holds, and a server that has run no EAP at all holds
  a key that everyone knows: for any set of users, even none, a fresh server answers a first message
  that carries just the AUTH payload under the MSK of the empty password and a zero NT response,
  with \<open>Established\<close> and a CHILD SA. The step does not check that EAP has succeeded (nor the AUTH method).
\<close>
theorem eap_final_accepts_without_eap:
  assumes "eap_link fill C sa_r sa_i" "length (id_data idr) < 59000"
    and "eap_decrypt C sa_r m = Ok (mid, [(PT_Authentication, authentication_to_bytes
      \<lparr>au_method = meth, au_data = psk_auth C (derive_msk C [] (replicate 24 0))
        (initiator_signed_octets C (ci_init_message sa_r) (ci_nr sa_r) (sk_pi (ci_keys sa_r)) [])\<rparr>)])"
  shows "\<exists>r. responder_handle fill C P (eap_responder_new_multi sa_r idr auth users spi) m e =
    (Ok (EapEstablished (Some r)), eap_responder_new_multi sa_r idr auth users spi, snd (fill e 8))"
proof -
  let ?s = "eap_responder_new_multi sa_r idr auth users spi"
  have "er_sa ?s = sa_r" "er_id ?s = idr" "er_password ?s = []" "er_nt_response ?s = replicate 24 0" "er_peer_idi ?s = []"
    by (simp_all add: eap_responder_new_multi_def)
  then show ?thesis
    using server_final[of fill C ?s sa_i m mid _ P e] assms by (fastforce simp: msk_auth_i_def)
qed

theorem eap_final_accepts_without_eap_witness:
  "\<exists>m r s. responder_handle seed_entropy_fill toy_primitives san_pki
     (eap_responder_new_multi (sample_sa Responder) sample_id (ServerPsk [1]) Map.empty 8) m (seed_entropy_new 1) =
       (Ok (EapEstablished (Some r)), s, snd (seed_entropy_fill (seed_entropy_new 1) 8))"
proof -
  let ?sa = "sample_sa Responder" and ?f = "seed_entropy_fill :: seed_entropy filler"
  let ?a = "\<lparr>au_method = 0, au_data = psk_auth toy_primitives (derive_msk toy_primitives [] (replicate 24 0))
      (initiator_signed_octets toy_primitives (ci_init_message ?sa) (ci_nr ?sa) (sk_pi (ci_keys ?sa)) [])\<rparr>"
  have l: "eap_link ?f toy_primitives (sample_sa Initiator) ?sa"
    using sample_sa_pair[of Initiator] seed.entropy_axioms by (simp add: eap_link_def toy_gcm_correct)
  obtain m where m: "eap_decrypt toy_primitives ?sa m = Ok (1, [(PT_Authentication, authentication_to_bytes ?a)])"
    using send_delivery[OF l, of "[(PT_Authentication, authentication_to_bytes ?a)]" 1 False Reply "seed_entropy_new 1"]
    by (auto simp: length_encode_payload_chain authentication_to_bytes_def psk_auth_def)
  have "length (id_data sample_id) < 59000" by (simp add: sample_id_def identification_fqdn_def)
  from eap_final_accepts_without_eap[OF eap_link_sym[OF l] this m] show ?thesis by blast
qed

text \<open>
  C34. The server refuses wrong credentials: an unknown user, an NT response that is not the one of
  the user's password to the server's challenge, and a final AUTH that is not the MAC under the
  server's MSK all end in \<open>Failed\<close>; and an EAP payload the server cannot read or does not expect
  never establishes anything.
\<close>
theorem eap_server_rejects:
  assumes "eap_decrypt C (er_sa s) m = Ok (mid, ps)"
  shows "(\<forall>b p. find_payload ps PT_Eap = Some b \<longrightarrow> eap_packet_parse b = Ok p \<longrightarrow> eap_type p = Some EAP_IDENTITY \<longrightarrow>
      er_users s (drop 1 (ep_data p)) = None \<longrightarrow> fst (responder_handle fill C P s m e) = Ok Failed) \<and>
    (\<forall>b p resp. find_payload ps PT_Eap = Some b \<longrightarrow> eap_packet_parse b = Ok p \<longrightarrow> parse_response (ep_data p) = Ok resp \<longrightarrow>
      generate_nt_response C (er_auth_challenge s) (rs_peer_challenge resp) (er_user s) (er_password s) \<noteq>
        Ok (rs_nt_response resp) \<longrightarrow> fst (responder_handle fill C P s m e) = Ok Failed) \<and>
    (\<forall>ab auth. find_payload ps PT_Eap = None \<longrightarrow> find_payload ps PT_Authentication = Some ab \<longrightarrow>
      authentication_parse ab = Ok auth \<longrightarrow>
      au_data auth \<noteq> au_data (msk_auth_i C (er_sa s) (er_password s) (er_nt_response s) (er_peer_idi s)) \<longrightarrow>
        fst (responder_handle fill C P s m e) = Ok Failed) \<and>
    (find_payload ps PT_Eap \<noteq> None \<longrightarrow> (\<forall>r. fst (responder_handle fill C P s m e) \<noteq> Ok (EapEstablished r)))"
proof (intro conjI allI impI)
  fix b p assume "find_payload ps PT_Eap = Some b" "eap_packet_parse b = Ok p" "eap_type p = Some EAP_IDENTITY"
    "er_users s (drop 1 (ep_data p)) = None"
  then show "fst (responder_handle fill C P s m e) = Ok Failed"
    using assms by (simp add: responder_handle_def responder_eap_def Let_def)
next
  fix b p resp assume a: "find_payload ps PT_Eap = Some b" "eap_packet_parse b = Ok p" "parse_response (ep_data p) = Ok resp"
    "generate_nt_response C (er_auth_challenge s) (rs_peer_challenge resp) (er_user s) (er_password s) \<noteq> Ok (rs_nt_response resp)"
  have "eap_type p = Some EAP_MSCHAPV2 \<and> 1 < length (ep_data p) \<and> ep_data p ! 1 = OP_RESPONSE"
    using a(3) by (cases "ep_data p") (auto simp: parse_response_def eap_type_def split: if_splits)
  moreover obtain nt where "generate_nt_response C (er_auth_challenge s) (rs_peer_challenge resp) (er_user s) (er_password s) = Ok nt"
    using generate_nt_response_Ok by blast
  ultimately show "fst (responder_handle fill C P s m e) = Ok Failed"
    using assms a by (simp add: responder_handle_def responder_eap_def Let_def eap_consts)
next
  fix ab auth assume "find_payload ps PT_Eap = None" "find_payload ps PT_Authentication = Some ab"
    "authentication_parse ab = Ok auth"
    "au_data auth \<noteq> au_data (msk_auth_i C (er_sa s) (er_password s) (er_nt_response s) (er_peer_idi s))"
  then show "fst (responder_handle fill C P s m e) = Ok Failed"
    using assms by (simp add: responder_handle_def responder_final_def msk_auth_i_def Let_def)
next
  fix r assume "find_payload ps PT_Eap \<noteq> None"
  then obtain b where "find_payload ps PT_Eap = Some b" by blast
  moreover have "fst (responder_eap fill C s mid p e) \<noteq> Ok (EapEstablished r)" for p
    by (auto simp: responder_eap_def Let_def send_sk_def split_beta res_iff split: if_splits option.splits res.splits)
  ultimately show "fst (responder_handle fill C P s m e) \<noteq> Ok (EapEstablished r)"
    using assms by (auto simp: responder_handle_def split: res.splits)
qed

theorem eap_server_rejects_witness:
  "\<exists>m. fst (responder_handle seed_entropy_fill toy_primitives san_pki sample_server m (seed_entropy_new 1)) = Ok Failed"
proof -
  let ?p = "\<lparr>ep_code = CODE_RESPONSE, ep_identifier = 1, ep_data = [EAP_IDENTITY, 1]\<rparr>"
  obtain m where m: "eap_decrypt toy_primitives (er_sa sample_server) m = Ok (2, eap_chain ?p)"
    using send_eap[OF sample_link, of ?p 2 False Reply "seed_entropy_new 1"] by auto
  have "eap_packet_parse (eap_packet_to_bytes ?p) = Ok ?p" by (rule eap_packet_roundtrip) simp
  moreover have "er_users sample_server (drop 1 (ep_data ?p)) = None"
    by (simp add: sample_server_def eap_responder_new_def eap_responder_new_multi_def)
  moreover have "find_payload (eap_chain ?p) PT_Eap = Some (eap_packet_to_bytes ?p)" "eap_type ?p = Some EAP_IDENTITY"
    by (simp_all add: eap_type_def)
  ultimately show ?thesis
    using eap_server_rejects[OF m, of seed_entropy_fill san_pki "seed_entropy_new 1"] by blast
qed

end
