(* ===== verification/Clients.thy ===== *)
theory Clients
  imports Echo Eap_Auth "HOL-Library.While_Combinator"
begin

text \<open>
  The example programs under \<open>src/examples\<close>: \<open>dpd_probe\<close>, \<open>rekey_probe\<close>, \<open>retransmit_probe\<close>, \<open>rekey_e2e\<close>,
  \<open>ike_client\<close>, \<open>ike_client_eap\<close> and \<open>ike_client_natt\<close>, each \<open>main\<close> from the point where its arguments have been
  parsed. A program is a function of the network and the rest of the world to how it ends and the
  world it leaves: it exits with a status, \<open>main\<close> returning being status zero, it panics
  (\<open>unwrap\<close>, \<open>expect\<close>), or it waits for ever. What is printed is left out.

  The lemmas show that no example waits for ever, and what a successful exit has shown whatever the
  rest of the world does: the trace of datagrams of the run (\<open>io_trace\<close>) contains the handshake that authenticated the
  peer and the answers the program is for.
\<close>

section \<open>Programs\<close>

datatype 'a outcome = Returns 'a | Exits nat | Aborts | Hangs

type_synonym ('s, 'a) prog = "'s \<Rightarrow> 'a outcome \<times> 's"

definition retP :: "'a \<Rightarrow> ('s, 'a) prog" where
  "retP x w = (Returns x, w)"

definition exitP :: "nat \<Rightarrow> ('s, 'a) prog" where
  "exitP n w = (Exits n, w)"

definition bindP :: "('s, 'a) prog \<Rightarrow> ('a \<Rightarrow> ('s, 'b) prog) \<Rightarrow> ('s, 'b) prog" where
  "bindP m f w =
     (case m w of
        (Returns x, w') \<Rightarrow> f x w'
      | (Exits n, w') \<Rightarrow> (Exits n, w')
      | (Aborts, w') \<Rightarrow> (Aborts, w')
      | (Hangs, w') \<Rightarrow> (Hangs, w'))"

text \<open>\<open>unwrap\<close> and \<open>expect\<close> on an option, on a result of the library and on a result of a driver.\<close>

definition expectO :: "'a option \<Rightarrow> ('s, 'a) prog" where
  "expectO m w = (case m of Some x \<Rightarrow> (Returns x, w) | None \<Rightarrow> (Aborts, w))"

definition expectR :: "'a res \<Rightarrow> ('s, 'a) prog" where
  "expectR m w = (case m of Ok x \<Rightarrow> (Returns x, w) | _ \<Rightarrow> (Aborts, w))"

definition expectD :: "('s \<Rightarrow> 'a driven \<times> 's) \<Rightarrow> ('s, 'a) prog" where
  "expectD m w =
     (case m w of
        (Done x, w') \<Rightarrow> (Returns x, w')
      | (Blocked, w') \<Rightarrow> (Hangs, w')
      | (_, w') \<Rightarrow> (Aborts, w'))"

section \<open>Sockets of the examples\<close>

type_synonym 'w world = "udp_net \<times> 'w"

type_synonym 'w environment = "'w world \<Rightarrow> 'w world"

text \<open>\<open>0.0.0.0:0\<close>, and durations in nanoseconds.\<close>

definition any_port :: socket_addr where
  "any_port = \<lparr>sock_ip = V4 (Ipv4 0 0 0 0), sock_port = 0\<rparr>"

definition from_secs :: "nat \<Rightarrow> nat" where
  "from_secs n = n * 1000000000"

definition open_socket :: "ip_layer \<Rightarrow> nat \<Rightarrow> ('w world, udp_transport) prog" where
  "open_socket IP secs w =
     (case transport_bind IP [any_port] (fst w) of
        (IoOk tp, net) \<Rightarrow>
          (case transport_set_read_timeout tp (Some (from_secs secs)) of
             (IoOk _, tp') \<Rightarrow> (Returns tp', (net, snd w))
           | _ \<Rightarrow> (Aborts, (net, snd w)))
      | (_, net) \<Rightarrow> (Aborts, (net, snd w)))"

definition open_client :: "ip_layer \<Rightarrow> 'e \<Rightarrow> nat \<Rightarrow> ('w world, 'e udp_client) prog" where
  "open_client IP e secs w =
     (case udp_client_bind IP [any_port] e (fst w) of
        (IoOk cl, net) \<Rightarrow>
          (case udp_client_set_read_timeout cl (Some (from_secs secs)) of
             (IoOk _, cl') \<Rightarrow> (Returns cl', (net, snd w))
           | _ \<Rightarrow> (Aborts, (net, snd w)))
      | (_, net) \<Rightarrow> (Aborts, (net, snd w)))"

definition send_datagram :: "ip_layer \<Rightarrow> udp_transport \<Rightarrow> bytes \<Rightarrow> socket_addr \<Rightarrow> ('w world, unit) prog" where
  "send_datagram IP sock m to w =
     (case transport_send_to IP sock m to (fst w) of
        (IoOk _, net) \<Rightarrow> (Returns (), (net, snd w))
      | (_, net) \<Rightarrow> (Aborts, (net, snd w)))"

text \<open>\<open>recv_from\<close> into a buffer of a given size, and the part of the buffer that was written.\<close>

definition receive :: "'w environment \<Rightarrow> udp_transport \<Rightarrow> nat \<Rightarrow> ('w world, bytes option) prog" where
  "receive env sock cap w =
     (case env w of (net, x) \<Rightarrow>
        (case socket_recv_from sock (replicate cap 0) net of
           (IoOk (buf, n, _), net') \<Rightarrow> (Returns (Some (take n buf)), (net', x))
         | (IoErr, net') \<Rightarrow> (Returns None, (net', x))
         | (IoBlocked, net') \<Rightarrow> (Hangs, (net', x))))"

text \<open>
  The beginning of the five examples that use \<open>Client\<close>: randomness, the socket, the handshake. The first
  argument that may be missing is what \<open>OsEntropy::new\<close> gives.
\<close>

type_synonym established = "completed_sa_init \<times> identification \<times> child_sa \<times> ipv4 option"

definition establish ::
    "'e filler \<Rightarrow> primitives \<Rightarrow> pki \<Rightarrow> ip_layer \<Rightarrow> 'w environment \<Rightarrow> 'e option \<Rightarrow> socket_addr \<Rightarrow> auth_config \<Rightarrow> u32 \<Rightarrow>
     ('w world, established) prog" where
  "establish fill C P IP env ent ike_addr auth child_spi =
     bindP (expectO ent) (\<lambda>e.
     bindP (open_client IP e 8) (\<lambda>client.
       expectD (\<lambda>w. case udp_client_connect fill C P IP env client ike_addr auth child_spi w of (r, _, w') \<Rightarrow> (r, w'))))"

section \<open>The probes\<close>

definition dpd_probe ::
    "'e filler \<Rightarrow> primitives \<Rightarrow> pki \<Rightarrow> ip_layer \<Rightarrow> 'w environment \<Rightarrow> 'e option \<Rightarrow> socket_addr \<Rightarrow> bytes \<Rightarrow> bytes \<Rightarrow>
     ('w world, unit) prog" where
  "dpd_probe fill C P IP env ent ike_addr psk client_id =
     (let auth = auth_config_psk (identification_fqdn client_id) psk in
      bindP (establish fill C P IP env ent ike_addr auth 0xCAFED00D) (\<lambda>(sa, got_server_id, _, _).
      bindP (open_socket IP 8) (\<lambda>sock.
      bindP (expectR (dpd_request C sa 2 (replicate 8 0x11))) (\<lambda>req.
      bindP (send_datagram IP sock req ike_addr) (\<lambda>_.
      bindP (receive env sock 2048) (\<lambda>answer.
        case answer of
          Some buf \<Rightarrow>
            (case open_informational C sa buf of
               Ok p \<Rightarrow> exitP 0
             | Err e \<Rightarrow> exitP 1
             | Panic \<Rightarrow> expectO None)
        | None \<Rightarrow> exitP 1))))))"

definition rekey_probe ::
    "'e filler \<Rightarrow> primitives \<Rightarrow> pki \<Rightarrow> ip_layer \<Rightarrow> 'w environment \<Rightarrow> 'e option \<Rightarrow> socket_addr \<Rightarrow> bytes \<Rightarrow> bytes \<Rightarrow>
     ('w world, unit) prog" where
  "rekey_probe fill C P IP env ent ike_addr psk client_id =
     (let auth = auth_config_psk (identification_fqdn client_id) psk in
      bindP (establish fill C P IP env ent ike_addr auth 0xCAFE1234) (\<lambda>(sa, _, _, _).
      bindP (open_socket IP 8) (\<lambda>sock.
      let ni = replicate 32 0x37;
          new_spi = 0x12345678 in
      bindP (expectR (build_rekey_request C sa 2 0xDEADBEEF new_spi ni (replicate 8 5))) (\<lambda>req.
      bindP (send_datagram IP sock req ike_addr) (\<lambda>_.
      bindP (receive env sock 2048) (\<lambda>answer.
        case answer of
          Some buf \<Rightarrow>
            (case initiator_complete_rekey C sa ni new_spi buf of
               Ok _ \<Rightarrow> exitP 0
             | Err _ \<Rightarrow> exitP 1
             | Panic \<Rightarrow> expectO None)
        | None \<Rightarrow> exitP 1))))))"

text \<open>The closure \<open>recv\<close> of the retransmission probe: send the request and take one answer.\<close>

definition ask :: "ip_layer \<Rightarrow> 'w environment \<Rightarrow> udp_transport \<Rightarrow> bytes \<Rightarrow> socket_addr \<Rightarrow> ('w world, bytes) prog" where
  "ask IP env sock req ike_addr =
     bindP (send_datagram IP sock req ike_addr) (\<lambda>_.
     bindP (receive env sock 2048) (\<lambda>answer.
       case answer of Some buf \<Rightarrow> retP buf | None \<Rightarrow> exitP 1))"

definition retransmit_probe ::
    "'e filler \<Rightarrow> primitives \<Rightarrow> pki \<Rightarrow> ip_layer \<Rightarrow> 'w environment \<Rightarrow> 'e option \<Rightarrow> socket_addr \<Rightarrow> bytes \<Rightarrow> bytes \<Rightarrow>
     ('w world, unit) prog" where
  "retransmit_probe fill C P IP env ent ike_addr psk client_id =
     (let auth = auth_config_psk (identification_fqdn client_id) psk in
      bindP (establish fill C P IP env ent ike_addr auth 0xCAFEF00D) (\<lambda>(sa, _, _, _).
      bindP (open_socket IP 8) (\<lambda>sock.
      bindP (expectR (dpd_request C sa 2 (replicate 8 0x5a))) (\<lambda>req.
      bindP (ask IP env sock req ike_addr) (\<lambda>first.
      bindP (ask IP env sock req ike_addr) (\<lambda>second.
        if first = second then exitP 0 else exitP 1))))))"

section \<open>The data plane\<close>

definition rekey_e2e ::
    "'e filler \<Rightarrow> primitives \<Rightarrow> pki \<Rightarrow> ip_layer \<Rightarrow> 'w environment \<Rightarrow> 'e option \<Rightarrow> socket_addr \<Rightarrow> socket_addr \<Rightarrow>
     bytes \<Rightarrow> bytes \<Rightarrow> ('w world, unit) prog" where
  "rekey_e2e fill C P IP env ent ike_addr esp_addr psk client_id =
     (let auth = auth_config_psk (identification_fqdn client_id) psk in
      bindP (establish fill C P IP env ent ike_addr auth 0xCAFE2468) (\<lambda>(sa, _, csa, assigned).
      bindP (expectO assigned) (\<lambda>src.
      bindP (open_socket IP 6) (\<lambda>esp.
      bindP (expectD (\<lambda>w. case ping IP C env esp esp_addr csa src w of (r, _, w') \<Rightarrow> (r, w'))) (\<lambda>_.
      bindP (open_socket IP 8) (\<lambda>ike_sock.
      let ni = replicate 32 0x71;
          new_spi = 0x0BADF00D in
      bindP (expectR (build_rekey_request C sa 2 0xDEADBEEF new_spi ni (replicate 8 3))) (\<lambda>req.
      bindP (send_datagram IP ike_sock req ike_addr) (\<lambda>_.
      bindP (receive env ike_sock 2048) (\<lambda>answer.
      bindP (expectO answer) (\<lambda>buf.
      bindP (expectR (initiator_complete_rekey C sa ni new_spi buf)) (\<lambda>new_csa.
      bindP (expectD (\<lambda>w. case ping IP C env esp esp_addr new_csa src w of (r, _, w') \<Rightarrow> (r, w'))) (\<lambda>replied.
        if replied then exitP 0 else exitP 1))))))))))))"

definition ike_client ::
    "'e filler \<Rightarrow> primitives \<Rightarrow> pki \<Rightarrow> ip_layer \<Rightarrow> 'w environment \<Rightarrow> 'e option \<Rightarrow> socket_addr \<Rightarrow> socket_addr \<Rightarrow>
     bytes \<Rightarrow> bytes \<Rightarrow> ipv4 option \<Rightarrow> ipv4 \<Rightarrow> ('w world, unit) prog" where
  "ike_client fill C P IP env ent ike_addr esp_addr psk client_id inner_src_override dst =
     (let auth = auth_config_psk (identification_fqdn client_id) psk in
      bindP (establish fill C P IP env ent ike_addr auth 0xCAFEBABE) (\<lambda>(sa, got_server_id, csa, assigned_ip).
      bindP (expectO (case assigned_ip of Some ip \<Rightarrow> Some ip | None \<Rightarrow> inner_src_override)) (\<lambda>inner_src.
      bindP (open_socket IP 6) (\<lambda>esp.
      bindP (expectD (\<lambda>w. case ping_loop IP C env esp esp_addr inner_src dst [1, 2, 3, 4, 5] csa w of
          (r, _, w') \<Rightarrow> (r, w'))) (\<lambda>replied.
        if replied then exitP 0 else exitP 1)))))"

section \<open>The EAP client\<close>

text \<open>The loop, with the number of steps left.\<close>

primrec eap_steps ::
    "nat \<Rightarrow> 'e filler \<Rightarrow> primitives \<Rightarrow> pki \<Rightarrow> ip_layer \<Rightarrow> 'w environment \<Rightarrow> udp_transport \<Rightarrow> socket_addr \<Rightarrow>
     eap_initiator \<Rightarrow> bytes \<Rightarrow> 'e \<Rightarrow> ('w world, unit) prog" where
  "eap_steps 0 fill C P IP env sock ike_addr init msg e = exitP 1"
| "eap_steps (Suc k) fill C P IP env sock ike_addr init msg e =
     bindP (send_datagram IP sock msg ike_addr) (\<lambda>_.
     bindP (receive env sock 4096) (\<lambda>answer.
     bindP (expectO answer) (\<lambda>buf.
       case initiator_handle fill C P init buf e of (r, init', e') \<Rightarrow>
       bindP (expectR r) (\<lambda>ev.
         case ev of
           Reply nxt \<Rightarrow> eap_steps k fill C P IP env sock ike_addr init' nxt e'
         | EapEstablished _ \<Rightarrow> exitP 0
         | Failed \<Rightarrow> exitP 1))))"

text \<open>\<open>IKE_SA_INIT\<close> on a plain socket, as the EAP and the NAT-T client do it.\<close>

definition plain_sa_init ::
    "primitives \<Rightarrow> ip_layer \<Rightarrow> 'w environment \<Rightarrow> udp_transport \<Rightarrow> socket_addr \<Rightarrow> local_secret \<Rightarrow>
     ('w world, bytes \<times> bytes) prog" where
  "plain_sa_init C IP env sock ike_addr loc =
     bindP (expectR (initiator_request C loc default_offer)) (\<lambda>req.
     bindP (send_datagram IP sock req ike_addr) (\<lambda>_.
     bindP (receive env sock 4096) (\<lambda>answer.
     bindP (expectO answer) (\<lambda>buf. retP (req, buf)))))"

definition ike_client_eap ::
    "'e filler \<Rightarrow> primitives \<Rightarrow> pki \<Rightarrow> ip_layer \<Rightarrow> 'w environment \<Rightarrow> 'e option \<Rightarrow> socket_addr \<Rightarrow>
     bytes \<Rightarrow> ustr \<Rightarrow> bytes \<Rightarrow> bytes option \<Rightarrow> u64 option \<Rightarrow> bool \<Rightarrow> ('w world, unit) prog" where
  "ike_client_eap fill C P IP env ent ike_addr user password server_id ca_file clock certreq =
     bindP (expectO ca_file) (\<lambda>ca.
     bindP (expectO ent) (\<lambda>e.
     bindP (open_socket IP 8) (\<lambda>sock.
     case local_secret_generate fill e 32 of (loc, e1) \<Rightarrow>
     bindP (plain_sa_init C IP env sock ike_addr loc) (\<lambda>(req, buf).
     bindP (expectR (initiator_complete C loc req buf)) (\<lambda>sa.
     bindP (expectO clock) (\<lambda>now.
     let verify = TrustedCas [ca] server_id now;
         init = eap_initiator_new sa (identification_fqdn user) user password 0xEA90001 verify;
         init = (if certreq then set_send_certreq init True else init) in
     case eap_start fill C init e1 of (m, e2) \<Rightarrow>
     bindP (expectR m) (\<lambda>msg. eap_steps 12 fill C P IP env sock ike_addr init msg e2)))))))"

section \<open>The NAT-T client\<close>

text \<open>
  The inner loop waits for a reply until a deadline. The clock is a function of the world; the loop
  is a \<open>while_option\<close>, whose value \<open>None\<close> means that it never ends.
\<close>

datatype wait = Waiting | GaveUp | Replied | WaitAborts | WaitHangs

definition natt_poll ::
    "primitives \<Rightarrow> 'w environment \<Rightarrow> udp_transport \<Rightarrow> child_sa \<Rightarrow> 'w world \<Rightarrow> wait \<times> 'w world" where
  "natt_poll C env sock csa w =
     (case receive env sock 4096 w of
        (Returns (Some d), w') \<Rightarrow>
          (case is_ike_on_4500 d of
             Ok True \<Rightarrow> (Waiting, w')
           | Ok False \<Rightarrow>
               (case esp_open C (ch_inbound csa) d of
                  Ok (inner, _) \<Rightarrow> (if is_echo_reply inner then Replied else Waiting, w')
                | Err _ \<Rightarrow> (Waiting, w')
                | Panic \<Rightarrow> (WaitAborts, w'))
           | _ \<Rightarrow> (WaitAborts, w'))
      | (Returns None, w') \<Rightarrow> (GaveUp, w')
      | (_, w') \<Rightarrow> (WaitHangs, w'))"

definition natt_wait ::
    "('w world \<Rightarrow> nat) \<Rightarrow> primitives \<Rightarrow> 'w environment \<Rightarrow> udp_transport \<Rightarrow> child_sa \<Rightarrow> nat \<Rightarrow> 'w world \<Rightarrow>
     (wait \<times> 'w world) option" where
  "natt_wait now C env sock csa deadline w =
     while_option (\<lambda>(st, w). st = Waiting \<and> now w < deadline) (\<lambda>(st, w). natt_poll C env sock csa w) (Waiting, w)"

definition natt_await ::
    "('w world \<Rightarrow> nat) \<Rightarrow> primitives \<Rightarrow> 'w environment \<Rightarrow> udp_transport \<Rightarrow> child_sa \<Rightarrow> ('w world, bool) prog" where
  "natt_await now C env sock csa w =
     (case natt_wait now C env sock csa (now w + from_secs 2) w of
        None \<Rightarrow> (Hangs, w)
      | Some (Replied, w') \<Rightarrow> (Returns True, w')
      | Some (WaitAborts, w') \<Rightarrow> (Aborts, w')
      | Some (WaitHangs, w') \<Rightarrow> (Hangs, w')
      | Some (_, w') \<Rightarrow> (Returns False, w'))"

fun natt_pings ::
    "('w world \<Rightarrow> nat) \<Rightarrow> ip_layer \<Rightarrow> primitives \<Rightarrow> 'w environment \<Rightarrow> udp_transport \<Rightarrow> socket_addr \<Rightarrow> ipv4 \<Rightarrow> ipv4 \<Rightarrow>
     u16 list \<Rightarrow> child_sa \<Rightarrow> ('w world, unit) prog" where
  "natt_pings now IP C env sock esp4500 src dst [] csa = exitP 1"
| "natt_pings now IP C env sock esp4500 src dst (seq # seqs) csa =
     (case esp_seal C (ch_outbound csa) (icmp_echo src dst 0 seq) 4 of (r, sa') \<Rightarrow>
      let csa' = csa\<lparr>ch_outbound := sa'\<rparr> in
      bindP (expectR r) (\<lambda>sealed.
      bindP (send_datagram IP sock sealed esp4500) (\<lambda>_.
      bindP (natt_await now C env sock csa') (\<lambda>replied.
        if replied then exitP 0
        else natt_pings now IP C env sock esp4500 src dst seqs csa'))))"

definition ike_client_natt ::
    "('w world \<Rightarrow> nat) \<Rightarrow> 'e filler \<Rightarrow> primitives \<Rightarrow> pki \<Rightarrow> ip_layer \<Rightarrow> 'w environment \<Rightarrow> 'e option \<Rightarrow> socket_addr \<Rightarrow>
     socket_addr \<Rightarrow> bytes \<Rightarrow> bytes \<Rightarrow> ipv4 \<Rightarrow> ('w world, unit) prog" where
  "ike_client_natt now fill C P IP env ent ike500 esp4500 psk client_id dst =
     bindP (expectO ent) (\<lambda>e.
     bindP (open_socket IP 8) (\<lambda>sock.
     case local_secret_generate fill e 32 of (loc, e1) \<Rightarrow>
     bindP (plain_sa_init C IP env sock ike500 loc) (\<lambda>(req, sa_resp).
     bindP (expectR (has_nat_detection sa_resp)) (\<lambda>_.
     bindP (expectR (initiator_complete C loc req sa_resp)) (\<lambda>sa.
     let auth = auth_config_psk (identification_fqdn client_id) psk;
         child_spi = 0xBEEF0042;
         (iv, _) = fill e1 8 in
     bindP (expectR (initiator_auth_request C P sa auth child_spi iv)) (\<lambda>auth_req.
     bindP (send_datagram IP sock (wrap_ike_4500 auth_req) esp4500) (\<lambda>_.
     bindP (receive env sock 4096) (\<lambda>answer.
     bindP (expectO answer) (\<lambda>buf.
     bindP (expectR (unwrap_ike_4500 buf)) (\<lambda>unwrapped.
     bindP (expectO unwrapped) (\<lambda>auth_resp.
     bindP (expectR (initiator_verify_auth C P sa auth_resp auth)) (\<lambda>(got_server_id, peer_child_spi, assigned).
     bindP (expectO assigned) (\<lambda>inner_src.
     bindP (expectR (child_sa_derive C (sk_d (ci_keys sa)) (ci_ni sa) (ci_nr sa) Initiator child_spi peer_child_spi)) (\<lambda>csa.
       natt_pings now IP C env sock esp4500 inner_src dst [1, 2, 3, 4, 5] csa))))))))))))))"

section \<open>Every example ends\<close>

text \<open>
  \<open>ensures m Q\<close>: in every world \<open>m\<close> exits with status zero or one, aborts, or returns a value with \<open>Q\<close>; it
  does not wait for ever.
\<close>

definition ensures :: "('s, 'a) prog \<Rightarrow> ('a \<Rightarrow> bool) \<Rightarrow> bool" where
  "ensures m Q \<longleftrightarrow> (\<forall>w. case fst (m w) of Returns x \<Rightarrow> Q x | Exits n \<Rightarrow> n \<le> 1 | Aborts \<Rightarrow> True | Hangs \<Rightarrow> False)"

named_theorems ends

lemma ensures_bind:
  assumes m: "ensures m Q" and f: "\<And>x. Q x \<Longrightarrow> ensures (f x) R"
  shows "ensures (bindP m f) R"
  unfolding ensures_def
proof
  fix w
  obtain r w' where r: "m w = (r, w')" by (cases "m w")
  then have q: "case r of Returns x \<Rightarrow> Q x | Exits n \<Rightarrow> n \<le> 1 | Aborts \<Rightarrow> True | Hangs \<Rightarrow> False"
    using m unfolding ensures_def by (metis fst_conv)
  show "case fst (bindP m f w) of Returns x \<Rightarrow> R x | Exits n \<Rightarrow> n \<le> 1 | Aborts \<Rightarrow> True | Hangs \<Rightarrow> False"
  proof (cases r)
    case (Returns x)
    then have "ensures (f x) R" using q f by simp
    then show ?thesis using r Returns by (simp add: bindP_def ensures_def)
  qed (use r q in \<open>simp_all add: bindP_def\<close>)
qed

lemma ensures_basic [ends]:
  "ensures (exitP 0) Q" "ensures (exitP 1) Q" "Q x \<Longrightarrow> ensures (retP x) Q"
  "ensures (expectO m) (\<lambda>x. m = Some x)" "ensures (expectR r) (\<lambda>x. r = Ok x)"
  by (auto simp: ensures_def exitP_def retP_def expectO_def expectR_def split: option.splits res.splits)

lemma ensures_socket [ends]:
  "ensures (open_socket IP secs) (\<lambda>tp. ut_timeout tp \<noteq> None)"
  "ensures (open_client IP e secs) (\<lambda>cl. ut_timeout (uc_transport cl) \<noteq> None)"
  "ensures (send_datagram IP sock m to) (\<lambda>_. True)"
  by (auto simp: ensures_def open_socket_def open_client_def send_datagram_def transport_set_read_timeout_def
      udp_client_set_read_timeout_def split: outcome.splits prod.splits io.splits if_splits)

lemma socket_recv_not_blocked:
  "ut_timeout tp \<noteq> None \<Longrightarrow> socket_recv_from tp buf net \<noteq> (IoBlocked, net')"
  by (auto simp: socket_recv_from_def split: list.splits)

lemma ensures_receive [ends]: "ut_timeout sock \<noteq> None \<Longrightarrow> ensures (receive env sock cap) (\<lambda>_. True)"
  by (auto simp: ensures_def receive_def socket_recv_not_blocked split: outcome.splits prod.splits io.splits)

lemma ensures_cases [ends]:
  "ensures n Q \<Longrightarrow> (\<And>x. ensures (f x) Q) \<Longrightarrow> ensures (case mo of None \<Rightarrow> n | Some x \<Rightarrow> f x) Q"
  "(\<And>x. ensures (f x) Q) \<Longrightarrow> (\<And>e. ensures (g e) Q) \<Longrightarrow> ensures n Q \<Longrightarrow>
     ensures (case mr of Ok x \<Rightarrow> f x | Err e \<Rightarrow> g e | Panic \<Rightarrow> n) Q"
  "(\<And>x y. ensures (h x y) Q) \<Longrightarrow> ensures (case p of (x, y) \<Rightarrow> h x y) Q"
  "ensures a Q \<Longrightarrow> ensures a' Q \<Longrightarrow> ensures (if b then a else a') Q"
  "(\<And>m. ensures (k m) Q) \<Longrightarrow> (\<And>r. ensures (l r) Q) \<Longrightarrow> ensures a Q \<Longrightarrow>
     ensures (case ev of Reply m \<Rightarrow> k m | EapEstablished r \<Rightarrow> l r | Failed \<Rightarrow> a) Q"
  by (simp_all split: option.split res.split prod.split eap_event.split)

lemma ensures_abort [ends]: "ensures (expectO None) Q"
  by (simp add: ensures_def expectO_def)

lemma ensures_driven [ends]:
  "(\<And>w w'. m w \<noteq> (Blocked, w')) \<Longrightarrow> ensures (expectD m) (\<lambda>_. True)"
  by (auto simp: ensures_def expectD_def split: driven.splits prod.splits)

lemma udp_exchange_not_blocked:
  "ut_timeout tp \<noteq> None \<Longrightarrow> udp_exchange IP env tp to w m \<noteq> (IoBlocked, w')"
  by (auto simp: udp_exchange_def transport_recv_from_def transport_send_to_def socket_recv_not_blocked
      split: prod.splits io.splits if_splits)

lemma ike_not_blocked [simp]: "(\<And>x. f x \<noteq> Blocked) \<Longrightarrow> ike m f \<noteq> Blocked"
  by (cases m) simp_all

lemma client_connect_not_blocked:
  assumes "\<And>n m n'. net n m \<noteq> (IoBlocked, n')"
  shows "client_connect fill C P net cfg spi e n \<noteq> (Blocked, r)"
proof -
  have "client_sa_init fill C net e n \<noteq> (Blocked, r)" for r
    using assms by (auto simp: client_sa_init_def Let_def split: prod.splits res.splits io.splits)
  moreover have "client_authenticate fill C P net sa cfg spi e n \<noteq> (Blocked, r)" for sa e n r
    using assms by (auto simp: client_authenticate_def Let_def split: prod.splits res.splits io.splits)
  ultimately show ?thesis
    by (auto simp: client_connect_def split: prod.splits driven.splits)
qed

lemma ensures_connect [ends]:
  assumes "ut_timeout (uc_transport cl) \<noteq> None"
  shows "ensures (expectD (\<lambda>w. case udp_client_connect fill C P IP env cl to auth spi w of (r, _, w') \<Rightarrow> (r, w'))) (\<lambda>_. True)"
proof -
  have "client_connect fill C P (udp_exchange IP env (uc_transport cl) to) auth spi e w \<noteq> (Blocked, r)" for e w r
    by (rule client_connect_not_blocked) (rule udp_exchange_not_blocked[OF assms])
  then show ?thesis by (intro ends) (auto simp: udp_client_connect_def split: prod.splits)
qed

lemma ping_loop_not_blocked:
  "ut_timeout esp \<noteq> None \<Longrightarrow> ping_loop IP C env esp to src dst seqs csa w \<noteq> (Blocked, r)"
  by (induction IP C env esp to src dst seqs csa w rule: ping_loop.induct)
    (auto simp: Let_def transport_send_to_def socket_recv_not_blocked split: prod.splits res.splits io.splits if_splits)

lemma ensures_ping [ends]:
  assumes "ut_timeout esp \<noteq> None"
  shows "ensures (expectD (\<lambda>w. case ping IP C env esp to csa src w of (r, _, w') \<Rightarrow> (r, w'))) (\<lambda>_. True)"
    "ensures (expectD (\<lambda>w. case ping_loop IP C env esp to src dst seqs csa w of (r, _, w') \<Rightarrow> (r, w'))) (\<lambda>_. True)"
proof -
  have "ping_loop IP C env esp to src d qs csa w \<noteq> (Blocked, r)" for d qs w r
    by (rule ping_loop_not_blocked[OF assms])
  then show "ensures (expectD (\<lambda>w. case ping IP C env esp to csa src w of (r, _, w') \<Rightarrow> (r, w'))) (\<lambda>_. True)"
    "ensures (expectD (\<lambda>w. case ping_loop IP C env esp to src dst seqs csa w of (r, _, w') \<Rightarrow> (r, w'))) (\<lambda>_. True)"
    by (intro ensures_driven; auto simp: ping_def simp del: ping_loop.simps split: prod.splits)+
qed

lemma ensures_establish [ends]: "ensures (establish fill C P IP env ent to auth spi) (\<lambda>_. True)"
  unfolding establish_def by (rule ensures_bind ends | assumption)+

lemma ensures_ask [ends]: "ut_timeout sock \<noteq> None \<Longrightarrow> ensures (ask IP env sock req to) (\<lambda>_. True)"
  unfolding ask_def by (rule ensures_bind ends TrueI | assumption)+

lemma ensures_sa_init [ends]: "ut_timeout sock \<noteq> None \<Longrightarrow> ensures (plain_sa_init C IP env sock to loc) (\<lambda>_. True)"
  unfolding plain_sa_init_def by (rule ensures_bind ends TrueI | assumption)+

lemma ensures_eap_steps [ends]:
  assumes "ut_timeout sock \<noteq> None"
  shows "ensures (eap_steps k fill C P IP env sock to init msg e) (\<lambda>_. False)"
proof (induction k arbitrary: init msg e)
  case (Suc k)
  show ?case unfolding eap_steps.simps by (rule ensures_bind ends assms Suc)+
qed (unfold eap_steps.simps, rule ends)

lemma examples_ensure:
  "ensures (dpd_probe fill C P IP env ent ike_addr psk cid) (\<lambda>_. False)"
  "ensures (rekey_probe fill C P IP env ent ike_addr psk cid) (\<lambda>_. False)"
  "ensures (retransmit_probe fill C P IP env ent ike_addr psk cid) (\<lambda>_. False)"
  "ensures (rekey_e2e fill C P IP env ent ike_addr esp_addr psk cid) (\<lambda>_. False)"
  "ensures (ike_client fill C P IP env ent ike_addr esp_addr psk cid override dst) (\<lambda>_. False)"
  "ensures (ike_client_eap fill C P IP env ent ike_addr user pw sid ca clock cr) (\<lambda>_. False)"
  unfolding dpd_probe_def rekey_probe_def retransmit_probe_def rekey_e2e_def ike_client_def ike_client_eap_def Let_def
  by (rule ensures_bind ends | assumption)+

text \<open>The NAT-T client waits on a clock: every receive call takes time.\<close>

definition ticks :: "('w world \<Rightarrow> nat) \<Rightarrow> 'w environment \<Rightarrow> bool" where
  "ticks now env \<longleftrightarrow> (\<forall>sock cap w. now w < now (snd (receive env sock cap w)))"

lemma natt_poll_ticks:
  assumes "ticks now env" "ut_timeout sock \<noteq> None" "natt_poll C env sock csa w = (st, w')"
  shows "now w < now w' \<and> st \<noteq> WaitHangs"
proof -
  obtain r v where r: "receive env sock 4096 w = (r, v)" by (cases "receive env sock 4096 w")
  have "r \<noteq> Hangs" "r \<noteq> Aborts" "r \<noteq> Exits n" for n
    using r assms(2) by (auto simp: receive_def socket_recv_not_blocked split: prod.splits io.splits)
  moreover have "now w < now v" using assms(1) r unfolding ticks_def by (metis snd_conv)
  ultimately show ?thesis
    using assms(3) r by (cases r) (auto simp: natt_poll_def split: option.splits res.splits bool.splits if_splits prod.splits)
qed

lemma natt_wait_ends:
  assumes "ticks now env" "ut_timeout sock \<noteq> None"
  shows "\<exists>st w'. natt_wait now C env sock csa deadline w = Some (st, w') \<and> st \<noteq> WaitHangs"
proof -
  let ?b = "\<lambda>(st, w). st = Waiting \<and> now w < deadline" and ?c = "\<lambda>(st, w). natt_poll C env sock csa w"
  have step: "fst (?c s) \<noteq> WaitHangs" "?b s \<Longrightarrow> deadline - now (snd (?c s)) < deadline - now (snd s)" for s
    using natt_poll_ticks[OF assms, of C csa "snd s"] by (cases "?c s"; force split: prod.splits)+
  have "\<exists>t. while_option ?b ?c (Waiting, w) = Some t"
    by (rule measure_while_option_Some[where P = "\<lambda>_. True" and f = "\<lambda>s. deadline - now (snd s)"]) (use step(2) in simp_all)
  then obtain t where t: "while_option ?b ?c (Waiting, w) = Some t" by blast
  have "fst t \<noteq> WaitHangs"
    by (rule while_option_rule[where P = "\<lambda>s. fst s \<noteq> WaitHangs", OF _ t]) (use step(1) in simp_all)
  with t show ?thesis by (cases t) (simp add: natt_wait_def)
qed

lemma ensures_natt_await [ends]:
  assumes "ticks now env" "ut_timeout sock \<noteq> None"
  shows "ensures (natt_await now C env sock csa) (\<lambda>_. True)"
  unfolding ensures_def
proof
  fix w
  obtain st w' where "natt_wait now C env sock csa (now w + from_secs 2) w = Some (st, w')" "st \<noteq> WaitHangs"
    using natt_wait_ends[OF assms] by blast
  then show "case fst (natt_await now C env sock csa w) of Returns x \<Rightarrow> True | Exits n \<Rightarrow> n \<le> 1 | Aborts \<Rightarrow> True | Hangs \<Rightarrow> False"
    by (cases st) (simp_all add: natt_await_def)
qed

lemma ensures_natt_pings [ends]:
  assumes "ticks now env" "ut_timeout sock \<noteq> None"
  shows "ensures (natt_pings now IP C env sock to src dst seqs csa) (\<lambda>_. False)"
proof (induction seqs arbitrary: csa)
  case (Cons seq seqs)
  show ?case unfolding natt_pings.simps Let_def by (rule ensures_bind ends assms Cons)+
qed (unfold natt_pings.simps, rule ends)

lemma natt_ensures:
  assumes "ticks now env"
  shows "ensures (ike_client_natt now fill C P IP env ent ike500 esp4500 psk cid dst) (\<lambda>_. False)"
  unfolding ike_client_natt_def Let_def by (rule ensures_bind ends assms | assumption)+

lemma ensures_ends: "ensures m (\<lambda>_. False) \<Longrightarrow> fst (m w) \<in> {Exits 0, Exits 1, Aborts}"
  unfolding ensures_def by (cases "fst (m w)") (auto simp: le_Suc_eq dest: spec[of _ w])

section \<open>What a successful exit proves\<close>

text \<open>A step that does not end the program itself.\<close>

definition quiet :: "('s, 'a) prog \<Rightarrow> bool" where
  "quiet m \<longleftrightarrow> (\<forall>w n w'. m w \<noteq> (Exits n, w'))"

lemma bindP_Exits:
  "quiet m \<Longrightarrow> bindP m f w = (Exits n, w') \<longleftrightarrow> (\<exists>x v. m w = (Returns x, v) \<and> f x v = (Exits n, w'))"
  by (auto simp: bindP_def quiet_def split: prod.splits outcome.splits)

lemma bindP_Returns:
  "bindP m f w = (Returns y, w') \<longleftrightarrow> (\<exists>x v. m w = (Returns x, v) \<and> f x v = (Returns y, w'))"
  by (auto simp: bindP_def split: prod.splits outcome.splits)

lemma quiet_bind: "quiet m \<Longrightarrow> (\<And>x. quiet (f x)) \<Longrightarrow> quiet (bindP m f)"
  by (auto simp: quiet_def bindP_def split: prod.splits outcome.splits)

lemma quiet_steps [simp]:
  "quiet (expectO mo)" "quiet (expectR mr)" "quiet (expectD md)" "quiet (retP x)"
  "quiet (open_socket IP secs)" "quiet (open_client IP e secs)" "quiet (send_datagram IP sock m to)" "quiet (receive env sock cap)"
  by (auto simp: quiet_def expectO_def expectR_def expectD_def retP_def open_socket_def open_client_def send_datagram_def
      receive_def split: option.splits res.splits driven.splits prod.splits io.splits)

lemma quiet_composed [simp]:
  "quiet (establish fill C P IP env ent to auth spi)" "quiet (plain_sa_init C IP env sock to loc)"
  "quiet (natt_await now C env sock csa)"
  by (auto simp: establish_def plain_sa_init_def quiet_bind)
    (auto simp: quiet_def natt_await_def split: option.splits wait.splits prod.splits)

lemma step_results:
  "expectO mo w = (Returns x, w') \<longleftrightarrow> mo = Some x \<and> w' = w"
  "expectR mr w = (Returns x, w') \<longleftrightarrow> mr = Ok x \<and> w' = w"
  "expectD md w = (Returns x, w') \<longleftrightarrow> md w = (Done x, w')"
  "exitP n w = (Exits m, w') \<longleftrightarrow> m = n \<and> w' = w"
  "retP y w = (Returns x, w') \<longleftrightarrow> x = y \<and> w' = w"
  by (auto simp: expectO_def expectR_def expectD_def exitP_def retP_def split: option.splits res.splits driven.splits prod.splits)

lemma exit_results:
  "(case answer of Some x \<Rightarrow> f x | None \<Rightarrow> exitP 1) w = (Exits 0, w') \<longleftrightarrow> (\<exists>x. answer = Some x \<and> f x w = (Exits 0, w'))"
  "(case r of Ok x \<Rightarrow> exitP 0 | Err e \<Rightarrow> exitP 1 | Panic \<Rightarrow> expectO None) w = (Exits 0, w') \<longleftrightarrow> (\<exists>x. r = Ok x) \<and> w' = w"
  "(if b then exitP 0 else exitP 1) w = (Exits 0, w') \<longleftrightarrow> b \<and> w' = w"
  "(case p of (d, _, v) \<Rightarrow> (d, v)) = (Done y, w') \<longleftrightarrow> (\<exists>c. p = (Done y, c, w'))"
  by (auto simp: exitP_def expectO_def split: option.splits res.splits prod.splits)

lemmas prog_iff = bindP_Exits bindP_Returns step_results exit_results

text \<open>
  What a program does on its sockets while it runs, from one world to another: the datagrams it sends and
  receives and the receive calls that time out, in order. Between two receive calls the environment
  moves once, as \<open>receive\<close> says; sockets are bound without an event.
\<close>

datatype io_event = Sent udp_transport bytes socket_addr | Got udp_transport bytes | Missed udp_transport

inductive io_trace :: "ip_layer \<Rightarrow> 'w environment \<Rightarrow> 'w world \<Rightarrow> io_event list \<Rightarrow> 'w world \<Rightarrow> bool" for IP env where
  Idle: "io_trace IP env w [] w"
| Binding: "transport_bind IP [any_port] (fst w) = (IoOk tp, net) \<Longrightarrow> io_trace IP env (net, snd w) es v \<Longrightarrow> io_trace IP env w es v"
| Sending: "send_datagram IP sock d to w = (Returns (), u) \<Longrightarrow> io_trace IP env u es v \<Longrightarrow> io_trace IP env w (Sent sock d to # es) v"
| Getting: "receive env sock cap w = (Returns (Some d), u) \<Longrightarrow> io_trace IP env u es v \<Longrightarrow> io_trace IP env w (Got sock d # es) v"
| Missing: "receive env sock cap w = (Returns None, u) \<Longrightarrow> io_trace IP env u es v \<Longrightarrow> io_trace IP env w (Missed sock # es) v"

lemma io_trace_append: "io_trace IP env w es u \<Longrightarrow> io_trace IP env u fs v \<Longrightarrow> io_trace IP env w (es @ fs) v"
  by (induction rule: io_trace.induct) (auto intro: io_trace.intros)

lemma io_trace_bind: "transport_bind IP [any_port] (fst w) = (IoOk tp, net) \<Longrightarrow> io_trace IP env w [] (net, snd w)"
  by (rule io_trace.Binding[OF _ io_trace.Idle])

lemma io_trace_steps:
  "open_socket IP secs w = (Returns sock, v) \<Longrightarrow> io_trace IP env w [] v"
  "open_client IP e secs w = (Returns cl, v) \<Longrightarrow> io_trace IP env w [] v"
  "send_datagram IP sock d to w = (Returns (), v) \<Longrightarrow> io_trace IP env w [Sent sock d to] v"
  "receive env sock cap w = (Returns (Some d), v) \<Longrightarrow> io_trace IP env w [Got sock d] v"
  "receive env sock cap w = (Returns None, v) \<Longrightarrow> io_trace IP env w [Missed sock] v"
  using io_trace_bind[of IP w]
  by (auto simp: open_socket_def open_client_def udp_client_bind_def split: prod.splits io.splits)
    (rule io_trace.intros(3-5)[OF _ io_trace.Idle], assumption)+

lemma io_trace_exchange:
  assumes "udp_exchange IP env tp to w req = (IoOk resp, v)"
  shows "io_trace IP env w [Sent tp req to, Got tp resp] v"
proof -
  obtain r1 net1 where s: "transport_send_to IP tp req to (fst w) = (r1, net1)" by fastforce
  obtain k where k: "r1 = IoOk k" using assms s by (cases r1) (auto simp: udp_exchange_def)
  then have "send_datagram IP tp req to w = (Returns (), (net1, snd w))" using s by (simp add: send_datagram_def)
  moreover have "receive env tp MAX_DATAGRAM (net1, snd w) = (Returns (Some resp), v)"
    using assms s k by (auto simp: udp_exchange_def receive_def transport_recv_from_def split: prod.splits io.splits)
  ultimately show ?thesis by (rule io_trace.Sending[OF _ io_trace.Getting[OF _ io_trace.Idle]])
qed

text \<open>
  A handshake that proves the peer: the program made \<open>req\<close> from its randomness and the default offer, completed on
  the answer \<open>m1\<close> with the IKE SA \<open>sa\<close>, asked \<open>auth_req\<close> over it, and the answer \<open>m2\<close> authenticated
  the peer and gave the CHILD SA.
\<close>

definition verified ::
    "'e filler \<Rightarrow> primitives \<Rightarrow> pki \<Rightarrow> 'e option \<Rightarrow> auth_config \<Rightarrow> u32 \<Rightarrow> bytes \<Rightarrow> bytes \<Rightarrow> bytes \<Rightarrow> bytes \<Rightarrow>
     completed_sa_init \<Rightarrow> child_sa \<Rightarrow> ipv4 option \<Rightarrow> bool" where
  "verified fill C P ent cfg spi req m1 auth_req m2 sa csa assigned \<longleftrightarrow>
     (\<exists>e loc e1 iv ident pspi. ent = Some e \<and> local_secret_generate fill e 32 = (loc, e1) \<and>
       initiator_request C loc default_offer = Ok req \<and> initiator_complete C loc req m1 = Ok sa \<and>
       initiator_auth_request C P sa cfg spi iv = Ok auth_req \<and>
       initiator_verify_auth C P sa m2 cfg = Ok (ident, pspi, assigned) \<and>
       child_sa_derive C (sk_d (ci_keys sa)) (ci_ni sa) (ci_nr sa) Initiator spi pspi = Ok csa)"

text \<open>The events of the handshake of \<open>Client\<close> with the server at an address.\<close>

definition authenticated ::
    "'e filler \<Rightarrow> primitives \<Rightarrow> pki \<Rightarrow> 'e option \<Rightarrow> socket_addr \<Rightarrow> auth_config \<Rightarrow> u32 \<Rightarrow> io_event list \<Rightarrow>
     completed_sa_init \<Rightarrow> child_sa \<Rightarrow> ipv4 option \<Rightarrow> bool" where
  "authenticated fill C P ent to cfg spi es sa csa assigned \<longleftrightarrow>
     (\<exists>sock req m1 auth_req m2. es = [Sent sock req to, Got sock m1, Sent sock auth_req to, Got sock m2] \<and>
       verified fill C P ent cfg spi req m1 auth_req m2 sa csa assigned)"

definition replied :: "primitives \<Rightarrow> child_sa \<Rightarrow> bytes \<Rightarrow> bool" where
  "replied C csa pkt \<longleftrightarrow> (\<exists>inner nh. esp_open C (ch_inbound csa) pkt = Ok (inner, nh) \<and> is_echo_reply inner)"

lemma client_connect_Done:
  assumes "client_connect fill C P net cfg spi e n = (Done (sa, ident, csa, assigned), e', v)"
  shows "\<exists>req m1 n1 auth_req m2. net n req = (IoOk m1, n1) \<and> net n1 auth_req = (IoOk m2, v) \<and>
    verified fill C P (Some e) cfg spi req m1 auth_req m2 sa csa assigned"
proof -
  obtain sa' e1 n1 where i: "client_sa_init fill C net e n = (Done sa', e1, n1)"
    using assms by (auto simp: client_connect_def split: prod.splits driven.splits)
  obtain ident' pspi ip e2 n2 where a: "client_authenticate fill C P net sa' cfg spi e1 n1 = (Done (ident', pspi, ip), e2, n2)"
    using assms i by (auto simp: client_connect_def split: prod.splits driven.splits)
  have "ike (child_sa_derive C (sk_d (ci_keys sa')) (ci_ni sa') (ci_nr sa') Initiator spi pspi) (\<lambda>c. Done (sa', ident', c, ip)) =
      Done (sa, ident, csa, assigned)" "n2 = v"
    using assms i a by (simp_all add: client_connect_def)
  then have c: "child_sa_derive C (sk_d (ci_keys sa)) (ci_ni sa) (ci_nr sa) Initiator spi pspi = Ok csa" "sa' = sa" "ip = assigned" "n2 = v"
    by (auto simp: ike_iff)
  obtain loc req m1 where i: "local_secret_generate fill e 32 = (loc, e1)" "initiator_request C loc default_offer = Ok req"
    "net n req = (IoOk m1, n1)" "initiator_complete C loc req m1 = Ok sa"
    using i c(2) by (auto simp: client_sa_init_def ike_iff Let_def split: prod.splits res.splits io.splits)
  obtain iv auth_req m2 where "initiator_auth_request C P sa cfg spi iv = Ok auth_req" "net n1 auth_req = (IoOk m2, v)"
    "initiator_verify_auth C P sa m2 cfg = Ok (ident', pspi, assigned)"
    using a c by (auto simp: client_authenticate_def Let_def ike_iff split: prod.splits res.splits io.splits)
  then show ?thesis using i c(1) unfolding verified_def by blast
qed

lemma establish_authenticated:
  assumes "establish fill C P IP env ent to cfg spi w = (Returns (sa, ident, csa, assigned), v)"
  obtains es where "io_trace IP env w es v" "authenticated fill C P ent to cfg spi es sa csa assigned"
proof -
  obtain e cl w1 where c: "ent = Some e" "open_client IP e 8 w = (Returns cl, w1)"
    "(case udp_client_connect fill C P IP env cl to cfg spi w1 of (r, _, w') \<Rightarrow> (r, w')) = (Done (sa, ident, csa, assigned), v)"
    using assms unfolding establish_def prog_iff by blast
  then obtain e' where "client_connect fill C P (udp_exchange IP env (uc_transport cl) to) cfg spi (uc_entropy cl) w1 =
      (Done (sa, ident, csa, assigned), e', v)"
    by (auto simp: udp_client_connect_def split: prod.splits)
  from client_connect_Done[OF this] obtain req m1 n1 auth_req m2 where x:
    "udp_exchange IP env (uc_transport cl) to w1 req = (IoOk m1, n1)" "udp_exchange IP env (uc_transport cl) to n1 auth_req = (IoOk m2, v)"
    "verified fill C P (Some (uc_entropy cl)) cfg spi req m1 auth_req m2 sa csa assigned"
    by blast
  have "uc_entropy cl = e"
    using c(2) by (auto simp: open_client_def udp_client_bind_def udp_client_set_read_timeout_def split: prod.splits io.splits)
  with x c(1) that[of "[Sent (uc_transport cl) req to, Got (uc_transport cl) m1, Sent (uc_transport cl) auth_req to, Got (uc_transport cl) m2]"]
    io_trace_append[OF io_trace_append[OF io_trace_steps(2)[OF c(2)] io_trace_exchange[OF x(1)]] io_trace_exchange[OF x(2)]]
  show thesis by (auto simp: authenticated_def)
qed

lemma ping_loop_step:
  assumes "ping_loop IP C env esp to src dst (seq # seqs) csa w = (Done b, c, v)"
  obtains d sa' u answer u' where "send_datagram IP esp d to w = (Returns (), u)" "receive env esp 2000 u = (Returns answer, u')"
    "(\<exists>pkt. answer = Some pkt \<and> replied C csa pkt \<and> v = u') \<or>
     ping_loop IP C env esp to src dst seqs (csa\<lparr>ch_outbound := sa'\<rparr>) u' = (Done b, c, v)"
proof -
  obtain q sa' where q: "esp_seal C (ch_outbound csa) (icmp_echo src dst 0x1234 seq) 4 = (q, sa')" by fastforce
  obtain d where d: "q = Ok d" using assms q by (cases q) auto
  obtain t net1 where t: "transport_send_to IP esp d to (fst w) = (t, net1)" by fastforce
  obtain k where k: "t = IoOk k" using assms q d t by (cases t) auto
  obtain net2 x where e: "env (net1, snd w) = (net2, x)" by fastforce
  obtain rc net3 where rc: "socket_recv_from esp (replicate 2000 0) net2 = (rc, net3)" by fastforce
  have s: "send_datagram IP esp d to w = (Returns (), (net1, snd w))" using t k by (simp add: send_datagram_def)
  let ?next = "ping_loop IP C env esp to src dst seqs (csa\<lparr>ch_outbound := sa'\<rparr>) (net3, x) = (Done b, c, v)"
  show thesis
  proof (cases rc)
    case (IoOk z)
    obtain buf n from_addr where z: "z = (buf, n, from_addr)" by (cases z)
    have r: "receive env esp 2000 (net1, snd w) = (Returns (Some (take n buf)), (net3, x))" using e rc IoOk z by (simp add: receive_def)
    have "(replied C csa (take n buf) \<and> v = (net3, x)) \<or> ?next"
    proof (cases "esp_open C (ch_inbound csa) (take n buf)")
      case (Ok i)
      then obtain inner nh where i: "esp_open C (ch_inbound csa) (take n buf) = Ok (inner, nh)" by (cases i) auto
      show ?thesis
      proof (cases "is_echo_reply inner")
        case True
        then show ?thesis using assms q d t k e rc IoOk z i unfolding replied_def by (auto simp: Let_def)
      next
        case False
        then show ?thesis using assms q d t k e rc IoOk z i by (auto simp: Let_def)
      qed
    next
      case (Err x)
      then show ?thesis using assms q d t k e rc IoOk z by (auto simp: Let_def)
    qed (use assms q d t k e rc IoOk z in simp)
    then show thesis using that[OF s r, of sa'] by blast
  next
    case IoErr
    then have "receive env esp 2000 (net1, snd w) = (Returns None, (net3, x))" ?next
      using assms q d t k e rc by (auto simp: receive_def Let_def)
    then show thesis using that[OF s] by blast
  qed (use assms q d t k e rc in \<open>auto simp: Let_def\<close>)
qed

lemma ping_loop_trace:
  assumes "ping_loop IP C env esp to src dst seqs csa w = (Done b, c, v)"
  shows "\<exists>es. io_trace IP env w es v \<and> (b \<longrightarrow> (\<exists>fs d pkt. es = fs @ [Sent esp d to, Got esp pkt] \<and> replied C csa pkt))"
  using assms
proof (induction seqs arbitrary: csa w)
  case Nil
  then show ?case by (auto intro: io_trace.Idle)
next
  case (Cons seq seqs)
  obtain d sa' u answer u' where s: "send_datagram IP esp d to w = (Returns (), u)" "receive env esp 2000 u = (Returns answer, u')"
    "(\<exists>pkt. answer = Some pkt \<and> replied C csa pkt \<and> v = u') \<or>
     ping_loop IP C env esp to src dst seqs (csa\<lparr>ch_outbound := sa'\<rparr>) u' = (Done b, c, v)"
    by (rule ping_loop_step[OF Cons.prems])
  let ?ev = "case answer of None \<Rightarrow> Missed esp | Some m \<Rightarrow> Got esp m"
  have "io_trace IP env u [?ev] u'" using s(2) by (cases answer) (simp_all add: io_trace_steps(4,5))
  note t = io_trace.Sending[OF s(1) this]
  from s(3) show ?case
  proof
    assume "\<exists>pkt. answer = Some pkt \<and> replied C csa pkt \<and> v = u'"
    then obtain pkt where "answer = Some pkt" "replied C csa pkt" "v = u'" by blast
    then show ?thesis using t by (intro exI[of _ "[Sent esp d to, Got esp pkt]"]) auto
  next
    assume "ping_loop IP C env esp to src dst seqs (csa\<lparr>ch_outbound := sa'\<rparr>) u' = (Done b, c, v)"
    from Cons.IH[OF this] obtain es where es: "io_trace IP env u' es v"
      "b \<longrightarrow> (\<exists>fs d pkt. es = fs @ [Sent esp d to, Got esp pkt] \<and> replied C csa pkt)"
      by (auto simp: replied_def)
    have "b \<longrightarrow> (\<exists>fs d' pkt. [Sent esp d to, ?ev] @ es = fs @ [Sent esp d' to, Got esp pkt] \<and> replied C csa pkt)"
      using es(2) append_assoc by metis
    then show ?thesis using io_trace_append[OF t es(1)] by blast
  qed
qed

lemma asked_trace:
  assumes "io_trace IP env w es v" "open_socket IP secs v = (Returns sock, v1)" "send_datagram IP sock req to v1 = (Returns (), v2)"
    "receive env sock cap v2 = (Returns (Some buf), w')"
  shows "io_trace IP env w (es @ [Sent sock req to, Got sock buf]) w'"
  using io_trace_append[OF io_trace_append[OF assms(1) io_trace_steps(1)[OF assms(2)]]
      io_trace.Sending[OF assms(3) io_trace_steps(4)[OF assms(4)]]] by simp

lemma dpd_probe_success:
  assumes "dpd_probe fill C P IP env ent ike_addr psk cid w = (Exits 0, w')"
  shows "\<exists>es sa csa ip sock probe buf p. io_trace IP env w (es @ [Sent sock probe ike_addr, Got sock buf]) w' \<and>
    authenticated fill C P ent ike_addr (auth_config_psk (identification_fqdn cid) psk) 0xCAFED00D es sa csa ip \<and>
    dpd_request C sa 2 (replicate 8 0x11) = Ok probe \<and> open_informational C sa buf = Ok p"
proof -
  obtain sa ident csa ip v sock v1 probe v2 buf p where r:
    "establish fill C P IP env ent ike_addr (auth_config_psk (identification_fqdn cid) psk) 0xCAFED00D w = (Returns (sa, ident, csa, ip), v)"
    "open_socket IP 8 v = (Returns sock, v1)" "dpd_request C sa 2 (replicate 8 0x11) = Ok probe"
    "send_datagram IP sock probe ike_addr v1 = (Returns (), v2)" "receive env sock 2048 v2 = (Returns (Some buf), w')"
    "open_informational C sa buf = Ok p"
    using assms by (auto simp: dpd_probe_def prog_iff simp del: One_nat_def)
  from establish_authenticated[OF r(1)] obtain es where es: "io_trace IP env w es v"
    "authenticated fill C P ent ike_addr (auth_config_psk (identification_fqdn cid) psk) 0xCAFED00D es sa csa ip" .
  from asked_trace[OF es(1) r(2,4,5)] show ?thesis using es(2) r(3,6) by blast
qed

lemma rekey_probe_success:
  assumes "rekey_probe fill C P IP env ent ike_addr psk cid w = (Exits 0, w')"
  shows "\<exists>es sa csa ip sock req buf c. io_trace IP env w (es @ [Sent sock req ike_addr, Got sock buf]) w' \<and>
    authenticated fill C P ent ike_addr (auth_config_psk (identification_fqdn cid) psk) 0xCAFE1234 es sa csa ip \<and>
    build_rekey_request C sa 2 0xDEADBEEF 0x12345678 (replicate 32 0x37) (replicate 8 5) = Ok req \<and>
    initiator_complete_rekey C sa (replicate 32 0x37) 0x12345678 buf = Ok c"
proof -
  obtain sa ident csa ip v sock v1 req v2 buf c where r:
    "establish fill C P IP env ent ike_addr (auth_config_psk (identification_fqdn cid) psk) 0xCAFE1234 w = (Returns (sa, ident, csa, ip), v)"
    "open_socket IP 8 v = (Returns sock, v1)" "build_rekey_request C sa 2 0xDEADBEEF 0x12345678 (replicate 32 0x37) (replicate 8 5) = Ok req"
    "send_datagram IP sock req ike_addr v1 = (Returns (), v2)" "receive env sock 2048 v2 = (Returns (Some buf), w')"
    "initiator_complete_rekey C sa (replicate 32 0x37) 0x12345678 buf = Ok c"
    using assms by (auto simp: rekey_probe_def Let_def prog_iff simp del: One_nat_def)
  from establish_authenticated[OF r(1)] obtain es where es: "io_trace IP env w es v"
    "authenticated fill C P ent ike_addr (auth_config_psk (identification_fqdn cid) psk) 0xCAFE1234 es sa csa ip" .
  from asked_trace[OF es(1) r(2,4,5)] show ?thesis using es(2) r(3,6) by blast
qed

lemma ask_Returns:
  "ask IP env sock req to w = (Returns buf, v) \<Longrightarrow>
     \<exists>u. send_datagram IP sock req to w = (Returns (), u) \<and> receive env sock 2048 u = (Returns (Some buf), v)"
  by (auto simp: ask_def prog_iff retP_def exitP_def split: option.splits)

lemma bindP_ask_Exits:
  "bindP (ask IP env sock req to) f w = (Exits 0, w') \<longleftrightarrow> (\<exists>x v. ask IP env sock req to w = (Returns x, v) \<and> f x v = (Exits 0, w'))"
proof -
  have "ask IP env sock req to w \<noteq> (Exits 0, v)" for v by (auto simp: ask_def prog_iff retP_def exitP_def split: option.splits)
  then show ?thesis by (cases "ask IP env sock req to w") (auto simp: bindP_def split: outcome.splits)
qed

lemma retransmit_probe_success:
  assumes "retransmit_probe fill C P IP env ent ike_addr psk cid w = (Exits 0, w')"
  shows "\<exists>es sa csa ip sock probe buf.
    io_trace IP env w (es @ [Sent sock probe ike_addr, Got sock buf, Sent sock probe ike_addr, Got sock buf]) w' \<and>
    authenticated fill C P ent ike_addr (auth_config_psk (identification_fqdn cid) psk) 0xCAFEF00D es sa csa ip \<and>
    dpd_request C sa 2 (replicate 8 0x5a) = Ok probe"
proof -
  obtain sa ident csa ip v sock v1 probe buf v2 where r:
    "establish fill C P IP env ent ike_addr (auth_config_psk (identification_fqdn cid) psk) 0xCAFEF00D w = (Returns (sa, ident, csa, ip), v)"
    "open_socket IP 8 v = (Returns sock, v1)" "dpd_request C sa 2 (replicate 8 0x5a) = Ok probe"
    "ask IP env sock probe ike_addr v1 = (Returns buf, v2)" "ask IP env sock probe ike_addr v2 = (Returns buf, w')"
    using assms by (auto simp: retransmit_probe_def bindP_ask_Exits prog_iff simp del: One_nat_def)
  from establish_authenticated[OF r(1)] obtain es where es: "io_trace IP env w es v"
    "authenticated fill C P ent ike_addr (auth_config_psk (identification_fqdn cid) psk) 0xCAFEF00D es sa csa ip" .
  obtain u u' where u: "send_datagram IP sock probe ike_addr v1 = (Returns (), u)" "receive env sock 2048 u = (Returns (Some buf), v2)"
    "send_datagram IP sock probe ike_addr v2 = (Returns (), u')" "receive env sock 2048 u' = (Returns (Some buf), w')"
    using r(4,5) by (auto dest!: ask_Returns)
  have "io_trace IP env v2 [Sent sock probe ike_addr, Got sock buf] w'" by (rule io_trace.Sending[OF u(3) io_trace_steps(4)[OF u(4)]])
  from io_trace_append[OF asked_trace[OF es(1) r(2) u(1,2)] this] show ?thesis using es(2) r(3) by fastforce
qed

lemma ike_client_success:
  assumes "ike_client fill C P IP env ent ike_addr esp_addr psk cid override dst w = (Exits 0, w')"
  shows "\<exists>es sa csa ip fs sock d pkt. io_trace IP env w (es @ fs @ [Sent sock d esp_addr, Got sock pkt]) w' \<and>
    authenticated fill C P ent ike_addr (auth_config_psk (identification_fqdn cid) psk) 0xCAFEBABE es sa csa ip \<and>
    (ip \<noteq> None \<or> override \<noteq> None) \<and> replied C csa pkt"
proof -
  obtain sa ident csa ip v src sock v1 c where r:
    "establish fill C P IP env ent ike_addr (auth_config_psk (identification_fqdn cid) psk) 0xCAFEBABE w = (Returns (sa, ident, csa, ip), v)"
    "(case ip of Some ip \<Rightarrow> Some ip | None \<Rightarrow> override) = Some src" "open_socket IP 6 v = (Returns sock, v1)"
    "ping_loop IP C env sock esp_addr src dst [1, 2, 3, 4, 5] csa v1 = (Done True, c, w')"
    using assms by (auto simp: ike_client_def prog_iff simp del: ping_loop.simps One_nat_def)
  from establish_authenticated[OF r(1)] obtain es where es: "io_trace IP env w es v"
    "authenticated fill C P ent ike_addr (auth_config_psk (identification_fqdn cid) psk) 0xCAFEBABE es sa csa ip" .
  from ping_loop_trace[OF r(4)] obtain fs d pkt where p: "io_trace IP env v1 (fs @ [Sent sock d esp_addr, Got sock pkt]) w'" "replied C csa pkt"
    by blast
  have "ip \<noteq> None \<or> override \<noteq> None" using r(2) by (auto split: option.splits)
  moreover have "io_trace IP env w (es @ fs @ [Sent sock d esp_addr, Got sock pkt]) w'"
    using io_trace_append[OF io_trace_append[OF es(1) io_trace_steps(1)[OF r(3)]] p(1)] by simp
  ultimately show ?thesis using es(2) p(2) by blast
qed

lemma rekey_e2e_success:
  assumes "rekey_e2e fill C P IP env ent ike_addr esp_addr psk cid w = (Exits 0, w')"
  shows "\<exists>es sa csa ip fs ike req buf new gs esp d pkt.
    io_trace IP env w (es @ fs @ [Sent ike req ike_addr, Got ike buf] @ gs @ [Sent esp d esp_addr, Got esp pkt]) w' \<and>
    authenticated fill C P ent ike_addr (auth_config_psk (identification_fqdn cid) psk) 0xCAFE2468 es sa csa (Some ip) \<and>
    build_rekey_request C sa 2 0xDEADBEEF 0x0BADF00D (replicate 32 0x71) (replicate 8 3) = Ok req \<and>
    initiator_complete_rekey C sa (replicate 32 0x71) 0x0BADF00D buf = Ok new \<and> replied C new pkt"
proof -
  obtain sa ident csa ip v esp v1 b c v2 ike v3 req v4 buf v5 new c' where r:
    "establish fill C P IP env ent ike_addr (auth_config_psk (identification_fqdn cid) psk) 0xCAFE2468 w = (Returns (sa, ident, csa, Some ip), v)"
    "open_socket IP 6 v = (Returns esp, v1)" "ping IP C env esp esp_addr csa ip v1 = (Done b, c, v2)" "open_socket IP 8 v2 = (Returns ike, v3)"
    "build_rekey_request C sa 2 0xDEADBEEF 0x0BADF00D (replicate 32 0x71) (replicate 8 3) = Ok req"
    "send_datagram IP ike req ike_addr v3 = (Returns (), v4)" "receive env ike 2048 v4 = (Returns (Some buf), v5)"
    "initiator_complete_rekey C sa (replicate 32 0x71) 0x0BADF00D buf = Ok new" "ping IP C env esp esp_addr new ip v5 = (Done True, c', w')"
    using assms by (auto simp: rekey_e2e_def Let_def prog_iff simp del: One_nat_def)
  from establish_authenticated[OF r(1)] obtain es where es: "io_trace IP env w es v"
    "authenticated fill C P ent ike_addr (auth_config_psk (identification_fqdn cid) psk) 0xCAFE2468 es sa csa (Some ip)" .
  from ping_loop_trace[OF r(3)[unfolded ping_def]] obtain fs where fs: "io_trace IP env v1 fs v2" by blast
  from ping_loop_trace[OF r(9)[unfolded ping_def]] obtain gs d pkt where
    gs: "io_trace IP env v5 (gs @ [Sent esp d esp_addr, Got esp pkt]) w'" "replied C new pkt" by blast
  have "io_trace IP env w (es @ fs) v2" using io_trace_append[OF io_trace_append[OF es(1) io_trace_steps(1)[OF r(2)]] fs] by simp
  from io_trace_append[OF asked_trace[OF this r(4,6,7)] gs(1)] show ?thesis using es(2) r(5,8) gs(2) by fastforce
qed

lemma natt_poll_trace:
  assumes "natt_poll C env sock csa w = (st, v)" "st \<noteq> WaitHangs"
  shows "\<exists>ev. io_trace IP env w [ev] v \<and> (st = Replied \<longrightarrow> (\<exists>pkt. ev = Got sock pkt \<and> replied C csa pkt))"
proof -
  obtain answer where a: "receive env sock 4096 w = (Returns answer, v)"
    using assms by (auto simp: natt_poll_def split: prod.splits outcome.splits option.splits res.splits bool.splits if_splits)
  show ?thesis
  proof (cases answer)
    case None
    then have "st \<noteq> Replied" using a assms(1) by (auto simp: natt_poll_def)
    then show ?thesis using io_trace_steps(5)[OF a[unfolded None]] by blast
  next
    case (Some d)
    have "st = Replied \<longrightarrow> replied C csa d"
      using a assms(1) Some by (auto simp: natt_poll_def replied_def split: res.splits bool.splits prod.splits if_splits)
    then show ?thesis using io_trace_steps(4)[OF a[unfolded Some]] by blast
  qed
qed

lemma natt_wait_trace:
  assumes "natt_wait now C env sock csa deadline w = Some (st, v)" "st \<noteq> WaitHangs"
  shows "\<exists>es. io_trace IP env w es v \<and> (st = Replied \<longrightarrow> (\<exists>fs pkt. es = fs @ [Got sock pkt] \<and> replied C csa pkt))"
proof -
  let ?P = "\<lambda>(st, v). st \<noteq> WaitHangs \<longrightarrow>
    (\<exists>es. io_trace IP env w es v \<and> (st = Replied \<longrightarrow> (\<exists>fs pkt. es = fs @ [Got sock pkt] \<and> replied C csa pkt)))"
  have "?P (st, v)"
  proof (rule while_option_rule[where P = ?P, OF _ assms(1)[unfolded natt_wait_def]])
    fix s assume s: "?P s" "case s of (st, w) \<Rightarrow> st = Waiting \<and> now w < deadline"
    obtain u where u: "s = (Waiting, u)" using s(2) by (cases s) auto
    then obtain es where es: "io_trace IP env w es u" using s(1) by auto
    obtain st' v' where p: "natt_poll C env sock csa u = (st', v')" by (cases "natt_poll C env sock csa u")
    have "\<exists>es. io_trace IP env w es v' \<and> (st' = Replied \<longrightarrow> (\<exists>fs pkt. es = fs @ [Got sock pkt] \<and> replied C csa pkt))"
      if "st' \<noteq> WaitHangs"
      using natt_poll_trace[OF p that, of IP] io_trace_append[OF es] by blast
    then show "?P (case s of (st, w) \<Rightarrow> natt_poll C env sock csa w)" by (simp add: u p)
  qed (auto intro: io_trace.Idle)
  then show ?thesis using assms(2) by simp
qed

lemma natt_await_trace:
  assumes "natt_await now C env sock csa w = (Returns b, v)"
  shows "\<exists>es. io_trace IP env w es v \<and> (b \<longrightarrow> (\<exists>fs pkt. es = fs @ [Got sock pkt] \<and> replied C csa pkt))"
proof -
  obtain st where "natt_wait now C env sock csa (now w + from_secs 2) w = Some (st, v)" "st \<noteq> WaitHangs" "b \<longleftrightarrow> st = Replied"
    using assms by (auto simp: natt_await_def split: option.splits wait.splits prod.splits)
  then show ?thesis using natt_wait_trace[of now C env sock csa "now w + from_secs 2" w st v IP] by blast
qed

lemma natt_pings_trace:
  assumes "natt_pings now IP C env sock to src dst seqs csa w = (Exits 0, w')"
  shows "\<exists>fs pkt. io_trace IP env w (fs @ [Got sock pkt]) w' \<and> replied C csa pkt"
  using assms
proof (induction seqs arbitrary: csa w)
  case (Cons seq seqs)
  obtain r sa' where s: "esp_seal C (ch_outbound csa) (icmp_echo src dst 0 seq) 4 = (r, sa')" by fastforce
  let ?csa = "csa\<lparr>ch_outbound := sa'\<rparr>"
  obtain d v b u where r: "send_datagram IP sock d to w = (Returns (), v)"
    "natt_await now C env sock ?csa v = (Returns b, u)"
    "(if b then exitP 0 else natt_pings now IP C env sock to src dst seqs ?csa) u = (Exits 0, w')"
    using Cons.prems unfolding natt_pings.simps s prod.case Let_def
    by (auto simp: bindP_Exits step_results simp del: natt_pings.simps)
  have eq: "replied C ?csa = replied C csa" by (simp add: replied_def fun_eq_iff)
  obtain es where es: "io_trace IP env v es u" "b \<longrightarrow> (\<exists>fs pkt. es = fs @ [Got sock pkt] \<and> replied C csa pkt)"
    using natt_await_trace[OF r(2), of IP] unfolding eq by blast
  note t = io_trace.Sending[OF r(1) es(1)]
  show ?case
  proof (cases b)
    case True
    then obtain fs pkt where "es = fs @ [Got sock pkt]" "replied C csa pkt" using es(2) by blast
    then show ?thesis using t r(3) True by (intro exI[of _ "Sent sock d to # fs"] exI[of _ pkt]) (simp add: exitP_def)
  next
    case False
    then obtain fs pkt where "io_trace IP env u (fs @ [Got sock pkt]) w'" "replied C csa pkt"
      using Cons.IH[of ?csa u] r(3) by (auto simp: eq)
    then show ?thesis using io_trace_append[OF t] by (metis append_assoc)
  qed
qed (simp add: exitP_def)

lemma plain_sa_init_trace:
  assumes "plain_sa_init C IP env sock to loc w = (Returns (req, buf), v)"
  shows "initiator_request C loc default_offer = Ok req" "io_trace IP env w [Sent sock req to, Got sock buf] v"
proof -
  obtain u where u: "initiator_request C loc default_offer = Ok req" "send_datagram IP sock req to w = (Returns (), u)"
    "receive env sock 4096 u = (Returns (Some buf), v)"
    using assms by (auto simp: plain_sa_init_def prog_iff)
  show "initiator_request C loc default_offer = Ok req" by fact
  show "io_trace IP env w [Sent sock req to, Got sock buf] v" by (rule io_trace.Sending[OF u(2) io_trace_steps(4)[OF u(3)]])
qed

lemma ike_client_natt_success:
  assumes "ike_client_natt now fill C P IP env ent ike500 esp4500 psk cid dst w = (Exits 0, w')"
  shows "\<exists>sock req m1 auth_req b m2 sa csa ip fs pkt.
    io_trace IP env w ([Sent sock req ike500, Got sock m1, Sent sock (wrap_ike_4500 auth_req) esp4500, Got sock b] @ fs @ [Got sock pkt]) w' \<and>
    unwrap_ike_4500 b = Ok (Some m2) \<and>
    verified fill C P ent (auth_config_psk (identification_fqdn cid) psk) 0xBEEF0042 req m1 auth_req m2 sa csa (Some ip) \<and> replied C csa pkt"
proof -
  obtain e loc e1 where e: "ent = Some e" "local_secret_generate fill e 32 = (loc, e1)"
    using assms by (auto simp: ike_client_natt_def prog_iff) fastforce
  obtain iv e2 where iv: "fill e1 8 = (iv, e2)" by fastforce
  let ?cfg = "auth_config_psk (identification_fqdn cid) psk"
  obtain sock v1 req m1 v2 sa auth_req v3 b v4 m2 ident pspi ip csa where r: "open_socket IP 8 w = (Returns sock, v1)"
    "plain_sa_init C IP env sock ike500 loc v1 = (Returns (req, m1), v2)" "initiator_complete C loc req m1 = Ok sa"
    "initiator_auth_request C P sa ?cfg 0xBEEF0042 iv = Ok auth_req"
    "send_datagram IP sock (wrap_ike_4500 auth_req) esp4500 v2 = (Returns (), v3)" "receive env sock 4096 v3 = (Returns (Some b), v4)"
    "unwrap_ike_4500 b = Ok (Some m2)" "initiator_verify_auth C P sa m2 ?cfg = Ok (ident, pspi, Some ip)"
    "child_sa_derive C (sk_d (ci_keys sa)) (ci_ni sa) (ci_nr sa) Initiator 0xBEEF0042 pspi = Ok csa"
    "natt_pings now IP C env sock esp4500 ip dst [1, 2, 3, 4, 5] csa v4 = (Exits 0, w')"
    using assms by (auto simp: ike_client_natt_def Let_def prog_iff e iv simp del: natt_pings.simps One_nat_def)
  note i = plain_sa_init_trace[OF r(2)]
  from natt_pings_trace[OF r(10)] obtain fs pkt where p: "io_trace IP env v4 (fs @ [Got sock pkt]) w'" "replied C csa pkt" by blast
  have "io_trace IP env w ([Sent sock req ike500, Got sock m1, Sent sock (wrap_ike_4500 auth_req) esp4500, Got sock b] @ fs @ [Got sock pkt]) w'"
    using io_trace_append[OF io_trace_append[OF io_trace_append[OF io_trace_steps(1)[OF r(1)] i(2)]
        io_trace.Sending[OF r(5) io_trace_steps(4)[OF r(6)]]] p(1)] by simp
  moreover have "verified fill C P ent ?cfg 0xBEEF0042 req m1 auth_req m2 sa csa (Some ip)"
    using e i(1) r(3,4,8,9) unfolding verified_def by blast
  ultimately show ?thesis using r(7) p(2) by blast
qed

text \<open>The EAP client: only a server that proved itself gets this far.\<close>

lemma eap_steps_trace:
  assumes "eap_steps k fill C P IP env sock to init msg e w = (Exits 0, w')" "ei_verify init \<noteq> Insecure"
  shows "\<exists>es. io_trace IP env w es w' \<and> (ei_server_verified init \<or> (\<exists>m. Got sock m \<in> set es \<and> server_proof C P init m))"
  using assms
proof (induction k arbitrary: init msg e w)
  case (Suc k)
  obtain x u buf v where b: "send_datagram IP sock msg to w = (Returns x, u)" "receive env sock 4096 u = (Returns (Some buf), v)"
    "(case initiator_handle fill C P init buf e of (r, init', e') \<Rightarrow> bindP (expectR r) (\<lambda>ev.
      case ev of Reply nxt \<Rightarrow> eap_steps k fill C P IP env sock to init' nxt e' | EapEstablished _ \<Rightarrow> exitP 0 | Failed \<Rightarrow> exitP 1)) v =
      (Exits 0, w')"
    using Suc.prems(1) unfolding eap_steps.simps by (simp only: bindP_Exits quiet_steps step_results) blast
  obtain r init' e' where "initiator_handle fill C P init buf e = (r, init', e')" by (cases "initiator_handle fill C P init buf e")
  then obtain ev where h: "initiator_handle fill C P init buf e = (r, init', e')" "r = Ok ev"
    "(case ev of Reply nxt \<Rightarrow> eap_steps k fill C P IP env sock to init' nxt e' | EapEstablished _ \<Rightarrow> exitP 0 | Failed \<Rightarrow> exitP 1) v =
      (Exits 0, w')"
    using b(3) by (auto simp: prog_iff simp del: One_nat_def)
  note f = initiator_handle_frame[OF h(1)]
  have "ev \<noteq> Failed" using h(3) by (auto simp: exitP_def)
  then have ok: "ei_server_verified init \<or> server_proof C P init buf" using f h(2) Suc.prems(2) by blast
  have "\<exists>es. io_trace IP env v es w'"
  proof (cases ev)
    case (Reply nxt)
    then show ?thesis using Suc.IH[of init' nxt e' v] h(3) f Suc.prems(2) by auto
  qed (use h(3) in \<open>auto simp: exitP_def intro: io_trace.Idle\<close>)
  then obtain es where "io_trace IP env w (Sent sock msg to # Got sock buf # es) w'"
    using io_trace.Sending[OF _ io_trace.Getting[OF b(2)]] b(1) by (metis old.unit.exhaust)
  with ok show ?case by (intro exI[of _ "Sent sock msg to # Got sock buf # es"]) auto
qed (simp add: exitP_def)

lemma ike_client_eap_success:
  assumes "ike_client_eap fill C P IP env ent ike_addr user pw server_id ca_file clock cr w = (Exits 0, w')"
  shows "\<exists>e loc e1 sock req m1 es sa ca now m mid ps idr ab auth leaf inters.
    io_trace IP env w ([Sent sock req ike_addr, Got sock m1] @ es) w' \<and> ent = Some e \<and> local_secret_generate fill e 32 = (loc, e1) \<and>
    initiator_request C loc default_offer = Ok req \<and> initiator_complete C loc req m1 = Ok sa \<and>
    ca_file = Some ca \<and> clock = Some now \<and> Got sock m \<in> set es \<and> eap_decrypt C sa m = Ok (mid, ps) \<and>
    find_payload ps PT_IdResponder = Some idr \<and> find_payload ps PT_Authentication = Some ab \<and>
    authentication_parse ab = Ok auth \<and> cert_payloads_of ps = leaf # inters \<and> au_method auth = DIGITAL_SIGNATURE \<and>
    verify_cert_auth C P leaf inters [ca] (Some server_id) now (au_data auth)
      (responder_signed_octets C (ci_resp_message sa) (ci_ni sa) (sk_pr (ci_keys sa)) idr) = Ok ()"
proof -
  obtain ca e loc e1 where ca: "ca_file = Some ca" "ent = Some e" "local_secret_generate fill e 32 = (loc, e1)"
    using assms by (auto simp: ike_client_eap_def prog_iff) fastforce
  let ?init = "\<lambda>sa now. let init = eap_initiator_new sa (identification_fqdn user) user pw 0xEA90001
       (TrustedCas [ca] server_id now) in if cr then set_send_certreq init True else init"
  obtain now sa sock v1 req m1 v where now: "clock = Some now" "open_socket IP 8 w = (Returns sock, v1)"
    "plain_sa_init C IP env sock ike_addr loc v1 = (Returns (req, m1), v)" "initiator_complete C loc req m1 = Ok sa"
    and s: "(case eap_start fill C (?init sa now) e1 of (m, e2) \<Rightarrow>
       bindP (expectR m) (\<lambda>msg. eap_steps 12 fill C P IP env sock ike_addr (?init sa now) msg e2)) v = (Exits 0, w')"
    using assms by (auto simp: ike_client_eap_def ca Let_def prog_iff simp del: eap_steps.simps)
  define init where "init = ?init sa now"
  have i: "ei_sa init = sa" "ei_verify init = TrustedCas [ca] server_id now" "\<not> ei_server_verified init"
    by (simp_all add: init_def eap_initiator_new_def set_send_certreq_def Let_def)
  obtain msg e2 where "eap_steps 12 fill C P IP env sock ike_addr init msg e2 v = (Exits 0, w')"
    using s[folded init_def] by (cases "eap_start fill C init e1") (auto simp: prog_iff simp del: eap_steps.simps)
  from eap_steps_trace[OF this] obtain es m mid ps where es: "io_trace IP env v es w'"
    and m: "Got sock m \<in> set es" "eap_decrypt C sa m = Ok (mid, ps)" "verify_server C P init ps"
    using i by (auto simp: server_proof_def)
  note p = plain_sa_init_trace[OF now(3)]
  have "io_trace IP env w ([Sent sock req ike_addr, Got sock m1] @ es) w'"
    using io_trace_append[OF io_trace_append[OF io_trace_steps(1)[OF now(2)] p(2)] es] by simp
  with verify_server_trusted[OF m(3) i(2)] show ?thesis using ca now(1,4) p(1) m(1,2) unfolding i(1) by blast
qed

section \<open>Properties\<close>

text \<open>
  C19. Every example ends: whatever the network and the rest of the world do, each of the programs exits
  with status zero or one or panics; none waits for ever. For the NAT-T client, whose inner loop waits
  for a deadline while datagrams keep arriving, this holds when every receive call takes time.
\<close>
theorem examples_end:
  "fst (dpd_probe fill C P IP env ent ike_addr psk cid w) \<in> {Exits 0, Exits 1, Aborts} \<and>
   fst (rekey_probe fill C P IP env ent ike_addr psk cid w) \<in> {Exits 0, Exits 1, Aborts} \<and>
   fst (retransmit_probe fill C P IP env ent ike_addr psk cid w) \<in> {Exits 0, Exits 1, Aborts} \<and>
   fst (rekey_e2e fill C P IP env ent ike_addr esp_addr psk cid w) \<in> {Exits 0, Exits 1, Aborts} \<and>
   fst (ike_client fill C P IP env ent ike_addr esp_addr psk cid override dst w) \<in> {Exits 0, Exits 1, Aborts} \<and>
   fst (ike_client_eap fill C P IP env ent ike_addr user pw server_id ca_file clock certreq w) \<in> {Exits 0, Exits 1, Aborts} \<and>
   (ticks now env \<longrightarrow>
     fst (ike_client_natt now fill C P IP env ent ike_addr esp_addr psk cid dst w) \<in> {Exits 0, Exits 1, Aborts})"
  by (intro conjI impI ensures_ends examples_ensure natt_ensures)

theorem examples_end_witness:
  "fst (ike_client_natt snd seed_entropy_fill toy_primitives toy_pki sample_ip (\<lambda>(net, t). (net, Suc t)) (Some (seed_entropy_new 1))
     sample_gateway sample_gateway [1] [97] (Ipv4 1 1 1 1) (sample_net, 0)) \<in> {Exits 0, Exits 1, Aborts}"
proof -
  have "ticks snd (\<lambda>(net, t). (net, Suc t))"
    by (auto simp: ticks_def receive_def split: prod.splits io.splits)
  then show ?thesis using examples_end by blast
qed

end
