(* ===== verification/Gateway.thy ===== *)
theory Gateway
  imports Clients
begin

text \<open>
  The example programs of \<open>Clients\<close> run against a peer: the server driver of this repository alone, and
  a gateway as the examples expect one. The gateway is no code of the repository. It is the server
  driver with the library's own answers to the INFORMATIONAL and \<open>CREATE_CHILD_SA\<close> exchanges
  (\<open>build_informational\<close>, \<open>responder_process_rekey\<close>), a copy of its last answer for retransmitted requests, and a second socket
  for ESP behind which a host answers.

  The lemmas show that the probes and the client end with status zero against the gateway, and that
  against the server driver alone, which ignores both exchanges, the probes end with status one.
\<close>

section \<open>The gateway\<close>

record 'e node =
  nd_server :: "'e server"
  nd_child :: "child_sa option"
  nd_cache :: "(bytes \<times> bytes) option"

text \<open>Requests after the handshake, over the IKE SA they name.\<close>

definition node_answer ::
    "'e filler \<Rightarrow> primitives \<Rightarrow> completed_sa_init \<Rightarrow> ike_header \<Rightarrow> bytes \<Rightarrow> 'e \<Rightarrow> (bytes \<times> child_sa option) res \<times> 'e" where
  "node_answer fill C sa h data e =
     (case fill e 8 of (iv, e1) \<Rightarrow>
        if h_exchange_type h = Informational then
          (bindR (open_informational C sa data) (\<lambda>_.
           bindR (build_informational C sa (h_message_id h) True [] iv) (\<lambda>r. Ok (r, None))), e1)
        else
          (case fill e1 32 of (nr, e2) \<Rightarrow>
             (case next_u64 fill e2 of (spi, e3) \<Rightarrow>
                (bindR (responder_process_rekey C sa data (ucast spi) nr iv None) (\<lambda>(r, c). Ok (r, Some c)), e3))))"

definition node_later ::
    "'e filler \<Rightarrow> primitives \<Rightarrow> 'e node \<Rightarrow> ike_header \<Rightarrow> bytes \<Rightarrow> server_event driven \<times> bytes option \<times> 'e node" where
  "node_later fill C s h data =
     (case sv_sessions (nd_server s) (h_initiator_spi h, h_responder_spi h) of
        None \<Rightarrow> (Done Ignored, None, s)
      | Some sa \<Rightarrow>
          (case node_answer fill C sa h data (sv_entropy (nd_server s)) of
             (Ok (r, c), e') \<Rightarrow>
               (Done Ignored, Some r, s\<lparr>nd_server := (nd_server s)\<lparr>sv_entropy := e'\<rparr>, nd_cache := Some (data, r),
                  nd_child := (case c of Some c \<Rightarrow> Some c | None \<Rightarrow> nd_child s)\<rparr>)
           | (Err x, e') \<Rightarrow> (IkeFailed x, None, s\<lparr>nd_server := (nd_server s)\<lparr>sv_entropy := e'\<rparr>\<rparr>)
           | (Panic, e') \<Rightarrow> (Panicked, None, s)))"

definition node_shake ::
    "'e filler \<Rightarrow> primitives \<Rightarrow> pki \<Rightarrow> ('e node, server_event) handler" where
  "node_shake fill C P s rcv sends =
     (case handle_one fill C P (nd_server s) rcv sends of (ev, sent, s') \<Rightarrow>
        (ev, sent, s\<lparr>nd_server := s', nd_child :=
           (case ev of Done (ServerEstablished i r _) \<Rightarrow> sv_children s' (i, r) | _ \<Rightarrow> nd_child s)\<rparr>))"

definition node_handle ::
    "'e filler \<Rightarrow> primitives \<Rightarrow> pki \<Rightarrow> ('e node, server_event) handler" where
  "node_handle fill C P s rcv sends =
     (case rcv of
        IoOk data \<Rightarrow>
          (case ike_header_parse data of
             Ok h \<Rightarrow>
               if h_exchange_type h = Informational \<or> h_exchange_type h = CreateChildSa then
                 (case nd_cache s of
                    Some (q, r) \<Rightarrow> if q = data then (Done Ignored, Some r, s) else node_later fill C s h data
                  | None \<Rightarrow> node_later fill C s h data)
               else node_shake fill C P s rcv sends
           | _ \<Rightarrow> node_shake fill C P s rcv sends)
      | _ \<Rightarrow> node_shake fill C P s rcv sends)"

text \<open>The data plane: open, let the host behind answer, seal.\<close>

definition node_esp :: "primitives \<Rightarrow> (bytes \<Rightarrow> bytes) \<Rightarrow> ('e node, server_event) handler" where
  "node_esp C answer s rcv sends =
     (case rcv of
        IoErr \<Rightarrow> (IoFailed, None, s)
      | IoBlocked \<Rightarrow> (Blocked, None, s)
      | IoOk pkt \<Rightarrow>
          (case nd_child s of
             None \<Rightarrow> (Done Ignored, None, s)
           | Some c \<Rightarrow>
               (case esp_open C (ch_inbound c) pkt of
                  Ok (inner, nh) \<Rightarrow>
                    (case esp_seal C (ch_outbound c) (answer inner) nh of
                       (Ok d, sa') \<Rightarrow> (Done Ignored, Some d, s\<lparr>nd_child := Some (c\<lparr>ch_outbound := sa'\<rparr>)\<rparr>)
                     | _ \<Rightarrow> (Done Ignored, None, s))
                | _ \<Rightarrow> (Done Ignored, None, s))))"

record 'e gateway =
  gw_ike :: udp_transport
  gw_esp :: udp_transport
  gw_node :: "'e node"

definition gateway_turn ::
    "'e filler \<Rightarrow> primitives \<Rightarrow> pki \<Rightarrow> ip_layer \<Rightarrow> (bytes \<Rightarrow> bytes) \<Rightarrow> 'e gateway environment" where
  "gateway_turn fill C P IP answer w =
     (case w of (net, g) \<Rightarrow>
        (case over_udp IP (node_handle fill C P) (gw_ike g) (gw_node g) (deliver_all IP net) of (_, s1, net1) \<Rightarrow>
           (case over_udp IP (node_esp C answer) (gw_esp g) s1 net1 of (_, s2, net2) \<Rightarrow>
              (deliver_all IP net2, g\<lparr>gw_node := s2\<rparr>))))"

interpretation control: datagram_handler "node_handle fill C P" for fill C P
  by unfold_locales (simp_all add: node_handle_def node_shake_def handle_one_def)

interpretation plane: datagram_handler "node_esp C answer" for C answer
  by unfold_locales (simp_all add: node_esp_def)

section \<open>The network of the examples\<close>

definition local_socket :: "u16 \<Rightarrow> socket_addr" where
  "local_socket p = \<lparr>sock_ip = V4 (Ipv4 0 0 0 0), sock_port = p\<rparr>"

text \<open>The system has a free port, and a socket of the client is connected with the one that owns an address.\<close>

definition gives_ports :: "ip_layer \<Rightarrow> bool" where
  "gives_ports IP \<longleftrightarrow> (\<forall>net. length (un_bound net) \<le> 100 \<longrightarrow>
     (\<exists>p. il_port IP net (V4 (Ipv4 0 0 0 0)) = Some p \<and> local_socket p \<notin> set (un_bound net)))"

definition serves :: "ip_layer \<Rightarrow> socket_addr \<Rightarrow> udp_transport \<Rightarrow> udp_net \<Rightarrow> bool" where
  "serves IP to b net \<longleftrightarrow> carries IP to b net \<and> (\<forall>p. il_owner IP (il_source IP (local_socket p) to) = Some (local_socket p))"

lemma bind_serves:
  assumes "gives_ports IP" "length (un_bound net) \<le> 100"
  obtains tp net' where "transport_bind IP [any_port] net = (IoOk tp, net')" "length (un_bound net') = Suc (length (un_bound net))"
    "\<And>to b. serves IP to b net \<Longrightarrow> serves IP to b net'"
    "\<And>to b dur. serves IP to b net \<Longrightarrow> connected IP (tp\<lparr>ut_timeout := dur\<rparr>) to b net'"
    "\<And>a. un_inbox net a = [] \<Longrightarrow> un_inbox net' a = []"
proof -
  obtain p where p: "il_port IP net (V4 (Ipv4 0 0 0 0)) = Some p" "local_socket p \<notin> set (un_bound net)"
    using assms unfolding gives_ports_def by blast
  let ?tp = "\<lparr>ut_addr = local_socket p, ut_timeout = None\<rparr>"
  let ?net = "net\<lparr>un_bound := local_socket p # un_bound net, un_inbox := (un_inbox net)(local_socket p := [])\<rparr>"
  have "transport_bind IP [any_port] net = (IoOk ?tp, ?net)"
    using p by (simp add: transport_bind_def bind_one_def any_port_def local_socket_def)
  moreover have "serves IP to b ?net" if "serves IP to b net" for to b
    using that p(2) by (auto simp: serves_def carries_def)
  moreover have "connected IP (?tp\<lparr>ut_timeout := dur\<rparr>) to b ?net" if "serves IP to b net" for to b dur
    using that p(2) by (auto simp: serves_def carries_def connected_def)
  ultimately show thesis using that[of ?tp ?net] by simp
qed

lemma open_socket_serves:
  assumes "gives_ports IP" "length (un_bound net) \<le> 100" "0 < secs"
  obtains tp net' where "open_socket IP secs (net, x) = (Returns tp, (net', x))" "length (un_bound net') = Suc (length (un_bound net))"
    "ut_timeout tp \<noteq> None" "\<And>to b. serves IP to b net \<Longrightarrow> serves IP to b net'" "\<And>to b. serves IP to b net \<Longrightarrow> connected IP tp to b net'"
    "\<And>a. un_inbox net a = [] \<Longrightarrow> un_inbox net' a = []"
proof -
  obtain tp net' where b: "transport_bind IP [any_port] net = (IoOk tp, net')" "length (un_bound net') = Suc (length (un_bound net))"
    "\<And>to b. serves IP to b net \<Longrightarrow> serves IP to b net'"
    "\<And>to b dur. serves IP to b net \<Longrightarrow> connected IP (tp\<lparr>ut_timeout := dur\<rparr>) to b net'" "\<And>a. un_inbox net a = [] \<Longrightarrow> un_inbox net' a = []"
    by (rule bind_serves[OF assms(1,2)]) blast
  have "open_socket IP secs (net, x) = (Returns (tp\<lparr>ut_timeout := Some (from_secs secs)\<rparr>), (net', x))"
    using b(1) assms(3) by (simp add: open_socket_def transport_set_read_timeout_def from_secs_def)
  then show thesis using that[OF _ b(2) _ b(3) b(4) b(5)] by fastforce
qed

section \<open>Requests to the gateway\<close>

lemma send_keeps_inbox: "transport_send_to IP tp m to net = (r, net') \<Longrightarrow> un_inbox net' = un_inbox net"
  by (auto simp: transport_send_to_def split: if_splits)

lemma gateway_answers:
  assumes c: "connected IP tp to (gw_ike g) net" and idle: "un_inbox net (ut_addr (gw_esp g)) = []"
    and len: "length m \<le> UDP_PAYLOAD" "length r \<le> UDP_PAYLOAD"
    and h: "\<forall>sends. udp_ok sends \<longrightarrow> node_handle fill C P (gw_node g) (IoOk m) sends = (ev, Some r, s')"
  obtains net1 net2 src where "transport_send_to IP tp m to net = (IoOk (length m), net1)"
    "gateway_turn fill C P IP answer (net1, g) = (net2, g\<lparr>gw_node := s'\<rparr>)"
    "transport_recv_from tp net2 = (IoOk (r, src), net)"
    "\<And>n. length r \<le> n \<Longrightarrow> socket_recv_from tp (replicate n 0) net2 = (IoOk (r @ replicate (n - length r) 0, length r, src), net)"
proof -
  let ?src = "il_source IP (ut_addr tp) to"
  have k: "carries IP ?src tp net" using c by (simp add: connected_def)
  obtain net1 where net1: "transport_send_to IP tp m to net = (IoOk (length m), net1)"
    "over_udp IP (node_handle fill C P) (gw_ike g) (gw_node g) (deliver_all IP net1) =
      (ev, s', reply IP (gw_ike g) (IoOk (m, ?src)) (Some r) net)"
    by (rule control.over_udp_request[OF c len(1) h])
  obtain net2 src where net2: "transport_send_to IP (gw_ike g) r ?src net = (IoOk (length r), net2)"
    "transport_recv_from tp (deliver_all IP net2) = (IoOk (r, src), net)"
    "\<And>n. length r \<le> n \<Longrightarrow> socket_recv_from tp (replicate n 0) (deliver_all IP net2) =
      (IoOk (r @ replicate (n - length r) 0, length r, src), net)"
    using send_deliver_recv[OF k len(2), of "gw_ike g"] by metis
  have "over_udp IP (node_esp C answer) (gw_esp g) s' net2 = (if ut_timeout (gw_esp g) = None then Blocked else IoFailed, s', net2)"
    using idle send_keeps_inbox[OF net2(1)] by (intro plane.over_udp_empty) simp
  then have "gateway_turn fill C P IP answer (net1, g) = (deliver_all IP net2, g\<lparr>gw_node := s'\<rparr>)"
    using net1(2) net2(1) by (simp add: gateway_turn_def reply_def)
  from that[OF net1(1) this net2(2,3)] show thesis by blast
qed

lemma gateway_echoes:
  assumes c: "connected IP tp to (gw_esp g) net" and idle: "un_inbox net (ut_addr (gw_ike g)) = []" "ut_addr (gw_ike g) \<noteq> ut_addr (gw_esp g)"
    and len: "length m \<le> UDP_PAYLOAD" "length r \<le> UDP_PAYLOAD"
    and h: "\<forall>sends. udp_ok sends \<longrightarrow> node_esp C answer (gw_node g) (IoOk m) sends = (ev, Some r, s')"
  obtains net1 net2 src where "transport_send_to IP tp m to net = (IoOk (length m), net1)"
    "gateway_turn fill C P IP answer (net1, g) = (net2, g\<lparr>gw_node := s'\<rparr>)"
    "\<And>n. length r \<le> n \<Longrightarrow> socket_recv_from tp (replicate n 0) net2 = (IoOk (r @ replicate (n - length r) 0, length r, src), net)"
proof -
  let ?src = "il_source IP (ut_addr tp) to"
  have k: "carries IP to (gw_esp g) net" "carries IP ?src tp net" using c by (simp_all add: connected_def)
  obtain net1 where net1: "transport_send_to IP tp m to net = (IoOk (length m), net1)"
    "deliver_all IP net1 = net\<lparr>un_inbox := (un_inbox net)(ut_addr (gw_esp g) := [(m, ?src)])\<rparr>"
    by (rule send_deliver[OF k(1) len(1)])
  have o: "over_udp IP (node_esp C answer) (gw_esp g) (gw_node g) (deliver_all IP net1) =
      (ev, s', reply IP (gw_esp g) (IoOk (m, ?src)) (Some r) net)"
    by (rule plane.over_udp_request[OF c len(1) h]) (use net1(1) in simp)
  obtain net2 src where net2: "transport_send_to IP (gw_esp g) r ?src net = (IoOk (length r), net2)"
    "\<And>n. length r \<le> n \<Longrightarrow> socket_recv_from tp (replicate n 0) (deliver_all IP net2) =
      (IoOk (r @ replicate (n - length r) 0, length r, src), net)"
    using send_deliver_recv[OF k(2) len(2), of "gw_esp g"] by metis
  have "over_udp IP (node_handle fill C P) (gw_ike g) (gw_node g) (deliver_all IP net1) =
      (if ut_timeout (gw_ike g) = None then Blocked else IoFailed, gw_node g, deliver_all IP net1)"
    using idle net1(2) by (intro control.over_udp_empty) simp
  then have "gateway_turn fill C P IP answer (net1, g) = (deliver_all IP net2, g\<lparr>gw_node := s'\<rparr>)"
    using o net2(1) by (simp add: gateway_turn_def reply_def)
  from that[OF net1(1) this net2(2)] show thesis by blast
qed

section \<open>The handshake with the gateway\<close>

lemma handle_one_replies:
  assumes "handle_one fill C P s (IoOk m) sends = (ev, Some r, s')" "ike_header_parse m = Ok h"
  shows "h_exchange_type h = IkeSaInit \<or> h_exchange_type h = IkeAuth"
  using assms by (auto simp: handle_one_def split: exchange_type.splits)

lemma node_shakes:
  assumes "handle_one fill C P (nd_server s) (IoOk m) sends = (ev, Some r, s')"
  shows "node_handle fill C P s (IoOk m) sends = (ev, Some r, s\<lparr>nd_server := s', nd_child :=
    (case ev of Done (ServerEstablished i r _) \<Rightarrow> sv_children s' (i, r) | _ \<Rightarrow> nd_child s)\<rparr>)"
  using assms handle_one_replies[OF assms]
  by (auto simp: node_handle_def node_shake_def split: res.splits)

text \<open>The CHILD SA in use is the only one, when there is only one.\<close>

definition only_child :: "'e node \<Rightarrow> bool" where
  "only_child s \<longleftrightarrow> (\<forall>k c. sv_children (nd_server s) = [k \<mapsto> c] \<longrightarrow> nd_child s = Some c)"

lemma only_child_shake:
  assumes "handle_one fill C P (nd_server s) rcv sends = (ev, sent, s')" "only_child s"
  shows "only_child (s\<lparr>nd_server := s', nd_child :=
    (case ev of Done (ServerEstablished i r _) \<Rightarrow> sv_children s' (i, r) | _ \<Rightarrow> nd_child s)\<rparr>)"
proof -
  have upd: "m(k \<mapsto> c) = [k' \<mapsto> c'] \<Longrightarrow> c' = c" for m :: "spi_pair \<rightharpoonup> child_sa" and k c k' c'
    by (metis fun_upd_apply option.inject option.distinct(1))
  consider e' where "s' = (nd_server s)\<lparr>sv_entropy := e'\<rparr>"
      "(\<exists>x. ev = IkeFailed x) \<or> ev = IoFailed \<or> ev = Blocked \<or> ev = Panicked \<or> ev = Done Ignored"
    | e' sa where "s' = (nd_server s)\<lparr>sv_entropy := e', sv_sessions := (sv_sessions (nd_server s))((ci_spi_i sa, ci_spi_r sa) \<mapsto> sa)\<rparr>"
      "ev = Done (SaInit (ci_spi_i sa) (ci_spi_r sa))"
    | e' i r c ident where "s' = (nd_server s)\<lparr>sv_entropy := e', sv_children := (sv_children (nd_server s))((i, r) \<mapsto> c)\<rparr>"
      "ev = Done (ServerEstablished i r ident)"
    using handle_one_cases[OF assms(1)] by metis
  then show ?thesis
  proof cases
    case 1
    then show ?thesis using assms(2) by (auto simp: only_child_def)
  next
    case 2
    then show ?thesis using assms(2) by (simp add: only_child_def)
  next
    case (3 e' i r c ident)
    have "nd_child (s\<lparr>nd_server := s', nd_child := Some c\<rparr>) = Some c'" if "sv_children s' = [k' \<mapsto> c']" for k' c'
      using upd[of "sv_children (nd_server s)" "(i, r)" c k' c'] that 3(1) by simp
    then show ?thesis using 3 by (simp add: only_child_def)
  qed
qed

interpretation gw: answering_net fs C P "udp_exchange IP (gateway_turn fs C P IP answer) tp to" "\<lambda>w. nd_server (gw_node (snd w))"
  "\<lambda>w. connected IP tp to (gw_ike (snd w)) (fst w) \<and> un_inbox (fst w) (ut_addr (gw_esp (snd w))) = [] \<and> only_child (gw_node (snd w)) \<and>
     nd_cache (gw_node (snd w)) = None \<and> gw_ike (snd w) = st \<and> gw_esp (snd w) = est \<and> fst w = start"
  for fs C P IP answer tp to st est start
proof
  fix n :: "udp_net \<times> 'a gateway" and req resp :: bytes and ev s'
  assume g: "connected IP tp to (gw_ike (snd n)) (fst n) \<and> un_inbox (fst n) (ut_addr (gw_esp (snd n))) = [] \<and> only_child (gw_node (snd n)) \<and>
     nd_cache (gw_node (snd n)) = None \<and> gw_ike (snd n) = st \<and> gw_esp (snd n) = est \<and> fst n = start"
    and len: "length req \<le> UDP_PAYLOAD" "length resp \<le> UDP_PAYLOAD"
    and h: "\<forall>sends. udp_ok sends \<longrightarrow> handle_one fs C P (nd_server (gw_node (snd n))) (IoOk req) sends = (ev, Some resp, s')"
  obtain net w where n: "n = (net, w)" by (cases n)
  let ?s = "(gw_node w)\<lparr>nd_server := s', nd_child :=
    (case ev of Done (ServerEstablished i r _) \<Rightarrow> sv_children s' (i, r) | _ \<Rightarrow> nd_child (gw_node w))\<rparr>"
  have nh: "\<forall>sends. udp_ok sends \<longrightarrow> node_handle fs C P (gw_node w) (IoOk req) sends = (ev, Some resp, ?s)"
    using h n node_shakes by fastforce
  have c: "connected IP tp to (gw_ike w) net" "un_inbox net (ut_addr (gw_esp w)) = []" using g n by auto
  obtain net1 net2 src where "transport_send_to IP tp req to net = (IoOk (length req), net1)"
    "gateway_turn fs C P IP answer (net1, w) = (net2, w\<lparr>gw_node := ?s\<rparr>)" "transport_recv_from tp net2 = (IoOk (resp, src), net)"
    by (rule gateway_answers[OF c len nh, of answer]) (rule that, assumption+)
  then have "udp_exchange IP (gateway_turn fs C P IP answer) tp to n req = (IoOk resp, (net, w\<lparr>gw_node := ?s\<rparr>))"
    by (simp add: udp_exchange_def n)
  moreover have "only_child ?s"
  proof (rule only_child_shake)
    show "handle_one fs C P (nd_server (gw_node w)) (IoOk req) (\<lambda>_. True) = (ev, Some resp, s')" using h n by simp
  qed (use g n in simp)
  ultimately show "\<exists>n'. udp_exchange IP (gateway_turn fs C P IP answer) tp to n req = (IoOk resp, n') \<and>
      (connected IP tp to (gw_ike (snd n')) (fst n') \<and> un_inbox (fst n') (ut_addr (gw_esp (snd n'))) = [] \<and> only_child (gw_node (snd n')) \<and>
        nd_cache (gw_node (snd n')) = None \<and> gw_ike (snd n') = st \<and> gw_esp (snd n') = est \<and> fst n' = start) \<and>
      nd_server (gw_node (snd n')) = s'"
    using g n by auto
qed

text \<open>A gateway before its first client, and a network on which the clients reach both of its sockets.\<close>

definition gateway_ready :: "ip_layer \<Rightarrow> socket_addr \<Rightarrow> socket_addr \<Rightarrow> udp_net \<Rightarrow> 'e gateway \<Rightarrow> bool" where
  "gateway_ready IP ike_addr esp_addr net g \<longleftrightarrow> gives_ports IP \<and> length (un_bound net) \<le> 90 \<and>
     serves IP ike_addr (gw_ike g) net \<and> serves IP esp_addr (gw_esp g) net \<and> ut_addr (gw_ike g) \<noteq> ut_addr (gw_esp g) \<and>
     sv_children (nd_server (gw_node g)) = Map.empty \<and> nd_cache (gw_node g) = None"

lemma gateway_establish:
  assumes C: "x25519_correct C" "modpow_correct C" "gcm_correct C" "entropy fc" "entropy fs"
    and cfg: "matching_configs C P cfg (sv_auth (nd_server (gw_node g)))" and r: "gateway_ready IP ike_addr esp_addr net g"
  obtains sa c c' net1 g1 where "establish fc C P IP (gateway_turn fs C P IP answer) (Some e) ike_addr cfg spi (net, g) =
      (Returns (sa, ac_id (sv_auth (nd_server (gw_node g))), c, None), (net1, g1))"
    "ci_role sa = Initiator" "gcm_keys sa"
    "sv_sessions (nd_server (gw_node g1)) (ci_spi_i sa, ci_spi_r sa) = Some (sa\<lparr>ci_role := Responder\<rparr>)"
    "nd_child (gw_node g1) = Some c'" "nd_cache (gw_node g1) = None"
    "ch_outbound c = ch_inbound c'" "ch_inbound c = ch_outbound c'" "esp_wf (ch_outbound c)" "esp_wf (ch_inbound c)"
    "es_seq (ch_outbound c) = 0" "es_seq (ch_outbound c') = 0"
    "serves IP ike_addr (gw_ike g1) net1" "serves IP esp_addr (gw_esp g1) net1" "ut_addr (gw_ike g1) \<noteq> ut_addr (gw_esp g1)"
    "length (un_bound net1) \<le> 91"
proof -
  have r': "gives_ports IP" "length (un_bound net) \<le> 100" "serves IP ike_addr (gw_ike g) net" "serves IP esp_addr (gw_esp g) net"
    "ut_addr (gw_ike g) \<noteq> ut_addr (gw_esp g)" "sv_children (nd_server (gw_node g)) = Map.empty" "nd_cache (gw_node g) = None"
    using r by (simp_all add: gateway_ready_def)
  obtain tp net1 where b: "transport_bind IP [any_port] net = (IoOk tp, net1)" "length (un_bound net1) = Suc (length (un_bound net))"
    "\<And>to b. serves IP to b net \<Longrightarrow> serves IP to b net1"
    "\<And>to b dur. serves IP to b net \<Longrightarrow> connected IP (tp\<lparr>ut_timeout := dur\<rparr>) to b net1"
    using bind_serves[OF r'(1,2)] by metis
  let ?tp = "tp\<lparr>ut_timeout := Some (from_secs 8)\<rparr>"
  let ?cl = "\<lparr>uc_transport = ?tp, uc_entropy = e\<rparr>"
  have o: "open_client IP e 8 (net, g) = (Returns ?cl, (net1, g))"
    using b(1) by (simp add: open_client_def udp_client_bind_def udp_client_set_read_timeout_def transport_set_read_timeout_def from_secs_def)
  have s: "serves IP ike_addr (gw_ike g) net1" "serves IP esp_addr (gw_esp g) net1" using b(3) r'(3,4) by blast+
  have good: "connected IP ?tp ike_addr (gw_ike (snd (net1, g))) (fst (net1, g)) \<and> un_inbox (fst (net1, g)) (ut_addr (gw_esp (snd (net1, g)))) = [] \<and>
      only_child (gw_node (snd (net1, g))) \<and> nd_cache (gw_node (snd (net1, g))) = None \<and> gw_ike (snd (net1, g)) = gw_ike g \<and>
      gw_esp (snd (net1, g)) = gw_esp g \<and> fst (net1, g) = net1"
    using b(4)[OF r'(3)] s r'(6,7) by (auto simp: only_child_def serves_def carries_def fun_eq_iff split: if_splits)
  obtain sa c c' e' w where k: "client_connect fc C P (udp_exchange IP (gateway_turn fs C P IP answer) ?tp ike_addr) cfg spi e (net1, g) =
      (Done (sa, ac_id (sv_auth (nd_server (gw_node (snd (net1, g))))), c, None), e', w)"
    and w: "connected IP ?tp ike_addr (gw_ike (snd w)) (fst w) \<and> un_inbox (fst w) (ut_addr (gw_esp (snd w))) = [] \<and>
      only_child (gw_node (snd w)) \<and> nd_cache (gw_node (snd w)) = None \<and> gw_ike (snd w) = gw_ike g \<and> gw_esp (snd w) = gw_esp g \<and> fst w = net1"
    and t: "session (nd_server (gw_node (snd w))) (ci_spi_i sa) (ci_spi_r sa) = Some (sa\<lparr>ci_role := Responder\<rparr>)"
      "child (nd_server (gw_node (snd w))) (ci_spi_i sa) (ci_spi_r sa) = Some c'"
    and sa: "ci_role sa = Initiator" "gcm_keys sa"
    and m: "ch_outbound c = ch_inbound c'" "ch_inbound c = ch_outbound c'" "esp_wf (ch_outbound c)" "esp_wf (ch_inbound c)"
    and z: "es_seq (ch_outbound c) = 0" "es_seq (ch_outbound c') = 0"
    and ch: "sv_children (nd_server (gw_node (snd w))) = (sv_children (nd_server (gw_node (snd (net1, g)))))((ci_spi_i sa, ci_spi_r sa) \<mapsto> c')"
    by (rule gw.connect_over_net[OF C _ good, where cfg = cfg and child_spi = spi and e = e and answer = answer and P = P])
      (use cfg in simp)
  have only: "nd_child (gw_node (snd w)) = Some c'" using w ch r'(6) by (simp add: only_child_def)
  have "establish fc C P IP (gateway_turn fs C P IP answer) (Some e) ike_addr cfg spi (net, g) =
      (Returns (sa, ac_id (sv_auth (nd_server (gw_node g))), c, None), (net1, snd w))"
    using o k w by (cases w) (simp add: establish_def bindP_def expectO_def expectD_def udp_client_connect_def)
  from that[OF this sa _ only _ m z] t(1) w s r'(5) b(2) r show thesis
    by (auto simp: session_def gateway_ready_def)
qed

section \<open>The probes against the gateway\<close>

lemma gateway_exchange:
  assumes "connected IP tp to (gw_ike g) net" "un_inbox net (ut_addr (gw_esp g)) = []"
    and "length m \<le> 2048" "length r \<le> cap" "cap \<le> 2048"
    and "\<And>sends. node_handle fs C P (gw_node g) (IoOk m) sends = (ev, Some r, s')"
  obtains net1 where "send_datagram IP tp m to (net, g) = (Returns (), (net1, g))"
    "receive (gateway_turn fs C P IP answer) tp cap (net1, g) = (Returns (Some r), (net, g\<lparr>gw_node := s'\<rparr>))"
proof -
  have len: "length m \<le> UDP_PAYLOAD" "length r \<le> UDP_PAYLOAD" using assms(3-5) by (simp_all add: UDP_PAYLOAD_def)
  have h: "\<forall>sends. udp_ok sends \<longrightarrow> node_handle fs C P (gw_node g) (IoOk m) sends = (ev, Some r, s')" using assms(6) by simp
  obtain net1 net2 src where n: "transport_send_to IP tp m to net = (IoOk (length m), net1)"
    "gateway_turn fs C P IP answer (net1, g) = (net2, g\<lparr>gw_node := s'\<rparr>)"
    "\<And>n. length r \<le> n \<Longrightarrow> socket_recv_from tp (replicate n 0) net2 = (IoOk (r @ replicate (n - length r) 0, length r, src), net)"
    by (rule gateway_answers[OF assms(1,2) len h, of answer]) (rule that, assumption+)
  have "send_datagram IP tp m to (net, g) = (Returns (), (net1, g))" using n(1) by (simp add: send_datagram_def)
  moreover have "receive (gateway_turn fs C P IP answer) tp cap (net1, g) = (Returns (Some r), (net, g\<lparr>gw_node := s'\<rparr>))"
    using n(2) n(3)[OF assms(4)] by (simp add: receive_def)
  ultimately show thesis by (rule that)
qed

text \<open>A liveness probe is answered with an empty message, and a repeated one with the same bytes.\<close>

lemma node_informs:
  assumes C: "gcm_correct C" "entropy fs" and sa: "ci_role sa = Initiator" "gcm_keys sa" "length iv = 8"
    and s: "sv_sessions (nd_server s) (ci_spi_i sa, ci_spi_r sa) = Some (sa\<lparr>ci_role := Responder\<rparr>)" "nd_cache s = None"
  obtains m r s' where "dpd_request C sa mid iv = Ok m" "\<And>sends. node_handle fs C P s (IoOk m) sends = (Done Ignored, Some r, s')"
    "\<And>sends. node_handle fs C P s' (IoOk m) sends = (Done Ignored, Some r, s')"
    "open_informational C sa r = Ok []" "length m \<le> 2048" "length r \<le> 2048"
proof -
  let ?sar = "sa\<lparr>ci_role := Responder\<rparr>"
  have p: "sa_pair sa ?sar" "sa_pair ?sar sa" "gcm_keys ?sar"
    using sa(1,2) by (simp_all add: sa_pair_def gcm_keys_def)
  obtain iv' e1 where iv': "fs (sv_entropy (nd_server s)) 8 = (iv', e1)" by fastforce
  have l: "length iv' = 8" by (rule entropy.fill_length_eq[OF C(2) iv'])
  obtain m where m: "build_informational C sa mid False [] iv = Ok m" "open_informational C ?sar m = Ok []"
    using informational_delivery[OF C(1) p(1) sa(2), of "[]" iv mid False] sa(3) by auto
  obtain h where h: "ike_header_parse m = Ok h" "h_exchange_type h = Informational" "h_initiator_spi h = ci_spi_i sa"
    "h_responder_spi h = ci_spi_r sa" "h_message_id h = mid"
    using build_encrypted_header[OF m(1)[unfolded build_informational_def]] by (auto simp: informational_header_def header_wf_def)
  obtain r where r: "build_informational C ?sar mid True [] iv' = Ok r" "open_informational C sa r = Ok []"
    using informational_delivery[OF C(1) p(2,3), of "[]" iv' mid True] l by auto
  have k: "length (our_sk_e sa) = 36" "length (our_sk_e ?sar) = 36"
    using sa(2) by (simp_all add: our_sk_e_def gcm_keys_def split: role.split)
  have len: "length m \<le> 2048" "length r \<le> 2048"
    using build_encrypted_length[OF C(1) k(1) sa(3) _ m(1)[unfolded build_informational_def]]
      build_encrypted_length[OF C(1) k(2) l _ r(1)[unfolded build_informational_def]] by simp_all
  let ?s' = "s\<lparr>nd_server := (nd_server s)\<lparr>sv_entropy := e1\<rparr>, nd_cache := Some (m, r)\<rparr>"
  have "node_handle fs C P s (IoOk m) sends = (Done Ignored, Some r, ?s')" for sends
    using h m(2) r(1) s iv' by (simp add: node_handle_def node_later_def node_answer_def)
  moreover have "node_handle fs C P ?s' (IoOk m) sends = (Done Ignored, Some r, ?s')" for sends
    using h by (simp add: node_handle_def)
  ultimately show thesis using that[of m r ?s'] m(1) r(2) len by (simp add: dpd_request_def)
qed

lemma node_rekeys:
  assumes C: "gcm_correct C" "entropy fs" and sa: "ci_role sa = Initiator" "gcm_keys sa" "length iv = 8" "length ni \<le> 1000"
    and s: "sv_sessions (nd_server s) (ci_spi_i sa, ci_spi_r sa) = Some (sa\<lparr>ci_role := Responder\<rparr>)" "nd_cache s = None"
  obtains m r c s' where "build_rekey_request C sa mid old si ni iv = Ok m"
    "\<And>sends. node_handle fs C P s (IoOk m) sends = (Done Ignored, Some r, s')"
    "initiator_complete_rekey C sa ni si r = Ok c" "length m \<le> 2048" "length r \<le> 2048"
proof -
  let ?sar = "sa\<lparr>ci_role := Responder\<rparr>"
  have p: "sa_pair sa ?sar" using sa(1) by (simp add: sa_pair_def)
  obtain iv' e1 where iv': "fs (sv_entropy (nd_server s)) 8 = (iv', e1)" by fastforce
  obtain nr e2 where nr: "fs e1 32 = (nr, e2)" by fastforce
  obtain spi e3 where spi: "next_u64 fs e2 = (spi, e3)" by fastforce
  have l: "length iv' = 8" "length nr = 32"
    by (rule entropy.fill_length_eq[OF C(2) iv'], rule entropy.fill_length_eq[OF C(2) nr])
  have n: "length ni < 60000" "length nr < 60000" using sa(4) l(2) by simp_all
  obtain m r c d where m: "build_rekey_request C sa mid old si ni iv = Ok m" "responder_process_rekey C ?sar m (ucast spi) nr iv' None = Ok (r, d)"
    "initiator_complete_rekey C sa ni si r = Ok c" "length m = length ni + 157" "length r = length nr + 145"
    by (rule rekey_exchange_sized[OF C(1) p sa(2,3) l(1) n, of mid old si "ucast spi" None]) (rule that)
  obtain h where h: "ike_header_parse m = Ok h" "h_exchange_type h = CreateChildSa" "h_initiator_spi h = ci_spi_i sa"
    "h_responder_spi h = ci_spi_r sa"
    using build_encrypted_header[OF m(1)[unfolded build_rekey_request_def Let_def]] by (auto simp: create_child_header_def header_wf_def)
  have "node_handle fs C P s (IoOk m) sends = (Done Ignored, Some r, s\<lparr>nd_server := (nd_server s)\<lparr>sv_entropy := e3\<rparr>,
      nd_cache := Some (m, r), nd_child := Some d\<rparr>)" for sends
    using h m(2) s iv' nr spi by (simp add: node_handle_def node_later_def node_answer_def)
  from that[OF m(1) this m(3)] m(4,5) l(2) sa(4) show thesis by simp
qed

text \<open>The programs step by step: after the handshake each probe opens its own socket.\<close>

lemma bindP_step: "m w = (Returns x, v) \<Longrightarrow> bindP m f w = f x v"
  by (simp add: bindP_def)

lemma expect_step: "expectR (Ok x) w = (Returns x, w)" "expectO (Some x) w = (Returns x, w)"
  by (simp_all add: expectR_def expectO_def)

lemma bindP_none: "bindP (expectO None) f w = (Aborts, w)"
  by (simp add: bindP_def expectO_def)

lemma gateway_starts:
  assumes C: "x25519_correct C" "modpow_correct C" "gcm_correct C" "entropy fc" "entropy fs"
    and cfg: "matching_configs C P cfg (sv_auth (nd_server (gw_node g)))" and r: "gateway_ready IP ike_addr esp_addr net g"
  obtains sa ident c net1 g1 sock net2 where
    "establish fc C P IP (gateway_turn fs C P IP answer) (Some e) ike_addr cfg spi (net, g) = (Returns (sa, ident, c, None), (net1, g1))"
    "open_socket IP 8 (net1, g1) = (Returns sock, (net2, g1))" "ci_role sa = Initiator" "gcm_keys sa"
    "sv_sessions (nd_server (gw_node g1)) (ci_spi_i sa, ci_spi_r sa) = Some (sa\<lparr>ci_role := Responder\<rparr>)" "nd_cache (gw_node g1) = None"
    "connected IP sock ike_addr (gw_ike g1) net2" "un_inbox net2 (ut_addr (gw_esp g1)) = []"
proof -
  obtain sa c c' net1 g1 where s: "establish fc C P IP (gateway_turn fs C P IP answer) (Some e) ike_addr cfg spi (net, g) =
      (Returns (sa, ac_id (sv_auth (nd_server (gw_node g))), c, None), (net1, g1))"
    "ci_role sa = Initiator" "gcm_keys sa"
    "sv_sessions (nd_server (gw_node g1)) (ci_spi_i sa, ci_spi_r sa) = Some (sa\<lparr>ci_role := Responder\<rparr>)"
    "nd_cache (gw_node g1) = None" "serves IP ike_addr (gw_ike g1) net1" "serves IP esp_addr (gw_esp g1) net1" "length (un_bound net1) \<le> 91"
    by (rule gateway_establish[OF assms]) (rule that)
  have ports: "gives_ports IP" "length (un_bound net1) \<le> 100" "0 < (8::nat)" using r s(8) by (simp_all add: gateway_ready_def)
  obtain sock net2 where k: "open_socket IP 8 (net1, g1) = (Returns sock, (net2, g1))"
    "\<And>to b. serves IP to b net1 \<Longrightarrow> serves IP to b net2" "\<And>to b. serves IP to b net1 \<Longrightarrow> connected IP sock to b net2"
    by (rule open_socket_serves[OF ports]) (rule that)
  have "un_inbox net2 (ut_addr (gw_esp g1)) = []" using k(2)[OF s(7)] by (simp add: serves_def carries_def)
  from that[OF s(1) k(1) s(2-5) k(3)[OF s(6)] this] show thesis .
qed

lemma dpd_probe_passes:
  assumes C: "x25519_correct C" "modpow_correct C" "gcm_correct C" "entropy fc" "entropy fs"
    and cfg: "matching_configs C P (auth_config_psk (identification_fqdn cid) psk) (sv_auth (nd_server (gw_node g)))"
    and r: "gateway_ready IP ike_addr esp_addr net g"
  shows "fst (dpd_probe fc C P IP (gateway_turn fs C P IP answer) (Some e) ike_addr psk cid (net, g)) = Exits 0"
proof -
  obtain sa ident c net1 g1 sock net2 where s:
    "establish fc C P IP (gateway_turn fs C P IP answer) (Some e) ike_addr (auth_config_psk (identification_fqdn cid) psk) 0xCAFED00D (net, g) =
      (Returns (sa, ident, c, None), (net1, g1))"
    "open_socket IP 8 (net1, g1) = (Returns sock, (net2, g1))" "ci_role sa = Initiator" "gcm_keys sa"
    "sv_sessions (nd_server (gw_node g1)) (ci_spi_i sa, ci_spi_r sa) = Some (sa\<lparr>ci_role := Responder\<rparr>)" "nd_cache (gw_node g1) = None"
    "connected IP sock ike_addr (gw_ike g1) net2" "un_inbox net2 (ut_addr (gw_esp g1)) = []"
    by (rule gateway_starts[OF assms]) (rule that)
  have iv: "length (replicate 8 0x11 :: bytes) = 8" by simp
  obtain m r s' where m: "dpd_request C sa 2 (replicate 8 0x11) = Ok m"
    "\<And>sends. node_handle fs C P (gw_node g1) (IoOk m) sends = (Done Ignored, Some r, s')"
    "open_informational C sa r = Ok []" "length m \<le> 2048" "length r \<le> 2048"
    by (rule node_informs[OF C(3,5) s(3,4) iv s(5,6)]) (rule that)
  obtain net3 where "send_datagram IP sock m ike_addr (net2, g1) = (Returns (), (net3, g1))"
    "receive (gateway_turn fs C P IP answer) sock 2048 (net3, g1) = (Returns (Some r), (net2, g1\<lparr>gw_node := s'\<rparr>))"
    by (rule gateway_exchange[OF s(7,8) m(4,5) order_refl m(2)])
  then show ?thesis
    using s(1,2) m(1,3) by (simp add: dpd_probe_def bindP_step expect_step exitP_def)
qed

lemma rekey_probe_passes:
  assumes C: "x25519_correct C" "modpow_correct C" "gcm_correct C" "entropy fc" "entropy fs"
    and cfg: "matching_configs C P (auth_config_psk (identification_fqdn cid) psk) (sv_auth (nd_server (gw_node g)))"
    and r: "gateway_ready IP ike_addr esp_addr net g"
  shows "fst (rekey_probe fc C P IP (gateway_turn fs C P IP answer) (Some e) ike_addr psk cid (net, g)) = Exits 0"
proof -
  obtain sa ident c net1 g1 sock net2 where s:
    "establish fc C P IP (gateway_turn fs C P IP answer) (Some e) ike_addr (auth_config_psk (identification_fqdn cid) psk) 0xCAFE1234 (net, g) =
      (Returns (sa, ident, c, None), (net1, g1))"
    "open_socket IP 8 (net1, g1) = (Returns sock, (net2, g1))" "ci_role sa = Initiator" "gcm_keys sa"
    "sv_sessions (nd_server (gw_node g1)) (ci_spi_i sa, ci_spi_r sa) = Some (sa\<lparr>ci_role := Responder\<rparr>)" "nd_cache (gw_node g1) = None"
    "connected IP sock ike_addr (gw_ike g1) net2" "un_inbox net2 (ut_addr (gw_esp g1)) = []"
    by (rule gateway_starts[OF assms]) (rule that)
  have iv: "length (replicate 8 5 :: bytes) = 8" "length (replicate 32 0x37 :: bytes) \<le> 1000" by simp_all
  obtain m r d s' where m: "build_rekey_request C sa 2 0xDEADBEEF 0x12345678 (replicate 32 0x37) (replicate 8 5) = Ok m"
    "\<And>sends. node_handle fs C P (gw_node g1) (IoOk m) sends = (Done Ignored, Some r, s')"
    "initiator_complete_rekey C sa (replicate 32 0x37) 0x12345678 r = Ok d" "length m \<le> 2048" "length r \<le> 2048"
    by (rule node_rekeys[OF C(3,5) s(3,4) iv s(5,6)]) (rule that)
  obtain net3 where "send_datagram IP sock m ike_addr (net2, g1) = (Returns (), (net3, g1))"
    "receive (gateway_turn fs C P IP answer) sock 2048 (net3, g1) = (Returns (Some r), (net2, g1\<lparr>gw_node := s'\<rparr>))"
    by (rule gateway_exchange[OF s(7,8) m(4,5) order_refl m(2)])
  then show ?thesis
    using s(1,2) m(1,3) by (simp add: rekey_probe_def Let_def bindP_step expect_step exitP_def)
qed

lemma retransmit_probe_passes:
  assumes C: "x25519_correct C" "modpow_correct C" "gcm_correct C" "entropy fc" "entropy fs"
    and cfg: "matching_configs C P (auth_config_psk (identification_fqdn cid) psk) (sv_auth (nd_server (gw_node g)))"
    and r: "gateway_ready IP ike_addr esp_addr net g"
  shows "fst (retransmit_probe fc C P IP (gateway_turn fs C P IP answer) (Some e) ike_addr psk cid (net, g)) = Exits 0"
proof -
  obtain sa ident c net1 g1 sock net2 where s:
    "establish fc C P IP (gateway_turn fs C P IP answer) (Some e) ike_addr (auth_config_psk (identification_fqdn cid) psk) 0xCAFEF00D (net, g) =
      (Returns (sa, ident, c, None), (net1, g1))"
    "open_socket IP 8 (net1, g1) = (Returns sock, (net2, g1))" "ci_role sa = Initiator" "gcm_keys sa"
    "sv_sessions (nd_server (gw_node g1)) (ci_spi_i sa, ci_spi_r sa) = Some (sa\<lparr>ci_role := Responder\<rparr>)" "nd_cache (gw_node g1) = None"
    "connected IP sock ike_addr (gw_ike g1) net2" "un_inbox net2 (ut_addr (gw_esp g1)) = []"
    by (rule gateway_starts[OF assms]) (rule that)
  have iv: "length (replicate 8 0x5a :: bytes) = 8" by simp
  obtain m r s' where m: "dpd_request C sa 2 (replicate 8 0x5a) = Ok m"
    "\<And>sends. node_handle fs C P (gw_node g1) (IoOk m) sends = (Done Ignored, Some r, s')"
    "\<And>sends. node_handle fs C P s' (IoOk m) sends = (Done Ignored, Some r, s')" "length m \<le> 2048" "length r \<le> 2048"
    by (rule node_informs[OF C(3,5) s(3,4) iv s(5,6)]) (rule that)
  let ?g2 = "g1\<lparr>gw_node := s'\<rparr>"
  obtain net3 where a: "send_datagram IP sock m ike_addr (net2, g1) = (Returns (), (net3, g1))"
    "receive (gateway_turn fs C P IP answer) sock 2048 (net3, g1) = (Returns (Some r), (net2, ?g2))"
    by (rule gateway_exchange[OF s(7,8) m(4,5) order_refl m(2)])
  have h2: "node_handle fs C P (gw_node ?g2) (IoOk m) sends = (Done Ignored, Some r, s')" for sends using m(3) by simp
  obtain net4 where b: "send_datagram IP sock m ike_addr (net2, ?g2) = (Returns (), (net4, ?g2))"
    "receive (gateway_turn fs C P IP answer) sock 2048 (net4, ?g2) = (Returns (Some r), (net2, ?g2\<lparr>gw_node := s'\<rparr>))"
    by (rule gateway_exchange[OF _ _ m(4,5) order_refl h2, of IP sock ike_addr net2]) (use s(7,8) in simp_all)
  have "ask IP (gateway_turn fs C P IP answer) sock m ike_addr (net2, g1) = (Returns r, (net2, ?g2))"
    "ask IP (gateway_turn fs C P IP answer) sock m ike_addr (net2, ?g2) = (Returns r, (net2, ?g2\<lparr>gw_node := s'\<rparr>))"
    using a b by (simp_all add: ask_def bindP_step retP_def)
  then show ?thesis
    using s(1,2) m(1) by (simp add: retransmit_probe_def bindP_step expect_step exitP_def)
qed

text \<open>The client's first echo request is answered through the tunnel.\<close>

lemma gateway_ping:
  fixes c c' :: child_sa
  assumes C: "gcm_correct C" and m: "ch_outbound c = ch_inbound c'" "ch_inbound c = ch_outbound c'" "esp_wf (ch_outbound c)" "esp_wf (ch_inbound c)"
    and z: "es_seq (ch_outbound c) = 0" "es_seq (ch_outbound c') = 0" and g: "nd_child (gw_node g) = Some c'"
    and net: "connected IP esp to (gw_esp g) net" "un_inbox net (ut_addr (gw_ike g)) = []" "ut_addr (gw_ike g) \<noteq> ut_addr (gw_esp g)"
    and answer: "echoes answer"
  shows "\<exists>c1 w. ping_loop IP C (gateway_turn fs C P IP answer) esp to src dst (1 # seqs) c (net, g) = (Done True, c1, w)"
proof -
  let ?i = "icmp_echo src dst 0x1234 1"
  let ?r = "answer ?i"
  have r: "is_echo_reply ?r" "length ?r \<le> 1900" using answer by (simp_all add: echoes_def)
  have len: "length ?i = 28" by (cases src; cases dst) (simp add: icmp_echo_layout to_be16_def)
  obtain pkt sa' where p: "esp_seal C (ch_outbound c) ?i 4 = (Ok pkt, sa')" "esp_open C (ch_inbound c') pkt = Ok (?i, 4)"
    "length pkt \<le> length ?i + 37"
    by (rule mirrored_esp[OF C, of c c' ?i 4]) (use m z len in \<open>simp_all add: same_sa_def\<close>)
  obtain rep sb' where q: "esp_seal C (ch_outbound c') ?r 4 = (Ok rep, sb')" "esp_open C (ch_inbound c) rep = Ok (?r, 4)"
    "length rep \<le> length ?r + 37"
    by (rule mirrored_esp[OF C, of c' c ?r 4]) (use m z r in \<open>simp_all add: same_sa_def\<close>)
  have fit: "length pkt \<le> UDP_PAYLOAD" "length rep \<le> UDP_PAYLOAD" "length rep \<le> 2000"
    using p(3) q(3) len r(2) by (simp_all add: UDP_PAYLOAD_def)
  have h: "\<forall>sends. udp_ok sends \<longrightarrow> node_esp C answer (gw_node g) (IoOk pkt) sends =
      (Done Ignored, Some rep, (gw_node g)\<lparr>nd_child := Some (c'\<lparr>ch_outbound := sb'\<rparr>)\<rparr>)"
    using g p(2) q(1) by (simp add: node_esp_def)
  obtain net1 net2 sender where n: "transport_send_to IP esp pkt to net = (IoOk (length pkt), net1)"
    "gateway_turn fs C P IP answer (net1, g) = (net2, g\<lparr>gw_node := (gw_node g)\<lparr>nd_child := Some (c'\<lparr>ch_outbound := sb'\<rparr>)\<rparr>\<rparr>)"
    "\<And>n. length rep \<le> n \<Longrightarrow> socket_recv_from esp (replicate n 0) net2 = (IoOk (rep @ replicate (n - length rep) 0, length rep, sender), net)"
    by (rule gateway_echoes[OF net fit(1,2) h, of fs P]) (rule that)
  show ?thesis using p(1) n(1,2) n(3)[OF fit(3)] q(2) r(1) by simp
qed

lemma ike_client_passes:
  assumes C: "x25519_correct C" "modpow_correct C" "gcm_correct C" "entropy fc" "entropy fs"
    and cfg: "matching_configs C P (auth_config_psk (identification_fqdn cid) psk) (sv_auth (nd_server (gw_node g)))"
    and r: "gateway_ready IP ike_addr esp_addr net g" and answer: "echoes answer"
  shows "fst (ike_client fc C P IP (gateway_turn fs C P IP answer) (Some e) ike_addr esp_addr psk cid (Some src) dst (net, g)) = Exits 0"
proof -
  obtain sa c c' net1 g1 where s:
    "establish fc C P IP (gateway_turn fs C P IP answer) (Some e) ike_addr (auth_config_psk (identification_fqdn cid) psk) 0xCAFEBABE (net, g) =
      (Returns (sa, ac_id (sv_auth (nd_server (gw_node g))), c, None), (net1, g1))" "nd_child (gw_node g1) = Some c'"
    and m: "ch_outbound c = ch_inbound c'" "ch_inbound c = ch_outbound c'" "esp_wf (ch_outbound c)" "esp_wf (ch_inbound c)"
    and z: "es_seq (ch_outbound c) = 0" "es_seq (ch_outbound c') = 0"
    and n: "serves IP ike_addr (gw_ike g1) net1" "serves IP esp_addr (gw_esp g1) net1" "ut_addr (gw_ike g1) \<noteq> ut_addr (gw_esp g1)"
      "length (un_bound net1) \<le> 91"
    by (rule gateway_establish[OF C cfg r]) (rule that)
  have ports: "gives_ports IP" "length (un_bound net1) \<le> 100" "0 < (6::nat)" using r n(4) by (simp_all add: gateway_ready_def)
  obtain esp net2 where k: "open_socket IP 6 (net1, g1) = (Returns esp, (net2, g1))"
    "\<And>to b. serves IP to b net1 \<Longrightarrow> serves IP to b net2" "\<And>to b. serves IP to b net1 \<Longrightarrow> connected IP esp to b net2"
    by (rule open_socket_serves[OF ports]) (rule that)
  have "un_inbox net2 (ut_addr (gw_ike g1)) = []" using k(2)[OF n(1)] by (simp add: serves_def carries_def)
  from gateway_ping[OF C(3) m z s(2) k(3)[OF n(2)] this n(3) answer, of fs P src dst "[2, 3, 4, 5]"]
  obtain c1 w where "ping_loop IP C (gateway_turn fs C P IP answer) esp esp_addr src dst [1, 2, 3, 4, 5] c (net2, g1) = (Done True, c1, w)"
    by blast
  then show ?thesis
    using s(1) k(1) by (simp add: ike_client_def bindP_step expect_step exitP_def expectD_def del: ping_loop.simps)
qed

section \<open>The server driver alone\<close>

definition server_ready :: "ip_layer \<Rightarrow> socket_addr \<Rightarrow> udp_net \<Rightarrow> 'e udp_server \<Rightarrow> bool" where
  "server_ready IP ike_addr net us \<longleftrightarrow> gives_ports IP \<and> length (un_bound net) \<le> 90 \<and> serves IP ike_addr (us_transport us) net"

lemma server_establish:
  assumes C: "x25519_correct C" "modpow_correct C" "gcm_correct C" "entropy fc" "entropy fs"
    and cfg: "matching_configs C P cfg (sv_auth (us_server us))" and r: "server_ready IP ike_addr net us"
  obtains sa ident c net1 us1 where "establish fc C P IP (serve_turn fs C P IP) (Some e) ike_addr cfg spi (net, us) =
      (Returns (sa, ident, c, None), (net1, us1))"
    "ci_role sa = Initiator" "gcm_keys sa" "serves IP ike_addr (us_transport us1) net1" "length (un_bound net1) \<le> 100"
proof -
  have r': "gives_ports IP" "length (un_bound net) \<le> 100" "serves IP ike_addr (us_transport us) net"
    using r by (simp_all add: server_ready_def)
  obtain tp net1 where b: "transport_bind IP [any_port] net = (IoOk tp, net1)" "length (un_bound net1) = Suc (length (un_bound net))"
    "\<And>to b. serves IP to b net \<Longrightarrow> serves IP to b net1"
    "\<And>to b dur. serves IP to b net \<Longrightarrow> connected IP (tp\<lparr>ut_timeout := dur\<rparr>) to b net1"
    using bind_serves[OF r'(1,2)] by metis
  let ?tp = "tp\<lparr>ut_timeout := Some (from_secs 8)\<rparr>"
  have o: "open_client IP e 8 (net, us) = (Returns \<lparr>uc_transport = ?tp, uc_entropy = e\<rparr>, (net1, us))"
    using b(1) by (simp add: open_client_def udp_client_bind_def udp_client_set_read_timeout_def transport_set_read_timeout_def from_secs_def)
  obtain sa c e' w where k: "client_connect fc C P (udp_exchange IP (serve_turn fs C P IP) ?tp ike_addr) cfg spi e (net1, us) =
      (Done (sa, ac_id (sv_auth (us_server (snd (net1, us)))), c, None), e', w)"
    and w: "connected IP ?tp ike_addr (us_transport (snd w)) (fst w) \<and> us_transport (snd w) = us_transport us \<and> fst w = net1"
    and sa: "ci_role sa = Initiator" "gcm_keys sa"
    by (rule udp.connect_over_net[OF C, where n = "(net1, us)" and cfg = cfg and child_spi = spi and e = e and P = P and IP = IP
          and tp = ?tp and to = ike_addr and st = "us_transport us" and start = net1]) (use cfg b(4)[OF r'(3)] in \<open>auto intro: that\<close>)
  have "establish fc C P IP (serve_turn fs C P IP) (Some e) ike_addr cfg spi (net, us) =
      (Returns (sa, ac_id (sv_auth (us_server us)), c, None), (net1, snd w))"
    using o k w by (cases w) (simp add: establish_def bindP_def expectO_def expectD_def udp_client_connect_def)
  from that[OF this sa] w b(2) b(3)[OF r'(3)] r show thesis by (simp add: server_ready_def)
qed

text \<open>A request of another exchange is taken and ignored; the client's socket stays empty.\<close>

lemma server_silent:
  assumes c: "connected IP tp to (us_transport us) net" "ut_timeout tp \<noteq> None" and len: "length m \<le> 2048"
    and h: "ike_header_parse m = Ok h" "h_exchange_type h = Informational \<or> h_exchange_type h = CreateChildSa"
  obtains net1 where "send_datagram IP tp m to (net, us) = (Returns (), (net1, us))"
    "receive (serve_turn fs C P IP) tp cap (net1, us) = (Returns None, (net, us))"
proof -
  have l: "length m \<le> UDP_PAYLOAD" using len by (simp add: UDP_PAYLOAD_def)
  have i: "\<forall>sends. udp_ok sends \<longrightarrow> handle_one fs C P (us_server us) (IoOk m) sends = (Done Ignored, None, us_server us)"
    using h by (auto simp: handle_one_def)
  obtain net1 where net1: "transport_send_to IP tp m to net = (IoOk (length m), net1)"
    "over_udp IP (handle_one fs C P) (us_transport us) (us_server us) (deliver_all IP net1) = (Done Ignored, us_server us, net)"
    by (rule v2.over_udp_taken[OF c(1) l i])
  have "deliver_all IP net = net" "un_inbox net (ut_addr tp) = []"
    using c(1) by (simp_all add: deliver_all_idle connected_def carries_def)
  then have "serve_turn fs C P IP (net1, us) = (net, us)" "socket_recv_from tp (replicate cap 0) net = (IoErr, net)"
    using net1(2) c(2) by (simp_all add: serve_turn_def udp_handle_one_def socket_recv_from_def)
  then have "receive (serve_turn fs C P IP) tp cap (net1, us) = (Returns None, (net, us))" by (simp add: receive_def)
  moreover have "send_datagram IP tp m to (net, us) = (Returns (), (net1, us))" using net1(1) by (simp add: send_datagram_def)
  ultimately show thesis using that by blast
qed

lemma probe_requests:
  assumes "gcm_correct C" "gcm_keys sa" "length iv = 8"
  obtains m h where "dpd_request C sa mid iv = Ok m" "ike_header_parse m = Ok h" "h_exchange_type h = Informational" "length m \<le> 2048"
proof -
  have k: "length (our_sk_e sa) = 36" using assms(2) by (simp add: our_sk_e_def gcm_keys_def split: role.split)
  obtain m where m: "build_informational C sa mid False [] iv = Ok m"
    using encrypted_chain[OF assms(1) informational_header_wf _ k assms(3), of "[]" sa mid False] by (auto simp: build_informational_def)
  from that[of m] m build_encrypted_header[OF m[unfolded build_informational_def]]
    build_encrypted_length[OF assms(1) k assms(3) _ m[unfolded build_informational_def]]
  show thesis by (fastforce simp: dpd_request_def informational_header_def header_wf_def)
qed

lemma rekey_requests:
  assumes "gcm_correct C" "ci_role sa = Initiator" "gcm_keys sa" "length iv = 8" "length ni \<le> 1000"
  obtains m h where "build_rekey_request C sa mid old si ni iv = Ok m" "ike_header_parse m = Ok h" "h_exchange_type h = CreateChildSa"
    "length m \<le> 2048"
proof -
  have n: "length ni < 60000" using assms(5) by simp
  have p: "sa_pair sa (sa\<lparr>ci_role := Responder\<rparr>)" using assms(2) by (simp add: sa_pair_def)
  obtain m where m: "build_rekey_request C sa mid old si ni iv = Ok m"
    using rekey_request_delivery[OF assms(1) p assms(3,4) n] by blast
  from that[of m] m build_encrypted_header[OF m[unfolded build_rekey_request_def Let_def]]
    length_rekey_request[OF assms(1,3,4) n m] assms(5)
  show thesis by (fastforce simp: create_child_header_def header_wf_def)
qed

lemma server_starts:
  assumes C: "x25519_correct C" "modpow_correct C" "gcm_correct C" "entropy fc" "entropy fs"
    and cfg: "matching_configs C P cfg (sv_auth (us_server us))" and r: "server_ready IP ike_addr net us"
  obtains sa ident c net1 us1 sock net2 where
    "establish fc C P IP (serve_turn fs C P IP) (Some e) ike_addr cfg spi (net, us) = (Returns (sa, ident, c, None), (net1, us1))"
    "open_socket IP 8 (net1, us1) = (Returns sock, (net2, us1))" "ci_role sa = Initiator" "gcm_keys sa"
    "connected IP sock ike_addr (us_transport us1) net2" "ut_timeout sock \<noteq> None"
proof -
  obtain sa ident c net1 us1 where s: "establish fc C P IP (serve_turn fs C P IP) (Some e) ike_addr cfg spi (net, us) =
      (Returns (sa, ident, c, None), (net1, us1))"
    "ci_role sa = Initiator" "gcm_keys sa" "serves IP ike_addr (us_transport us1) net1" "length (un_bound net1) \<le> 100"
    by (rule server_establish[OF assms])
  have ports: "gives_ports IP" "0 < (8::nat)" using r by (simp_all add: server_ready_def)
  obtain sock net2 where k: "open_socket IP 8 (net1, us1) = (Returns sock, (net2, us1))" "ut_timeout sock \<noteq> None"
    "\<And>to b. serves IP to b net1 \<Longrightarrow> connected IP sock to b net2"
    by (rule open_socket_serves[OF ports(1) s(5) ports(2)]) (rule that)
  from that[OF s(1) k(1) s(2,3) k(3)[OF s(4)] k(2)] show thesis .
qed

lemma probes_fail:
  assumes C: "x25519_correct C" "modpow_correct C" "gcm_correct C" "entropy fc" "entropy fs"
    and cfg: "matching_configs C P (auth_config_psk (identification_fqdn cid) psk) (sv_auth (us_server us))"
    and r: "server_ready IP ike_addr net us"
  shows "fst (dpd_probe fc C P IP (serve_turn fs C P IP) (Some e) ike_addr psk cid (net, us)) = Exits 1"
    "fst (rekey_probe fc C P IP (serve_turn fs C P IP) (Some e) ike_addr psk cid (net, us)) = Exits 1"
    "fst (retransmit_probe fc C P IP (serve_turn fs C P IP) (Some e) ike_addr psk cid (net, us)) = Exits 1"
proof -
  let ?env = "serve_turn fs C P IP" and ?cfg = "auth_config_psk (identification_fqdn cid) psk"
  have iv: "length (replicate 8 b :: bytes) = 8" "length (replicate 32 b :: bytes) \<le> 1000" for b by simp_all
  show "fst (dpd_probe fc C P IP ?env (Some e) ike_addr psk cid (net, us)) = Exits 1"
  proof (rule server_starts[OF assms, of e "0xCAFED00D"])
    fix sa ident c net1 us1 sock net2
    assume s: "establish fc C P IP ?env (Some e) ike_addr ?cfg 0xCAFED00D (net, us) = (Returns (sa, ident, c, None), (net1, us1))"
      "open_socket IP 8 (net1, us1) = (Returns sock, (net2, us1))" "gcm_keys sa"
      "connected IP sock ike_addr (us_transport us1) net2" "ut_timeout sock \<noteq> None"
    obtain m h where m: "dpd_request C sa 2 (replicate 8 0x11) = Ok m" "ike_header_parse m = Ok h" "h_exchange_type h = Informational" "length m \<le> 2048"
      by (rule probe_requests[OF C(3) s(3) iv(1)])
    obtain net3 where "send_datagram IP sock m ike_addr (net2, us1) = (Returns (), (net3, us1))"
      "receive ?env sock 2048 (net3, us1) = (Returns None, (net2, us1))"
      by (rule server_silent[OF s(4,5) m(4,2)]) (use m(3) in simp)
    then show ?thesis using s(1,2) m(1) by (simp add: dpd_probe_def bindP_step expect_step exitP_def)
  qed
  show "fst (rekey_probe fc C P IP ?env (Some e) ike_addr psk cid (net, us)) = Exits 1"
  proof (rule server_starts[OF assms, of e "0xCAFE1234"])
    fix sa ident c net1 us1 sock net2
    assume s: "establish fc C P IP ?env (Some e) ike_addr ?cfg 0xCAFE1234 (net, us) = (Returns (sa, ident, c, None), (net1, us1))"
      "open_socket IP 8 (net1, us1) = (Returns sock, (net2, us1))" "ci_role sa = Initiator" "gcm_keys sa"
      "connected IP sock ike_addr (us_transport us1) net2" "ut_timeout sock \<noteq> None"
    obtain m h where m: "build_rekey_request C sa 2 0xDEADBEEF 0x12345678 (replicate 32 0x37) (replicate 8 5) = Ok m" "ike_header_parse m = Ok h"
      "h_exchange_type h = CreateChildSa" "length m \<le> 2048"
      by (rule rekey_requests[OF C(3) s(3,4) iv(1,2)])
    obtain net3 where "send_datagram IP sock m ike_addr (net2, us1) = (Returns (), (net3, us1))"
      "receive ?env sock 2048 (net3, us1) = (Returns None, (net2, us1))"
      by (rule server_silent[OF s(5,6) m(4,2)]) (use m(3) in simp)
    then show ?thesis using s(1,2) m(1) by (simp add: rekey_probe_def Let_def bindP_step expect_step exitP_def)
  qed
  show "fst (retransmit_probe fc C P IP ?env (Some e) ike_addr psk cid (net, us)) = Exits 1"
  proof (rule server_starts[OF assms, of e "0xCAFEF00D"])
    fix sa ident c net1 us1 sock net2
    assume s: "establish fc C P IP ?env (Some e) ike_addr ?cfg 0xCAFEF00D (net, us) = (Returns (sa, ident, c, None), (net1, us1))"
      "open_socket IP 8 (net1, us1) = (Returns sock, (net2, us1))" "gcm_keys sa"
      "connected IP sock ike_addr (us_transport us1) net2" "ut_timeout sock \<noteq> None"
    obtain m h where m: "dpd_request C sa 2 (replicate 8 0x5a) = Ok m" "ike_header_parse m = Ok h" "h_exchange_type h = Informational" "length m \<le> 2048"
      by (rule probe_requests[OF C(3) s(3) iv(1)])
    obtain net3 where "send_datagram IP sock m ike_addr (net2, us1) = (Returns (), (net3, us1))"
      "receive ?env sock 2048 (net3, us1) = (Returns None, (net2, us1))"
      by (rule server_silent[OF s(4,5) m(4,2)]) (use m(3) in simp)
    then have "ask IP ?env sock m ike_addr (net2, us1) = (Exits 1, (net2, us1))" by (simp add: ask_def bindP_step exitP_def)
    then show ?thesis using s(1,2) m(1) by (simp add: retransmit_probe_def bindP_def[of "ask IP ?env sock m ike_addr"] bindP_step expect_step)
  qed
qed

text \<open>The server driver assigns no inner address, which the clients of the data plane need.\<close>

lemma clients_without_address:
  assumes C: "x25519_correct C" "modpow_correct C" "gcm_correct C" "entropy fc" "entropy fs"
    and cfg: "matching_configs C P (auth_config_psk (identification_fqdn cid) psk) (sv_auth (us_server us))"
    and r: "server_ready IP ike_addr net us"
  shows "fst (rekey_e2e fc C P IP (serve_turn fs C P IP) (Some e) ike_addr esp_addr psk cid (net, us)) = Aborts"
    "fst (ike_client fc C P IP (serve_turn fs C P IP) (Some e) ike_addr esp_addr psk cid None dst (net, us)) = Aborts"
proof -
  show "fst (rekey_e2e fc C P IP (serve_turn fs C P IP) (Some e) ike_addr esp_addr psk cid (net, us)) = Aborts"
    by (rule server_establish[OF assms, of e "0xCAFE2468"]) (simp add: rekey_e2e_def bindP_step bindP_none)
  show "fst (ike_client fc C P IP (serve_turn fs C P IP) (Some e) ike_addr esp_addr psk cid None dst (net, us)) = Aborts"
    by (rule server_establish[OF assms, of e "0xCAFEBABE"]) (simp add: ike_client_def bindP_step bindP_none)
qed

section \<open>Properties\<close>

text \<open>A network without address translation, on which the system searches for a free port.\<close>

definition lan_ports :: "u16 list" where
  "lan_ports = map of_nat [40000..<40200]"

definition sample_lan :: ip_layer where
  "sample_lan = \<lparr>il_port = (\<lambda>net ip. find (\<lambda>p. \<lparr>sock_ip = ip, sock_port = p\<rparr> \<notin> set (un_bound net)) lan_ports),
     il_sends = (\<lambda>d _. length d \<le> UDP_PAYLOAD), il_source = (\<lambda>a _. a), il_owner = Some\<rparr>"

definition sample_esp_port :: socket_addr where
  "sample_esp_port = \<lparr>sock_ip = V4 (Ipv4 198 51 100 7), sock_port = 4500\<rparr>"

definition sample_lan_net :: udp_net where
  "sample_lan_net = \<lparr>un_bound = [sample_gateway, sample_esp_port], un_flight = [], un_inbox = (\<lambda>_. [])\<rparr>"

definition sample_box :: "seed_entropy gateway" where
  "sample_box = \<lparr>gw_ike = sample_socket sample_gateway, gw_esp = sample_socket sample_esp_port,
     gw_node = \<lparr>nd_server = server_bind (seed_entropy_new 2) (sample_config [98]), nd_child = None, nd_cache = None\<rparr>\<rparr>"

lemma lan_gives_ports: "gives_ports sample_lan"
  unfolding gives_ports_def
proof (intro allI impI)
  fix net :: udp_net assume n: "length (un_bound net) \<le> 100"
  have "inj_on (of_nat :: nat \<Rightarrow> u16) {40000..<40200}"
    by (rule inj_onI) (simp add: of_nat_eq_iff word_unat_eq_iff unat_of_nat)
  then have "inj_on (local_socket \<circ> of_nat) {40000..<40200}"
    by (auto simp: inj_on_def local_socket_def)
  then have "card ((local_socket \<circ> of_nat) ` {40000..<40200}) = card {40000..<40200::nat}" by (rule card_image)
  moreover have "local_socket ` set lan_ports = (local_socket \<circ> of_nat) ` {40000..<40200}"
    by (simp only: lan_ports_def set_map set_upt image_comp)
  ultimately have c: "card (local_socket ` set lan_ports) = 200" by (simp only: card_atLeastLessThan)
  have "\<not> local_socket ` set lan_ports \<subseteq> set (un_bound net)"
  proof
    assume "local_socket ` set lan_ports \<subseteq> set (un_bound net)"
    from card_mono[OF List.finite_set this] have "200 \<le> card (set (un_bound net))" unfolding c .
    then show False using card_length[of "un_bound net"] n by simp
  qed
  then have "find (\<lambda>p. local_socket p \<notin> set (un_bound net)) lan_ports \<noteq> None" by (auto simp: find_None_iff)
  then obtain p where "find (\<lambda>p. local_socket p \<notin> set (un_bound net)) lan_ports = Some p" by blast
  moreover from this have "local_socket p \<notin> set (un_bound net)" by (auto simp: find_Some_iff)
  ultimately show "\<exists>p. il_port sample_lan net (V4 (Ipv4 0 0 0 0)) = Some p \<and> local_socket p \<notin> set (un_bound net)"
    by (auto simp: sample_lan_def local_socket_def)
qed

lemma sample_serves:
  "serves sample_lan sample_gateway (sample_socket sample_gateway) sample_lan_net"
  "serves sample_lan sample_esp_port (sample_socket sample_esp_port) sample_lan_net"
  by (simp_all add: serves_def carries_def sends_udp_def sample_lan_def sample_lan_net_def sample_socket_def)

lemma sample_box_ready: "gateway_ready sample_lan sample_gateway sample_esp_port sample_lan_net sample_box"
  using lan_gives_ports sample_serves
  by (simp add: gateway_ready_def sample_box_def server_bind_def sample_socket_def)
    (simp add: sample_lan_net_def sample_gateway_def sample_esp_port_def)

lemma sample_psk_matching:
  "matching_configs C P (auth_config_psk (identification_fqdn [97]) [1, 2, 3]) (sample_config [98])"
  using psk_config_ready(3)[OF sample_config_psk[of "[97]"] sample_config_psk[of "[98]"]] by (simp add: sample_config_def)

text \<open>
  C20. The examples do what they are for: against a gateway that answers with the library's functions and
  holds the same pre-shared key, on a network that reaches both of its sockets, the three probes end
  with status zero. So does \<open>ike_client\<close> when the host behind the gateway answers echo requests and the inner
  source address is given on its command line: the gateway's handshake is that of the server driver,
  which assigns none.
\<close>
theorem gateway_passes_clients:
  assumes "x25519_correct C" "modpow_correct C" "gcm_correct C" "entropy fc" "entropy fs"
    and "matching_configs C P (auth_config_psk (identification_fqdn cid) psk) (sv_auth (nd_server (gw_node g)))"
    and "gateway_ready IP ike_addr esp_addr net g" "echoes answer"
  shows "fst (dpd_probe fc C P IP (gateway_turn fs C P IP answer) (Some e) ike_addr psk cid (net, g)) = Exits 0 \<and>
    fst (rekey_probe fc C P IP (gateway_turn fs C P IP answer) (Some e) ike_addr psk cid (net, g)) = Exits 0 \<and>
    fst (retransmit_probe fc C P IP (gateway_turn fs C P IP answer) (Some e) ike_addr psk cid (net, g)) = Exits 0 \<and>
    fst (ike_client fc C P IP (gateway_turn fs C P IP answer) (Some e) ike_addr esp_addr psk cid (Some src) dst (net, g)) = Exits 0"
  using dpd_probe_passes[OF assms(1-7)] rekey_probe_passes[OF assms(1-7)] retransmit_probe_passes[OF assms(1-7)]
    ike_client_passes[OF assms] by blast

theorem gateway_passes_clients_witness:
  "fst (rekey_probe seed_entropy_fill toy_primitives toy_pki sample_lan (gateway_turn seed_entropy_fill toy_primitives toy_pki sample_lan sample_answer)
      (Some (seed_entropy_new 1)) sample_gateway [1, 2, 3] [97] (sample_lan_net, sample_box)) = Exits 0 \<and>
   fst (ike_client seed_entropy_fill toy_primitives toy_pki sample_lan (gateway_turn seed_entropy_fill toy_primitives toy_pki sample_lan sample_answer)
      (Some (seed_entropy_new 1)) sample_gateway sample_esp_port [1, 2, 3] [97] (Some (Ipv4 10 0 0 2)) (Ipv4 1 1 1 1) (sample_lan_net, sample_box)) = Exits 0"
proof -
  have "matching_configs toy_primitives toy_pki (auth_config_psk (identification_fqdn [97]) [1, 2, 3]) (sv_auth (nd_server (gw_node sample_box)))"
    using sample_psk_matching by (simp add: sample_box_def server_bind_def)
  from gateway_passes_clients[OF toy_x25519_correct toy_modpow_correct toy_gcm_correct seed.entropy_axioms seed.entropy_axioms
      this sample_box_ready sample_echoes] show ?thesis by blast
qed

text \<open>
  C21. The server driver of this repository does not pass its own examples. A client with the same pre-shared key
  finishes the handshake with it, whatever SPI it asks for, and gets no inner address. But the
  driver ignores INFORMATIONAL and \<open>CREATE_CHILD_SA\<close> requests, so the liveness, rekey and retransmission probes end
  with status one; and for want of an address \<open>rekey_e2e\<close> panics, and so does \<open>ike_client\<close> when no
  inner source address is given on its command line.
\<close>
theorem server_fails_clients:
  assumes "x25519_correct C" "modpow_correct C" "gcm_correct C" "entropy fc" "entropy fs"
    and "matching_configs C P (auth_config_psk (identification_fqdn cid) psk) (sv_auth (us_server us))"
    and "server_ready IP ike_addr net us"
  shows "(\<forall>spi. \<exists>sa ident csa v. establish fc C P IP (serve_turn fs C P IP) (Some e) ike_addr
      (auth_config_psk (identification_fqdn cid) psk) spi (net, us) = (Returns (sa, ident, csa, None), v)) \<and>
    fst (dpd_probe fc C P IP (serve_turn fs C P IP) (Some e) ike_addr psk cid (net, us)) = Exits 1 \<and>
    fst (rekey_probe fc C P IP (serve_turn fs C P IP) (Some e) ike_addr psk cid (net, us)) = Exits 1 \<and>
    fst (retransmit_probe fc C P IP (serve_turn fs C P IP) (Some e) ike_addr psk cid (net, us)) = Exits 1 \<and>
    fst (rekey_e2e fc C P IP (serve_turn fs C P IP) (Some e) ike_addr esp_addr psk cid (net, us)) = Aborts \<and>
    fst (ike_client fc C P IP (serve_turn fs C P IP) (Some e) ike_addr esp_addr psk cid None dst (net, us)) = Aborts"
proof -
  have "\<exists>sa ident csa v. establish fc C P IP (serve_turn fs C P IP) (Some e) ike_addr
      (auth_config_psk (identification_fqdn cid) psk) spi (net, us) = (Returns (sa, ident, csa, None), v)" for spi
    by (rule server_establish[OF assms, of e spi]) blast
  then show ?thesis using probes_fail[OF assms] clients_without_address[OF assms] by blast
qed

theorem server_fails_clients_witness:
  "fst (dpd_probe seed_entropy_fill toy_primitives toy_pki sample_lan (serve_turn seed_entropy_fill toy_primitives toy_pki sample_lan)
      (Some (seed_entropy_new 1)) sample_gateway [1, 2, 3] [97] (sample_lan_net,
      \<lparr>us_transport = sample_socket sample_gateway, us_server = server_bind (seed_entropy_new 2) (sample_config [98])\<rparr>)) = Exits 1"
proof -
  let ?us = "\<lparr>us_transport = sample_socket sample_gateway, us_server = server_bind (seed_entropy_new 2) (sample_config [98])\<rparr>"
  have "matching_configs toy_primitives toy_pki (auth_config_psk (identification_fqdn [97]) [1, 2, 3]) (sv_auth (us_server ?us))"
    using sample_psk_matching by (simp add: server_bind_def)
  moreover have "server_ready sample_lan sample_gateway sample_lan_net ?us"
    using lan_gives_ports sample_serves(1) by (simp add: server_ready_def) (simp add: sample_lan_net_def)
  ultimately show ?thesis
    using server_fails_clients[OF toy_x25519_correct toy_modpow_correct toy_gcm_correct seed.entropy_axioms seed.entropy_axioms] by blast
qed

text \<open>
  C18. What a successful example has shown, whatever the network and the rest of the world did. The run from
  the world at the start to the world at the end has a trace of datagrams sent and received. It begins with
  a handshake of this run: a request made from the program's randomness, the answer that
  completes the IKE SA, the authentication request and the answer that authenticates the peer under the program's
  configuration. The last datagram that the liveness probe received then opens under the key of
  that peer; the one of the rekey probe completes the rekey; the two of the retransmission probe are the same,
  each after the same request; the last one that \<open>ike_client\<close> and \<open>ike_client_natt\<close> received is
  an echo reply under the CHILD SA of that peer, for \<open>rekey_e2e\<close> under the new one that an answer received in
  between gave. The EAP client has received, after the answer that completed the IKE SA, a message over
  it with a certificate chain to its CA that names the server and a signature over this exchange.
\<close>
theorem example_success_sound:
  "(dpd_probe fill C P IP env ent ike_addr psk cid w = (Exits 0, w1) \<longrightarrow>
     (\<exists>es sa csa ip sock probe buf p. io_trace IP env w (es @ [Sent sock probe ike_addr, Got sock buf]) w1 \<and>
       authenticated fill C P ent ike_addr (auth_config_psk (identification_fqdn cid) psk) 0xCAFED00D es sa csa ip \<and>
       dpd_request C sa 2 (replicate 8 0x11) = Ok probe \<and> open_informational C sa buf = Ok p)) \<and>
   (rekey_probe fill C P IP env ent ike_addr psk cid w = (Exits 0, w1) \<longrightarrow>
     (\<exists>es sa csa ip sock req buf c. io_trace IP env w (es @ [Sent sock req ike_addr, Got sock buf]) w1 \<and>
       authenticated fill C P ent ike_addr (auth_config_psk (identification_fqdn cid) psk) 0xCAFE1234 es sa csa ip \<and>
       build_rekey_request C sa 2 0xDEADBEEF 0x12345678 (replicate 32 0x37) (replicate 8 5) = Ok req \<and>
       initiator_complete_rekey C sa (replicate 32 0x37) 0x12345678 buf = Ok c)) \<and>
   (retransmit_probe fill C P IP env ent ike_addr psk cid w = (Exits 0, w1) \<longrightarrow>
     (\<exists>es sa csa ip sock probe buf.
       io_trace IP env w (es @ [Sent sock probe ike_addr, Got sock buf, Sent sock probe ike_addr, Got sock buf]) w1 \<and>
       authenticated fill C P ent ike_addr (auth_config_psk (identification_fqdn cid) psk) 0xCAFEF00D es sa csa ip \<and>
       dpd_request C sa 2 (replicate 8 0x5a) = Ok probe)) \<and>
   (ike_client fill C P IP env ent ike_addr esp_addr psk cid override dst w = (Exits 0, w1) \<longrightarrow>
     (\<exists>es sa csa ip fs sock d pkt. io_trace IP env w (es @ fs @ [Sent sock d esp_addr, Got sock pkt]) w1 \<and>
       authenticated fill C P ent ike_addr (auth_config_psk (identification_fqdn cid) psk) 0xCAFEBABE es sa csa ip \<and>
       (ip \<noteq> None \<or> override \<noteq> None) \<and> replied C csa pkt)) \<and>
   (rekey_e2e fill C P IP env ent ike_addr esp_addr psk cid w = (Exits 0, w1) \<longrightarrow>
     (\<exists>es sa csa ip fs ike req buf new gs esp d pkt.
       io_trace IP env w (es @ fs @ [Sent ike req ike_addr, Got ike buf] @ gs @ [Sent esp d esp_addr, Got esp pkt]) w1 \<and>
       authenticated fill C P ent ike_addr (auth_config_psk (identification_fqdn cid) psk) 0xCAFE2468 es sa csa (Some ip) \<and>
       build_rekey_request C sa 2 0xDEADBEEF 0x0BADF00D (replicate 32 0x71) (replicate 8 3) = Ok req \<and>
       initiator_complete_rekey C sa (replicate 32 0x71) 0x0BADF00D buf = Ok new \<and> replied C new pkt)) \<and>
   (ike_client_natt now fill C P IP env ent ike_addr esp_addr psk cid dst w = (Exits 0, w1) \<longrightarrow>
     (\<exists>sock req m1 auth_req b m2 sa csa ip fs pkt.
       io_trace IP env w ([Sent sock req ike_addr, Got sock m1, Sent sock (wrap_ike_4500 auth_req) esp_addr, Got sock b] @
         fs @ [Got sock pkt]) w1 \<and> unwrap_ike_4500 b = Ok (Some m2) \<and>
       verified fill C P ent (auth_config_psk (identification_fqdn cid) psk) 0xBEEF0042 req m1 auth_req m2 sa csa (Some ip) \<and>
       replied C csa pkt)) \<and>
   (ike_client_eap fill C P IP env ent ike_addr user pw server_id ca_file clock certreq w = (Exits 0, w1) \<longrightarrow>
     (\<exists>e loc e1 sock req m1 es sa ca time m mid ps idr ab auth leaf inters.
       io_trace IP env w ([Sent sock req ike_addr, Got sock m1] @ es) w1 \<and> ent = Some e \<and> local_secret_generate fill e 32 = (loc, e1) \<and>
       initiator_request C loc default_offer = Ok req \<and> initiator_complete C loc req m1 = Ok sa \<and>
       ca_file = Some ca \<and> clock = Some time \<and> Got sock m \<in> set es \<and> eap_decrypt C sa m = Ok (mid, ps) \<and>
       find_payload ps PT_IdResponder = Some idr \<and> find_payload ps PT_Authentication = Some ab \<and>
       authentication_parse ab = Ok auth \<and> cert_payloads_of ps = leaf # inters \<and> au_method auth = DIGITAL_SIGNATURE \<and>
       verify_cert_auth C P leaf inters [ca] (Some server_id) time (au_data auth)
         (responder_signed_octets C (ci_resp_message sa) (ci_ni sa) (sk_pr (ci_keys sa)) idr) = Ok ()))"
  by (intro conjI impI; erule dpd_probe_success rekey_probe_success retransmit_probe_success ike_client_success rekey_e2e_success
      ike_client_natt_success ike_client_eap_success)

theorem example_success_sound_witness:
  "\<exists>w1 es sa csa ip fs sock d pkt.
     ike_client seed_entropy_fill toy_primitives toy_pki sample_lan
       (gateway_turn seed_entropy_fill toy_primitives toy_pki sample_lan sample_answer) (Some (seed_entropy_new 1)) sample_gateway sample_esp_port
       [1, 2, 3] [97] (Some (Ipv4 10 0 0 2)) (Ipv4 1 1 1 1) (sample_lan_net, sample_box) = (Exits 0, w1) \<and>
     io_trace sample_lan (gateway_turn seed_entropy_fill toy_primitives toy_pki sample_lan sample_answer) (sample_lan_net, sample_box)
       (es @ fs @ [Sent sock d sample_esp_port, Got sock pkt]) w1 \<and>
     authenticated seed_entropy_fill toy_primitives toy_pki (Some (seed_entropy_new 1)) sample_gateway
       (auth_config_psk (identification_fqdn [97]) [1, 2, 3]) 0xCAFEBABE es sa csa ip \<and> replied toy_primitives csa pkt"
proof -
  have "matching_configs toy_primitives toy_pki (auth_config_psk (identification_fqdn [97]) [1, 2, 3]) (sv_auth (nd_server (gw_node sample_box)))"
    using sample_psk_matching by (simp add: sample_box_def server_bind_def)
  from ike_client_passes[OF toy_x25519_correct toy_modpow_correct toy_gcm_correct seed.entropy_axioms seed.entropy_axioms
      this sample_box_ready sample_echoes, of "seed_entropy_new 1" "Ipv4 10 0 0 2" "Ipv4 1 1 1 1"]
  obtain w1 where w1: "ike_client seed_entropy_fill toy_primitives toy_pki sample_lan
      (gateway_turn seed_entropy_fill toy_primitives toy_pki sample_lan sample_answer) (Some (seed_entropy_new 1)) sample_gateway sample_esp_port
      [1, 2, 3] [97] (Some (Ipv4 10 0 0 2)) (Ipv4 1 1 1 1) (sample_lan_net, sample_box) = (Exits 0, w1)"
    by (metis prod.collapse)
  from example_success_sound[THEN conjunct2, THEN conjunct2, THEN conjunct2, THEN conjunct1, THEN mp, OF this] w1
  show ?thesis by blast
qed

end
