(* ===== verification/Spec2Isabelle.thy ===== *)
theory Spec2Isabelle
  imports Fragment Gateway
begin

text \<open>
  Verification of \<^bold>\<open>ryke\<close>, an implementation of IKEv2 (RFC 7296), IKEv1 (RFC 2409, Aggressive Mode and
  Quick Mode) and the ESP data plane in Rust. The sources are under \<open>src/src/\<close>.

  \<^bold>\<open>The program.\<close> Messages are framed by \<open>ikev2/message.rs\<close> and carry the payload bodies of
  \<open>ikev2/payload.rs\<close>. An IKE SA starts with \<open>IKE_SA_INIT\<close> (\<open>ikev2/exchange.rs\<close>), which selects a suite
  (\<open>ikev2/negotiate.rs\<close>), runs Diffie-Hellman and derives the session keys (\<open>crypto.rs\<close>). Everything after is
  inside an SK payload (\<open>ikev2/sk.rs\<close>, in pieces by \<open>ikev2/fragment.rs\<close>): \<open>IKE_AUTH\<close> with a pre-shared key or
  certificates (\<open>ikev2/ike_auth.rs\<close>, \<open>auth.rs\<close>, \<open>sign.rs\<close>) or with EAP-MSCHAPv2 (\<open>ikev2/eap_auth.rs\<close>,
  \<open>eap.rs\<close>, \<open>mschapv2.rs\<close>), rekeying (\<open>ikev2/rekey.rs\<close>, \<open>ike_rekey.rs\<close>), INFORMATIONAL and MOBIKE messages,
  and NAT traversal (\<open>natt.rs\<close>). Authentication yields a CHILD SA, whose ESP packets \<open>esp.rs\<close> and
  \<open>tunnel.rs\<close> seal and open. \<open>ikev2/client.rs\<close> and \<open>ikev2/server.rs\<close> drive the exchanges over UDP. The modules
  under \<open>ikev1/\<close> are a second protocol with its own framing, payloads, key schedule, exchanges and drivers
  over the same Diffie-Hellman groups and the same ESP.

  \<^bold>\<open>Theories and sources.\<close> Definitions keep the names of the sources; a record field has a prefix of its
  type.
  \<^item> \<open>Prelude\<close>: machine types as words, outcomes (\<open>Ok\<close>, \<open>Err\<close>, \<open>Panic\<close>), checked slices, big-endian integers
    (\<open>error.rs\<close>, \<open>role.rs\<close>), and the interfaces \<open>body_codec\<close>, \<open>item_codec\<close>, \<open>item_loop\<close>, \<open>count_loop\<close> and \<open>machine\<close>.
  \<^item> \<open>Primitives\<close>: the crates as the record \<open>primitives\<close> with their laws, and \<open>entropy.rs\<close> (the interface
    \<open>entropy\<close>).
  \<^item> \<open>Message\<close>, \<open>Payload\<close>: \<open>ikev2/message.rs\<close>, \<open>ikev2/payload.rs\<close>. Every body is an instance of \<open>body_codec\<close>.
  \<^item> \<open>Crypto\<close>, \<open>Negotiate\<close>, \<open>Natt\<close>, \<open>Sa_Init\<close>, \<open>Sk\<close>, \<open>Fragment\<close>, \<open>Sign\<close>, \<open>Informational\<close> (with \<open>mobike.rs\<close>),
    \<open>Ike_Auth\<close> (with \<open>auth.rs\<close>): \<open>crypto.rs\<close> and the files of these names.
  \<^item> \<open>Mschapv2\<close>, \<open>Eap\<close>, \<open>Eap_Auth\<close>: the EAP files; \<open>Eap_Auth\<close> has both state machines with their whole
    \<open>handle\<close> functions.
  \<^item> \<open>Rekey\<close>: \<open>ikev2/rekey.rs\<close> and \<open>ikev2/ike_rekey.rs\<close>. \<open>Esp\<close>: \<open>esp.rs\<close> and \<open>tunnel.rs\<close>, without its socket.
    \<open>Session\<close>: the life of a pair of ends that send packets and rekey, as the step relation \<open>link_step\<close>.
  \<^item> \<open>Transport\<close>: \<open>transport.rs\<close> over an explicit state of the network.
  \<^item> \<open>Drivers\<close>: \<open>ikev2/server.rs\<close> and \<open>ikev2/client.rs\<close> over an abstract network (the interface \<open>answering_net\<close>).
  \<^item> \<open>Isakmp\<close>, \<open>Payloads1\<close> (with \<open>modecfg.rs\<close>), \<open>Crypto1\<close> (with \<open>phase2.rs\<close>), \<open>Phase1\<close>, \<open>Quick\<close>, \<open>Drivers1\<close>: the
    files under \<open>ikev1/\<close>, the drivers over an abstract network (the interface \<open>relaying_net\<close>).
  \<^item> \<open>Udp\<close>: the drivers of both protocols and \<open>tunnel.rs\<close> with their sockets (the interface \<open>datagram_handler\<close>
    of the two servers, and the UDP network as an instance of \<open>answering_net\<close> and \<open>relaying_net\<close>).
  \<^item> \<open>Echo\<close>: the echo packets, the ping and the NAT detection check of the clients under \<open>src/examples/\<close>.
    \<open>Clients\<close>: the seven programs themselves, each \<open>main\<close> as a function of the world to how it ends.
    \<open>Gateway\<close>: the programs run against the server driver, and against a gateway made of the library's functions.

  \<^bold>\<open>How the code is modelled.\<close> A function that returns \<open>Result\<close> returns \<open>res\<close>, with \<open>Panic\<close> for an index or
  slice out of range, so that the absence of panics is a theorem. A method on \<open>&mut self\<close> returns the new
  record, also on its error paths; a function that draws randomness returns the new state of its source.
  Loops are recursive functions with termination proofs. The drivers are modelled in two layers: a handler
  takes the outcome of \<open>recv_from\<close> and which answers can be sent, and gives the answer to send; \<open>Udp\<close>
  wraps it with the socket calls over the network state \<open>udp_net\<close> (sockets in use, datagrams on
  their way, receive queues). While a client waits, the rest of the world moves on by a function that is an
  argument of the client's calls; the theorems instantiate it with a server that takes its turns. A program of
  the examples may also panic, exit with a status or wait for ever, which are values of \<open>outcome\<close>.

  \<^bold>\<open>Parameters and hypotheses.\<close> Code that is not in the repository is an argument: the record \<open>primitives\<close>
  (HMAC, hashes, X25519, modular exponentiation, AES-GCM, AES-CBC, DES), the record \<open>pki\<close> of \<open>Sign\<close> (DER
  decoding of certificates and the signature algorithms), the method \<open>fill\<close> of a source of randomness, and the
  record \<open>ip_layer\<close> of \<open>Transport\<close> (ports, routing, address translation, which datagrams are accepted).
  What a theorem needs of them is a named hypothesis: \<open>gcm_correct\<close>, \<open>x25519_correct\<close>, \<open>modpow_correct\<close> and
  \<open>cbc_correct\<close> say that the primitives are inverse to each other, respectively commute, \<open>entropy\<close> that
  \<open>fill\<close> returns as many bytes as asked, \<open>connected\<close> that the network carries datagrams between two sockets,
  which has instances with and without a NAT. Nothing is assumed of their strength: theorems of safety say which
  check the code has made, not that it cannot be forged. \<open>toy_primitives\<close> and \<open>toy_pki\<close> satisfy the
  hypotheses and serve the witnesses.

  \<^bold>\<open>What is shown.\<close>
  \<^item> Agreement and progress of each exchange: \<open>Sa_Init\<close>, \<open>Ike_Auth\<close>, \<open>Eap_Auth\<close>, \<open>Rekey\<close>, \<open>Phase1\<close>, \<open>Quick\<close>, and,
    below, of the two handshakes over the network down to the delivery of packets through the tunnel. Both
    sides of an IKEv2 handshake may use a pre-shared key, a certificate chain or a pinned certificate (\<open>matching_configs\<close>).
  \<^item> The examples: each of them ends; what a successful exit has shown whatever the peer is, stated on the trace of
    datagrams of the run (\<open>io_trace\<close>); that the probes and \<open>ike_client\<close>, given an inner address, succeed against the
    gateway, and that the server driver alone does not pass them.
  \<^item> The life of a session: after any interleaving of packets and rekeyings both ends still work (\<open>Session\<close>).
  \<^item> Safety: what an accepted \<open>IKE_AUTH\<close>, certificate path, cookie, SK message, fragment set or EAP message
    implies; that no two packets of an ESP SA are encrypted under the same AEAD nonce; that hostile bytes make no parser and no
    handler panic; that a server answers only the sender of a datagram, and that a datagram touches only the
    session it names.
  \<^item> Equivalence and refinement: \<open>prf_plus\<close>, the IKEv1 expansions, and \<open>select\<close> against their specifications;
    the IKEv2 server against an abstract responder (\<open>abstract_step\<close>).
  \<^item> Invariants of the servers' tables and of the EAP client (\<open>machine\<close> interpreted on the steps of each).
  \<^item> Round trips of the codecs, including the nested security associations of both protocols.
  \<^item> Behaviour that the code should not have, as theorems: \<open>Eap_Auth.eap_final_accepts_without_eap\<close>,
    \<open>Drivers.ike_auth_replay_resets_child\<close>, \<open>Drivers1.forged_quick_drops_negotiation\<close>, \<open>Drivers1.quick_before_hash_i\<close>,
    \<open>Rekey.ike_rekey_takes_first_spi\<close>, \<open>Message.oversized_payload_rejected\<close> and \<open>cbc_suite_cannot_authenticate\<close> below.

  \<^bold>\<open>Bounds.\<close> Lengths (\<open>usize\<close>) are natural numbers, casts to \<open>u8\<close> and \<open>u16\<close> wrap. Theorems that read back a
  message assume that its bodies fit their length fields, and state the bound. \<open>eap_run\<close> bounds a
  conversation by a number of round trips; the theorem on it shows that five are enough. The EAP client of the
  examples has a bound of its own, twelve steps; the deadline loop of the NAT-T client has none and is a
  \<open>while_option\<close>, which is shown to end when every receive call takes time.

  \<^bold>\<open>Not modelled.\<close> How the examples read their command lines and what they print, the debug trace of \<open>rekey.rs\<close>, \<open>test_certs.rs\<close>, the
  tests, and the module lists \<open>lib.rs\<close> and \<open>mod.rs\<close>. Constants of the sources that no code uses have no
  definition.
\<close>

section \<open>Tunnels between connected sockets\<close>

lemma mirrored_udp:
  assumes "gcm_correct C" "connected IP a to b net" "from_addr = il_source IP (ut_addr a) to"
    and "ch_outbound c = ch_inbound d" "ch_inbound c = ch_outbound d" "esp_wf (ch_outbound c)" "esp_wf (ch_inbound c)"
    and "es_seq (ch_outbound c) = 0" "es_seq (ch_outbound d) = 0"
  shows "udp_delivers IP C net (udp_tunnel_new c a to) (udp_tunnel_new d b from_addr)"
    "udp_delivers IP C net (udp_tunnel_new d b from_addr) (udp_tunnel_new c a to)"
  unfolding udp_delivers_def using assms
  by (auto intro!: udp_tunnel_delivers[OF assms(1)] simp: udp_tunnel_new_def connected_def same_sa_def)

section \<open>Suites that cannot be used\<close>

lemma short_key_fails:
  assumes "length k \<noteq> 36"
  shows "open_encrypted_gcm C m k = Err (Crypto ''SK_e must be 36 bytes (32-byte AES-256 key + 4-byte GCM salt)'')"
    "build_encrypted_gcm C h t inner k iv = Err (Crypto ''SK_e must be 36 bytes (32-byte AES-256 key + 4-byte GCM salt)'')"
  using assms by (simp_all add: open_encrypted_gcm_def build_encrypted_gcm_def split_key_def)

lemma cbc_keys:
  assumes "responder_respond_inner C req loc natt cookie = Ok (Established resp sa)" "cs_encr_id (ci_suite sa) = AES_CBC"
  shows "length (sk_ei (ci_keys sa)) = 32 \<and> length (sk_er (ci_keys sa)) = 32"
proof -
  obtain h body ps where h: "ike_header_parse req = Ok h" "slice_from req HEADER_LEN = Ok body" "parse_sa_init h body = Ok ps"
    using assms(1) by (auto simp: responder_respond_inner_def bindR_Ok_iff)
  obtain suite s k where k: "select (si_sa ps) = Some suite" "ci_suite sa = suite" "ci_keys sa = k"
    "derive_session_keys C s (no_data (si_nonce ps)) (ls_nonce loc) (h_initiator_spi h) (ls_spi loc) (suite_key_lengths suite) = Ok k"
    by (rule responder_establishedE[OF assms(1) h]) simp
  have "keys_sized (suite_key_lengths suite) k"
    using derive_session_keys_ok(1)[of C s "no_data (si_nonce ps)" "ls_nonce loc" "h_initiator_spi h" "ls_spi loc" "suite_key_lengths suite"]
      k(4) by auto
  then show ?thesis
    using select_supported[OF k(1)] assms(2) k(2,3) by (auto simp: keys_sized_def suite_supported_def suite_key_lengths_def)
qed

definition cbc_offer :: security_association where
  "cbc_offer = \<lparr>sa_proposals = [\<lparr>pr_num = 1, pr_protocol_id = PROTO_IKE, pr_spi = [],
     pr_transforms = [\<lparr>tr_type = TT_ENCR, tr_id = AES_CBC, tr_key_length = Some 256\<rparr>,
       \<lparr>tr_type = TT_PRF, tr_id = PRF_HMAC_SHA2_256, tr_key_length = None\<rparr>,
       \<lparr>tr_type = TT_INTEG, tr_id = AUTH_HMAC_SHA2_256_128, tr_key_length = None\<rparr>,
       \<lparr>tr_type = TT_DH, tr_id = ID_X25519, tr_key_length = None\<rparr>]\<rparr>]\<rparr>"

lemma cbc_offer_facts:
  "offer_wf cbc_offer" "offer_dh_group cbc_offer = X25519"
  "select cbc_offer = Some \<lparr>cs_proposal_num = 1, cs_encr_id = AES_CBC, cs_encr_key_bits = 256, cs_prf_id = PRF_HMAC_SHA2_256,
     cs_integ_id = Some AUTH_HMAC_SHA2_256_128, cs_dh_id = ID_X25519\<rparr>"
  by (simp_all add: cbc_offer_def offer_wf_def sa_wf_def proposal_wf_def security_association_to_bytes_def
      proposal_write_def transform_write_def transform_attrs_def Let_def offer_dh_group_def
      dh_group_from_transform_id_def select_def select_from_proposal_def has_def)

section \<open>Properties\<close>

text \<open>
  C1. IKEv2 end to end over UDP: a client and a server whose credentials match, the same pre-shared
  key or certificates that the other side validates, on sockets that the network connects, directly
  or through a NAT, both finish the handshake. The client learns the
  server's identity, the server holds the client's IKE SA with the role exchanged and nothing is
  left on the network. Tunnels on the two sockets deliver packets in both directions, and in
  every later state of the session, after any packets and rekeyings, it goes on working.
\<close>
theorem ikev2_end_to_end:
  assumes "x25519_correct C" "modpow_correct C" "gcm_correct C" "entropy fc" "entropy fs"
    and "matching_configs C P cfg (sv_auth (us_server us))"
    and "connected IP (uc_transport cl) to (us_transport us) net"
  shows "\<exists>sa c c' cl' us'. udp_client_connect fc C P IP (serve_turn fs C P IP) cl to cfg child_spi (net, us) =
      (Done (sa, ac_id (sv_auth (us_server us)), c, None), cl', (net, us')) \<and>
    session (us_server us') (ci_spi_i sa) (ci_spi_r sa) = Some (sa\<lparr>ci_role := Responder\<rparr>) \<and>
    child (us_server us') (ci_spi_i sa) (ci_spi_r sa) = Some c' \<and>
    udp_delivers IP C net (udp_tunnel_new c (uc_transport cl) to)
      (udp_tunnel_new c' (us_transport us) (il_source IP (ut_addr (uc_transport cl)) to)) \<and>
    udp_delivers IP C net (udp_tunnel_new c' (us_transport us) (il_source IP (ut_addr (uc_transport cl)) to))
      (udp_tunnel_new c (uc_transport cl) to) \<and>
    (\<forall>l. (link_step C)\<^sup>*\<^sup>* (link_start sa c (sa\<lparr>ci_role := Responder\<rparr>) c') l \<longrightarrow> link_works C l)"
proof -
  obtain sa c c' e' w where r: "client_connect fc C P (udp_exchange IP (serve_turn fs C P IP) (uc_transport cl) to) cfg child_spi
      (uc_entropy cl) (net, us) = (Done (sa, ac_id (sv_auth (us_server us)), c, None), e', w)"
    and w: "connected IP (uc_transport cl) to (us_transport (snd w)) (fst w) \<and> us_transport (snd w) = us_transport us \<and> fst w = net"
    and t: "session (us_server (snd w)) (ci_spi_i sa) (ci_spi_r sa) = Some (sa\<lparr>ci_role := Responder\<rparr>)"
      "child (us_server (snd w)) (ci_spi_i sa) (ci_spi_r sa) = Some c'"
    and sa: "ci_role sa = Initiator" "gcm_keys sa"
    and m: "ch_outbound c = ch_inbound c'" "ch_inbound c = ch_outbound c'" "esp_wf (ch_outbound c)" "esp_wf (ch_inbound c)"
    and z: "es_seq (ch_outbound c) = 0" "es_seq (ch_outbound c') = 0"
    and "sv_children (us_server (snd w)) = (sv_children (us_server us))((ci_spi_i sa, ci_spi_r sa) \<mapsto> c')"
    by (rule udp.connect_over_net[OF assms(1-5), where n = "(net, us)" and cfg = cfg and st = "us_transport us" and start = net
        and P = P and child_spi = child_spi and e = "uc_entropy cl"])
      (use assms(6,7) in auto)
  have "sa_pair sa (sa\<lparr>ci_role := Responder\<rparr>)" using sa(1) by (simp add: sa_pair_def)
  from link_start_ok[OF this sa(2) m] have
    "\<forall>l. (link_step C)\<^sup>*\<^sup>* (link_start sa c (sa\<lparr>ci_role := Responder\<rparr>) c') l \<longrightarrow> link_works C l"
    using link_reachable_ok link_ok_works assms(3) by blast
  moreover note mirrored_udp[OF assms(3,7) refl m z]
  ultimately show ?thesis
    using r w t by (cases w) (auto simp: udp_client_connect_def)
qed

theorem ikev2_end_to_end_witness:
  "\<exists>sa c c' cl' us'. udp_client_connect seed_entropy_fill toy_primitives toy_pki sample_ip
      (serve_turn seed_entropy_fill toy_primitives toy_pki sample_ip)
      \<lparr>uc_transport = sample_socket sample_home, uc_entropy = seed_entropy_new 1\<rparr> sample_gateway sample_cert_config 5
      (sample_net, \<lparr>us_transport = sample_socket sample_gateway, us_server = server_bind (seed_entropy_new 2) sample_pinned_config\<rparr>) =
      (Done (sa, ac_id sample_pinned_config, c, None), cl', (sample_net, us')) \<and>
    session (us_server us') (ci_spi_i sa) (ci_spi_r sa) = Some (sa\<lparr>ci_role := Responder\<rparr>) \<and>
    child (us_server us') (ci_spi_i sa) (ci_spi_r sa) = Some c'"
  using ikev2_end_to_end[OF toy_x25519_correct toy_modpow_correct toy_gcm_correct seed.entropy_axioms seed.entropy_axioms,
      where us = "\<lparr>us_transport = sample_socket sample_gateway,
        us_server = server_bind (seed_entropy_new 2) sample_pinned_config\<rparr>" and cfg = sample_cert_config
      and cl = "\<lparr>uc_transport = sample_socket sample_home, uc_entropy = seed_entropy_new 1\<rparr>"
      and IP = sample_ip and to = sample_gateway and net = sample_net and P = toy_pki and child_spi = 5]
    sample_connected sample_cert_matching
  by (auto simp: server_bind_def)

text \<open>
  C8. IKEv1 end to end over UDP: a client and a server with the same pre-shared key, on sockets that the
  network connects, both finish Aggressive Mode and Quick Mode, provided neither draws a degenerate
  public value. When the server has taken in the client's last message, nothing is left on the
  network, the server holds the CHILD SA under the client's cookie, and tunnels on the two sockets deliver packets in both
  directions.
\<close>
theorem ikev1_end_to_end:
  assumes "modpow_correct C" "cbc_correct C" "gcm_correct C" "entropy fc" "entropy fs" "nc_group cfg \<noteq> X25519"
    and "pc_psk (s1_cfg (u1_server us)) = nc_psk cfg"
    and "length (i1_data (nc_our_id cfg)) < 65000" "length (i1_data (pc_our_id (s1_cfg (u1_server us)))) < 65000"
    and "ts_ok (nc_ts_local cfg)" "ts_ok (nc_ts_remote cfg)"
    and "public_in_range fc C (nc_group cfg) (v1_entropy cl)" "public_in_range fs C (nc_group cfg) (s1_entropy (u1_server us))"
    and "connected IP (v1_transport cl) to (u1_transport us) net"
  shows "\<exists>st c c' cl' w us'. udp_client1_connect fc C IP (serve_turn1 fs C IP) cl to cfg (net, us) =
      (Done \<lparr>eb_phase1 = st, eb_child = c\<rparr>, cl', w) \<and> serve_turn1 fs C IP w = (net, us') \<and>
    child1 (u1_server us') (st_cky_i st) = Some c' \<and>
    udp_delivers IP C net (udp_tunnel_new c (v1_transport cl) to)
      (udp_tunnel_new c' (u1_transport us) (il_source IP (ut_addr (v1_transport cl)) to)) \<and>
    udp_delivers IP C net (udp_tunnel_new c' (u1_transport us) (il_source IP (ut_addr (v1_transport cl)) to))
      (udp_tunnel_new c (v1_transport cl) to)"
proof -
  obtain st c c' e' w where r: "client1_connect fc C (udp_send1 IP (v1_transport cl) to)
      (udp_recv1 (serve_turn1 fs C IP) (v1_transport cl)) (serve_turn1 fs C IP) cfg (v1_entropy cl) (net, us) =
      (Done \<lparr>eb_phase1 = st, eb_child = c\<rparr>, e', w)"
    and w: "fst (serve_turn1 fs C IP w) = net"
    and c: "child1 (u1_server (snd (serve_turn1 fs C IP w))) (st_cky_i st) = Some c'" "mirrored_children c c'"
    by (rule udp1.connect1_over_net[OF assms(1,2,4-6), where n = "(net, us)" and st = "u1_transport us" and start = net
        and e = "v1_entropy cl" and IP = IP and to = to and tp = "v1_transport cl"])
      (use assms(7-14) in auto)
  obtain us' where us': "serve_turn1 fs C IP w = (net, us')" using w by (cases "serve_turn1 fs C IP w") auto
  from c(2) have "udp_delivers IP C net (udp_tunnel_new c (v1_transport cl) to)
      (udp_tunnel_new c' (u1_transport us) (il_source IP (ut_addr (v1_transport cl)) to))"
    "udp_delivers IP C net (udp_tunnel_new c' (u1_transport us) (il_source IP (ut_addr (v1_transport cl)) to))
      (udp_tunnel_new c (v1_transport cl) to)"
    unfolding mirrored_children_def by (blast intro: mirrored_udp[OF assms(3,14) refl])+
  then show ?thesis using r us' c(1) by (auto simp: udp_client1_connect_def)
qed

theorem ikev1_end_to_end_witness:
  "\<exists>st c c' cl' w us'. udp_client1_connect two_fill toy_primitives sample_ip (serve_turn1 two_fill toy_primitives sample_ip)
      \<lparr>v1_transport = sample_socket sample_home, v1_entropy = ()\<rparr> sample_gateway sample_initiator1
      (sample_net, \<lparr>u1_transport = sample_socket sample_gateway, u1_server = server1_bind () sample_responder1\<rparr>) =
      (Done \<lparr>eb_phase1 = st, eb_child = c\<rparr>, cl', w) \<and>
    serve_turn1 two_fill toy_primitives sample_ip w = (sample_net, us') \<and> child1 (u1_server us') (st_cky_i st) = Some c'"
proof -
  let ?cl = "\<lparr>v1_transport = sample_socket sample_home, v1_entropy = ()\<rparr>"
  let ?us = "\<lparr>u1_transport = sample_socket sample_gateway, u1_server = server1_bind () sample_responder1\<rparr>"
  have ts: "ts_ok (nc_ts_local sample_initiator1)" "ts_ok (nc_ts_remote sample_initiator1)"
    by (simp_all add: sample_initiator1_def ts_ok_def)
  have s: "pc_psk (s1_cfg (u1_server ?us)) = nc_psk sample_initiator1"
    "length (i1_data (pc_our_id (s1_cfg (u1_server ?us)))) < 65000"
    using sample_configs(4,5) by (simp_all add: server1_bind_def)
  have r: "public_in_range two_fill toy_primitives (nc_group sample_initiator1) e" for e
    using two_in_range by (simp add: sample_configs(2))
  have c: "connected sample_ip (v1_transport ?cl) sample_gateway (u1_transport ?us) sample_net" using sample_connected by simp
  from ikev1_end_to_end[OF toy_modpow_correct toy_cbc_correct toy_gcm_correct two.entropy_axioms two.entropy_axioms
      sample_configs(1) s(1) sample_configs(3) s(2) ts r r c] show ?thesis by blast
qed

text \<open>
  C38. A suite that is negotiated and cannot be used: when the responder has established an IKE SA with
  AES-CBC, the initiator of that SA cannot build an \<open>IKE_AUTH\<close> request and the responder rejects every
  one, because the SK payload is only implemented for AES-GCM keys.
\<close>
theorem cbc_suite_cannot_authenticate:
  assumes "responder_respond_inner C req loc natt cookie = Ok (Established resp sa)" "cs_encr_id (ci_suite sa) = AES_CBC"
  shows "responder_process_auth C P sa data cfg spi iv assigned =
      Err (Crypto ''SK_e must be 36 bytes (32-byte AES-256 key + 4-byte GCM salt)'') \<and>
    (\<exists>x. initiator_auth_request C P (sa\<lparr>ci_role := Initiator\<rparr>) cfg' spi' iv' = Err x)"
proof -
  have k: "length (sk_ei (ci_keys sa)) \<noteq> 36" using cbc_keys[OF assms] by simp
  show ?thesis
  proof
    show "responder_process_auth C P sa data cfg spi iv assigned =
        Err (Crypto ''SK_e must be 36 bytes (32-byte AES-256 key + 4-byte GCM salt)'')"
      using short_key_fails(1)[OF k] by (simp add: responder_process_auth_def)
    have "initiator_auth_request C P (sa\<lparr>ci_role := Initiator\<rparr>) cfg' spi' iv' \<noteq> Ok m" for m
      using short_key_fails(2)[OF k] by (auto simp: initiator_auth_request_def Let_def bindR_Ok_iff)
    moreover have "initiator_auth_request C P (sa\<lparr>ci_role := Initiator\<rparr>) cfg' spi' iv' \<noteq> Panic"
      using build_encrypted_gcm_not_Panic by (auto simp: initiator_auth_request_def Let_def bindR_Panic_iff)
    ultimately show "\<exists>x. initiator_auth_request C P (sa\<lparr>ci_role := Initiator\<rparr>) cfg' spi' iv' = Err x"
      by (cases "initiator_auth_request C P (sa\<lparr>ci_role := Initiator\<rparr>) cfg' spi' iv'") auto
  qed
qed

theorem cbc_suite_cannot_authenticate_witness:
  "\<exists>req resp sa. initiator_request toy_primitives (sample_local 3 7) cbc_offer = Ok req \<and>
    responder_respond_inner toy_primitives req (sample_local 4 8) None None = Ok (Established resp sa) \<and>
    responder_process_auth toy_primitives toy_pki sa [] (sample_config [98]) 6 (replicate 8 1) None =
      Err (Crypto ''SK_e must be 36 bytes (32-byte AES-256 key + 4-byte GCM salt)'') \<and>
    (\<exists>x. initiator_auth_request toy_primitives toy_pki (sa\<lparr>ci_role := Initiator\<rparr>) (sample_config [97]) 5 (replicate 8 0) = Err x)"
proof -
  obtain req resp sa where r: "initiator_request toy_primitives (sample_local 3 7) cbc_offer = Ok req"
    "responder_respond_inner toy_primitives req (sample_local 4 8) None None = Ok (Established resp sa)"
    "cs_encr_id (ci_suite sa) = AES_CBC"
    using x25519_run[OF toy_x25519_correct toy_modpow_correct sample_local_wf sample_local_wf cbc_offer_facts(1,3) _ cbc_offer_facts(2),
        of 3 7 4 8 None] by auto
  from cbc_suite_cannot_authenticate[OF r(2,3)] r(1,2) show ?thesis by blast
qed

end
